(* ===== verification/Prelude.thy ===== *)
theory Prelude
  imports Main "HOL-Library.Word" "HOL-Library.List_Lexorder" "HOL-Library.Char_ord"
begin

text \<open>
  What every other theory of the development shares: the types that name the model's bytes,
  frames and errors, the outcome of a call that may throw, the \<open>std::string\<close> operations the
  sources use (\<open>find\<close>, \<open>find_last_of\<close>, \<open>substr\<close>, \<open>tolower\<close>), the
  two-digit hexadecimal formatting of bytes, and lemma collections.

  \<^item> \<open>result_simps\<close> unfolds chains of calls that may throw;
  \<^item> \<open>text_simps\<close> holds the laws of the string operations.
\<close>

named_theorems result_simps
named_theorems text_simps

section \<open>Bytes, frames and errors\<close>

text \<open>A \<open>std::string\<close> is a list of 8-bit characters; a ZeroMQ frame is one, a multipart message
  is a list of frames.\<close>

type_synonym frame = string
type_synonym multipart = "frame list"

text \<open>
  The ways a modelled call ends other than by returning. \<open>RuntimeError\<close> is
  \<open>std::runtime_error\<close>; \<open>TypeError n\<close> is nlohmann's \<open>type_error\<close> with its number;
  \<open>JsonOutOfRange\<close> its \<open>out_of_range\<close>; \<open>StdOutOfRange\<close> is \<open>std::out_of_range\<close>;
  \<open>InvalidArgument\<close> is \<open>std::invalid_argument\<close>; \<open>Undefined\<close> is not an exception: the C++
  code has no defined behaviour there (a read past the end of a buffer, an iterator moved before
  its container's first element), and the model says so instead of choosing a value.
\<close>

datatype exn =
    RuntimeError string
  | TypeError nat
  | JsonOutOfRange nat
  | StdOutOfRange string
  | InvalidArgument string
  | Undefined string

type_synonym 'a result = "exn + 'a"

definition rbind :: "'a result \<Rightarrow> ('a \<Rightarrow> 'b result) \<Rightarrow> 'b result" where
  "rbind r f = (case r of Inl e \<Rightarrow> Inl e | Inr a \<Rightarrow> f a)"

lemma rbind_simps [simp, result_simps]:
  "rbind (Inl e) f = Inl e"
  "rbind (Inr a) f = f a"
  by (simp_all add: rbind_def)

lemma rbind_eq_Inr_iff [result_simps]:
  "rbind r f = Inr b \<longleftrightarrow> (\<exists>a. r = Inr a \<and> f a = Inr b)"
  by (cases r) auto

lemma rbind_eq_Inl_iff [result_simps]:
  "rbind r f = Inl e \<longleftrightarrow> r = Inl e \<or> (\<exists>a. r = Inr a \<and> f a = Inl e)"
  by (cases r) auto

lemma rbind_assoc: "rbind (rbind r f) g = rbind r (\<lambda>a. rbind (f a) g)"
  by (cases r) auto

section \<open>Characters\<close>

definition tolower :: "char \<Rightarrow> char" where
  "tolower c = (let n = (of_char c :: nat) in if 65 \<le> n \<and> n \<le> 90 then char_of (n + 32) else c)"

definition isdigit :: "char \<Rightarrow> bool" where
  "isdigit c \<longleftrightarrow> (let n = (of_char c :: nat) in 48 \<le> n \<and> n \<le> 57)"

definition isspace :: "char \<Rightarrow> bool" where
  "isspace c \<longleftrightarrow> (let n = (of_char c :: nat) in n = 32 \<or> (9 \<le> n \<and> n \<le> 13))"

lemma of_char_less_256 [simp]: "(of_char c :: nat) < 256"
  by (metis nat_of_char_less_256)

lemma nat_of_char_inject: "(of_char c :: nat) = of_char d \<longleftrightarrow> c = d"
  by simp

section \<open>Searching and cutting strings\<close>

text \<open>\<open>s.find(c, from)\<close>: the first position at or after \<open>from\<close>; \<open>None\<close> is \<open>npos\<close>.\<close>

fun find_char :: "char \<Rightarrow> string \<Rightarrow> nat option" where
  "find_char c [] = None"
| "find_char c (x # xs) = (if x = c then Some 0 else map_option Suc (find_char c xs))"

definition find_char_from :: "char \<Rightarrow> string \<Rightarrow> nat \<Rightarrow> nat option" where
  "find_char_from c s from = map_option ((+) from) (find_char c (drop from s))"

text \<open>\<open>s.find_first_of(cs)\<close> and \<open>s.find_last_of(cs)\<close>.\<close>

fun find_first_of :: "char set \<Rightarrow> string \<Rightarrow> nat option" where
  "find_first_of cs [] = None"
| "find_first_of cs (x # xs) = (if x \<in> cs then Some 0 else map_option Suc (find_first_of cs xs))"

fun find_last_of :: "char set \<Rightarrow> string \<Rightarrow> nat option" where
  "find_last_of cs [] = None"
| "find_last_of cs (x # xs) =
     (case find_last_of cs xs of Some i \<Rightarrow> Some (Suc i)
      | None \<Rightarrow> if x \<in> cs then Some 0 else None)"

text \<open>\<open>s.substr(pos, n)\<close> for a position within the string.\<close>

definition substr :: "string \<Rightarrow> nat \<Rightarrow> nat \<Rightarrow> string" where
  "substr s pos n = take n (drop pos s)"

definition starts_with :: "string \<Rightarrow> string \<Rightarrow> bool" where
  "starts_with s p \<longleftrightarrow> take (length p) s = p"

definition ends_with :: "string \<Rightarrow> string \<Rightarrow> bool" where
  "ends_with s p \<longleftrightarrow> length p \<le> length s \<and> drop (length s - length p) s = p"

lemma find_char_None_iff [text_simps]: "find_char c s = None \<longleftrightarrow> c \<notin> set s"
  by (induction s) auto

lemma find_char_SomeD:
  "find_char c s = Some i \<Longrightarrow> i < length s \<and> s ! i = c \<and> c \<notin> set (take i s)"
  by (induction s arbitrary: i) (auto split: if_splits)

lemma find_char_append [text_simps]:
  "c \<notin> set xs \<Longrightarrow> find_char c (xs @ c # ys) = Some (length xs)"
  by (induction xs) auto

lemma find_char_take_drop:
  "find_char c s = Some i \<Longrightarrow> s = take i s @ c # drop (Suc i) s"
  using find_char_SomeD [of c s i] by (metis id_take_nth_drop)

lemma find_last_of_None_iff [text_simps]: "find_last_of cs s = None \<longleftrightarrow> set s \<inter> cs = {}"
  by (induction s) (auto split: option.splits if_splits)

lemma find_last_of_Some_less: "find_last_of cs s = Some i \<Longrightarrow> i < length s"
  by (induction s arbitrary: i) (auto split: option.splits if_splits)

lemma find_last_of_append [text_simps]:
  "c \<in> cs \<Longrightarrow> set ys \<inter> cs = {} \<Longrightarrow> find_last_of cs (xs @ c # ys) = Some (length xs)"
  by (induction xs) (auto simp: find_last_of_None_iff split: option.splits)

lemma starts_with_append [simp, text_simps]: "starts_with (p @ s) p"
  by (simp add: starts_with_def)

lemma starts_with_iff_append [text_simps]: "starts_with s p \<longleftrightarrow> (\<exists>t. s = p @ t)"
  by (metis append_take_drop_id starts_with_append starts_with_def)

text \<open>A list splits in one way at the first occurrence of an element.\<close>

lemma split_first_unique:
  "x \<notin> set a \<Longrightarrow> x \<notin> set c \<Longrightarrow> a @ x # b = c @ x # d \<longleftrightarrow> a = c \<and> b = d"
proof (induction a arbitrary: c)
  case Nil
  then show ?case by (cases c) auto
next
  case (Cons y a)
  then show ?case by (cases c) auto
qed

section \<open>Hexadecimal digits\<close>

text \<open>\<open>{:02x}\<close> of a byte: exactly two lowercase hexadecimal digits.\<close>

definition hex_digit :: "nat \<Rightarrow> char" where
  "hex_digit n = ''0123456789abcdef'' ! n"

definition hex_byte :: "nat \<Rightarrow> string" where
  "hex_byte b = [hex_digit (b div 16), hex_digit (b mod 16)]"

definition hex_chars :: "char set" where
  "hex_chars = set ''0123456789abcdef''"

lemma hex_digit_in [simp, text_simps]: "n < 16 \<Longrightarrow> hex_digit n \<in> hex_chars"
  unfolding hex_digit_def hex_chars_def by (rule nth_mem) simp

lemma hex_byte_chars [text_simps]: "b < 256 \<Longrightarrow> set (hex_byte b) \<subseteq> hex_chars"
  by (simp add: hex_byte_def)

lemma hex_chars_code [simp]: "c \<in> hex_chars \<Longrightarrow> c \<noteq> CHR '' '' \<and> c \<noteq> CHR ''%'' \<and> c \<noteq> CHR ''+''
    \<and> c \<noteq> CHR ''&'' \<and> c \<noteq> CHR ''='' \<and> c \<noteq> CHR ''#'' \<and> c \<noteq> CHR ''?''"
  by (auto simp: hex_chars_def)

lemma hex_bytes_length [simp, text_simps]: "length (concat (map hex_byte bs)) = 2 * length bs"
  by (induction bs) (auto simp: hex_byte_def)

lemma hex_bytes_chars [text_simps]:
  "\<forall>b \<in> set bs. b < 256 \<Longrightarrow> set (concat (map hex_byte bs)) \<subseteq> hex_chars"
  by (induction bs) (auto dest: hex_byte_chars)

lemma hex_byte_length [simp, text_simps]: "length (hex_byte b) = 2"
  by (simp add: hex_byte_def)

lemma hex_digit_inject: "m < 16 \<Longrightarrow> n < 16 \<Longrightarrow> hex_digit m = hex_digit n \<longleftrightarrow> m = n"
  unfolding hex_digit_def by (rule nth_eq_iff_index_eq) simp_all

lemma hex_byte_inject: "a < 256 \<Longrightarrow> b < 256 \<Longrightarrow> hex_byte a = hex_byte b \<longleftrightarrow> a = b"
proof -
  assume ab: "a < 256" "b < 256"
  have "hex_byte a = hex_byte b \<longleftrightarrow> a div 16 = b div 16 \<and> a mod 16 = b mod 16"
    using ab by (simp add: hex_byte_def hex_digit_inject)
  also have "\<dots> \<longleftrightarrow> a = b"
    by (metis div_mult_mod_eq)
  finally show ?thesis .
qed

lemma hex_bytes_inject:
  assumes "\<forall>b \<in> set as. b < 256" "\<forall>b \<in> set bs. b < 256"
    and "concat (map hex_byte as) = concat (map hex_byte bs)"
  shows "as = bs"
  using assms
proof (induction as arbitrary: bs)
  case Nil
  then show ?case by (cases bs) (auto simp: hex_byte_def)
next
  case (Cons a as)
  then obtain b bs' where bs: "bs = b # bs'"
    by (cases bs) (auto simp: hex_byte_def)
  with Cons.prems(3) have "hex_byte a = hex_byte b" "concat (map hex_byte as) = concat (map hex_byte bs')"
    by (simp_all add: append_eq_append_conv)
  moreover have "a < 256" "b < 256" "\<forall>b \<in> set as. b < 256" "\<forall>b \<in> set bs'. b < 256"
    using Cons.prems(1,2) bs by simp_all
  ultimately have "a = b" "as = bs'"
    using Cons.IH [of bs'] hex_byte_inject [of a b] by blast+
  with bs show ?case by simp
qed

section \<open>Decimal numerals\<close>

text \<open>The digits of a number, the last one first, and \<open>std::to_string\<close> of an unsigned number.\<close>

fun digits_lsb :: "nat \<Rightarrow> string" where
  "digits_lsb n = (if n = 0 then [] else char_of (48 + n mod 10) # digits_lsb (n div 10))"

declare digits_lsb.simps [simp del]

definition show_nat :: "nat \<Rightarrow> string" where
  "show_nat n = (if n = 0 then ''0'' else rev (digits_lsb n))"

definition show_int :: "int \<Rightarrow> string" where
  "show_int i = (if i < 0 then CHR ''-'' # show_nat (nat (- i)) else show_nat (nat i))"

primrec read_lsb :: "string \<Rightarrow> nat" where
  "read_lsb [] = 0"
| "read_lsb (c # cs) = of_char c - 48 + 10 * read_lsb cs"

lemma digits_lsb_digit: "c \<in> set (digits_lsb n) \<Longrightarrow> isdigit c"
proof (induction n rule: digits_lsb.induct)
  case (1 n)
  have "n mod 10 < 10" by simp
  then have "isdigit (char_of (48 + n mod 10))"
    by (simp add: isdigit_def Let_def of_char_of)
  with 1 show ?case
    by (subst (asm) (2) digits_lsb.simps) (auto split: if_splits)
qed

lemma read_digits_lsb: "read_lsb (digits_lsb n) = n"
proof (induction n rule: digits_lsb.induct)
  case (1 n)
  have "(of_char (char_of (48 + n mod 10) :: char) :: nat) = 48 + n mod 10"
    using mod_less_divisor [of 10 n] by (simp add: of_char_of)
  with 1 show ?case
    by (subst digits_lsb.simps) auto
qed

lemma show_nat_digits: "c \<in> set (show_nat n) \<Longrightarrow> isdigit c"
  using digits_lsb_digit [of c n] by (auto simp: show_nat_def isdigit_def Let_def split: if_splits)

lemma show_nat_nonempty [simp]: "show_nat n \<noteq> []"
  by (subst show_nat_def, subst digits_lsb.simps) simp

lemma show_nat_inject [simp]: "show_nat m = show_nat n \<longleftrightarrow> m = n"
proof
  have read: "read_lsb (rev (show_nat k)) = k" for k
    by (simp add: show_nat_def read_digits_lsb)
  assume "show_nat m = show_nat n"
  then show "m = n" using read by metis
qed simp

section \<open>Systems of events\<close>

text \<open>What the components that are driven by events share: a step on the state for each event, the
  events that may occur, and an invariant every such step keeps. It then holds after any schedule.\<close>

locale event_system =
  fixes step :: "'e \<Rightarrow> 's \<Rightarrow> 's"
    and allowed :: "'e \<Rightarrow> bool"
    and inv :: "'s \<Rightarrow> bool"
  assumes step_inv: "allowed e \<Longrightarrow> inv s \<Longrightarrow> inv (step e s)"
begin

lemma schedule_inv: "list_all allowed es \<Longrightarrow> inv s \<Longrightarrow> inv (fold step es s)"
  by (induction es arbitrary: s) (simp_all add: step_inv)

lemma schedule_prefix_inv: "list_all allowed (es @ fs) \<Longrightarrow> inv s \<Longrightarrow> inv (fold step es s)"
  by (simp add: schedule_inv)

end

end
