(* ===== verification/Json.thy ===== *)
theory Json
  imports Prelude
begin

text \<open>
  JSON values as the sources handle them: \<open>adrastea::json\<close> is \<open>nlohmann::json\<close>, whose objects
  are \<open>std::map\<close>s (one entry per key, in key order). Here are the values and the accessors the
  sources call, with the exceptions the library documents for them: \<open>value(key, default)\<close>
  (\<open>type_error.306\<close> on a value that is not an object, \<open>type_error.302\<close> when the stored value
  has another type than the default), \<open>at\<close>, \<open>get\<close>, \<open>contains\<close> and assignment through
  \<open>operator[]\<close>. The text form is not modelled here: where code parses or dumps, the parser and
  the printer are parameters of the definition.
\<close>

section \<open>Values\<close>

text \<open>
  Numbers are the integers nlohmann keeps (64 bits, signed or unsigned) and finite doubles
  \<open>m * 2 ^ e\<close>; \<open>JDiscarded\<close> is what a parse without exceptions returns for a text that is not
  JSON.
\<close>

datatype json =
    JNull
  | JBool bool
  | JInt int
  | JFloat int int
  | JString string
  | JArray "json list"
  | JObject "(string \<times> json) list"
  | JDiscarded

fun is_object :: "json \<Rightarrow> bool" where
  "is_object (JObject _) = True"
| "is_object _ = False"

fun is_string :: "json \<Rightarrow> bool" where
  "is_string (JString _) = True"
| "is_string _ = False"

text \<open>Assignment to a key of a \<open>std::map\<close>: the entries stay in key order, one per key.\<close>

fun obj_put :: "string \<Rightarrow> 'v \<Rightarrow> (string \<times> 'v) list \<Rightarrow> (string \<times> 'v) list" where
  "obj_put k v [] = [(k, v)]"
| "obj_put k v (e # es) =
     (if fst e = k then (k, v) # es
      else if k < fst e then (k, v) # e # es
      else e # obj_put k v es)"

text \<open>\<open>json{ {k, v}, ... }\<close>, or a sequence of assignments \<open>j[k] = v\<close> to a null value.\<close>

definition jobj :: "(string \<times> json) list \<Rightarrow> json" where
  "jobj kvs = JObject (fold (\<lambda>kv. obj_put (fst kv) (snd kv)) kvs [])"

text \<open>\<open>j[k] = v\<close>: a null value becomes an object, any value but an object is refused.\<close>

fun json_put :: "json \<Rightarrow> string \<Rightarrow> json \<Rightarrow> json result" where
  "json_put (JObject es) k v = Inr (JObject (obj_put k v es))"
| "json_put JNull k v = Inr (JObject [(k, v)])"
| "json_put _ k v = Inl (TypeError 305)"

fun json_lookup :: "json \<Rightarrow> string \<Rightarrow> json option" where
  "json_lookup (JObject es) k = map_of es k"
| "json_lookup _ k = None"

definition json_contains :: "json \<Rightarrow> string \<Rightarrow> bool" where
  "json_contains j k \<longleftrightarrow> json_lookup j k \<noteq> None"

text \<open>\<open>j.at(k)\<close>.\<close>

fun json_at :: "json \<Rightarrow> string \<Rightarrow> json result" where
  "json_at (JObject es) k = (case map_of es k of None \<Rightarrow> Inl (JsonOutOfRange 403) | Some v \<Rightarrow> Inr v)"
| "json_at _ k = Inl (TypeError 304)"

text \<open>
  \<open>j[k]\<close> on a constant value: the library asserts that the key is there, so a missing key is not
  an exception but undefined behaviour; on a value that is not an object it is
  \<open>type_error.305\<close>.
\<close>

fun json_index_const :: "json \<Rightarrow> string \<Rightarrow> json result" where
  "json_index_const (JObject es) k =
     (case map_of es k of None \<Rightarrow> Inl (Undefined ''operator[] of a missing key'') | Some v \<Rightarrow> Inr v)"
| "json_index_const _ k = Inl (TypeError 305)"

section \<open>Conversions\<close>

fun get_string :: "json \<Rightarrow> string result" where
  "get_string (JString s) = Inr s"
| "get_string _ = Inl (TypeError 302)"

fun get_bool :: "json \<Rightarrow> bool result" where
  "get_bool (JBool b) = Inr b"
| "get_bool _ = Inl (TypeError 302)"

definition trunc_float :: "int \<Rightarrow> int \<Rightarrow> int" where
  "trunc_float m e = (if 0 \<le> e then m * 2 ^ nat e else sgn m * (\<bar>m\<bar> div 2 ^ nat (- e)))"

text \<open>\<open>static_cast<int>\<close> of a 64-bit integer keeps the low 32 bits, read as two's complement.\<close>

definition int32 :: "int \<Rightarrow> int" where
  "int32 i = (i + 2 ^ 31) mod 2 ^ 32 - 2 ^ 31"

text \<open>\<open>get<int>\<close>: integers, doubles (truncated) and booleans convert, nothing else.
  A double outside the range of \<open>int\<close> has no defined conversion.\<close>

fun get_int :: "json \<Rightarrow> int result" where
  "get_int (JInt i) = Inr (int32 i)"
| "get_int (JFloat m e) =
     (let i = trunc_float m e in
      if - (2 ^ 31) \<le> i \<and> i < 2 ^ 31 then Inr i else Inl (Undefined ''double out of the range of int''))"
| "get_int (JBool b) = Inr (if b then 1 else 0)"
| "get_int _ = Inl (TypeError 302)"

text \<open>\<open>get<long long>\<close>: an unsigned value above the range wraps.\<close>

fun get_longlong :: "json \<Rightarrow> int result" where
  "get_longlong (JInt i) = Inr ((i + 2 ^ 63) mod 2 ^ 64 - 2 ^ 63)"
| "get_longlong (JFloat m e) =
     (let i = trunc_float m e in
      if - (2 ^ 63) \<le> i \<and> i < 2 ^ 63 then Inr i else Inl (Undefined ''double out of the range of long long''))"
| "get_longlong (JBool b) = Inr (if b then 1 else 0)"
| "get_longlong _ = Inl (TypeError 302)"

text \<open>\<open>j.value(k, d)\<close> for each type of default.\<close>

fun json_value :: "(json \<Rightarrow> 'a result) \<Rightarrow> json \<Rightarrow> string \<Rightarrow> 'a \<Rightarrow> 'a result" where
  "json_value get (JObject es) k d = (case map_of es k of None \<Rightarrow> Inr d | Some v \<Rightarrow> get v)"
| "json_value get _ k d = Inl (TypeError 306)"

abbreviation value_string :: "json \<Rightarrow> string \<Rightarrow> string \<Rightarrow> string result" where
  "value_string \<equiv> json_value get_string"
abbreviation value_bool :: "json \<Rightarrow> string \<Rightarrow> bool \<Rightarrow> bool result" where
  "value_bool \<equiv> json_value get_bool"
abbreviation value_int :: "json \<Rightarrow> string \<Rightarrow> int \<Rightarrow> int result" where
  "value_int \<equiv> json_value get_int"
abbreviation value_json :: "json \<Rightarrow> string \<Rightarrow> json \<Rightarrow> json result" where
  "value_json \<equiv> json_value Inr"

section \<open>Laws\<close>

named_theorems json_simps

lemma map_of_obj_put [simp, json_simps]: "map_of (obj_put k v es) = (map_of es)(k \<mapsto> v)"
  by (induction es) (auto simp: fun_eq_iff)

lemma map_of_fold_put:
  "map_of (fold (\<lambda>kv. obj_put (fst kv) (snd kv)) kvs es) k =
     (case map_of (rev kvs) k of Some v \<Rightarrow> Some v | None \<Rightarrow> map_of es k)"
  by (induction kvs arbitrary: es) (auto simp: map_add_def split: option.splits)

lemma json_lookup_jobj [json_simps]: "json_lookup (jobj kvs) k = map_of (rev kvs) k"
  by (simp add: jobj_def map_of_fold_put split: option.split)

lemma is_object_jobj [simp, json_simps]: "is_object (jobj kvs)"
  by (simp add: jobj_def)

lemma json_value_object:
  "is_object j \<Longrightarrow> json_value get j k d = (case json_lookup j k of None \<Rightarrow> Inr d | Some v \<Rightarrow> get v)"
  by (cases j) auto

lemma json_value_jobj [json_simps]:
  "json_value get (jobj kvs) k d = (case map_of (rev kvs) k of None \<Rightarrow> Inr d | Some v \<Rightarrow> get v)"
  by (simp add: json_value_object json_lookup_jobj)

lemma json_index_const_jobj [json_simps]:
  "json_index_const (jobj kvs) k =
     (case map_of (rev kvs) k of None \<Rightarrow> Inl (Undefined ''operator[] of a missing key'') | Some v \<Rightarrow> Inr v)"
  by (cases "jobj kvs") (auto simp: json_lookup_jobj [symmetric] jobj_def)

lemma json_value_missing [json_simps]: "map_of es k = None \<Longrightarrow> json_value get (JObject es) k d = Inr d"
  by simp

lemma json_lookup_put [json_simps]:
  "json_put j k v = Inr j' \<Longrightarrow> json_lookup j' k' = (if k' = k then Some v else json_lookup j k')"
  by (cases j) (auto split: if_splits)

lemma int32_range: "- (2 ^ 31) \<le> int32 i" "int32 i < 2 ^ 31"
proof -
  have "0 \<le> (i + 2 ^ 31) mod 2 ^ 32" "(i + 2 ^ 31) mod 2 ^ 32 < 2 ^ 32"
    by simp_all
  then show "- (2 ^ 31) \<le> int32 i" "int32 i < 2 ^ 31"
    unfolding int32_def by simp_all
qed

lemma int32_id [simp]: "- (2 ^ 31) \<le> i \<Longrightarrow> i < 2 ^ 31 \<Longrightarrow> int32 i = i"
  by (simp add: int32_def)

lemma get_int_range: "get_int j = Inr i \<Longrightarrow> - (2 ^ 31) \<le> i \<and> i < 2 ^ 31"
  using int32_range by (cases j) (auto simp: Let_def split: if_splits)

text \<open>Key order is an invariant of objects built by assignment.\<close>

definition keys_ordered :: "(string \<times> 'v) list \<Rightarrow> bool" where
  "keys_ordered es \<longleftrightarrow> sorted_wrt (<) (map fst es)"

lemma fst_obj_put: "set (map fst (obj_put k v es)) = insert k (set (map fst es))"
  by (induction es) auto

lemma obj_put_ordered: "keys_ordered es \<Longrightarrow> keys_ordered (obj_put k v es)"
proof (induction es)
  case Nil
  then show ?case by (simp add: keys_ordered_def)
next
  case (Cons e es)
  then have IH: "keys_ordered (obj_put k v es)"
    by (simp add: keys_ordered_def)
  have "x > fst e" if "x \<in> set (map fst (obj_put k v es))" "\<not> k < fst e" "fst e \<noteq> k" for x
    using that Cons.prems fst_obj_put [of k v es] by (auto simp: keys_ordered_def)
  with Cons.prems IH show ?case
    by (fastforce simp: keys_ordered_def)
qed

lemma jobj_ordered: "jobj kvs = JObject es \<Longrightarrow> keys_ordered es"
proof -
  have "keys_ordered (fold (\<lambda>kv. obj_put (fst kv) (snd kv)) kvs es0)" if "keys_ordered es0" for es0
    using that by (induction kvs arbitrary: es0) (auto intro: obj_put_ordered)
  moreover have "keys_ordered []" by (simp add: keys_ordered_def)
  ultimately show "jobj kvs = JObject es \<Longrightarrow> keys_ordered es"
    unfolding jobj_def by auto
qed

end
