(* ===== verification/Access.thy ===== *)
theory Access
  imports Prelude
begin

text \<open>
  Who may use the supervisor's HTTP API and WebSocket relay: \<open>native/src/themisto/access.cpp\<close>,
  function by function. OpenSSL's \<open>RAND_bytes\<close> is a parameter (the 32 bytes it produced, or its
  failure); \<open>CRYPTO_memcmp\<close> on two buffers of one length is equality.

  The lemmas give each function's meaning (\<open>queryParameter\<close> against a specification that splits
  the query at its ampersands, \<open>percentDecode\<close> against an encoder) and the decision of
  \<open>check\<close>: exactly which requests are allowed, and that a client holding a generated token is.
\<close>

section \<open>The token\<close>

definition newToken :: "nat list option \<Rightarrow> string result" where
  "newToken bytes = (case bytes of
     None \<Rightarrow> Inl (RuntimeError ''could not generate the supervisor's access token (RAND_bytes failed)'')
   | Some bs \<Rightarrow> Inr (concat (map hex_byte bs)))"

definition tokenMatches :: "string \<Rightarrow> string \<Rightarrow> bool" where
  "tokenMatches presented token =
     (if token = [] \<or> length presented \<noteq> length token then False else presented = token)"

text \<open>The two loops that trim spaces.\<close>

definition trim_spaces :: "string \<Rightarrow> string" where
  "trim_spaces v = rev (dropWhile (\<lambda>c. c = CHR '' '') (rev (dropWhile (\<lambda>c. c = CHR '' '') v)))"

definition bearerToken :: "string \<Rightarrow> string option" where
  "bearerToken authorization = (let scheme = ''bearer '' in
     if length authorization \<le> length scheme then None
     else if map tolower (take (length scheme) authorization) \<noteq> scheme then None
     else let value = trim_spaces (drop (length scheme) authorization) in
       if value = [] then None else Some value)"

section \<open>Query strings\<close>

definition hexValue :: "char \<Rightarrow> int" where
  "hexValue c = (let n = (of_char c :: nat) in
     if 48 \<le> n \<and> n \<le> 57 then int n - 48
     else if 97 \<le> n \<and> n \<le> 102 then int n - 97 + 10
     else if 65 \<le> n \<and> n \<le> 70 then int n - 65 + 10
     else - 1)"

fun percentDecode :: "string \<Rightarrow> string" where
  "percentDecode [] = []"
| "percentDecode (c # rest) =
     (case rest of
        a # b # tail \<Rightarrow>
          if c = CHR ''%'' \<and> hexValue a \<ge> 0 \<and> hexValue b \<ge> 0
          then char_of (nat (hexValue a * 16 + hexValue b)) # percentDecode tail
          else (if c = CHR ''+'' then CHR '' '' else c) # percentDecode rest
      | _ \<Rightarrow> (if c = CHR ''+'' then CHR '' '' else c) # percentDecode rest)"

declare percentDecode.simps(2) [simp del]

text \<open>The value of one \<open>key=value\<close> pair, if its decoded key is the name asked for.\<close>

definition pair_value :: "string \<Rightarrow> string \<Rightarrow> string option" where
  "pair_value name pair = (case find_char (CHR ''='') pair of
     None \<Rightarrow> if percentDecode pair = name then Some [] else None
   | Some equals \<Rightarrow>
       if percentDecode (substr pair 0 equals) = name
       then Some (percentDecode (drop (Suc equals) pair)) else None)"

text \<open>The loop over the query, by the position \<open>start\<close> of the next pair.\<close>

function query_loop :: "string \<Rightarrow> string \<Rightarrow> nat \<Rightarrow> string option" where
  "query_loop name query start =
     (if start \<le> length query then
        let end = (case find_char_from (CHR ''&'') query start of None \<Rightarrow> length query | Some e \<Rightarrow> e)
        in case pair_value name (substr query start (end - start)) of
             Some v \<Rightarrow> Some v
           | None \<Rightarrow> query_loop name query (end + 1)
      else None)"
  by pat_completeness auto
termination
  by (relation "measure (\<lambda>(name, query, start). Suc (length query) - start)")
    (auto simp: find_char_from_def split: option.splits)

declare query_loop.simps [simp del]

definition queryParameter :: "string \<Rightarrow> string \<Rightarrow> string option" where
  "queryParameter uri name = (case find_char (CHR ''?'') uri of
     None \<Rightarrow> None
   | Some question \<Rightarrow>
       let query = drop (question + 1) uri;
           query = (case find_char (CHR ''#'') query of None \<Rightarrow> query | Some hash \<Rightarrow> take hash query)
       in query_loop name query 0)"

definition pathOf :: "string \<Rightarrow> string" where
  "pathOf uri = (case find_first_of {CHR ''?'', CHR ''#''} uri of None \<Rightarrow> uri | Some at \<Rightarrow> substr uri 0 at)"

section \<open>The decision\<close>

definition fromBrowser :: "string \<Rightarrow> bool" where
  "fromBrowser origin \<longleftrightarrow> origin \<noteq> []"

datatype Verdict = Allowed | FromBrowser | BadToken

definition check :: "string \<Rightarrow> string \<Rightarrow> string \<Rightarrow> string \<Rightarrow> Verdict" where
  "check origin authorization uri token =
     (if fromBrowser origin then FromBrowser
      else if token = [] then Allowed
      else if (case bearerToken authorization of Some b \<Rightarrow> tokenMatches b token | None \<Rightarrow> False) then Allowed
      else if (case queryParameter uri ''token'' of Some q \<Rightarrow> tokenMatches q token | None \<Rightarrow> False) then Allowed
      else BadToken)"

section \<open>Tokens and headers\<close>

lemma tokenMatches_iff: "tokenMatches presented token \<longleftrightarrow> token \<noteq> [] \<and> presented = token"
  by (auto simp: tokenMatches_def)

lemma newToken_hex:
  assumes "newToken (Some bs) = Inr t" "\<forall>b \<in> set bs. b < 256" "length bs = 32"
  shows "length t = 64" "set t \<subseteq> hex_chars"
  using assms hex_bytes_chars [of bs] by (auto simp: newToken_def)

lemma trim_spaces_id:
  assumes "CHR '' '' \<notin> set v"
  shows "trim_spaces v = v"
proof -
  have "dropWhile (\<lambda>c. c = CHR '' '') w = w" if "CHR '' '' \<notin> set w" for w
    using that by (cases w) auto
  with assms show ?thesis by (simp add: trim_spaces_def)
qed

lemma bearerToken_Bearer:
  assumes "CHR '' '' \<notin> set t" "t \<noteq> []"
  shows "bearerToken (''Bearer '' @ t) = Some t"
proof -
  have "map tolower ''Bearer '' = ''bearer ''" by code_simp
  with assms show ?thesis
    by (simp add: bearerToken_def trim_spaces_id)
qed

lemma bearerToken_SomeD:
  assumes "bearerToken a = Some v"
  shows "v \<noteq> []" "hd v \<noteq> CHR '' ''" "last v \<noteq> CHR '' ''"
proof -
  obtain raw where raw: "v = trim_spaces raw" and ne: "v \<noteq> []"
    using assms unfolding bearerToken_def Let_def by (metis option.distinct(1) option.inject)
  let ?w = "dropWhile (\<lambda>c. c = CHR '' '') raw"
  let ?u = "dropWhile (\<lambda>c. c = CHR '' '') (rev ?w)"
  from raw ne have v: "v = rev ?u" "v \<noteq> []"
    by (simp_all add: trim_spaces_def)
  show "v \<noteq> []" by fact
  have "?u \<noteq> []" using v by simp
  then have "hd ?u \<noteq> CHR '' ''"
    by (rule hd_dropWhile)
  then show "last v \<noteq> CHR '' ''" using v by (simp add: last_rev)
  obtain p where "rev ?w = p @ ?u" by (metis takeWhile_dropWhile_id)
  then have w: "?w = v @ rev p" using v by (metis rev_append rev_rev_ident)
  then have "?w \<noteq> []" using ne by simp
  then have "hd ?w \<noteq> CHR '' ''"
    by (rule hd_dropWhile)
  then show "hd v \<noteq> CHR '' ''" by (subst (asm) w) (simp add: ne)
qed

section \<open>Percent encoding\<close>

text \<open>An encoder that escapes every byte, the specification the decoder inverts.\<close>

definition percent_encode :: "string \<Rightarrow> string" where
  "percent_encode s = concat (map (\<lambda>c. CHR ''%'' # hex_byte (of_char c)) s)"

lemma hexValue_hex_digit:
  assumes "n < 16"
  shows "hexValue (hex_digit n) = int n"
proof -
  have "\<forall>n \<in> {0..<16}. hexValue (hex_digit n) = int n" by code_simp
  with assms show ?thesis by simp
qed

lemma percentDecode_escape: "percentDecode (CHR ''%'' # hex_byte (of_char c) @ s) = c # percentDecode s"
proof -
  let ?n = "(of_char c :: nat)"
  have n: "?n div 16 < 16" "?n mod 16 < 16"
    using of_char_less_256 [of c] by (auto intro: less_mult_imp_div_less)
  have "int (?n div 16) * 16 + int (?n mod 16) = int ?n"
    by (metis div_mult_mod_eq of_nat_add of_nat_mult of_nat_numeral)
  then show ?thesis
    using n by (simp add: hex_byte_def hexValue_hex_digit percentDecode.simps(2))
qed

lemma percentDecode_encode: "percentDecode (percent_encode s) = s"
proof (induction s)
  case Nil
  show ?case by (simp add: percent_encode_def)
next
  case (Cons c s)
  have "percent_encode (c # s) = CHR ''%'' # hex_byte (of_char c) @ percent_encode s"
    by (simp add: percent_encode_def)
  then show ?case by (simp only: percentDecode_escape Cons.IH)
qed

lemma percentDecode_Cons_plain:
  "c \<noteq> CHR ''%'' \<Longrightarrow> percentDecode (c # rest) = (if c = CHR ''+'' then CHR '' '' else c) # percentDecode rest"
  by (subst percentDecode.simps(2)) (simp split: list.split)

lemma percentDecode_plain:
  assumes "CHR ''%'' \<notin> set s" "CHR ''+'' \<notin> set s"
  shows "percentDecode s = s"
  using assms
proof (induction s)
  case (Cons c s)
  then have "c \<noteq> CHR ''%''" "c \<noteq> CHR ''+''" by auto
  with Cons show ?case
    by (simp add: percentDecode_Cons_plain)
qed simp

section \<open>The query loop and its specification\<close>

fun split_on :: "char \<Rightarrow> string \<Rightarrow> string list" where
  "split_on c [] = [[]]"
| "split_on c (x # xs) = (case split_on c xs of
     p # ps \<Rightarrow> if x = c then [] # p # ps else (x # p) # ps
   | [] \<Rightarrow> [[x]])"

fun first_match :: "('a \<Rightarrow> 'b option) \<Rightarrow> 'a list \<Rightarrow> 'b option" where
  "first_match f [] = None"
| "first_match f (x # xs) = (case f x of Some y \<Rightarrow> Some y | None \<Rightarrow> first_match f xs)"

lemma split_on_nonempty [simp]: "split_on c s \<noteq> []"
  by (induction s) (auto split: list.splits)

lemma split_on_absent: "c \<notin> set s \<Longrightarrow> split_on c s = [s]"
  by (induction s) auto

lemma split_on_append: "c \<notin> set a \<Longrightarrow> split_on c (a @ c # b) = a # split_on c b"
  by (induction a) (auto split: list.splits)

lemma query_loop_split:
  "start \<le> length query \<Longrightarrow>
   query_loop name query start = first_match (pair_value name) (split_on (CHR ''&'') (drop start query))"
proof (induction name query start rule: query_loop.induct)
  case (1 name query start)
  let ?q = "drop start query"
  show ?case
  proof (cases "find_char (CHR ''&'') ?q")
    case None
    then have "split_on (CHR ''&'') ?q = [?q]"
      by (simp add: find_char_None_iff split_on_absent)
    moreover have "query_loop name query (Suc (length query)) = None"
      by (simp add: query_loop.simps)
    ultimately show ?thesis
      using "1.prems" None
      by (simp add: query_loop.simps [of name query start] find_char_from_def substr_def split: option.split)
  next
    case (Some i)
    then have split: "?q = take i ?q @ CHR ''&'' # drop (Suc i) ?q" and i: "i < length ?q"
      and notin: "CHR ''&'' \<notin> set (take i ?q)"
      using find_char_take_drop find_char_SomeD by blast+
    have pieces: "split_on (CHR ''&'') ?q = take i ?q # split_on (CHR ''&'') (drop (start + i + 1) query)"
      using split_on_append [OF notin, of "drop (Suc i) ?q"] split by (simp add: add.commute)
    have IH: "query_loop name query (start + i + 1) =
        first_match (pair_value name) (split_on (CHR ''&'') (drop (start + i + 1) query))"
      if "pair_value name (take i ?q) = None"
      using "1.IH" "1.prems" Some i that by (simp add: find_char_from_def substr_def)
    show ?thesis
      using "1.prems" Some IH
      by (simp add: query_loop.simps [of name query start] find_char_from_def substr_def pieces split: option.split)
  qed
qed

lemma queryParameter_split:
  assumes "CHR ''?'' \<notin> set path" "CHR ''#'' \<notin> set query"
  shows "queryParameter (path @ CHR ''?'' # query) name =
         first_match (pair_value name) (split_on (CHR ''&'') query)"
proof -
  have "find_char (CHR ''#'') query = None"
    using assms(2) by (simp add: find_char_None_iff)
  then show ?thesis
    using query_loop_split [of 0 query name] assms(1)
    by (simp add: queryParameter_def find_char_append)
qed

lemma queryParameter_single:
  assumes "CHR ''?'' \<notin> set path" "set t \<subseteq> hex_chars"
  shows "queryParameter (path @ ''?token='' @ t) ''token'' = Some t"
proof -
  have t: "c \<notin> set t" if "c \<in> {CHR ''%'', CHR ''+'', CHR ''&'', CHR ''#''}" for c
    using assms(2) that hex_chars_code by blast
  have "split_on (CHR ''&'') (''token='' @ t) = [''token='' @ t]"
    using t by (intro split_on_absent) auto
  moreover have "percentDecode ''token'' = ''token''" by code_simp
  moreover have "percentDecode t = t"
    using t by (intro percentDecode_plain) auto
  moreover have "find_char (CHR ''='') (''token='' @ t) = Some 5"
    by simp
  ultimately show ?thesis
    using assms t queryParameter_split [of path "''token='' @ t" "''token''"]
    by (simp add: pair_value_def substr_def)
qed

lemma pathOf_no_query: "set p \<inter> {CHR ''?'', CHR ''#''} = {} \<Longrightarrow> pathOf (p @ CHR ''?'' # q) = p"
proof -
  assume "set p \<inter> {CHR ''?'', CHR ''#''} = {}"
  then have "find_first_of {CHR ''?'', CHR ''#''} (p @ CHR ''?'' # q) = Some (length p)"
    by (induction p) auto
  then show ?thesis by (simp add: pathOf_def substr_def)
qed

lemma check_Allowed_iff:
  "check origin authorization uri token = Allowed \<longleftrightarrow>
     origin = [] \<and> (token = [] \<or> bearerToken authorization = Some token
                     \<or> queryParameter uri ''token'' = Some token)"
  by (auto simp: check_def fromBrowser_def tokenMatches_iff split: option.splits)

section \<open>Properties\<close>


text \<open>A client that was given the token generated from 32 random bytes can use the API both ways
  the clients do: with an \<open>Authorization: Bearer\<close> header, and with a \<open>?token=\<close> query
  parameter (WebSocket clients cannot set headers).\<close>

theorem generated_token_accepted:
  assumes "newToken (Some bytes) = Inr token" "length bytes = 32" "\<forall>b \<in> set bytes. b < 256"
    and "CHR ''?'' \<notin> set path"
  shows "check [] (''Bearer '' @ token) uri token = Allowed \<and>
         check [] authorization (path @ ''?token='' @ token) token = Allowed"
proof -
  have hex: "set token \<subseteq> hex_chars" and len: "length token = 64"
    using newToken_hex [OF assms(1,3,2)] by blast+
  have "CHR '' '' \<notin> set token"
    using hex hex_chars_code by blast
  moreover have "token \<noteq> []"
    using len by auto
  ultimately have "bearerToken (''Bearer '' @ token) = Some token"
    by (rule bearerToken_Bearer)
  then show ?thesis
    using queryParameter_single [OF assms(4) hex] by (simp only: check_Allowed_iff simp_thms)
qed

theorem generated_token_accepted_witness:
  "check [] (''Bearer '' @ concat (map hex_byte (replicate 32 171))) ''/sessions''
      (concat (map hex_byte (replicate 32 171))) = Allowed \<and>
   check [] [] (''/sessions/a/messages'' @ ''?token='' @ concat (map hex_byte (replicate 32 171)))
      (concat (map hex_byte (replicate 32 171))) = Allowed"
  by (rule generated_token_accepted [of "replicate 32 171"]) (simp_all add: newToken_def)

text \<open>The loop that searches the query string by positions finds what a split of the query at its
  ampersands finds: the first pair whose percent-decoded key is the name, with its decoded value.\<close>

lemma query_parameter_is_first_match:
  assumes "CHR ''?'' \<notin> set path" "CHR ''#'' \<notin> set query"
  shows "queryParameter (path @ CHR ''?'' # query) name =
         first_match (pair_value name) (split_on (CHR ''&'') query)"
  using assms by (rule queryParameter_split)

lemma query_parameter_is_first_match_witness:
  "queryParameter (''/x'' @ CHR ''?'' # ''a=1&b=%41+z'') ''b'' = Some ''A z''"
  using query_parameter_is_first_match [of "''/x''" "''a=1&b=%41+z''" "''b''"] by code_simp

text \<open>Percent decoding inverts percent encoding on every byte string.\<close>

theorem percent_decode_encode: "percentDecode (percent_encode s) = s"
  by (rule percentDecode_encode)

end
