(* ===== verification/Authentication.thy ===== *)
theory Authentication
  imports Prelude
begin

text \<open>
  Message signatures: \<open>native/src/adrastea/transport/common/authentication.cpp\<close> (the branch for
  OpenSSL 3, which is what the build uses). OpenSSL's keyed digest is the parameter \<open>mac\<close>: the
  digest's name, the key and the data give the bytes of the code. A \<open>RawBuffer\<close> is a pointer and
  a length over a frame's bytes; here it is those bytes, and a read past their end is
  \<open>Undefined\<close>.

  The interface the serializer and the handshake rely on is the locale \<open>authenticator\<close> (what was
  signed verifies); \<open>strict_authenticator\<close> adds that nothing else does. Both are interpreted on
  the model of the code.
\<close>

section \<open>The interface\<close>

locale authenticator =
  fixes sign :: "frame list \<Rightarrow> frame"
    and verify :: "frame \<Rightarrow> frame list \<Rightarrow> bool result"
  assumes verify_sign: "verify (sign parts) parts = Inr True"
begin

lemma verify_signed_not_refused: "verify (sign parts) parts \<noteq> Inr False"
  by (simp add: verify_sign)

end

locale strict_authenticator = authenticator +
  assumes verify_only_signed:
    "verify sig parts = Inr True \<Longrightarrow> \<exists>rest. sig = sign parts @ rest"
begin

lemma verify_exact: "length sig = length (sign parts) \<Longrightarrow> verify sig parts = Inr True \<longleftrightarrow> sig = sign parts"
  using verify_only_signed [of sig parts] verify_sign [of parts] by auto

end

section \<open>The two implementations\<close>

text \<open>\<open>OpensslAuthentication\<close> keeps the key and the digest's name; \<open>NoAuthentication\<close> nothing.\<close>

datatype authentication =
    NoAuthentication
  | OpensslAuthentication (m_hashName: string) (m_key: string)

type_synonym mac = "string \<Rightarrow> string \<Rightarrow> string \<Rightarrow> nat list"

definition toupper :: "char \<Rightarrow> char" where
  "toupper c = (let n = (of_char c :: nat) in if 97 \<le> n \<and> n \<le> 122 then char_of (n - 32) else c)"

text \<open>The constructor: \<open>scheme.substr(5)\<close> throws when the scheme has fewer than five characters;
  \<open>fetched\<close> and \<open>allocated\<close> are the outcomes of \<open>EVP_MAC_fetch\<close> and \<open>EVP_MAC_CTX_new\<close>.\<close>

definition new_OpensslAuthentication :: "bool \<Rightarrow> bool \<Rightarrow> string \<Rightarrow> string \<Rightarrow> authentication result" where
  "new_OpensslAuthentication fetched allocated scheme key =
     (if length scheme < 5 then Inl (StdOutOfRange ''basic_string::substr'')
      else if \<not> fetched then Inl (RuntimeError ''Could not fetch evp_mac'')
      else if \<not> allocated then Inl (RuntimeError ''Could not allocate evp_mac_ctx'')
      else Inr (OpensslAuthentication (map toupper (drop 5 scheme)) key))"

definition makeAuthentication :: "bool \<Rightarrow> bool \<Rightarrow> string \<Rightarrow> string \<Rightarrow> authentication result" where
  "makeAuthentication fetched allocated scheme key =
     (if scheme = ''none'' then Inr NoAuthentication
      else new_OpensslAuthentication fetched allocated scheme key)"

text \<open>The digest context between \<open>initHexSignature\<close> and \<open>finalizeHexSignature\<close>: the bytes
  it was updated with.\<close>

definition initHexSignature :: string where
  "initHexSignature = []"

definition mac_update :: "string \<Rightarrow> frame \<Rightarrow> string" where
  "mac_update ctx buf = ctx @ buf"

definition finalizeHexSignature :: "mac \<Rightarrow> authentication \<Rightarrow> string \<Rightarrow> string" where
  "finalizeHexSignature mac a ctx = concat (map hex_byte (mac (m_hashName a) (m_key a) ctx))"

definition computeHexSignature :: "mac \<Rightarrow> authentication \<Rightarrow> frame list \<Rightarrow> string" where
  "computeHexSignature mac a parts =
     finalizeHexSignature mac a (fold (\<lambda>buf ctx. mac_update ctx buf) parts initHexSignature)"

text \<open>\<open>CRYPTO_memcmp(a, b, n) == 0\<close>: reads \<open>n\<close> bytes of each buffer, whatever they hold.\<close>

definition memcmp_eq :: "frame \<Rightarrow> frame \<Rightarrow> nat \<Rightarrow> bool result" where
  "memcmp_eq a b n =
     (if n \<le> length a \<and> n \<le> length b then Inr (take n a = take n b)
      else Inl (Undefined ''read past the end of a buffer''))"

text \<open>The \<open>signImpl\<close> and \<open>verifyImpl\<close> overloads, over the list of the buffers they take (the four
  of a message, or the one of a registration).\<close>

fun signImpl :: "mac \<Rightarrow> authentication \<Rightarrow> frame list \<Rightarrow> frame" where
  "signImpl mac NoAuthentication parts = []"
| "signImpl mac (OpensslAuthentication h k) parts = computeHexSignature mac (OpensslAuthentication h k) parts"

fun verifyImpl :: "mac \<Rightarrow> authentication \<Rightarrow> frame \<Rightarrow> frame list \<Rightarrow> bool result" where
  "verifyImpl mac NoAuthentication signature parts = Inr True"
| "verifyImpl mac (OpensslAuthentication h k) signature parts =
     (let hex_sig = computeHexSignature mac (OpensslAuthentication h k) parts
      in memcmp_eq hex_sig signature (length hex_sig))"

section \<open>What a signature covers\<close>

lemma fold_mac_update: "fold (\<lambda>buf ctx. mac_update ctx buf) parts ctx = ctx @ concat parts"
  by (induction parts arbitrary: ctx) (auto simp: mac_update_def)

lemma computeHexSignature_eq:
  "computeHexSignature mac a parts = concat (map hex_byte (mac (m_hashName a) (m_key a) (concat parts)))"
  by (simp add: computeHexSignature_def finalizeHexSignature_def initHexSignature_def fold_mac_update)

lemma computeHexSignature_concat:
  "concat parts = concat parts' \<Longrightarrow> computeHexSignature mac a parts = computeHexSignature mac a parts'"
  by (simp add: computeHexSignature_eq)

lemma memcmp_eq_whole:
  "memcmp_eq a b (length a) = Inr True \<longleftrightarrow> (\<exists>rest. b = a @ rest)"
  "memcmp_eq a b (length a) = Inr False \<longleftrightarrow> length a \<le> length b \<and> take (length a) b \<noteq> a"
  "memcmp_eq a b (length a) = Inl (Undefined ''read past the end of a buffer'') \<longleftrightarrow> length b < length a"
proof -
  show "memcmp_eq a b (length a) = Inr True \<longleftrightarrow> (\<exists>rest. b = a @ rest)"
    by (auto simp: memcmp_eq_def) (metis append_take_drop_id)
qed (auto simp: memcmp_eq_def)

interpretation openssl: strict_authenticator
  "signImpl mac (OpensslAuthentication h k)" "verifyImpl mac (OpensslAuthentication h k)" for mac h k
proof
  fix parts show "verifyImpl mac (OpensslAuthentication h k) (signImpl mac (OpensslAuthentication h k) parts) parts = Inr True"
    by (simp add: memcmp_eq_def)
next
  fix sig parts assume "verifyImpl mac (OpensslAuthentication h k) sig parts = Inr True"
  then show "\<exists>rest. sig = signImpl mac (OpensslAuthentication h k) parts @ rest"
    by (simp add: Let_def memcmp_eq_whole)
qed

interpretation unsigned: authenticator "signImpl mac NoAuthentication" "verifyImpl mac NoAuthentication" for mac
  by unfold_locales simp

lemma verify_signImpl: "verifyImpl mac a (signImpl mac a parts) parts = Inr True"
  by (cases a) (simp_all only: unsigned.verify_sign openssl.verify_sign)

interpretation auth: authenticator "signImpl mac a" "verifyImpl mac a" for mac a
  by unfold_locales (rule verify_signImpl)

section \<open>Properties\<close>

text \<open>Whatever one end of a channel signs, the other end with the same authentication accepts:
  verifying the signature of any list of frames succeeds (and reads no byte outside its buffers),
  with keyed digests and with signing turned off.\<close>

theorem signed_message_verifies:
  "verifyImpl mac a (signImpl mac a parts) parts = Inr True"
  by (rule auth.verify_sign)

text \<open>C13. The signature check of a keyed authentication, in full: with a signature frame at least as
  long as the expected one it compares exactly that many bytes (so a frame that only begins with
  the expected signature passes), and with a shorter frame it reads past the frame's end.\<close>

theorem verify_reads_expected_length:
  "(verifyImpl mac (OpensslAuthentication h k) sig parts = Inr True
      \<longleftrightarrow> (\<exists>rest. sig = concat (map hex_byte (mac h k (concat parts))) @ rest)) \<and>
   (verifyImpl mac (OpensslAuthentication h k) sig parts = Inl (Undefined ''read past the end of a buffer'')
      \<longleftrightarrow> length sig < 2 * length (mac h k (concat parts)))"
  using memcmp_eq_whole [of "concat (map hex_byte (mac h k (concat parts)))" sig]
  by (simp add: Let_def computeHexSignature_eq)

text \<open>The factory: \<open>"none"\<close> turns signing off, any scheme of fewer than five characters other
  than that (the empty scheme a connection file without one yields, say) ends in
  \<open>std::out_of_range\<close>, and an \<open>hmac-\<close> scheme gives the digest named after its fifth character.\<close>

theorem makeAuthentication_cases:
  "makeAuthentication f m ''none'' key = Inr NoAuthentication \<and>
   (scheme \<noteq> ''none'' \<and> length scheme < 5 \<longrightarrow>
      makeAuthentication f m scheme key = Inl (StdOutOfRange ''basic_string::substr'')) \<and>
   makeAuthentication True True (''hmac-'' @ digest) key = Inr (OpensslAuthentication (map toupper digest) key)"
  by (simp add: makeAuthentication_def new_OpensslAuthentication_def)

theorem makeAuthentication_cases_witness:
  "makeAuthentication True True [] ''k'' = Inl (StdOutOfRange ''basic_string::substr'')"
  using makeAuthentication_cases [of True True "''k''" "[]"] by simp

end
