(* ===== verification/Utf8.thy ===== *)
theory Utf8
  imports Prelude
begin

unbundle bit_operations_syntax

text \<open>
  \<open>isOneLineOfUtf8\<close> of \<open>native/src/adrastea/transport/common/zmq_serializer.cpp\<close>: whether a text is
  valid UTF-8 without a control character below the space, decided eight bytes at a time while they
  are plain ASCII and by decoding otherwise. The words keep the widths of the code: 8-bit bytes,
  a 32-bit code point, a 64-bit block loaded from memory (little endian).

  The main result is that the routine accepts exactly the encodings of the texts without such
  characters, so that a text it accepts has no newline in it; the eight-byte test is shown to skip
  only bytes that the decoder would have skipped one by one.
\<close>

type_synonym byte = "8 word"

text \<open>The characters of a \<open>std::string\<close> and its bytes.\<close>

definition text_of :: "byte list \<Rightarrow> string" where
  "text_of bs = map (\<lambda>b. char_of (unat b)) bs"

definition bytes_of :: "string \<Rightarrow> byte list" where
  "bytes_of t = map (\<lambda>c. word_of_nat (of_char c)) t"

lemma text_of_append [simp]: "text_of (a @ b) = text_of a @ text_of b" "text_of [] = []"
  by (simp_all add: text_of_def)

lemma bytes_of_append [simp]: "bytes_of (a @ b) = bytes_of a @ bytes_of b" "bytes_of [] = []"
  by (simp_all add: bytes_of_def)

lemma text_of_bytes_of [simp]: "text_of (bytes_of t) = t"
  by (induction t) (simp_all add: text_of_def bytes_of_def unat_of_nat)

lemma bytes_of_text_of [simp]: "bytes_of (text_of bs) = bs"
  by (induction bs) (simp_all add: text_of_def bytes_of_def of_char_of take_bit_eq_mod unsigned_less [where ?'a = nat and ?'b = 8, simplified])

section \<open>The code\<close>

text \<open>\<open>memcpy(&v, p + i, 8)\<close>.\<close>

primrec le_value :: "byte list \<Rightarrow> int" where
  "le_value [] = 0"
| "le_value (b # bs) = uint b + 256 * le_value bs"

definition load64 :: "byte list \<Rightarrow> 64 word" where
  "load64 bs = word_of_int (le_value bs)"

definition ascii_block :: "64 word \<Rightarrow> bool" where
  "ascii_block v \<longleftrightarrow> \<not> (v AND 0x8080808080808080 \<noteq> 0
     \<or> (v - 0x2020202020202020) AND NOT v AND 0x8080808080808080 \<noteq> 0)"

text \<open>The inner loop: what is left after the blocks of eight plain characters.\<close>

fun skip_blocks :: "byte list \<Rightarrow> byte list" where
  "skip_blocks bs =
     (if 8 \<le> length bs \<and> ascii_block (load64 (take 8 bs)) then skip_blocks (drop 8 bs) else bs)"

declare skip_blocks.simps [simp del]

text \<open>The first byte of a sequence: its length, the bits of the code point it holds, and the smallest
  code point a sequence of that length may encode.\<close>

definition lead :: "byte \<Rightarrow> (nat \<times> 32 word \<times> 32 word) option" where
  "lead c =
     (if c AND 0xE0 = 0xC0 then Some (2, ucast (c AND 0x1F), 0x80)
      else if c AND 0xF0 = 0xE0 then Some (3, ucast (c AND 0x0F), 0x800)
      else if c AND 0xF8 = 0xF0 then Some (4, ucast (c AND 0x07), 0x10000)
      else None)"

fun continuation :: "byte list \<Rightarrow> 32 word \<Rightarrow> 32 word option" where
  "continuation [] code = Some code"
| "continuation (next # bs) code =
     (if next AND 0xC0 \<noteq> 0x80 then None
      else continuation bs (push_bit 6 code OR ucast (next AND 0x3F)))"

text \<open>One character that is not skipped in a block: the bytes after it, or \<open>None\<close> for \<open>return false\<close>.\<close>

fun scalar_step :: "byte list \<Rightarrow> byte list option" where
  "scalar_step [] = None"
| "scalar_step (c # rest) =
     (if c < 0x20 then None
      else if c < 0x80 then Some rest
      else case lead c of
        None \<Rightarrow> None
      | Some (len, code, smallest) \<Rightarrow>
          if Suc (length rest) < len then None
          else case continuation (take (len - 1) rest) code of
            None \<Rightarrow> None
          | Some code' \<Rightarrow>
              if code' < smallest \<or> code' > 0x10FFFF \<or> (code' \<ge> 0xD800 \<and> code' \<le> 0xDFFF) then None
              else Some (drop (len - 1) rest))"

lemma length_skip_blocks: "length (skip_blocks bs) \<le> length bs"
proof (induction bs rule: skip_blocks.induct)
  case (1 bs)
  then show ?case
    by (subst skip_blocks.simps) (auto intro: le_trans)
qed

lemma scalar_step_length: "scalar_step bs = Some rest \<Longrightarrow> length rest < length bs"
  by (cases bs) (auto split: if_splits option.splits)

function isOneLineOfUtf8 :: "byte list \<Rightarrow> bool" where
  "isOneLineOfUtf8 bs =
     (case skip_blocks bs of
        [] \<Rightarrow> True
      | c # tail \<Rightarrow> (case scalar_step (c # tail) of None \<Rightarrow> False | Some rest \<Rightarrow> isOneLineOfUtf8 rest))"
  by pat_completeness auto
termination
proof (relation "measure length")
  fix bs c tail rest
  assume "skip_blocks bs = c # tail" "scalar_step (c # tail) = Some rest"
  then show "(rest, bs) \<in> measure length"
    using length_skip_blocks [of bs] scalar_step_length [of "c # tail" rest] by simp
qed simp

declare isOneLineOfUtf8.simps [simp del]

section \<open>The specification\<close>

text \<open>The UTF-8 encoding of a code point (RFC 3629), on numbers.\<close>

definition utf8_encode :: "nat \<Rightarrow> byte list" where
  "utf8_encode c =
     (if c < 0x80 then [word_of_nat c]
      else if c < 0x800 then [word_of_nat (0xC0 + c div 64), word_of_nat (0x80 + c mod 64)]
      else if c < 0x10000 then
        [word_of_nat (0xE0 + c div 4096), word_of_nat (0x80 + c div 64 mod 64), word_of_nat (0x80 + c mod 64)]
      else [word_of_nat (0xF0 + c div 262144), word_of_nat (0x80 + c div 4096 mod 64),
            word_of_nat (0x80 + c div 64 mod 64), word_of_nat (0x80 + c mod 64)])"

definition printable_scalar :: "nat \<Rightarrow> bool" where
  "printable_scalar c \<longleftrightarrow> 0x20 \<le> c \<and> c \<le> 0x10FFFF \<and> \<not> (0xD800 \<le> c \<and> c \<le> 0xDFFF)"

section \<open>Blocks of eight\<close>

text \<open>Subtracting 0x20 from every byte at once: a byte below 0x20 is found at the first position
  (from the low end) that has one, since nothing below it borrows.\<close>

lemma bit_shift_byte:
  "bit (r + 256 * x :: int) (8 * Suc i + 7) = bit x (8 * i + 7)" if "0 \<le> r" "r < 256"
proof -
  have "(r + 256 * x) div 2 ^ 8 = x" using that by simp
  then have "bit x (8 * i + 7) = bit (drop_bit 8 (r + 256 * x)) (8 * i + 7)"
    by (simp add: drop_bit_eq_div)
  also have "\<dots> = bit (r + 256 * x) (8 * Suc i + 7)"
    by (simp add: bit_drop_bit_eq add.commute add.left_commute)
  finally show ?thesis by simp
qed

lemma bit7_low_byte: "bit (r + 256 * x :: int) 7 = bit r 7"
proof -
  have "bit (r + 256 * x) 7 = bit (take_bit 8 (r + 256 * x)) 7"
    by (simp add: bit_take_bit_iff)
  also have "take_bit 8 (r + 256 * x) = take_bit 8 r"
    by (simp add: take_bit_eq_mod)
  finally show ?thesis by (simp add: bit_take_bit_iff)
qed

lemma bit7_iff: "0 \<le> r \<Longrightarrow> r < 256 \<Longrightarrow> bit (r :: int) 7 \<longleftrightarrow> 128 \<le> r"
proof -
  assume r: "0 \<le> r" "r < 256"
  have "bit r 7 \<longleftrightarrow> odd (r div 128)"
    by (simp add: bit_iff_odd)
  moreover have "r div 128 = (if 128 \<le> r then 1 else 0)"
    using r by auto
  ultimately show ?thesis by simp
qed

lemma bit7_below: "0 \<le> a \<Longrightarrow> a < 0x20 \<Longrightarrow> bit (a - 0x20 :: int) 7"
proof -
  assume "0 \<le> a" "a < 0x20"
  then have "(a - 0x20) div 128 = - 1" by (simp add: div_eq_minus1)
  then show ?thesis by (simp add: bit_iff_odd)
qed

primrec le_spaces :: "nat \<Rightarrow> int" where
  "le_spaces 0 = 0"
| "le_spaces (Suc n) = 0x20 + 256 * le_spaces n"

lemma le_value_high_bits:
  "(\<forall>i < length bs. \<not> bit (le_value bs) (8 * i + 7)) \<Longrightarrow> b \<in> set bs \<Longrightarrow> uint b < 128"
proof (induction bs)
  case (Cons a bs)
  have a: "0 \<le> uint a" "uint a < 256"
    using uint_lt2p [of a] by simp_all
  have "\<not> bit (le_value (a # bs)) (8 * 0 + 7)"
    using Cons.prems(1) by (intro Cons.prems(1) [rule_format]) simp
  then have "uint a < 128"
    using a bit7_iff [of "uint a"] by (simp add: bit7_low_byte)
  moreover have "\<forall>i < length bs. \<not> bit (le_value bs) (8 * i + 7)"
  proof (intro allI impI)
    fix i assume "i < length bs"
    then have "\<not> bit (le_value (a # bs)) (8 * Suc i + 7)"
      by (intro Cons.prems(1) [rule_format]) simp
    then show "\<not> bit (le_value bs) (8 * i + 7)"
      using bit_shift_byte [OF a, of "le_value bs" i] by simp
  qed
  ultimately show ?case
    using Cons by auto
qed simp

lemma le_value_no_borrow:
  assumes "\<forall>b \<in> set bs. uint b < 128"
    and "\<forall>i < length bs. \<not> bit (le_value bs - le_spaces (length bs)) (8 * i + 7)"
    and "b \<in> set bs"
  shows "0x20 \<le> uint b"
  using assms
proof (induction bs)
  case (Cons a bs)
  let ?d = "le_value bs - le_spaces (length bs)"
  have d: "le_value (a # bs) - le_spaces (length (a # bs)) = (uint a - 0x20) + 256 * ?d"
    by (simp add: algebra_simps)
  have lt: "uint a < 128" "0 \<le> uint a" using Cons.prems by auto
  have "\<not> bit ((uint a - 0x20) + 256 * ?d) (8 * 0 + 7)"
    using Cons.prems(2) d by (metis length_greater_0_conv list.distinct(1))
  then have nb: "\<not> bit (uint a - 0x20) 7"
    unfolding mult_0_right add_0 bit7_low_byte .
  have ge: "0x20 \<le> uint a"
    using nb bit7_below lt(2) not_le by blast
  have "\<forall>i < length bs. \<not> bit ?d (8 * i + 7)"
  proof (intro allI impI)
    fix i assume "i < length bs"
    then have "\<not> bit ((uint a - 0x20) + 256 * ?d) (8 * Suc i + 7)"
      using Cons.prems(2) d by (metis length_Cons not_less_eq)
    then show "\<not> bit ?d (8 * i + 7)"
      using bit_shift_byte [of "uint a - 0x20" ?d i] ge lt by simp
  qed
  with Cons ge show ?case by auto
qed simp

lemma block_masks:
  "i < 8 \<Longrightarrow> bit (0x8080808080808080 :: 64 word) (8 * i + 7)"
proof -
  have "\<forall>i \<in> {0..<8}. bit (0x8080808080808080 :: 64 word) (8 * i + 7)" by code_simp
  then show "i < 8 \<Longrightarrow> ?thesis" by simp
qed

lemma ascii_block_sound:
  assumes "length bs = 8" "ascii_block (load64 bs)" "b \<in> set bs"
  shows "0x20 \<le> b \<and> b < 0x80"
proof -
  let ?v = "load64 bs"
  have low: "\<not> bit ?v (8 * i + 7)" if "i < 8" for i
  proof -
    have "\<not> bit (?v AND 0x8080808080808080) (8 * i + 7)"
      using assms(2) by (simp add: ascii_block_def)
    then show ?thesis using block_masks [OF that] by (simp add: bit_and_iff)
  qed
  have sub: "\<not> bit (?v - 0x2020202020202020) (8 * i + 7)" if "i < 8" for i
  proof -
    have "\<not> bit ((?v - 0x2020202020202020) AND NOT ?v AND 0x8080808080808080) (8 * i + 7)"
      using assms(2) by (simp add: ascii_block_def)
    moreover have "bit (NOT ?v) (8 * i + 7)"
      using low [OF that] that by (simp add: bit_not_iff)
    ultimately show ?thesis using block_masks [OF that] by (simp add: bit_and_iff)
  qed
  have spaces: "le_spaces 8 = 0x2020202020202020"
    by code_simp
  have "\<forall>i < length bs. \<not> bit (le_value bs) (8 * i + 7)"
    using low assms(1) by (simp add: load64_def bit_word_of_int_iff)
  then have hi: "\<forall>b \<in> set bs. uint b < 128"
    using le_value_high_bits by blast
  have "?v - 0x2020202020202020 = word_of_int (le_value bs - le_spaces 8)"
    by (simp add: load64_def spaces wi_hom_sub)
  then have "\<not> bit (word_of_int (le_value bs - le_spaces 8) :: 64 word) (8 * i + 7)" if "i < 8" for i
    using sub [OF that] by metis
  then have "\<forall>i < 8. \<not> bit (le_value bs - le_spaces 8) (8 * i + 7)"
    by (simp only: bit_word_of_int_iff) simp
  then have "\<forall>i < length bs. \<not> bit (le_value bs - le_spaces (length bs)) (8 * i + 7)"
    using assms(1) by simp
  then have "0x20 \<le> uint b"
    using le_value_no_borrow hi assms(3) by blast
  with hi assms(3) show ?thesis
    by (simp add: word_le_def word_less_def)
qed

section \<open>Bytes as numbers\<close>

lemma unat_byte_less [simp]: "unat (b :: byte) < 256"
  using unsigned_less [of b, where ?'a = nat] by simp

lemma and_not_mask: "(b :: byte) AND NOT (mask n) = push_bit n (drop_bit n b)"
  by (rule bit_word_eqI) (auto simp: bit_simps)

lemma unat_and_not_mask: "unat ((b :: byte) AND NOT (mask n)) = unat b div 2 ^ n * 2 ^ n"
proof -
  have less: "unat b div 2 ^ n * 2 ^ n < 2 ^ 8"
    using le_less_trans [OF div_times_less_eq_dividend [of "unat b" "2 ^ n"] unat_byte_less] by simp
  have "unat (push_bit n (drop_bit n b)) = take_bit 8 (push_bit n (drop_bit n (unat b)))"
    by (simp only: unsigned_push_bit_eq unat_drop_bit_eq) simp
  also have "\<dots> = unat b div 2 ^ n * 2 ^ n"
    using less by (simp only: push_bit_eq_mult [where ?'a = nat] drop_bit_eq_div [where ?'a = nat]
       take_bit_eq_mod [where ?'a = nat] mod_less)
  finally show ?thesis by (simp only: and_not_mask)
qed

lemma unat_and_mask: "unat ((b :: byte) AND mask n) = unat b mod 2 ^ n"
  by (simp only: take_bit_eq_mask [symmetric] unsigned_take_bit_eq) (simp only: take_bit_eq_mod)

lemma not_masks:
  "NOT (mask 5) = (0xE0 :: byte)" "NOT (mask 4) = (0xF0 :: byte)"
  "NOT (mask 3) = (0xF8 :: byte)" "NOT (mask 6) = (0xC0 :: byte)"
  by (simp_all add: mask_eq_exp_minus_1)

lemma lead_masks:
  "(b :: byte) AND 0xE0 = 0xC0 \<longleftrightarrow> unat b div 32 = 6"
  "(b :: byte) AND 0xF0 = 0xE0 \<longleftrightarrow> unat b div 16 = 14"
  "(b :: byte) AND 0xF8 = 0xF0 \<longleftrightarrow> unat b div 8 = 30"
  "(b :: byte) AND 0xC0 = 0x80 \<longleftrightarrow> unat b div 64 = 2"
  using unat_and_not_mask [of b 5] unat_and_not_mask [of b 4] unat_and_not_mask [of b 3] unat_and_not_mask [of b 6]
  unfolding not_masks by (auto simp: word_unat_eq_iff)

lemma payload_masks:
  "unat ((b :: byte) AND 0x1F) = unat b mod 32"
  "unat ((b :: byte) AND 0x0F) = unat b mod 16"
  "unat ((b :: byte) AND 0x07) = unat b mod 8"
  "unat ((b :: byte) AND 0x3F) = unat b mod 64"
  using unat_and_mask [of b 5] unat_and_mask [of b 4] unat_and_mask [of b 3] unat_and_mask [of b 6]
  by (simp_all add: mask_eq_exp_minus_1)

lemma unat_ucast_byte: "unat (ucast (b :: byte) :: 32 word) = unat b"
proof -
  have "unat b < 2 ^ 32" using unat_byte_less [of b] by (rule less_trans) simp
  then show ?thesis
    by (simp add: unsigned_ucast_eq take_bit_nat_eq_self_iff del: unat_byte_less)
qed

lemma unat_push_or:
  assumes "unat code < 2 ^ 20"
  shows "unat (push_bit 6 code OR ucast (x AND 0x3F :: byte) :: 32 word) = unat code * 64 + unat x mod 64"
proof -
  let ?x = "ucast (x AND 0x3F) :: 32 word"
  have ux: "unat ?x = take_bit 6 (unat x)"
    by (simp add: unat_ucast_byte payload_masks take_bit_eq_mod)
  have uc: "unat (push_bit 6 code) = push_bit 6 (unat code)"
    using assms by (simp only: unsigned_push_bit_eq) (simp add: push_bit_eq_mult [where ?'a = nat] take_bit_nat_eq_self_iff)
  have "int (unat (push_bit 6 code OR ?x)) = int (push_bit 6 (unat code) OR take_bit 6 (unat x))"
    by (simp only: unsigned_or_eq ux uc)
  also have "\<dots> = take_bit 6 (int (unat x)) OR push_bit 6 (int (unat code))"
    by (simp only: of_nat_or_eq of_nat_push_bit of_nat_take_bit or.commute)
  also have "\<dots> = take_bit 6 (int (unat x)) + push_bit 6 (int (unat code))"
    using concat_bit_def [of 6 "int (unat x)" "int (unat code)"] concat_bit_eq [of 6 "int (unat x)" "int (unat code)"]
    by simp
  finally have "int (unat (push_bit 6 code OR ?x)) = int (unat code * 64 + unat x mod 64)"
    by (simp add: take_bit_eq_mod [where ?'a = int] push_bit_eq_mult [where ?'a = int] of_nat_mod)
  then show ?thesis by (simp only: of_nat_eq_iff)
qed

text \<open>The decoder on numbers.\<close>

fun continuation_nat :: "nat list \<Rightarrow> nat \<Rightarrow> nat option" where
  "continuation_nat [] code = Some code"
| "continuation_nat (n # ns) code = (if n div 64 \<noteq> 2 then None else continuation_nat ns (code * 64 + n mod 64))"

lemma continuation_nat:
  "unat code < 2 ^ (26 - 6 * length bs) \<Longrightarrow> length bs \<le> 3 \<Longrightarrow>
     map_option unat (continuation bs code) = continuation_nat (map unat bs) (unat code)"
proof (induction bs arbitrary: code)
  case (Cons b bs)
  let ?code = "push_bit 6 code OR ucast (b AND 0x3F)"
  have small: "unat code < 2 ^ 20"
    using Cons.prems(1) power_increasing [of "20 - 6 * length bs" 20 "2 :: nat"] by simp
  then have step: "unat ?code = unat code * 64 + unat b mod 64"
    by (rule unat_push_or)
  have "2 ^ (26 - 6 * length bs) = 64 * (2 :: nat) ^ (26 - 6 * length (b # bs))"
    using Cons.prems(2) by (auto simp: le_Suc_eq numeral_3_eq_3)
  then have "unat ?code < 2 ^ (26 - 6 * length bs)"
    using Cons.prems(1) unfolding step by (simp del: list.size)
  then show ?case
    using Cons step by (simp add: lead_masks)
qed simp

lemma unat_lead:
  "unat (ucast (b AND 0x1F :: byte) :: 32 word) = unat b mod 32"
  "unat (ucast (b AND 0x0F :: byte) :: 32 word) = unat b mod 16"
  "unat (ucast (b AND 0x07 :: byte) :: 32 word) = unat b mod 8"
  by (simp_all add: unat_ucast_byte payload_masks)

text \<open>The checks after a sequence has been decoded, on numbers.\<close>

definition code_ok :: "nat \<Rightarrow> nat \<Rightarrow> bool" where
  "code_ok smallest k \<longleftrightarrow> smallest \<le> k \<and> k \<le> 0x10FFFF \<and> \<not> (0xD800 \<le> k \<and> k \<le> 0xDFFF)"

lemma code_ok_word:
  "unat s = smallest \<Longrightarrow>
    \<not> (code < s \<or> code > 0x10FFFF \<or> (code \<ge> 0xD800 \<and> code \<le> 0xDFFF)) \<longleftrightarrow> code_ok smallest (unat (code :: 32 word))"
  by (auto simp: code_ok_def word_less_nat_alt word_le_nat_alt)

fun scalar_nat :: "byte list \<Rightarrow> (nat \<times> byte list) option" where
  "scalar_nat [] = None"
| "scalar_nat (c # rest) =
    (let try = (\<lambda>len code smallest.
        if Suc (length rest) < len then None
        else case continuation_nat (map unat (take (len - 1) rest)) code of
           None \<Rightarrow> None
         | Some k \<Rightarrow> if code_ok smallest k then Some (k, drop (len - 1) rest) else None)
     in if unat c < 0x20 then None
        else if unat c < 0x80 then Some (unat c, rest)
        else if unat c div 32 = 6 then try 2 (unat c mod 32) 0x80
        else if unat c div 16 = 14 then try 3 (unat c mod 16) 0x800
        else if unat c div 8 = 30 then try 4 (unat c mod 8) 0x10000
        else None)"

lemma map_option_eq_cases:
  "map_option f x = y \<Longrightarrow> (case x of None \<Rightarrow> a | Some v \<Rightarrow> g (f v)) = (case y of None \<Rightarrow> a | Some w \<Rightarrow> g w)"
  by (cases x) auto

lemma step_try:
  assumes "len \<in> {2, 3, 4}" "unat code < 2 ^ (26 - 6 * (len - 1))" "unat smallest = s"
  shows "(if Suc (length rest) < len then None
          else case continuation (take (len - 1) rest) code of
            None \<Rightarrow> None
          | Some code' \<Rightarrow>
              if code' < smallest \<or> code' > 0x10FFFF \<or> (code' \<ge> 0xD800 \<and> code' \<le> 0xDFFF) then None
              else Some (drop (len - 1) rest))
       = map_option snd (if Suc (length rest) < len then None
        else case continuation_nat (map unat (take (len - 1) rest)) (unat code) of
           None \<Rightarrow> None
         | Some k \<Rightarrow> if code_ok s k then Some (k, drop (len - 1) rest) else None)"
proof (cases "Suc (length rest) < len")
  case False
  then have len: "length (take (len - 1) rest) = len - 1" by simp
  have cont: "map_option unat (continuation (take (len - 1) rest) code)
      = continuation_nat (map unat (take (len - 1) rest)) (unat code)"
    using assms(1,2) continuation_nat [of code "take (len - 1) rest"] unfolding len by auto
  show ?thesis
    using False code_ok_word [OF assms(3)] unfolding cont [symmetric]
    by (cases "continuation (take (len - 1) rest) code") auto
qed simp

lemma scalar_step_nat: "scalar_step bs = map_option snd (scalar_nat bs)"
proof (cases bs)
  case (Cons c rest)
  have lt: "unat c mod 32 < 2 ^ 20" "unat c mod 16 < 2 ^ 14" "unat c mod 8 < 2 ^ 8"
    using mod_less_divisor [of 32 "unat c"] mod_less_divisor [of 16 "unat c"] mod_less_divisor [of 8 "unat c"]
    by simp_all
  have cmp: "c < 0x20 \<longleftrightarrow> unat c < 0x20" "c < 0x80 \<longleftrightarrow> unat c < 0x80"
    by (simp_all add: word_less_nat_alt)
  have s2: "unat (0x80 :: 32 word) = 0x80" "unat (0x800 :: 32 word) = 0x800" "unat (0x10000 :: 32 word) = 0x10000"
    by simp_all
  note t2 = step_try [of 2 "ucast (c AND 0x1F)" "0x80" "0x80" rest]
  note t3 = step_try [of 3 "ucast (c AND 0x0F)" "0x800" "0x800" rest]
  note t4 = step_try [of 4 "ucast (c AND 0x07)" "0x10000" "0x10000" rest]
  show ?thesis
    using t2 t3 t4 lt unfolding Cons by (simp add: lead_def lead_masks cmp unat_lead s2 Let_def)
qed simp

lemma code_ok_printable: "smallest \<ge> 0x20 \<Longrightarrow> code_ok smallest k \<Longrightarrow> printable_scalar k"
  by (simp add: code_ok_def printable_scalar_def)

lemma word_of_nat_unat: "word_of_nat (unat b) = b"
  by simp

lemma byte_split:
  "unat b div 64 = 2 \<Longrightarrow> word_of_nat (0x80 + unat b mod 64) = (b :: byte)"
  "unat b div 32 = 6 \<Longrightarrow> word_of_nat (0xC0 + unat b mod 32) = (b :: byte)"
  "unat b div 16 = 14 \<Longrightarrow> word_of_nat (0xE0 + unat b mod 16) = (b :: byte)"
  "unat b div 8 = 30 \<Longrightarrow> word_of_nat (0xF0 + unat b mod 8) = (b :: byte)"
  using div_mult_mod_eq [of "unat b" 64] div_mult_mod_eq [of "unat b" 32] div_mult_mod_eq [of "unat b" 16]
    div_mult_mod_eq [of "unat b" 8] word_of_nat_unat [of b] by simp_all

lemma digits_64:
  fixes x y z w :: nat
  assumes "y < 64"
  shows "(x * 64 + y) div 64 = x" "(x * 64 + y) mod 64 = y"
    and "(x * 64 + y) div 4096 = x div 64" "(x * 64 + y) div 262144 = x div 4096"
  using assms div_mult2_eq [of "x * 64 + y" 64 64] div_mult2_eq [of "x * 64 + y" 64 4096] by simp_all

lemma encode1: "unat c < 0x80 \<Longrightarrow> utf8_encode (unat c) = [c]"
  by (simp add: utf8_encode_def)

lemma encode2:
  assumes "unat c div 32 = 6" "unat a div 64 = 2" "k = unat c mod 32 * 64 + unat a mod 64" "code_ok 0x80 k"
  shows "utf8_encode k = [c, a]"
proof -
  have lt: "unat a mod 64 < 64" "unat c mod 32 < 32" by simp_all
  have "utf8_encode k = [word_of_nat (0xC0 + k div 64), word_of_nat (0x80 + k mod 64)]"
    using assms(3,4) lt by (auto simp: utf8_encode_def code_ok_def)
  then show ?thesis
    by (simp only: assms(3) digits_64 [OF lt(1)] byte_split assms(1,2))
qed

lemma encode3:
  assumes "unat c div 16 = 14" "unat a div 64 = 2" "unat b div 64 = 2"
    "k = (unat c mod 16 * 64 + unat a mod 64) * 64 + unat b mod 64" "code_ok 0x800 k"
  shows "utf8_encode k = [c, a, b]"
proof -
  have lt: "unat a mod 64 < 64" "unat b mod 64 < 64" "unat c mod 16 < 16" by simp_all
  have "k < 0x10000" using lt assms(4) by simp
  then have "utf8_encode k = [word_of_nat (0xE0 + k div 4096), word_of_nat (0x80 + k div 64 mod 64), word_of_nat (0x80 + k mod 64)]"
    using assms(5) by (simp add: utf8_encode_def code_ok_def)
  then show ?thesis
    by (simp only: assms(4) digits_64 [OF lt(1)] digits_64 [OF lt(2)] byte_split assms(1-3))
qed

lemma encode4:
  assumes "unat c div 8 = 30" "unat a div 64 = 2" "unat b div 64 = 2" "unat d div 64 = 2"
    "k = ((unat c mod 8 * 64 + unat a mod 64) * 64 + unat b mod 64) * 64 + unat d mod 64" "code_ok 0x10000 k"
  shows "utf8_encode k = [c, a, b, d]"
proof -
  have lt: "unat a mod 64 < 64" "unat b mod 64 < 64" "unat d mod 64 < 64" by simp_all
  have "utf8_encode k = [word_of_nat (0xF0 + k div 262144), word_of_nat (0x80 + k div 4096 mod 64),
            word_of_nat (0x80 + k div 64 mod 64), word_of_nat (0x80 + k mod 64)]"
    using assms(6) by (simp add: utf8_encode_def code_ok_def)
  then show ?thesis
    by (simp only: assms(5) digits_64 [OF lt(1)] digits_64 [OF lt(2)] digits_64 [OF lt(3)] byte_split assms(1-4))
qed

lemma continuation_nat_take:
  assumes "continuation_nat (map unat (take (Suc n) cs)) x = Some k" "Suc n \<le> length cs"
  obtains a r where "cs = a # r" "unat a div 64 = 2"
    "continuation_nat (map unat (take n r)) (x * 64 + unat a mod 64) = Some k" "n \<le> length r"
  using assms by (cases cs) (auto split: if_splits)

lemma scalar_nat_cases:
  assumes "scalar_nat (c # cs) = Some (k, rest)"
  obtains
      (1) "\<not> unat c < 0x20" "unat c < 0x80" "k = unat c" "rest = cs"
    | (2) a where "unat c div 32 = 6" "cs = a # rest" "unat a div 64 = 2"
        "k = unat c mod 32 * 64 + unat a mod 64" "code_ok 0x80 k"
    | (3) a b where "unat c div 16 = 14" "cs = a # b # rest" "unat a div 64 = 2" "unat b div 64 = 2"
        "k = (unat c mod 16 * 64 + unat a mod 64) * 64 + unat b mod 64" "code_ok 0x800 k"
    | (4) a b d where "unat c div 8 = 30" "cs = a # b # d # rest" "unat a div 64 = 2" "unat b div 64 = 2" "unat d div 64 = 2"
        "k = ((unat c mod 8 * 64 + unat a mod 64) * 64 + unat b mod 64) * 64 + unat d mod 64" "code_ok 0x10000 k"
proof -
  consider "\<not> unat c < 0x20 \<and> unat c < 0x80 \<and> k = unat c \<and> rest = cs"
    | "unat c div 32 = 6 \<and> Suc 0 \<le> length cs \<and> continuation_nat (map unat (take (Suc 0) cs)) (unat c mod 32) = Some k
        \<and> code_ok 0x80 k \<and> rest = drop 1 cs"
    | "unat c div 16 = 14 \<and> Suc (Suc 0) \<le> length cs \<and> continuation_nat (map unat (take (Suc (Suc 0)) cs)) (unat c mod 16) = Some k
        \<and> code_ok 0x800 k \<and> rest = drop 2 cs"
    | "unat c div 8 = 30 \<and> Suc (Suc (Suc 0)) \<le> length cs \<and> continuation_nat (map unat (take (Suc (Suc (Suc 0))) cs)) (unat c mod 8) = Some k
        \<and> code_ok 0x10000 k \<and> rest = drop 3 cs"
    using assms
    by (simp add: Let_def numeral_2_eq_2 numeral_3_eq_3 not_less Suc_le_eq split: if_splits option.splits)
  then show ?thesis
  proof cases
    case 1
    then show ?thesis using that(1) by blast
  next
    case 2
    then obtain a r where "cs = a # r" "unat a div 64 = 2" "k = unat c mod 32 * 64 + unat a mod 64"
      by (auto elim!: continuation_nat_take)
    with 2 show ?thesis using that(2) [of a] by simp
  next
    case 3
    then obtain a b r where "cs = a # b # r" "unat a div 64 = 2" "unat b div 64 = 2"
        "k = (unat c mod 16 * 64 + unat a mod 64) * 64 + unat b mod 64"
      by (auto elim!: continuation_nat_take)
    with 3 show ?thesis using that(3) [of a b] by simp
  next
    case 4
    then obtain a b d r where "cs = a # b # d # r" "unat a div 64 = 2" "unat b div 64 = 2" "unat d div 64 = 2"
        "k = ((unat c mod 8 * 64 + unat a mod 64) * 64 + unat b mod 64) * 64 + unat d mod 64"
      by (auto elim!: continuation_nat_take)
    with 4 show ?thesis using that(4) [of a b d] by simp
  qed
qed

lemma scalar_nat_sound:
  "scalar_nat bs = Some (k, rest) \<Longrightarrow> printable_scalar k \<and> bs = utf8_encode k @ rest"
proof (cases bs)
  case (Cons c cs)
  assume "scalar_nat bs = Some (k, rest)"
  then have "scalar_nat (c # cs) = Some (k, rest)" using Cons by simp
  then show ?thesis
  proof (cases rule: scalar_nat_cases)
    case 1
    then show ?thesis using Cons by (simp add: encode1 printable_scalar_def)
  next
    case (2 a)
    then show ?thesis using Cons encode2 [OF 2(1,3,4,5)] code_ok_printable [OF _ 2(5)] by simp
  next
    case (3 a b)
    then show ?thesis using Cons encode3 [OF 3(1,3,4,5,6)] code_ok_printable [OF _ 3(6)] by simp
  next
    case (4 a b d)
    then show ?thesis using Cons encode4 [OF 4(1,3,4,5,6,7)] code_ok_printable [OF _ 4(7)] by simp
  qed
qed simp

lemma unat_byte: "n < 256 \<Longrightarrow> unat (word_of_nat n :: byte) = n"
  by (simp add: unat_of_nat)

lemma digit_div_mod: "m < d \<Longrightarrow> (q * d + m) div d = q" "m < d \<Longrightarrow> (q * d + m) mod d = m" for m d q :: nat
  by simp_all

lemma byte_digits:
  "m < 64 \<Longrightarrow> (0x80 + m) div 64 = (2::nat)" "m < 64 \<Longrightarrow> (0x80 + m) mod 64 = (m::nat)"
  "m < 32 \<Longrightarrow> (0xC0 + m) div 32 = (6::nat)" "m < 32 \<Longrightarrow> (0xC0 + m) mod 32 = (m::nat)"
  "m < 16 \<Longrightarrow> (0xE0 + m) div 16 = (14::nat)" "m < 16 \<Longrightarrow> (0xE0 + m) mod 16 = (m::nat)"
  "m < 8 \<Longrightarrow> (0xF0 + m) div 8 = (30::nat)" "m < 8 \<Longrightarrow> (0xF0 + m) mod 8 = (m::nat)"
  using digit_div_mod [of m 64 2] digit_div_mod [of m 32 6] digit_div_mod [of m 16 14] digit_div_mod [of m 8 30]
  by simp_all

lemma scalar_nat_complete:
  assumes "printable_scalar k"
  shows "scalar_nat (utf8_encode k @ rest) = Some (k, rest)"
proof -
  have d64: "\<And>n. n mod 64 < (64 :: nat)" "\<And>n. n mod 64 < (128 :: nat)" by (simp_all add: less_le_trans)
  consider "k < 0x80" | "0x80 \<le> k" "k < 0x800" | "0x800 \<le> k" "k < 0x10000" | "0x10000 \<le> k" by linarith
  then show ?thesis
  proof cases
    case 1
    then show ?thesis
      using assms by (simp add: utf8_encode_def unat_byte printable_scalar_def Let_def)
  next
    case 2
    let ?c = "word_of_nat (0xC0 + k div 64) :: byte" and ?a = "word_of_nat (0x80 + k mod 64) :: byte"
    have hi: "k div 64 < 32" using 2 by simp
    have u: "unat ?c = 0xC0 + k div 64" "unat ?a = 0x80 + k mod 64"
      using hi d64 [of k] by (intro unat_byte; simp)+
    have k: "code_ok 0x80 k" using assms 2 by (simp add: code_ok_def printable_scalar_def)
    have e: "utf8_encode k = [?c, ?a]" using 2 by (simp add: utf8_encode_def)
    show ?thesis
      unfolding e using k hi d64 [of k]
      by (simp add: u byte_digits Let_def del: of_nat_add of_nat_mod)
  next
    case 3
    let ?c = "word_of_nat (0xE0 + k div 4096) :: byte" and ?a = "word_of_nat (0x80 + k div 64 mod 64) :: byte"
      and ?b = "word_of_nat (0x80 + k mod 64) :: byte"
    have hi: "k div 4096 < 16" using 3 by simp
    have u: "unat ?c = 0xE0 + k div 4096" "unat ?a = 0x80 + k div 64 mod 64" "unat ?b = 0x80 + k mod 64"
      using hi d64 [of k] d64 [of "k div 64"] by (intro unat_byte; simp)+
    have k: "code_ok 0x800 k" using assms 3 by (simp add: code_ok_def printable_scalar_def)
    have e: "utf8_encode k = [?c, ?a, ?b]" using 3 by (simp add: utf8_encode_def)
    have r: "k div 4096 * 64 + k div 64 mod 64 = k div 64"
      using div_mult_mod_eq [of "k div 64" 64] by (simp add: div_mult2_eq [symmetric])
    have s: "(k div 4096 * 64 + k div 64 mod 64) * 64 + k mod 64 = k"
      by (simp only: r div_mult_mod_eq)
    have r': "(0xE0 + k div 4096) div 32 \<noteq> 6" by simp
    show ?thesis
      unfolding e using k hi d64 [of k] d64 [of "k div 64"] r' s
      by (simp add: u byte_digits Let_def numeral_2_eq_2 del: of_nat_add of_nat_mod)
  next
    case 4
    let ?c = "word_of_nat (0xF0 + k div 262144) :: byte" and ?a = "word_of_nat (0x80 + k div 4096 mod 64) :: byte"
      and ?b = "word_of_nat (0x80 + k div 64 mod 64) :: byte" and ?d = "word_of_nat (0x80 + k mod 64) :: byte"
    have "k < 2097152" using assms by (simp add: printable_scalar_def)
    then have hi: "k div 262144 < 8" by simp
    have u: "unat ?c = 0xF0 + k div 262144" "unat ?a = 0x80 + k div 4096 mod 64" "unat ?b = 0x80 + k div 64 mod 64"
        "unat ?d = 0x80 + k mod 64"
      using hi d64 [of k] d64 [of "k div 64"] d64 [of "k div 4096"] by (intro unat_byte; simp)+
    have k: "code_ok 0x10000 k" using assms 4 by (simp add: code_ok_def printable_scalar_def)
    have e: "utf8_encode k = [?c, ?a, ?b, ?d]" using 4 by (simp add: utf8_encode_def)
    have r: "k div 262144 * 64 + k div 4096 mod 64 = k div 4096"
        "k div 4096 * 64 + k div 64 mod 64 = k div 64"
      using div_mult_mod_eq [of "k div 4096" 64] div_mult_mod_eq [of "k div 64" 64]
      by (simp_all add: div_mult2_eq [symmetric])
    have s: "((k div 262144 * 64 + k div 4096 mod 64) * 64 + k div 64 mod 64) * 64 + k mod 64 = k"
      by (simp only: r div_mult_mod_eq)
    have r': "(0xF0 + k div 262144) div 32 \<noteq> 6" "(0xF0 + k div 262144) div 16 \<noteq> 14" by simp_all
    show ?thesis
      unfolding e using k hi d64 [of k] d64 [of "k div 64"] d64 [of "k div 4096"] r' s
      by (simp add: u byte_digits Let_def numeral_3_eq_3 del: of_nat_add of_nat_mod)
  qed
qed

section \<open>The routine is the specification\<close>

lemma scalar_step_sound:
  "scalar_step bs = Some rest \<Longrightarrow> \<exists>c. printable_scalar c \<and> bs = utf8_encode c @ rest"
  using scalar_nat_sound by (auto simp: scalar_step_nat)

lemma scalar_step_complete: "printable_scalar c \<Longrightarrow> scalar_step (utf8_encode c @ rest) = Some rest"
  by (simp add: scalar_step_nat scalar_nat_complete)

text \<open>The encodings of the texts of printable characters.\<close>

definition encodes_line :: "byte list \<Rightarrow> bool" where
  "encodes_line bs \<longleftrightarrow> (\<exists>cps. (\<forall>c \<in> set cps. printable_scalar c) \<and> bs = concat (map utf8_encode cps))"

lemma encodes_line_Nil [simp]: "encodes_line []"
  unfolding encodes_line_def by (rule exI [of _ "[]"]) simp

lemma encodes_line_cons: "printable_scalar c \<Longrightarrow> encodes_line bs \<Longrightarrow> encodes_line (utf8_encode c @ bs)"
proof -
  assume "printable_scalar c" "encodes_line bs"
  then obtain cps where "\<forall>x \<in> set (c # cps). printable_scalar x" "utf8_encode c @ bs = concat (map utf8_encode (c # cps))"
    by (auto simp: encodes_line_def)
  then show ?thesis unfolding encodes_line_def by blast
qed

lemma encodes_line_step:
  assumes "encodes_line bs" "bs \<noteq> []"
  obtains rest where "scalar_step bs = Some rest" "encodes_line rest"
proof -
  obtain cps where cps: "\<forall>c \<in> set cps. printable_scalar c" "bs = concat (map utf8_encode cps)"
    using assms(1) unfolding encodes_line_def by blast
  with assms(2) obtain c cs where "cps = c # cs" by (cases cps) auto
  with cps show ?thesis
    using that [of "concat (map utf8_encode cs)"] scalar_step_complete [of c] by (auto simp: encodes_line_def)
qed

text \<open>A plain character is its own encoding, so a skipped block is a piece of a line.\<close>

lemma encodes_line_plain: "0x20 \<le> b \<Longrightarrow> b < 0x80 \<Longrightarrow> encodes_line (b # bs) \<longleftrightarrow> encodes_line bs"
proof -
  assume b: "0x20 \<le> b" "b < 0x80"
  then have n: "unat b < 0x80" "0x20 \<le> unat b"
    by (simp_all add: word_less_nat_alt word_le_nat_alt)
  have step: "scalar_step (b # bs) = Some bs"
    using b by (simp add: leD)
  show ?thesis
  proof
    assume "encodes_line (b # bs)"
    then show "encodes_line bs" using step by (auto elim: encodes_line_step)
  next
    assume "encodes_line bs"
    then show "encodes_line (b # bs)"
      using encodes_line_cons [of "unat b" bs] n by (simp add: encode1 printable_scalar_def)
  qed
qed

lemma encodes_line_append_plain:
  "\<forall>b \<in> set xs. 0x20 \<le> b \<and> b < 0x80 \<Longrightarrow> encodes_line (xs @ bs) \<longleftrightarrow> encodes_line bs"
  by (induction xs) (auto simp: encodes_line_plain)

lemma encodes_line_skip_blocks: "encodes_line (skip_blocks bs) \<longleftrightarrow> encodes_line bs"
proof (induction bs rule: skip_blocks.induct)
  case (1 bs)
  show ?case
  proof (cases "8 \<le> length bs \<and> ascii_block (load64 (take 8 bs))")
    case True
    then have "encodes_line (take 8 bs @ drop 8 bs) \<longleftrightarrow> encodes_line (drop 8 bs)"
      using ascii_block_sound [of "take 8 bs"] by (intro encodes_line_append_plain) auto
    then show ?thesis using 1 [OF True] True by (simp add: skip_blocks.simps [of bs])
  next
    case False
    then have "skip_blocks bs = bs" by (subst skip_blocks.simps) (rule if_not_P)
    then show ?thesis by simp
  qed
qed

lemma isOneLineOfUtf8_encodes_line: "isOneLineOfUtf8 bs \<longleftrightarrow> encodes_line bs"
proof (induction bs rule: isOneLineOfUtf8.induct)
  case (1 bs)
  show ?case
  proof (cases "skip_blocks bs")
    case Nil
    then show ?thesis
      using encodes_line_skip_blocks [of bs] by (simp add: isOneLineOfUtf8.simps [of bs])
  next
    case (Cons c tail)
    show ?thesis
    proof (cases "scalar_step (c # tail)")
      case None
      then have "\<not> encodes_line (c # tail)" by (auto elim: encodes_line_step)
      then show ?thesis
        using None Cons encodes_line_skip_blocks [of bs] by (simp add: isOneLineOfUtf8.simps [of bs])
    next
      case (Some rest)
      have "encodes_line (c # tail) \<longleftrightarrow> encodes_line rest"
        using Some scalar_step_sound [OF Some] encodes_line_cons
        by (metis encodes_line_step list.distinct(1) option.inject)
      then show ?thesis
        using Some Cons 1 [OF Cons Some] encodes_line_skip_blocks [of bs]
        by (simp add: isOneLineOfUtf8.simps [of bs])
    qed
  qed
qed

lemma utf8_encode_no_control:
  "printable_scalar c \<Longrightarrow> b \<in> set (utf8_encode c) \<Longrightarrow> 0x20 \<le> b"
proof -
  assume c: "printable_scalar c" "b \<in> set (utf8_encode c)"
  have d64: "\<And>n. n mod 64 < (64 :: nat)" by simp
  have "c < 2097152" using c by (simp add: printable_scalar_def)
  then have hi: "c div 262144 < 8" by simp
  have "0x20 \<le> unat b"
    using c hi d64 [of c] d64 [of "c div 64"] d64 [of "c div 4096"]
    by (auto simp: utf8_encode_def printable_scalar_def unat_byte div_less_iff_less_mult
          simp del: of_nat_add of_nat_mod split: if_splits)
  then show ?thesis by (simp add: word_le_nat_alt)
qed

text \<open>
  C7. \<open>isOneLineOfUtf8\<close> accepts exactly the UTF-8 encodings (RFC 3629: no overlong form, no
  surrogate, nothing above U+10FFFF) of the texts without a character below the space; the
  eight-bytes-at-a-time test changes nothing of that.
\<close>

theorem isOneLineOfUtf8_exact: "isOneLineOfUtf8 bs \<longleftrightarrow> encodes_line bs"
  by (rule isOneLineOfUtf8_encodes_line)

lemma one_line_no_control: "isOneLineOfUtf8 bs \<Longrightarrow> b \<in> set bs \<Longrightarrow> 0x20 \<le> b"
proof -
  assume "isOneLineOfUtf8 bs" and b: "b \<in> set bs"
  then obtain cps where cps: "\<forall>c \<in> set cps. printable_scalar c" "bs = concat (map utf8_encode cps)"
    unfolding isOneLineOfUtf8_encodes_line encodes_line_def by blast
  with b obtain c where "c \<in> set cps" "b \<in> set (utf8_encode c)" by auto
  with cps(1) utf8_encode_no_control [of c b] show ?thesis by blast
qed

text \<open>A line with a character of each length; an overlong form of the slash, a surrogate and a newline
  after a block of eight are refused.\<close>

lemma isOneLineOfUtf8_examples:
  "isOneLineOfUtf8 [0x41, 0xC3, 0xA9, 0xE2, 0x82, 0xAC, 0xF0, 0x9F, 0x98, 0x80]"
  "\<not> isOneLineOfUtf8 [0xC0, 0xAF]"
  "\<not> isOneLineOfUtf8 [0xED, 0xA0, 0x80]"
  "\<not> isOneLineOfUtf8 [0x61, 0x62, 0x63, 0x64, 0x65, 0x66, 0x67, 0x68, 0x0A]"
  by code_simp+

end
