(* ===== verification/Message.thy ===== *)
theory Message
  imports Json
begin

text \<open>
  The messages of the Jupyter protocol: \<open>MessageBase\<close>, \<open>Message\<close> and \<open>PubMessage\<close> of
  \<open>native/include/adrastea/message.hpp\<close> and \<open>native/src/adrastea/core/messaging/message.cpp\<close>.
  A message's content may be given as its text and parsed the first time it is read; that field is
  \<open>mutable\<close> in the code, so reading the content here returns the message too.

  The text form of JSON is not the program's: \<open>parse\<close> is \<open>json::parse\<close> without exceptions and
  with comments ignored (\<open>JDiscarded\<close> for a text that is not JSON), a parameter of what uses it.
  The identifier and the date of a new header come from \<open>newGuid\<close> and the clock: \<open>makeHeader\<close>
  takes them as arguments, and the components that make headers draw them from a supply.
\<close>

type_synonym parser = "string \<Rightarrow> json"
type_synonym printer = "json \<Rightarrow> string result"
type_synonym binary_buffer = string
type_synonym guid_list = "string list"

record message_base =
  m_header :: json
  m_parentHeader :: json
  m_metadata :: json
  m_content :: json
  m_contentDeferred :: bool
  m_hasContentText :: bool
  m_contentText :: string
  m_buffers :: "binary_buffer list"

record message = message_base +
  m_zmqId :: guid_list

record pub_message = message_base +
  m_topic :: string

definition new_message :: "guid_list \<Rightarrow> json \<Rightarrow> json \<Rightarrow> json \<Rightarrow> json \<Rightarrow> binary_buffer list \<Rightarrow> message" where
  "new_message zmq_id header parent_header metadata content buffers =
     \<lparr> m_header = header, m_parentHeader = parent_header, m_metadata = metadata, m_content = content,
       m_contentDeferred = False, m_hasContentText = False, m_contentText = [], m_buffers = buffers,
       m_zmqId = zmq_id \<rparr>"

definition new_pub_message :: "string \<Rightarrow> json \<Rightarrow> json \<Rightarrow> json \<Rightarrow> json \<Rightarrow> binary_buffer list \<Rightarrow> pub_message" where
  "new_pub_message topic header parent_header metadata content buffers =
     \<lparr> m_header = header, m_parentHeader = parent_header, m_metadata = metadata, m_content = content,
       m_contentDeferred = False, m_hasContentText = False, m_contentText = [], m_buffers = buffers,
       m_topic = topic \<rparr>"

definition deferContent :: "string \<Rightarrow> 'm message_base_scheme \<Rightarrow> 'm message_base_scheme" where
  "deferContent text m =
     m\<lparr> m_contentText := text, m_hasContentText := True, m_contentDeferred := True, m_content := JNull \<rparr>"

definition parseDeferredContent :: "parser \<Rightarrow> 'm message_base_scheme \<Rightarrow> 'm message_base_scheme" where
  "parseDeferredContent parse m =
     (let j = parse (m_contentText m)
      in m\<lparr> m_contentDeferred := False,
            m_content := (if j = JDiscarded
                          then jobj [(''error'', JString ''JSON parse error: the message's content is not JSON'')]
                          else j) \<rparr>)"

definition content :: "parser \<Rightarrow> 'm message_base_scheme \<Rightarrow> json \<times> 'm message_base_scheme" where
  "content parse m =
     (let m' = (if m_contentDeferred m then parseDeferredContent parse m else m) in (m_content m', m'))"

definition contentText :: "'m message_base_scheme \<Rightarrow> string option" where
  "contentText m = (if m_hasContentText m then Some (m_contentText m) else None)"

text \<open>\<open>adrastea::version\<close>: the protocol's version, written at compile time from its two numbers (the
  digits are appended the last one first and reversed in place).\<close>

definition append_int :: "nat \<Rightarrow> string \<Rightarrow> string" where
  "append_int num buf = (if num = 0 then buf @ ''0'' else buf @ rev (digits_lsb num))"

definition makeVersionString :: "nat \<Rightarrow> nat \<Rightarrow> string" where
  "makeVersionString major minor = append_int minor (append_int major [] @ ''.'')"

definition kernel_protocol_version :: string where
  "kernel_protocol_version = makeVersionString 5 6"

definition makeHeader :: "string \<times> string \<Rightarrow> string \<Rightarrow> string \<Rightarrow> string \<Rightarrow> json" where
  "makeHeader fresh msg_type user_name session_id =
     jobj [(''msg_id'', JString (fst fresh)), (''username'', JString user_name),
           (''session'', JString session_id), (''date'', JString (snd fresh)),
           (''msg_type'', JString msg_type), (''version'', JString kernel_protocol_version)]"

section \<open>Laws\<close>

lemma makeVersionString_eq: "makeVersionString a b = show_nat a @ ''.'' @ show_nat b"
  by (simp add: makeVersionString_def append_int_def show_nat_def)

lemma kernel_protocol_version_eq: "kernel_protocol_version = ''5.6''"
  by code_simp

lemma makeHeader_fields [json_simps]:
  "json_lookup (makeHeader fresh msg_type user_name session_id) ''msg_id'' = Some (JString (fst fresh))"
  "json_lookup (makeHeader fresh msg_type user_name session_id) ''msg_type'' = Some (JString msg_type)"
  "json_lookup (makeHeader fresh msg_type user_name session_id) ''session'' = Some (JString session_id)"
  "json_lookup (makeHeader fresh msg_type user_name session_id) ''username'' = Some (JString user_name)"
  by (simp_all add: makeHeader_def json_lookup_jobj)

text \<open>Reading the content twice parses once, and gives the same value.\<close>

lemma content_again: "content parse (snd (content parse m)) = content parse m"
  by (simp add: content_def parseDeferredContent_def Let_def)

lemma content_keeps:
  "m_header (snd (content parse m)) = m_header m" "m_parentHeader (snd (content parse m)) = m_parentHeader m"
  "m_metadata (snd (content parse m)) = m_metadata m" "m_buffers (snd (content parse m)) = m_buffers m"
  "contentText (snd (content parse m)) = contentText m"
  by (simp_all add: content_def contentText_def parseDeferredContent_def Let_def)

lemma contentText_deferContent [simp]: "contentText (deferContent t m) = Some t"
  by (simp add: contentText_def deferContent_def)

lemma content_deferContent:
  "fst (content parse (deferContent t m)) =
     (if parse t = JDiscarded then jobj [(''error'', JString ''JSON parse error: the message's content is not JSON'')]
      else parse t)"
  by (simp add: content_def deferContent_def parseDeferredContent_def Let_def)

lemma new_message_fields [simp]:
  "m_zmqId (new_message ids h p md c bs) = ids" "m_header (new_message ids h p md c bs) = h"
  "m_parentHeader (new_message ids h p md c bs) = p" "m_metadata (new_message ids h p md c bs) = md"
  "m_content (new_message ids h p md c bs) = c" "m_buffers (new_message ids h p md c bs) = bs"
  "contentText (new_message ids h p md c bs) = None" "content parse (new_message ids h p md c bs) = (c, new_message ids h p md c bs)"
  by (simp_all add: new_message_def contentText_def content_def)

lemma new_pub_message_fields [simp]:
  "m_topic (new_pub_message t h p md c bs) = t" "m_header (new_pub_message t h p md c bs) = h"
  "m_parentHeader (new_pub_message t h p md c bs) = p" "m_metadata (new_pub_message t h p md c bs) = md"
  "m_content (new_pub_message t h p md c bs) = c" "m_buffers (new_pub_message t h p md c bs) = bs"
  "contentText (new_pub_message t h p md c bs) = None"
  "content parse (new_pub_message t h p md c bs) = (c, new_pub_message t h p md c bs)"
  by (simp_all add: new_pub_message_def contentText_def content_def)

lemma deferContent_fields [simp]:
  "m_header (deferContent t m) = m_header m" "m_parentHeader (deferContent t m) = m_parentHeader m"
  "m_metadata (deferContent t m) = m_metadata m" "m_buffers (deferContent t m) = m_buffers m"
  by (simp_all add: deferContent_def)

lemma deferContent_id [simp]:
  "m_zmqId (deferContent t m) = m_zmqId m" "m_topic (deferContent t p) = m_topic p"
  by (simp_all add: deferContent_def)

end
