(* ===== verification/Serializer.thy ===== *)
theory Serializer
  imports Message Authentication Utf8
begin

text \<open>
  The wire form of a message: \<open>native/src/adrastea/transport/common/zmq_serializer.cpp\<close>. A message
  is a multipart: the identities (or the topic of a published message), the delimiter, the
  signature, four frames of JSON, and the binary buffers.

  \<open>sign\<close> and \<open>verify\<close> are the authentication's, the interface \<open>authenticator\<close>; \<open>parse\<close> and
  \<open>dump\<close> are \<open>nlohmann::json\<close>'s. What the round trips need of those two is that the printed form
  of the four parts parses back to them (\<open>prints_back\<close>); the laws proved for any authenticator
  are carried over to the authentication of the code by its interpretation.
\<close>

section \<open>The code\<close>

definition DELIMITER :: frame where
  "DELIMITER = ''<IDS|MSG>''"

definition isDelimiter :: "frame \<Rightarrow> bool" where
  "isDelimiter frame = (if length frame \<noteq> length DELIMITER then False else frame = DELIMITER)"

text \<open>\<open>json::parse\<close> is called without exceptions here, so it never throws the \<open>parse_error\<close> that
  the function's handler waits for: a frame that is not JSON is a discarded value.\<close>

definition parseZmqMessage :: "parser \<Rightarrow> frame \<Rightarrow> json" where
  "parseZmqMessage parse msg = parse msg"

definition writeZmqMessage :: "printer \<Rightarrow> json \<Rightarrow> frame result" where
  "writeZmqMessage dump j = dump j"

definition serializeMessageBase ::
  "parser \<Rightarrow> printer \<Rightarrow> (frame list \<Rightarrow> frame) \<Rightarrow> 'm message_base_scheme \<Rightarrow> multipart \<Rightarrow> multipart result" where
  "serializeMessageBase parse dump sign msg wire_msg =
     rbind (writeZmqMessage dump (m_header msg)) (\<lambda>header.
     rbind (writeZmqMessage dump (m_parentHeader msg)) (\<lambda>parent_header.
     rbind (writeZmqMessage dump (m_metadata msg)) (\<lambda>metadata.
     rbind (writeZmqMessage dump (fst (content parse msg))) (\<lambda>cont.
       Inr (wire_msg @ [sign [header, parent_header, metadata, cont], header, parent_header, metadata, cont]
            @ m_buffers msg)))))"

definition kDeferredContentBytes :: nat where
  "kDeferredContentBytes = 64 * 1024"

definition frame_bytes :: "frame \<Rightarrow> byte list" where
  "frame_bytes = map (\<lambda>c. word_of_nat (of_char c))"

record message_parts =
  header :: json
  parent_header :: json
  metadata :: json
  part_content :: json
  content_text :: string
  content_deferred :: bool
  buffers :: "binary_buffer list"

fun deserializeMessageBase ::
  "parser \<Rightarrow> (frame \<Rightarrow> frame list \<Rightarrow> bool result) \<Rightarrow> multipart \<Rightarrow> bool \<Rightarrow> message_parts result" where
  "deserializeMessageBase parse verify (sig # hdr # ph # md # ct # rest) defer_large_content =
     (let deferred = defer_large_content \<and> length ct \<ge> kDeferredContentBytes \<and> isOneLineOfUtf8 (frame_bytes ct)
      in rbind (verify sig [hdr, ph, md, ct]) (\<lambda>ok.
           if \<not> ok then Inl (RuntimeError ''ERROR: Signatures don't match'')
           else Inr \<lparr> header = parseZmqMessage parse hdr, parent_header = parseZmqMessage parse ph,
                      metadata = parseZmqMessage parse md,
                      part_content = (if deferred then JNull else parseZmqMessage parse ct),
                      content_text = (if deferred then ct else []), content_deferred = deferred,
                      buffers = rest \<rparr>))"
| "deserializeMessageBase parse verify wire_msg defer_large_content =
     Inl (RuntimeError (''malformed message: '' @ show_nat (length wire_msg)
                        @ '' frames after the delimiter, 5 needed''))"

definition serializeTopic :: "pub_message \<Rightarrow> multipart \<Rightarrow> multipart" where
  "serializeTopic msg wire_msg = wire_msg @ [m_topic msg, DELIMITER]"

text \<open>The loop of \<open>deserializeTopic\<close>: the topic found so far and whether a frame was seen.\<close>

fun topic_loop :: "string \<Rightarrow> bool \<Rightarrow> multipart \<Rightarrow> (string \<times> multipart) result" where
  "topic_loop topic first [] = Inl (RuntimeError ''malformed message: no <IDS|MSG> delimiter'')"
| "topic_loop topic first (frame # wire_msg) =
     (if isDelimiter frame then Inr (topic, wire_msg)
      else topic_loop (if first then frame else topic) False wire_msg)"

definition deserializeTopic :: "multipart \<Rightarrow> (string \<times> multipart) result" where
  "deserializeTopic wire_msg = topic_loop [] True wire_msg"

definition serializeZmqId :: "guid_list \<Rightarrow> multipart \<Rightarrow> multipart" where
  "serializeZmqId ids wire_msg = wire_msg @ ids @ [DELIMITER]"

text \<open>The loop of \<open>deserializeZmqId\<close>, with the frame popped last. Popping an empty multipart is not
  defined.\<close>

fun zmq_id_loop :: "guid_list \<Rightarrow> frame \<Rightarrow> multipart \<Rightarrow> (guid_list \<times> multipart) result" where
  "zmq_id_loop zmq_id frame wire_msg =
     (if isDelimiter frame then Inr (zmq_id, wire_msg)
      else case wire_msg of
        [] \<Rightarrow> Inl (RuntimeError ''ERROR: Delimiter not present in message'')
      | next # rest \<Rightarrow> zmq_id_loop (zmq_id @ [frame]) next rest)"

declare zmq_id_loop.simps [simp del]

definition deserializeZmqId :: "multipart \<Rightarrow> (guid_list \<times> multipart) result" where
  "deserializeZmqId wire_msg =
     (case wire_msg of [] \<Rightarrow> Inl (Undefined ''pop of an empty multipart'')
      | frame # rest \<Rightarrow> zmq_id_loop [] frame rest)"

definition serialize ::
  "parser \<Rightarrow> printer \<Rightarrow> (frame list \<Rightarrow> frame) \<Rightarrow> message \<Rightarrow> multipart result" where
  "serialize parse dump sign msg = serializeMessageBase parse dump sign msg (serializeZmqId (m_zmqId msg) [])"

definition deserialize ::
  "parser \<Rightarrow> (frame \<Rightarrow> frame list \<Rightarrow> bool result) \<Rightarrow> multipart \<Rightarrow> bool \<Rightarrow> message result" where
  "deserialize parse verify wire_msg defer_large_content =
     rbind (deserializeZmqId wire_msg) (\<lambda>(zmq_id, wire_msg).
     rbind (deserializeMessageBase parse verify wire_msg defer_large_content) (\<lambda>parts.
       let msg = new_message zmq_id (header parts) (parent_header parts) (metadata parts)
                   (part_content parts) (buffers parts)
       in Inr (if content_deferred parts then deferContent (content_text parts) msg else msg)))"

definition serializeIopub ::
  "parser \<Rightarrow> printer \<Rightarrow> (frame list \<Rightarrow> frame) \<Rightarrow> pub_message \<Rightarrow> multipart result" where
  "serializeIopub parse dump sign msg = serializeMessageBase parse dump sign msg (serializeTopic msg [])"

definition deserializeIopub ::
  "parser \<Rightarrow> (frame \<Rightarrow> frame list \<Rightarrow> bool result) \<Rightarrow> multipart \<Rightarrow> bool \<Rightarrow> pub_message result" where
  "deserializeIopub parse verify wire_msg defer_large_content =
     rbind (deserializeTopic wire_msg) (\<lambda>(topic, wire_msg).
     rbind (deserializeMessageBase parse verify wire_msg defer_large_content) (\<lambda>parts.
       let msg = new_pub_message topic (header parts) (parent_header parts) (metadata parts)
                   (part_content parts) (buffers parts)
       in Inr (if content_deferred parts then deferContent (content_text parts) msg else msg)))"

section \<open>Splitting at the delimiter\<close>

lemma isDelimiter_iff [simp]: "isDelimiter frame \<longleftrightarrow> DELIMITER = frame"
  by (auto simp: isDelimiter_def)

lemma zmq_id_loop_found:
  "DELIMITER \<notin> set (frame # ids) \<Longrightarrow>
     zmq_id_loop acc frame (ids @ DELIMITER # rest) = Inr (acc @ frame # ids, rest)"
proof (induction ids arbitrary: acc frame)
  case Nil
  then show ?case by (simp add: zmq_id_loop.simps)
next
  case (Cons i ids)
  then show ?case by (subst zmq_id_loop.simps) simp
qed

lemma zmq_id_loop_missing:
  "DELIMITER \<notin> set (frame # wire) \<Longrightarrow>
     zmq_id_loop acc frame wire = Inl (RuntimeError ''ERROR: Delimiter not present in message'')"
proof (induction wire arbitrary: acc frame)
  case Nil
  then show ?case by (simp add: zmq_id_loop.simps)
next
  case (Cons i ids)
  then show ?case by (subst zmq_id_loop.simps) simp
qed

lemma deserializeZmqId_found:
  "DELIMITER \<notin> set ids \<Longrightarrow> deserializeZmqId (ids @ DELIMITER # rest) = Inr (ids, rest)"
  by (cases ids) (simp_all add: deserializeZmqId_def zmq_id_loop_found, simp add: zmq_id_loop.simps)

lemma deserializeZmqId_missing:
  "wire \<noteq> [] \<Longrightarrow> DELIMITER \<notin> set wire \<Longrightarrow>
     deserializeZmqId wire = Inl (RuntimeError ''ERROR: Delimiter not present in message'')"
  by (cases wire) (simp_all add: deserializeZmqId_def zmq_id_loop_missing)

lemma wire_cases:
  obtains (empty) "wire = []"
    | (missing) "wire \<noteq> []" "DELIMITER \<notin> set wire"
    | (found) ids rest where "wire = ids @ DELIMITER # rest" "DELIMITER \<notin> set ids"
  using split_list_first [of DELIMITER wire] by blast

lemma topic_loop_found:
  "DELIMITER \<notin> set frames \<Longrightarrow>
     topic_loop t first (frames @ DELIMITER # rest) = Inr (if first \<and> frames \<noteq> [] then hd frames else t, rest)"
  by (induction frames arbitrary: t first) auto

lemma topic_loop_missing:
  "DELIMITER \<notin> set frames \<Longrightarrow>
     topic_loop t first frames = Inl (RuntimeError ''malformed message: no <IDS|MSG> delimiter'')"
  by (induction frames arbitrary: t first) auto

section \<open>Messages for any authenticator\<close>

text \<open>The printed form of a value parses back to it.\<close>

definition prints_back :: "parser \<Rightarrow> printer \<Rightarrow> json \<Rightarrow> bool" where
  "prints_back parse dump j \<longleftrightarrow> (case dump j of Inr t \<Rightarrow> parse t = j | Inl _ \<Rightarrow> False)"

definition printable_message :: "parser \<Rightarrow> printer \<Rightarrow> 'm message_base_scheme \<Rightarrow> bool" where
  "printable_message parse dump m \<longleftrightarrow>
     prints_back parse dump (m_header m) \<and> prints_back parse dump (m_parentHeader m) \<and>
     prints_back parse dump (m_metadata m) \<and> prints_back parse dump (fst (content parse m)) \<and>
     fst (content parse m) \<noteq> JDiscarded"

text \<open>What a reader of a message sees of it.\<close>

definition base_view :: "parser \<Rightarrow> 'm message_base_scheme \<Rightarrow> json \<times> json \<times> json \<times> json \<times> binary_buffer list" where
  "base_view parse m =
     (m_header m, m_parentHeader m, m_metadata m, fst (content parse m), m_buffers m)"

lemma prints_backE:
  assumes "prints_back parse dump j"
  obtains t where "dump j = Inr t" "parse t = j"
  using assms by (auto simp: prints_back_def split: sum.splits)

definition accepted_parts :: "parser \<Rightarrow> frame list \<Rightarrow> bool \<Rightarrow> message_parts" where
  "accepted_parts parse frames defer =
     (let ct = frames ! 4; deferred = defer \<and> length ct \<ge> kDeferredContentBytes \<and> isOneLineOfUtf8 (frame_bytes ct)
      in \<lparr> header = parse (frames ! 1), parent_header = parse (frames ! 2), metadata = parse (frames ! 3),
           part_content = (if deferred then JNull else parse ct),
           content_text = (if deferred then ct else []), content_deferred = deferred, buffers = drop 5 frames \<rparr>)"

lemma deserializeMessageBase_short:
  "length wire < 5 \<Longrightarrow> deserializeMessageBase parse verify wire d =
     Inl (RuntimeError (''malformed message: '' @ show_nat (length wire) @ '' frames after the delimiter, 5 needed''))"
  by (rule deserializeMessageBase.cases [of "(parse, verify, wire, d)"]) auto

lemma deserializeMessageBase_long:
  "5 \<le> length wire \<Longrightarrow> deserializeMessageBase parse verify wire d =
     rbind (verify (wire ! 0) [wire ! 1, wire ! 2, wire ! 3, wire ! 4]) (\<lambda>ok.
       if \<not> ok then Inl (RuntimeError ''ERROR: Signatures don't match'') else Inr (accepted_parts parse wire d))"
  by (rule deserializeMessageBase.cases [of "(parse, verify, wire, d)"])
     (auto simp: accepted_parts_def parseZmqMessage_def Let_def rbind_def split: sum.split)

text \<open>Every outcome of the two deserializers.\<close>

lemma deserialize_found:
  "DELIMITER \<notin> set ids \<Longrightarrow> deserialize parse verify (ids @ DELIMITER # frames) d =
     rbind (deserializeMessageBase parse verify frames d) (\<lambda>parts.
       let msg = new_message ids (header parts) (parent_header parts) (metadata parts) (part_content parts) (buffers parts)
       in Inr (if content_deferred parts then deferContent (content_text parts) msg else msg))"
  by (simp add: deserialize_def deserializeZmqId_found)

lemma deserializeIopub_found:
  "DELIMITER \<notin> set topics \<Longrightarrow> deserializeIopub parse verify (topics @ DELIMITER # frames) d =
     rbind (deserializeMessageBase parse verify frames d) (\<lambda>parts.
       let msg = new_pub_message (if topics = [] then [] else hd topics) (header parts) (parent_header parts)
                   (metadata parts) (part_content parts) (buffers parts)
       in Inr (if content_deferred parts then deferContent (content_text parts) msg else msg))"
  by (simp add: deserializeIopub_def deserializeTopic_def topic_loop_found)

text \<open>A message rebuilt from the parts of accepted frames shows what the frames parse to, whether or
  not the content was deferred.\<close>

lemma accepted_view:
  assumes "length frames \<ge> 5" "parse (frames ! 4) \<noteq> JDiscarded"
  shows "let parts = accepted_parts parse frames d;
             msg = new_message ids (header parts) (parent_header parts) (metadata parts) (part_content parts) (buffers parts);
             m = (if content_deferred parts then deferContent (content_text parts) msg else msg)
         in m_zmqId m = ids \<and>
            base_view parse m = (parse (frames ! 1), parse (frames ! 2), parse (frames ! 3), parse (frames ! 4), drop 5 frames)"
  using assms by (auto simp: accepted_parts_def base_view_def content_deferContent Let_def)

lemma accepted_pub_view:
  assumes "length frames \<ge> 5" "parse (frames ! 4) \<noteq> JDiscarded"
  shows "let parts = accepted_parts parse frames d;
             msg = new_pub_message t (header parts) (parent_header parts) (metadata parts) (part_content parts) (buffers parts);
             m = (if content_deferred parts then deferContent (content_text parts) msg else msg)
         in m_topic m = t \<and>
            base_view parse m = (parse (frames ! 1), parse (frames ! 2), parse (frames ! 3), parse (frames ! 4), drop 5 frames)"
  using assms by (auto simp: accepted_parts_def base_view_def content_deferContent Let_def)

lemma serializeMessageBase_printable:
  assumes "printable_message parse dump m"
  obtains hd_t ph_t md_t ct_t where
    "serializeMessageBase parse dump sign m pre =
       Inr (pre @ [sign [hd_t, ph_t, md_t, ct_t], hd_t, ph_t, md_t, ct_t] @ m_buffers m)"
    "parse hd_t = m_header m" "parse ph_t = m_parentHeader m" "parse md_t = m_metadata m"
    "parse ct_t = fst (content parse m)" "fst (content parse m) \<noteq> JDiscarded"
  using assms unfolding printable_message_def
  by (elim conjE prints_backE) (simp add: serializeMessageBase_def writeZmqMessage_def)

context authenticator
begin

lemma deserialize_serialize:
  assumes "printable_message parse dump m" "DELIMITER \<notin> set (m_zmqId m)"
  shows "\<exists>wire m'. serialize parse dump sign m = Inr wire \<and> deserialize parse verify wire d = Inr m' \<and>
           m_zmqId m' = m_zmqId m \<and> base_view parse m' = base_view parse m"
proof -
  obtain h p md c where ser: "serialize parse dump sign m =
      Inr (m_zmqId m @ DELIMITER # [sign [h, p, md, c], h, p, md, c] @ m_buffers m)"
    and eqs: "parse h = m_header m" "parse p = m_parentHeader m" "parse md = m_metadata m"
      "parse c = fst (content parse m)" "fst (content parse m) \<noteq> JDiscarded"
    by (rule serializeMessageBase_printable [OF assms(1), of sign "serializeZmqId (m_zmqId m) []"])
       (simp add: serialize_def serializeZmqId_def)
  let ?frames = "[sign [h, p, md, c], h, p, md, c] @ m_buffers m"
  have "deserializeMessageBase parse verify ?frames d = Inr (accepted_parts parse ?frames d)"
    by (subst deserializeMessageBase_long) (simp_all add: verify_sign)
  then show ?thesis
    using ser eqs accepted_view [of ?frames parse d "m_zmqId m"] deserialize_found [OF assms(2), of parse verify ?frames d]
    by (auto simp: Let_def base_view_def [of parse m])
qed

lemma deserializeIopub_serializeIopub:
  assumes "printable_message parse dump m" "m_topic m \<noteq> DELIMITER"
  shows "\<exists>wire m'. serializeIopub parse dump sign m = Inr wire \<and> deserializeIopub parse verify wire d = Inr m' \<and>
           m_topic m' = m_topic m \<and> base_view parse m' = base_view parse m"
proof -
  obtain h p md c where ser: "serializeIopub parse dump sign m =
      Inr ([m_topic m] @ DELIMITER # [sign [h, p, md, c], h, p, md, c] @ m_buffers m)"
    and eqs: "parse h = m_header m" "parse p = m_parentHeader m" "parse md = m_metadata m"
      "parse c = fst (content parse m)" "fst (content parse m) \<noteq> JDiscarded"
    by (rule serializeMessageBase_printable [OF assms(1), of sign "serializeTopic m []"])
       (simp add: serializeIopub_def serializeTopic_def)
  let ?frames = "[sign [h, p, md, c], h, p, md, c] @ m_buffers m"
  have "deserializeMessageBase parse verify ?frames d = Inr (accepted_parts parse ?frames d)"
    by (subst deserializeMessageBase_long) (simp_all add: verify_sign)
  moreover have "DELIMITER \<notin> set [m_topic m]" using assms(2) by simp
  ultimately show ?thesis
    using ser eqs accepted_pub_view [of ?frames parse d "m_topic m"]
      deserializeIopub_found [of "[m_topic m]" parse verify ?frames d]
    by (auto simp: Let_def base_view_def [of parse m])
qed

end

section \<open>Properties\<close>

text \<open>C2. A request or reply survives the wire: whatever message whose parts print and parse back is
  serialized and signed, deserializing the frames with the same authentication gives a message with
  the same identities, headers, metadata, content and buffers, whether or not large contents are
  deferred.\<close>

theorem message_round_trip:
  assumes "printable_message parse dump m" "DELIMITER \<notin> set (m_zmqId m)"
  shows "\<exists>wire m'. serialize parse dump (signImpl mac a) m = Inr wire \<and>
           deserialize parse (verifyImpl mac a) wire d = Inr m' \<and>
           m_zmqId m' = m_zmqId m \<and> base_view parse m' = base_view parse m"
  using assms by (rule auth.deserialize_serialize)

text \<open>A published message survives the wire the same way, with its topic.\<close>

lemma pub_message_round_trip:
  assumes "printable_message parse dump m" "m_topic m \<noteq> DELIMITER"
  shows "\<exists>wire m'. serializeIopub parse dump (signImpl mac a) m = Inr wire \<and>
           deserializeIopub parse (verifyImpl mac a) wire d = Inr m' \<and>
           m_topic m' = m_topic m \<and> base_view parse m' = base_view parse m"
  using assms by (rule auth.deserializeIopub_serializeIopub)

text \<open>A printer and a parser for two values, to show that the hypotheses can hold.\<close>

definition tiny_dump :: printer where
  "tiny_dump j = (case j of JNull \<Rightarrow> Inr ''null'' | JObject [] \<Rightarrow> Inr ''{}'' | _ \<Rightarrow> Inl (TypeError 316))"

definition tiny_parse :: parser where
  "tiny_parse s = (if s = ''null'' then JNull else if s = ''{}'' then JObject [] else JDiscarded)"

theorem message_round_trip_witness:
  "\<exists>wire m'. serialize tiny_parse tiny_dump (signImpl (\<lambda>_ _ _. [1, 2]) (OpensslAuthentication ''SHA256'' ''k''))
       (new_message [''client''] (JObject []) JNull (JObject []) (JObject []) [''buffer'']) = Inr wire \<and>
     deserialize tiny_parse (verifyImpl (\<lambda>_ _ _. [1, 2]) (OpensslAuthentication ''SHA256'' ''k'')) wire True = Inr m' \<and>
     m_zmqId m' = [''client'']"
  using message_round_trip [of tiny_parse tiny_dump
      "new_message [''client''] (JObject []) JNull (JObject []) (JObject []) [''buffer'']"
      "\<lambda>_ _ _. [1, 2]" "OpensslAuthentication ''SHA256'' ''k''" True]
  by (auto simp: printable_message_def prints_back_def tiny_parse_def tiny_dump_def DELIMITER_def)

lemma pub_message_round_trip_witness:
  "\<exists>wire m'. serializeIopub tiny_parse tiny_dump (signImpl (\<lambda>_ _ _. [7]) NoAuthentication)
       (new_pub_message ''kernel.status'' (JObject []) JNull (JObject []) JNull []) = Inr wire \<and>
     deserializeIopub tiny_parse (verifyImpl (\<lambda>_ _ _. [7]) NoAuthentication) wire False = Inr m' \<and>
     m_topic m' = ''kernel.status''"
  using pub_message_round_trip [of tiny_parse tiny_dump
      "new_pub_message ''kernel.status'' (JObject []) JNull (JObject []) JNull []" "\<lambda>_ _ _. [7]" NoAuthentication False]
  by (auto simp: printable_message_def prints_back_def tiny_parse_def tiny_dump_def DELIMITER_def)

lemma deserialize_cases:
  "deserialize parse verify wire d = Inr m \<longleftrightarrow>
     (\<exists>ids frames. wire = ids @ DELIMITER # frames \<and> DELIMITER \<notin> set ids \<and> 5 \<le> length frames \<and>
        verify (frames ! 0) [frames ! 1, frames ! 2, frames ! 3, frames ! 4] = Inr True \<and>
        m = (let parts = accepted_parts parse frames d;
                 msg = new_message ids (header parts) (parent_header parts) (metadata parts) (part_content parts) (buffers parts)
             in if content_deferred parts then deferContent (content_text parts) msg else msg))"
    (is "?l \<longleftrightarrow> ?r")
proof (cases wire rule: wire_cases)
  case empty
  then show ?thesis by (simp add: deserialize_def deserializeZmqId_def)
next
  case missing
  then show ?thesis by (auto simp: deserialize_def deserializeZmqId_missing)
next
  case (found ids frames)
  have split: "wire = ids' @ DELIMITER # frames' \<and> DELIMITER \<notin> set ids' \<longleftrightarrow> ids' = ids \<and> frames' = frames" for ids' frames'
    using found split_first_unique [of DELIMITER ids' ids frames' frames] by auto
  show ?thesis
  proof (cases "5 \<le> length frames")
    case True
    have l: "?l \<longleftrightarrow> verify (frames ! 0) [frames ! 1, frames ! 2, frames ! 3, frames ! 4] = Inr True \<and>
        m = (let parts = accepted_parts parse frames d;
                 msg = new_message ids (header parts) (parent_header parts) (metadata parts) (part_content parts) (buffers parts)
             in if content_deferred parts then deferContent (content_text parts) msg else msg)"
      using found True by (auto simp: deserialize_found deserializeMessageBase_long Let_def result_simps split: if_splits)
    show ?thesis unfolding l conj_assoc [symmetric] split using True by auto
  next
    case False
    then have "\<not> ?l" using found by (simp add: deserialize_found deserializeMessageBase_short)
    then show ?thesis unfolding conj_assoc [symmetric] split using False by auto
  qed
qed

text \<open>C8. What the deserializer accepts, exactly: the frames split at the first delimiter, at least
  five frames follow it, and the first of them verifies as the signature of the next four. Nothing
  else yields a message, and the identities and buffers of the message are those frames.\<close>

theorem deserialize_accepts_exactly:
  "(\<exists>m. deserialize parse verify wire d = Inr m) \<longleftrightarrow>
     (\<exists>ids frames. wire = ids @ DELIMITER # frames \<and> DELIMITER \<notin> set ids \<and> 5 \<le> length frames \<and>
        verify (frames ! 0) [frames ! 1, frames ! 2, frames ! 3, frames ! 4] = Inr True)"
  unfolding deserialize_cases by blast

text \<open>The refusals, each with its error: no delimiter in a message, fewer than five frames after
  it, a signature that does not match. None of them is a crash.\<close>

theorem deserialize_refusals:
  "(wire \<noteq> [] \<and> DELIMITER \<notin> set wire \<longrightarrow>
      deserialize parse verify wire d = Inl (RuntimeError ''ERROR: Delimiter not present in message'')) \<and>
   (DELIMITER \<notin> set ids \<and> length frames < 5 \<longrightarrow>
      deserialize parse verify (ids @ DELIMITER # frames) d =
        Inl (RuntimeError (''malformed message: '' @ show_nat (length frames) @ '' frames after the delimiter, 5 needed''))) \<and>
   (DELIMITER \<notin> set ids \<and> verify sig [h, p, md, c] = Inr False \<longrightarrow>
      deserialize parse verify (ids @ DELIMITER # sig # h # p # md # c # bufs) d =
        Inl (RuntimeError ''ERROR: Signatures don't match''))"
  by (auto simp: deserialize_found deserializeMessageBase_short)
     (simp add: deserialize_def deserializeZmqId_missing)

theorem deserialize_refusals_witness:
  "deserialize tiny_parse (\<lambda>sig parts. Inr (sig = ''good'')) [DELIMITER, ''bad'', ''{}'', ''{}'', ''{}'', ''{}''] True =
     Inl (RuntimeError ''ERROR: Signatures don't match'') \<and>
   deserialize tiny_parse (\<lambda>sig parts. Inr True) [''id'', ''{}''] True =
     Inl (RuntimeError ''ERROR: Delimiter not present in message'') \<and>
   deserialize tiny_parse (\<lambda>sig parts. Inr True) [DELIMITER, ''{}''] True =
     Inl (RuntimeError ''malformed message: 1 frames after the delimiter, 5 needed'')"
proof -
  have one: "show_nat (length [''{}'']) = ''1''" by code_simp
  show ?thesis
    using deserialize_refusals [of "[''id'', ''{}'']" tiny_parse "\<lambda>sig parts. Inr True" True "[]" "[''{}'']"]
      deserialize_refusals [of "[]" tiny_parse "\<lambda>sig parts. Inr (sig = ''good'')" True "[]" "[]" "''bad''" "''{}''" "''{}''" "''{}''" "''{}''" "[]"]
    unfolding one by (simp add: DELIMITER_def)
qed

lemma deferred_text:
  assumes "deserialize parse verify wire d = Inr m" "contentText m = Some t"
  shows "d \<and> kDeferredContentBytes \<le> length t \<and> isOneLineOfUtf8 (frame_bytes t) \<and> t \<in> set wire"
proof -
  obtain ids frames where f: "wire = ids @ DELIMITER # frames" "5 \<le> length frames"
    "m = (let parts = accepted_parts parse frames d;
              msg = new_message ids (header parts) (parent_header parts) (metadata parts) (part_content parts) (buffers parts)
          in if content_deferred parts then deferContent (content_text parts) msg else msg)"
    using assms(1) unfolding deserialize_cases by blast
  have "frames ! 4 \<in> set frames" using f(2) by simp
  moreover have "d \<and> kDeferredContentBytes \<le> length t \<and> isOneLineOfUtf8 (frame_bytes t) \<and> t = frames ! 4"
    using assms(2) f(3) by (auto simp: Let_def accepted_parts_def split: if_splits)
  ultimately show ?thesis using f(1) by auto
qed

lemma frame_byte_le: "0x20 \<le> (word_of_nat (of_char c) :: byte) \<longleftrightarrow> 0x20 \<le> (of_char c :: nat)"
  by (simp add: word_le_nat_alt unat_byte)

text \<open>A content handed on as text is what arrived: when a deserialized message has a content text,
  deferring was asked for, the text is the content frame itself, of at least 64 KiB, it is one line
  of valid UTF-8, and no byte of it is a control character (so it may be put inside another JSON
  text and sent in a text frame as it is).\<close>

lemma deferred_content_is_one_line:
  assumes "deserialize parse verify wire d = Inr m" "contentText m = Some t"
  shows "d \<and> 65536 \<le> length t \<and> t \<in> set wire \<and> encodes_line (frame_bytes t) \<and>
         (\<forall>c \<in> set t. 0x20 \<le> (of_char c :: nat))"
proof -
  note t = deferred_text [OF assms]
  have "0x20 \<le> (of_char c :: nat)" if "c \<in> set t" for c
    using one_line_no_control [of "frame_bytes t"] t that frame_byte_le [of c] by (auto simp: frame_bytes_def)
  with t show ?thesis by (simp add: kDeferredContentBytes_def isOneLineOfUtf8_encodes_line)
qed

lemma deferred_content_is_one_line_witness:
  "\<exists>m. deserialize tiny_parse (\<lambda>sig parts. Inr True)
         [DELIMITER, ''sig'', ''{}'', ''{}'', ''{}'', replicate 65536 (CHR ''a'')] True = Inr m \<and>
       (\<forall>c \<in> set (replicate 65536 (CHR ''a'')). 0x20 \<le> (of_char c :: nat))"
proof -
  let ?t = "replicate 65536 (CHR ''a'')"
  let ?wire = "[] @ DELIMITER # [''sig'', ''{}'', ''{}'', ''{}'', ?t]"
  have "encodes_line (replicate 65536 (0x61 :: byte) @ [])"
    by (subst encodes_line_append_plain) simp_all
  then have line: "isOneLineOfUtf8 (frame_bytes ?t)"
    by (simp add: isOneLineOfUtf8_encodes_line frame_bytes_def)
  let ?m = "deferContent ?t (new_message [] (JObject []) (JObject []) (JObject []) JNull [])"
  have ok: "deserialize tiny_parse (\<lambda>sig parts. Inr True) ?wire True = Inr ?m"
    using line by (subst deserialize_found) (simp_all add: kDeferredContentBytes_def parseZmqMessage_def tiny_parse_def Let_def)
  from deferred_content_is_one_line [OF ok, of ?t] ok show ?thesis by auto
qed

end
