(* ===== verification/History.thy ===== *)
theory History
  imports Json
begin

text \<open>
  The kernel's history of inputs: \<open>native/src/adrastea/core/history/history_manager.cpp\<close> and
  \<open>in_memory_history_manager.cpp\<close>. Integers are the 32-bit \<open>int\<close> of the code, as \<open>int\<close>
  with the conversions written out; an iterator moved outside its list is \<open>Undefined\<close>.

  A search pattern is a glob that the code turns into a regular expression by escaping the special
  characters and replacing \<open>?\<close> and \<open>*\<close>. The expressions that come out of patterns without a
  backslash are sequences of literals, \<open>.\<close> and \<open>.*\<close>, and the matcher for those is defined
  here. A backslash is not among the characters the code escapes; what \<open>std::regex\<close> makes of such a
  pattern is the parameter \<open>rx\<close>.
\<close>

section \<open>The store\<close>

record entry =
  e_session :: int
  e_line :: int
  e_input :: string
  e_output :: string

type_synonym history = "entry list"

definition storeInputsImpl :: "int \<Rightarrow> int \<Rightarrow> string \<Rightarrow> string \<Rightarrow> history \<Rightarrow> history" where
  "storeInputsImpl session line_num input output h =
     h @ [\<lparr> e_session = session, e_line = line_num, e_input = input, e_output = output \<rparr>]"

text \<open>The two JSON forms of an entry: \<open>entry\<close> and \<open>makeShortEntry\<close> of it.\<close>

definition entry_json :: "entry \<Rightarrow> json" where
  "entry_json e = JArray [JInt (e_session e), JInt (e_line e), JArray [JString (e_input e), JString (e_output e)]]"

type_synonym short_entry = "int \<times> int \<times> string"

definition makeShortEntry :: "entry \<Rightarrow> short_entry" where
  "makeShortEntry e = (e_session e, e_line e, e_input e)"

fun short_json :: "short_entry \<Rightarrow> json" where
  "short_json (s, l, i) = JArray [JInt s, JInt l, JString i]"

definition history_reply :: "bool \<Rightarrow> history \<Rightarrow> json" where
  "history_reply output h =
     jobj [(''history'', JArray (if output then map entry_json h else map (short_json \<circ> makeShortEntry) h)),
           (''status'', JString ''ok'')]"

definition hist_size :: "history \<Rightarrow> int" where
  "hist_size h = int32 (int (length h))"

definition out_of_list :: exn where
  "out_of_list = Undefined ''iterator outside its list''"

text \<open>\<open>std::next(it, n)\<close> over a list from its first position, then what lies before and after it.\<close>

definition advance :: "int \<Rightarrow> 'a list \<Rightarrow> ('a list \<times> 'a list) result" where
  "advance n xs = (if 0 \<le> n \<and> n \<le> int (length xs) then Inr (take (nat n) xs, drop (nat n) xs) else Inl out_of_list)"

text \<open>\<open>getTailImpl\<close>: the reversed iterators and the front inserter turn the entries round twice.\<close>

definition getTailImpl :: "int \<Rightarrow> bool \<Rightarrow> history \<Rightarrow> json result" where
  "getTailImpl n output h =
     (let count = min n (hist_size h)
      in rbind (advance count (rev h)) (\<lambda>(copied, _). Inr (history_reply output (fold (#) copied []))))"

definition getRangeImpl :: "int \<Rightarrow> int \<Rightarrow> bool \<Rightarrow> history \<Rightarrow> json result" where
  "getRangeImpl start stop output h =
     (if start > stop \<or> start > hist_size h then
        Inr (jobj [(''status'', JString ''error''), (''ename'', JString ''history_request_error''),
                   (''evalue'', JString ''get_range: start is too high given stop or current history'')])
      else let count = min stop (hist_size h) - start
           in rbind (advance start h) (\<lambda>(_, rest).
              rbind (advance count rest) (\<lambda>(copied, _). Inr (history_reply output copied))))"

section \<open>Search\<close>

text \<open>The set \<open>[-[\]{}()+.,\^$|#\s]\<close>, and what \<open>regex_replace\<close> with \<open>\$&\<close> does with it.\<close>

definition special_chars :: "char set" where
  "special_chars = set ''-[]{}()+.,^$|#'' \<union> set (map char_of [9, 10, 11, 12, 13, 32 :: nat])"

definition sanitize :: "string \<Rightarrow> string" where
  "sanitize pattern = concat (map (\<lambda>c. if c \<in> special_chars then [CHR 0x5C, c] else [c]) pattern)"

definition replace_char :: "char \<Rightarrow> string \<Rightarrow> string \<Rightarrow> string" where
  "replace_char c by s = concat (map (\<lambda>x. if x = c then by else [x]) s)"

definition regex_pattern :: "string \<Rightarrow> string" where
  "regex_pattern pattern = replace_char (CHR ''*'') ''.*'' (replace_char (CHR ''?'') ''.'' (sanitize pattern))"

text \<open>The expressions that come out: literals, any character but a line terminator, and any number of
  those.\<close>

datatype token = Lit char | Any | AnyStar

fun read_regex :: "string \<Rightarrow> token list option" where
  "read_regex [] = Some []"
| "read_regex (c # s) =
     (if c = CHR 0x5C then
        (case s of [] \<Rightarrow> None
         | d # s' \<Rightarrow> if d \<in> special_chars then map_option ((#) (Lit d)) (read_regex s') else None)
      else if c = CHR ''.'' then
        (case s of [] \<Rightarrow> Some [Any]
         | d # s' \<Rightarrow> if d = CHR ''*'' then map_option ((#) AnyStar) (read_regex s')
                     else map_option ((#) Any) (read_regex s))
      else if c = CHR ''*'' \<or> c = CHR ''?'' \<or> c \<in> special_chars then None
      else map_option ((#) (Lit c)) (read_regex s))"

definition line_terminator :: "char \<Rightarrow> bool" where
  "line_terminator c \<longleftrightarrow> c = CHR 0x0A \<or> c = CHR 0x0D"

function match_here :: "token list \<Rightarrow> string \<Rightarrow> bool" where
  "match_here [] s = True"
| "match_here (Lit c # ts) s = (case s of [] \<Rightarrow> False | x # xs \<Rightarrow> x = c \<and> match_here ts xs)"
| "match_here (Any # ts) s = (case s of [] \<Rightarrow> False | x # xs \<Rightarrow> \<not> line_terminator x \<and> match_here ts xs)"
| "match_here (AnyStar # ts) s =
     (match_here ts s \<or> (case s of [] \<Rightarrow> False | x # xs \<Rightarrow> \<not> line_terminator x \<and> match_here (AnyStar # ts) xs))"
  by pat_completeness auto
termination by (relation "measure (\<lambda>(ts, s). length ts + length s)") auto

fun regex_search :: "token list \<Rightarrow> string \<Rightarrow> bool" where
  "regex_search ts [] = match_here ts []"
| "regex_search ts (x # xs) = (match_here ts (x # xs) \<or> regex_search ts xs)"

text \<open>The input is searched as a C string, up to its first NUL.\<close>

definition c_str :: "string \<Rightarrow> string" where
  "c_str s = takeWhile (\<lambda>c. c \<noteq> CHR 0x00) s"

definition cleanHistory :: "int \<Rightarrow> bool \<Rightarrow> 'a list \<Rightarrow> 'a list result" where
  "cleanHistory n unique h =
     (let h = (if unique then remdups_adj h else h);
          nb_erase = int32 (int (length h)) - n
      in if nb_erase > 0 then rbind (advance nb_erase h) (\<lambda>(_, kept). Inr kept) else Inr h)"

text \<open>The predicate the search runs over the entries: \<open>rx\<close> is the compiled expression when the
  pattern has a backslash (\<open>Inl\<close> when \<open>std::regex\<close> refuses it).\<close>

definition compile_pattern :: "(string \<Rightarrow> (string \<Rightarrow> bool) result) \<Rightarrow> string \<Rightarrow> (string \<Rightarrow> bool) result" where
  "compile_pattern rx pattern =
     (case read_regex (regex_pattern pattern) of
        Some ts \<Rightarrow> Inr (regex_search ts)
      | None \<Rightarrow> rx (regex_pattern pattern))"

definition searchImpl ::
  "(string \<Rightarrow> (string \<Rightarrow> bool) result) \<Rightarrow> string \<Rightarrow> bool \<Rightarrow> int \<Rightarrow> bool \<Rightarrow> history \<Rightarrow> json result" where
  "searchImpl rx pattern output n unique h =
     rbind (compile_pattern rx pattern) (\<lambda>found.
       let hits = filter (\<lambda>e. found (c_str (e_input e))) h
       in if output then
            rbind (cleanHistory n unique hits) (\<lambda>hits.
              Inr (jobj [(''history'', JArray (map entry_json hits)), (''status'', JString ''ok'')]))
          else
            rbind (cleanHistory n unique (map makeShortEntry hits)) (\<lambda>hits.
              Inr (jobj [(''history'', JArray (map short_json hits)), (''status'', JString ''ok'')])))"

section \<open>Requests\<close>

definition processRequest :: "(string \<Rightarrow> (string \<Rightarrow> bool) result) \<Rightarrow> json \<Rightarrow> history \<Rightarrow> json result" where
  "processRequest rx content h =
     rbind (value_string content ''hist_access_type'' ''tail'') (\<lambda>hist_access_type.
     if hist_access_type = ''tail'' then
       rbind (value_int content ''n'' 10) (\<lambda>n.
       rbind (value_bool content ''raw'' True) (\<lambda>raw.
       rbind (value_bool content ''output'' False) (\<lambda>output. getTailImpl n output h)))
     else if hist_access_type = ''search'' then
       rbind (value_string content ''pattern'' ''*'') (\<lambda>pattern.
       rbind (value_bool content ''raw'' True) (\<lambda>raw.
       rbind (value_bool content ''output'' False) (\<lambda>output.
       rbind (value_int content ''n'' 10) (\<lambda>n.
       rbind (value_bool content ''unique'' False) (\<lambda>unique. searchImpl rx pattern output n unique h)))))
     else if hist_access_type = ''range'' then
       rbind (value_int content ''session'' 0) (\<lambda>session.
       rbind (value_int content ''start'' 1) (\<lambda>start.
       rbind (value_int content ''stop'' 10) (\<lambda>stop.
       rbind (value_bool content ''raw'' True) (\<lambda>raw.
       rbind (value_bool content ''output'' False) (\<lambda>output. getRangeImpl start stop output h)))))
     else Inr JNull)"

section \<open>Tail and range\<close>

lemma hist_size_id: "length h < 2 ^ 31 \<Longrightarrow> hist_size h = int (length h)"
  unfolding hist_size_def by (intro int32_id) auto

lemma tail_entries:
  "0 \<le> n \<Longrightarrow> length h < 2 ^ 31 \<Longrightarrow>
     getTailImpl n output h = Inr (history_reply output (drop (length h - nat n) h))"
  by (cases "n \<le> int (length h)")
     (simp_all add: getTailImpl_def advance_def hist_size_id fold_Cons_rev rev_take min_def)

lemma range_entries:
  "0 \<le> start \<Longrightarrow> start \<le> stop \<Longrightarrow> start \<le> int (length h) \<Longrightarrow> length h < 2 ^ 31 \<Longrightarrow>
     getRangeImpl start stop output h = Inr (history_reply output (take (nat (stop - start)) (drop (nat start) h)))"
  by (cases "stop \<le> int (length h)")
     (simp_all add: getRangeImpl_def advance_def hist_size_id Let_def nat_diff_distrib)

section \<open>Glob patterns\<close>

inductive glob_matches :: "string \<Rightarrow> string \<Rightarrow> bool" where
  glob_Nil: "glob_matches [] []"
| glob_star: "\<forall>x \<in> set a. \<not> line_terminator x \<Longrightarrow> glob_matches p b \<Longrightarrow> glob_matches (CHR ''*'' # p) (a @ b)"
| glob_any: "\<not> line_terminator x \<Longrightarrow> glob_matches p s \<Longrightarrow> glob_matches (CHR ''?'' # p) (x # s)"
| glob_char: "c \<noteq> CHR ''*'' \<Longrightarrow> c \<noteq> CHR ''?'' \<Longrightarrow> glob_matches p s \<Longrightarrow> glob_matches (c # p) (c # s)"

inductive_cases glob_NilE [elim!]: "glob_matches [] s"
inductive_cases glob_consE: "glob_matches (c # p) s"

lemma glob_star_iff:
  "glob_matches (CHR ''*'' # p) s \<longleftrightarrow> (\<exists>a b. s = a @ b \<and> (\<forall>x \<in> set a. \<not> line_terminator x) \<and> glob_matches p b)"
  by (rule iffI, erule glob_consE) (auto intro: glob_star)

lemma glob_any_iff:
  "glob_matches (CHR ''?'' # p) s \<longleftrightarrow> (\<exists>x b. s = x # b \<and> \<not> line_terminator x \<and> glob_matches p b)"
  by (auto elim: glob_consE intro: glob_any)

lemma glob_char_iff:
  "c \<noteq> CHR ''*'' \<Longrightarrow> c \<noteq> CHR ''?'' \<Longrightarrow> glob_matches (c # p) s \<longleftrightarrow> (\<exists>b. s = c # b \<and> glob_matches p b)"
  by (auto elim: glob_consE intro: glob_char)

definition tok :: "char \<Rightarrow> token" where
  "tok c = (if c = CHR ''*'' then AnyStar else if c = CHR ''?'' then Any else Lit c)"

definition esc :: "char \<Rightarrow> string" where
  "esc c = (if c = CHR ''*'' then ''.*'' else if c = CHR ''?'' then ''.'' 
            else if c \<in> special_chars then [CHR 0x5C, c] else [c])"

lemma esc_tok_wild [simp]:
  "esc (CHR ''*'') = ''.*''" "esc (CHR ''?'') = ''.''" "tok (CHR ''*'') = AnyStar" "tok (CHR ''?'') = Any"
  by (simp_all add: esc_def tok_def)

lemma not_special: "CHR ''*'' \<notin> special_chars" "CHR ''?'' \<notin> special_chars" "CHR 0x5C \<notin> special_chars"
    "CHR ''.'' \<in> special_chars"
  by (simp_all add: special_chars_def char_of_def)

lemma replace_char_concat: "replace_char c by (concat xss) = concat (map (replace_char c by) xss)"
  by (induction xss) (auto simp: replace_char_def)

lemma regex_pattern_esc: "regex_pattern p = concat (map esc p)"
proof -
  have "replace_char (CHR ''*'') ''.*'' (replace_char (CHR ''?'') ''.''
          (if c \<in> special_chars then [CHR 0x5C, c] else [c])) = esc c" for c
    using not_special by (auto simp: replace_char_def esc_def)
  then show ?thesis
    by (simp add: regex_pattern_def sanitize_def replace_char_concat comp_def)
qed

lemma concat_esc_not_star: "concat (map esc p) \<noteq> CHR ''*'' # s"
  by (cases p) (auto simp: esc_def not_special)

lemma read_regex_esc: "CHR 0x5C \<notin> set p \<Longrightarrow> read_regex (concat (map esc p)) = Some (map tok p)"
proof (induction p)
  case (Cons c p)
  then have IH: "read_regex (concat (map esc p)) = Some (map tok p)" by simp
  have any: "read_regex (CHR ''.'' # concat (map esc p)) = Some (Any # map tok p)"
  proof (cases "concat (map esc p)")
    case Nil
    then have "p = []" by (cases p) (auto simp: esc_def split: if_splits)
    then show ?thesis by simp
  next
    case (Cons d s)
    then have "d \<noteq> CHR ''*''" using concat_esc_not_star by metis
    then show ?thesis using Cons IH by simp
  qed
  have c: "c \<noteq> CHR 0x5C" "c = CHR ''.'' \<Longrightarrow> c \<in> special_chars"
    using Cons.prems not_special by auto
  consider "c = CHR ''*''" | "c = CHR ''?''" | "c \<noteq> CHR ''*''" "c \<noteq> CHR ''?''" by blast
  then show ?case
  proof cases
    case 1
    then show ?thesis using IH by simp
  next
    case 2
    then show ?thesis using any by simp
  next
    case 3
    then show ?thesis using IH c by (auto simp: esc_def [of c] tok_def [of c])
  qed
qed simp

lemma match_here_star:
  "match_here (AnyStar # ts) s \<longleftrightarrow> (\<exists>a b. s = a @ b \<and> (\<forall>x \<in> set a. \<not> line_terminator x) \<and> match_here ts b)"
proof (induction s)
  case Nil
  then show ?case by simp
next
  case (Cons x xs)
  show ?case (is "?l \<longleftrightarrow> ?r")
  proof
    assume ?l
    then consider "match_here ts (x # xs)" | "\<not> line_terminator x" "match_here (AnyStar # ts) xs" by auto
    then show ?r
    proof cases
      case 1
      then show ?thesis by (intro exI [of _ "[]"] exI [of _ "x # xs"]) simp
    next
      case 2
      then obtain a b where "xs = a @ b" "\<forall>x \<in> set a. \<not> line_terminator x" "match_here ts b"
        using Cons.IH by blast
      with 2 show ?thesis by (intro exI [of _ "x # a"] exI [of _ b]) simp
    qed
  next
    assume ?r
    then obtain a b where "x # xs = a @ b" "\<forall>x \<in> set a. \<not> line_terminator x" "match_here ts b" by blast
    then show ?l using Cons.IH by (cases a) auto
  qed
qed

lemma match_here_glob: "match_here (map tok p) s \<longleftrightarrow> (\<exists>mid post. s = mid @ post \<and> glob_matches p mid)"
proof (induction p arbitrary: s)
  case Nil
  then show ?case by (auto intro: glob_Nil)
next
  case (Cons c p)
  consider "c = CHR ''*''" | "c = CHR ''?''" | "c \<noteq> CHR ''*''" "c \<noteq> CHR ''?''" by blast
  then show ?case
  proof cases
    case 1
    have "match_here (map tok (c # p)) s \<longleftrightarrow>
        (\<exists>a b mid post. s = a @ b \<and> (\<forall>x \<in> set a. \<not> line_terminator x) \<and> b = mid @ post \<and> glob_matches p mid)"
      unfolding 1 by (simp add: match_here_star Cons.IH del: match_here.simps)
    also have "\<dots> \<longleftrightarrow> (\<exists>mid post. s = mid @ post \<and> glob_matches (c # p) mid)"
      unfolding 1 glob_star_iff
    proof (intro iffI; elim exE conjE)
      fix a b mid post
      assume "s = a @ b" "\<forall>x \<in> set a. \<not> line_terminator x" "b = mid @ post" "glob_matches p mid"
      then show "\<exists>mid post. s = mid @ post \<and> (\<exists>a b. mid = a @ b \<and> (\<forall>x \<in> set a. \<not> line_terminator x) \<and> glob_matches p b)"
        by (intro exI [of _ "a @ mid"] exI [of _ post]) auto
    next
      fix mid post a b
      assume "s = mid @ post" "mid = a @ b" "\<forall>x \<in> set a. \<not> line_terminator x" "glob_matches p b"
      then show "\<exists>a b mid post. s = a @ b \<and> (\<forall>x \<in> set a. \<not> line_terminator x) \<and> b = mid @ post \<and> glob_matches p mid"
        by (rule_tac x = a in exI, rule_tac x = "b @ post" in exI) auto
    qed
    finally show ?thesis .
  next
    case 2
    then show ?thesis
      by (cases s) (auto simp: Cons.IH glob_any_iff, metis append_Cons, blast)
  next
    case 3
    then have "tok c = Lit c" by (simp add: tok_def)
    with 3 show ?thesis
      by (cases s) (auto simp: Cons.IH glob_char_iff, metis append_Cons, blast)
  qed
qed

lemma regex_search_suffix: "regex_search ts s \<longleftrightarrow> (\<exists>pre rest. s = pre @ rest \<and> match_here ts rest)"
proof (induction s)
  case (Cons x xs)
  then show ?case
    by (auto intro: exI [of _ "[]"] simp: Cons_eq_append_conv)
qed simp

lemma compile_glob:
  assumes "CHR 0x5C \<notin> set pattern"
  shows "\<exists>found. compile_pattern rx pattern = Inr found \<and>
    (\<forall>s. found s \<longleftrightarrow> (\<exists>pre mid post. s = pre @ mid @ post \<and> glob_matches pattern mid))"
proof (intro exI [of _ "regex_search (map tok pattern)"] conjI allI)
  show "compile_pattern rx pattern = Inr (regex_search (map tok pattern))"
    by (simp add: compile_pattern_def regex_pattern_esc read_regex_esc [OF assms])
  show "regex_search (map tok pattern) s \<longleftrightarrow> (\<exists>pre mid post. s = pre @ mid @ post \<and> glob_matches pattern mid)" for s
    by (auto simp: regex_search_suffix match_here_glob)
qed

section \<open>Removing duplicates\<close>

text \<open>Entries of one session with increasing line numbers are never equal, not even the short ones.\<close>

definition increasing_lines :: "history \<Rightarrow> bool" where
  "increasing_lines h \<longleftrightarrow> sorted_wrt (\<lambda>a b. e_line a < e_line b) h"

lemma remdups_adj_distinct_adj: "distinct xs \<Longrightarrow> remdups_adj xs = xs"
  by (induction xs rule: remdups_adj.induct) auto

lemma increasing_lines_filter: "increasing_lines h \<Longrightarrow> increasing_lines (filter P h)"
  by (simp add: increasing_lines_def sorted_wrt_filter)

lemma increasing_lines_distinct: "increasing_lines h \<Longrightarrow> distinct h \<and> distinct (map makeShortEntry h)"
  unfolding increasing_lines_def
  by (induction h) (auto simp: makeShortEntry_def)

lemma cleanHistory_distinct: "distinct h \<Longrightarrow> cleanHistory n unique h = cleanHistory n False h"
  by (simp add: cleanHistory_def remdups_adj_distinct_adj)

lemma cleanHistory_last:
  "0 \<le> n \<Longrightarrow> length h < 2 ^ 31 \<Longrightarrow> cleanHistory n False h = Inr (drop (length h - nat n) h)"
proof -
  assume "0 \<le> n" "length h < 2 ^ 31"
  moreover from this have "int32 (int (length h)) = int (length h)" by (intro int32_id) auto
  moreover from calculation have "nat (int (length h) - n) = length h - nat n" by simp
  ultimately show ?thesis
    by (auto simp: cleanHistory_def advance_def Let_def)
qed

section \<open>Properties\<close>

text \<open>The tail and the range of the history: a request for the last \<open>n\<close> entries answers exactly
  those, in the order they were stored (all of them when there are fewer), and a range answers the
  entries at the positions from \<open>start\<close> up to but not including \<open>stop\<close>, cut at the end of the
  history.\<close>

lemma history_tail_and_range:
  assumes "length h < 2 ^ 31"
  shows "(0 \<le> n \<longrightarrow> getTailImpl n output h = Inr (history_reply output (drop (length h - nat n) h))) \<and>
         (0 \<le> start \<and> start \<le> stop \<and> start \<le> int (length h) \<longrightarrow>
            getRangeImpl start stop output h =
              Inr (history_reply output (take (nat (stop - start)) (drop (nat start) h))))"
  using assms tail_entries range_entries by blast

lemma history_tail_and_range_witness:
  "getTailImpl 2 False (storeInputsImpl 0 3 ''c'' [] (storeInputsImpl 0 2 ''b'' [] (storeInputsImpl 0 1 ''a'' [] []))) =
     Inr (jobj [(''history'', JArray [JArray [JInt 0, JInt 2, JString ''b''], JArray [JInt 0, JInt 3, JString ''c'']]),
                (''status'', JString ''ok'')])"
  using history_tail_and_range [of "storeInputsImpl 0 3 ''c'' [] (storeInputsImpl 0 2 ''b'' [] (storeInputsImpl 0 1 ''a'' [] []))" 2 False]
  by (simp add: storeInputsImpl_def history_reply_def makeShortEntry_def)



text \<open>The \<open>unique\<close> option of a search does nothing: the entries compared include their line
  numbers, which grow from one input to the next, so that two entries are never equal even when
  their inputs are.\<close>

lemma history_unique_has_no_effect:
  assumes "increasing_lines h"
  shows "searchImpl rx pattern output n True h = searchImpl rx pattern output n False h"
proof -
  have "distinct (filter P h) \<and> distinct (map makeShortEntry (filter P h))" for P
    using assms increasing_lines_filter increasing_lines_distinct by blast
  then show ?thesis
    by (cases "compile_pattern rx pattern")
       (simp_all add: searchImpl_def Let_def cleanHistory_distinct [where unique = True])
qed

lemma history_unique_has_no_effect_witness:
  "searchImpl (\<lambda>_. Inl (RuntimeError ''regex'')) ''*'' False 5 True
      (storeInputsImpl 0 2 ''ls()'' [] (storeInputsImpl 0 1 ''ls()'' [] [])) =
   searchImpl (\<lambda>_. Inl (RuntimeError ''regex'')) ''*'' False 5 False
      (storeInputsImpl 0 2 ''ls()'' [] (storeInputsImpl 0 1 ''ls()'' [] []))"
  by (rule history_unique_has_no_effect) (simp add: increasing_lines_def storeInputsImpl_def)

end
