(* ===== verification/Guid.thy ===== *)
theory Guid
  imports Json
begin

text \<open>
  Identifiers: \<open>native/include/adrastea/guid.hpp\<close> and \<open>native/src/adrastea/platform/guid.cpp\<close>.
  A \<open>Guid\<close> is a buffer of 64 characters that is read as a C string, so it is a string of at most 63
  characters without a NUL. The sixteen random bytes of a new one come from the platform and are an
  argument here.
\<close>

type_synonym guid = string

definition Guid :: "string \<Rightarrow> guid" where
  "Guid str = takeWhile (\<lambda>c. c \<noteq> CHR 0x00) (take 63 str)"

definition guid_from_json :: "json \<Rightarrow> guid result" where
  "guid_from_json j = rbind (get_string j) (\<lambda>s. Inr (Guid s))"

definition guid_to_json :: "guid \<Rightarrow> json" where
  "guid_to_json g = JString g"

text \<open>\<open>newGuid\<close>: the bytes as lower case hexadecimal digits in the groups of a UUID.\<close>

definition newGuid :: "nat list \<Rightarrow> guid" where
  "newGuid raw_bytes =
     (let h = (\<lambda>i. hex_byte (raw_bytes ! i))
      in h 0 @ h 1 @ h 2 @ h 3 @ ''-'' @ h 4 @ h 5 @ ''-'' @ h 6 @ h 7 @ ''-'' @ h 8 @ h 9 @ ''-''
         @ h 10 @ h 11 @ h 12 @ h 13 @ h 14 @ h 15)"

section \<open>Laws\<close>

lemma Guid_id: "length s \<le> 63 \<Longrightarrow> CHR 0x00 \<notin> set s \<Longrightarrow> Guid s = s"
  by (simp add: Guid_def takeWhile_eq_all_conv) (metis)

lemma Guid_no_nul: "CHR 0x00 \<notin> set (Guid s)"
  unfolding Guid_def by (auto dest: set_takeWhileD)

lemma Guid_length: "length (Guid s) \<le> 63"
  unfolding Guid_def by (rule le_trans [OF length_takeWhile_le]) simp

lemma Guid_idem [simp]: "Guid (Guid s) = Guid s"
  using Guid_no_nul Guid_length by (rule Guid_id [rotated])

lemma newGuid_length: "length (newGuid raw) = 36"
  by (simp add: newGuid_def Let_def)

lemma hex_byte_not_nul: "b < 256 \<Longrightarrow> CHR 0x00 \<notin> set (hex_byte b)"
proof -
  have "CHR 0x00 \<notin> hex_chars" by (simp add: hex_chars_def)
  then show "b < 256 \<Longrightarrow> CHR 0x00 \<notin> set (hex_byte b)" using hex_byte_chars by blast
qed

lemma newGuid_fits:
  assumes "length raw = 16" "\<forall>b \<in> set raw. b < 256"
  shows "Guid (newGuid raw) = newGuid raw"
proof (rule Guid_id)
  have "CHR 0x00 \<notin> set (hex_byte (raw ! i))" if "i < 16" for i
    using assms that by (intro hex_byte_not_nul) simp
  then show "CHR 0x00 \<notin> set (newGuid raw)" by (simp add: newGuid_def Let_def)
qed (simp add: newGuid_length)

text \<open>Different bytes give different identifiers.\<close>

lemma newGuid_inject:
  assumes "length a = 16" "length b = 16" "\<forall>x \<in> set a. x < 256" "\<forall>x \<in> set b. x < 256" "newGuid a = newGuid b"
  shows "a = b"
proof (rule nth_equalityI)
  have eq: "hex_byte (a ! i) = hex_byte (b ! i)" if "i < 16" for i
  proof -
    have "i \<in> {0..<16}" using that by simp
    then have "i \<in> {0, 1, 2, 3, 4, 5, 6, 7, 8, 9, 10, 11, 12, 13, 14, 15}"
      by (simp add: atLeast0_lessThan_Suc numeral_eq_Suc) linarith
    then show ?thesis
      using assms(5) by (auto simp: newGuid_def Let_def hex_byte_def)
  qed
  show "a ! i = b ! i" if "i < length a" for i
    using that assms eq [of i] hex_byte_inject [of "a ! i" "b ! i"] by simp
qed (simp add: assms)

end
