(* ===== verification/Comm.thy ===== *)
theory Comm
  imports Message Guid
begin

text \<open>
  Comms, the two-way channels a frontend opens to a kernel:
  \<open>native/src/adrastea/core/messaging/comm.cpp\<close> and \<open>native/include/adrastea/comm.hpp\<close>.
  The manager keeps raw pointers to \<open>Comm\<close> objects that register and unregister themselves as they
  are made, moved, copied, assigned and destroyed, so the objects live at addresses here, and so do
  the targets they point to. A use of a target that has been erased is \<open>Undefined\<close>, and so is
  reading a \<open>m_movedFrom\<close> that was never set: the constructor that takes a target leaves it so.

  The callbacks (\<open>std::function\<close>) are the parameter \<open>run\<close> of the operations that call them.
  The main result is over all interleavings of these operations: the manager never holds an address
  where no object lives, and the object it finds for an identifier has that identifier.
\<close>

type_synonym addr = nat

record 'f target =
  t_name :: string
  t_callback :: 'f

record 'f comm =
  m_closeHandler :: "'f option"
  m_messageHandler :: "'f option"
  p_target :: addr
  m_id :: guid
  m_movedFrom :: "bool option"

text \<open>A message for \<open>KernelCore::publishMessage\<close>: its type, parent header, metadata, content and
  buffers.\<close>

type_synonym publication = "string \<times> json \<times> json \<times> json \<times> binary_buffer list"

record 'f manager =
  m_comms :: "guid \<rightharpoonup> addr"
  m_targets :: "string \<rightharpoonup> addr"
  targets :: "addr \<rightharpoonup> 'f target"
  objects :: "addr \<rightharpoonup> 'f comm"
  p_kernel :: "json option"
  published :: "publication list"

text \<open>The operations work on any extension of the record, since a callback changes more than the manager's tables.
  \<open>p_kernel\<close> is the kernel's \<open>parentHeader()\<close>, \<open>None\<close> without a kernel.\<close>

definition CommManager :: "json option \<Rightarrow> 'f manager" where
  "CommManager krn =
     \<lparr> m_comms = Map.empty, m_targets = Map.empty, targets = Map.empty, objects = Map.empty,
       p_kernel = krn, published = [] \<rparr>"

definition publish :: "publication \<Rightarrow> ('f, 'm) manager_scheme \<Rightarrow> ('f, 'm) manager_scheme" where
  "publish p s = (if p_kernel s = None then s else s\<lparr> published := published s @ [p] \<rparr>)"

section \<open>The manager's tables\<close>

definition registerComm :: "guid \<Rightarrow> addr \<Rightarrow> ('f, 'm) manager_scheme \<Rightarrow> ('f, 'm) manager_scheme" where
  "registerComm cid c s = s\<lparr> m_comms := (m_comms s)(cid \<mapsto> c) \<rparr>"

definition unregisterComm :: "guid \<Rightarrow> ('f, 'm) manager_scheme \<Rightarrow> ('f, 'm) manager_scheme" where
  "unregisterComm cid s = s\<lparr> m_comms := (m_comms s)(cid := None) \<rparr>"

text \<open>\<open>insert_or_assign\<close> keeps the node of a name it already has; \<open>node\<close> is the address of a new
  one.\<close>

definition registerCommTarget :: "addr \<Rightarrow> string \<Rightarrow> 'f \<Rightarrow> ('f, 'm) manager_scheme \<Rightarrow> ('f, 'm) manager_scheme" where
  "registerCommTarget node name callback s =
     (let p = (case m_targets s name of Some p \<Rightarrow> p | None \<Rightarrow> node)
      in s\<lparr> m_targets := (m_targets s)(name \<mapsto> p),
            targets := (targets s)(p \<mapsto> \<lparr> t_name = name, t_callback = callback \<rparr>) \<rparr>)"

definition unregisterCommTarget :: "string \<Rightarrow> ('f, 'm) manager_scheme \<Rightarrow> ('f, 'm) manager_scheme" where
  "unregisterCommTarget name s =
     (case m_targets s name of None \<Rightarrow> s
      | Some p \<Rightarrow> s\<lparr> m_targets := (m_targets s)(name := None), targets := (targets s)(p := None) \<rparr>)"

section \<open>Comm objects\<close>

definition use_target :: "addr \<Rightarrow> ('f, 'm) manager_scheme \<Rightarrow> ('f target) result" where
  "use_target p s = (case targets s p of None \<Rightarrow> Inl (Undefined ''use of an erased target'') | Some t \<Rightarrow> Inr t)"

definition use_object :: "addr \<Rightarrow> ('f, 'm) manager_scheme \<Rightarrow> ('f comm) result" where
  "use_object a s = (case objects s a of None \<Rightarrow> Inl (Undefined ''use of a destroyed object'') | Some c \<Rightarrow> Inr c)"

text \<open>\<open>Comm(const CommTarget* target, Guid id)\<close>; \<open>None\<close> is the null pointer.\<close>

definition new_Comm :: "addr \<Rightarrow> addr option \<Rightarrow> guid \<Rightarrow> ('f, 'm) manager_scheme \<Rightarrow> (('f, 'm) manager_scheme) result" where
  "new_Comm this target cid s =
     (case target of
        None \<Rightarrow> Inl (RuntimeError ''Cannot initialize comm with null target'')
      | Some p \<Rightarrow> rbind (use_target p s) (\<lambda>_.
          Inr (registerComm cid this
            (s\<lparr> objects := (objects s)(this \<mapsto> \<lparr> m_closeHandler = None, m_messageHandler = None,
                 p_target = p, m_id = cid, m_movedFrom = None \<rparr>) \<rparr>))))"

definition move_Comm :: "addr \<Rightarrow> addr \<Rightarrow> ('f, 'm) manager_scheme \<Rightarrow> (('f, 'm) manager_scheme) result" where
  "move_Comm this other s =
     rbind (use_object other s) (\<lambda>o'.
     rbind (use_target (p_target o') s) (\<lambda>_.
       Inr (registerComm (m_id o') this
         (s\<lparr> objects := (objects s)
              (this \<mapsto> o'\<lparr> m_movedFrom := Some False \<rparr>,
               other \<mapsto> o'\<lparr> m_closeHandler := None, m_messageHandler := None, m_movedFrom := Some True \<rparr>) \<rparr>))))"

definition copy_Comm :: "guid \<Rightarrow> addr \<Rightarrow> addr \<Rightarrow> ('f, 'm) manager_scheme \<Rightarrow> (('f, 'm) manager_scheme) result" where
  "copy_Comm fresh this other s =
     rbind (use_object other s) (\<lambda>o'.
     rbind (use_target (p_target o') s) (\<lambda>_.
       Inr (registerComm fresh this
         (s\<lparr> objects := (objects s)
              (this \<mapsto> \<lparr> m_closeHandler = None, m_messageHandler = None, p_target = p_target o',
                       m_id = fresh, m_movedFrom = Some False \<rparr>) \<rparr>))))"

text \<open>The two assignments, to another object (the code has no test for an assignment to itself).\<close>

definition move_assign :: "addr \<Rightarrow> addr \<Rightarrow> ('f, 'm) manager_scheme \<Rightarrow> (('f, 'm) manager_scheme) result" where
  "move_assign this other s =
     rbind (use_object this s) (\<lambda>c.
     rbind (use_object other s) (\<lambda>o'.
     rbind (use_target (p_target o') s) (\<lambda>_.
       let s = unregisterComm (m_id c) s
       in Inr (registerComm (m_id o') this
            (s\<lparr> objects := (objects s)
                 (this \<mapsto> o'\<lparr> m_movedFrom := Some False \<rparr>,
                  other \<mapsto> o'\<lparr> m_closeHandler := None, m_messageHandler := None, m_movedFrom := Some True \<rparr>) \<rparr>)))))"

definition copy_assign :: "guid \<Rightarrow> addr \<Rightarrow> addr \<Rightarrow> ('f, 'm) manager_scheme \<Rightarrow> (('f, 'm) manager_scheme) result" where
  "copy_assign fresh this other s =
     rbind (use_object this s) (\<lambda>c.
     rbind (use_object other s) (\<lambda>o'.
     rbind (use_target (p_target o') s) (\<lambda>_.
       let s = unregisterComm (m_id c) s
       in Inr (registerComm fresh this
            (s\<lparr> objects := (objects s)
                 (this \<mapsto> c\<lparr> p_target := p_target o', m_id := fresh, m_movedFrom := Some False \<rparr>) \<rparr>)))))"

definition destroy_Comm :: "addr \<Rightarrow> ('f, 'm) manager_scheme \<Rightarrow> (('f, 'm) manager_scheme) result" where
  "destroy_Comm this s =
     rbind (use_object this s) (\<lambda>c.
       case m_movedFrom c of
         None \<Rightarrow> Inl (Undefined ''read of an indeterminate value'')
       | Some moved \<Rightarrow>
           rbind (if moved then Inr s
                  else rbind (use_target (p_target c) s) (\<lambda>_. Inr (unregisterComm (m_id c) s)))
             (\<lambda>s. Inr (s\<lparr> objects := (objects s)(this := None) \<rparr>)))"

definition onClose :: "'f \<Rightarrow> addr \<Rightarrow> ('f, 'm) manager_scheme \<Rightarrow> (('f, 'm) manager_scheme) result" where
  "onClose f this s = rbind (use_object this s) (\<lambda>c.
     Inr (s\<lparr> objects := (objects s)(this \<mapsto> c\<lparr> m_closeHandler := Some f \<rparr>) \<rparr>))"

definition onMessage :: "'f \<Rightarrow> addr \<Rightarrow> ('f, 'm) manager_scheme \<Rightarrow> (('f, 'm) manager_scheme) result" where
  "onMessage f this s = rbind (use_object this s) (\<lambda>c.
     Inr (s\<lparr> objects := (objects s)(this \<mapsto> c\<lparr> m_messageHandler := Some f \<rparr>) \<rparr>))"

section \<open>Messages to the frontend\<close>

definition sendCommMessage ::
  "string \<Rightarrow> json \<Rightarrow> json \<Rightarrow> binary_buffer list \<Rightarrow> string option \<Rightarrow> addr \<Rightarrow> ('f, 'm) manager_scheme \<Rightarrow> (('f, 'm) manager_scheme) result" where
  "sendCommMessage msg_type metadata data buffers target_name this s =
     rbind (use_object this s) (\<lambda>c.
     rbind (use_target (p_target c) s) (\<lambda>_.
       let content = jobj ([(''comm_id'', guid_to_json (m_id c))]
                           @ (case target_name of None \<Rightarrow> [] | Some n \<Rightarrow> [(''target_name'', JString n)])
                           @ [(''data'', data)])
       in Inr (case p_kernel s of None \<Rightarrow> s
               | Some parent \<Rightarrow> publish (msg_type, parent, metadata, content, buffers) s)))"

definition comm_open :: "json \<Rightarrow> json \<Rightarrow> binary_buffer list \<Rightarrow> addr \<Rightarrow> ('f, 'm) manager_scheme \<Rightarrow> (('f, 'm) manager_scheme) result" where
  "comm_open metadata data buffers this s =
     rbind (use_object this s) (\<lambda>c. rbind (use_target (p_target c) s) (\<lambda>t.
       sendCommMessage ''comm_open'' metadata data buffers (Some (t_name t)) this s))"

definition comm_close :: "json \<Rightarrow> json \<Rightarrow> binary_buffer list \<Rightarrow> addr \<Rightarrow> ('f, 'm) manager_scheme \<Rightarrow> (('f, 'm) manager_scheme) result" where
  "comm_close metadata data buffers this s = sendCommMessage ''comm_close'' metadata data buffers None this s"

definition comm_send :: "json \<Rightarrow> json \<Rightarrow> binary_buffer list \<Rightarrow> addr \<Rightarrow> ('f, 'm) manager_scheme \<Rightarrow> (('f, 'm) manager_scheme) result" where
  "comm_send metadata data buffers this s = sendCommMessage ''comm_msg'' metadata data buffers None this s"

section \<open>Messages from the frontend\<close>

text \<open>A callback runs with the address of the comm it is given and the request, and may throw.\<close>

type_synonym ('f, 'm) runner_scheme =
  "'f \<Rightarrow> addr \<Rightarrow> message \<Rightarrow> ('f, 'm) manager_scheme \<Rightarrow> exn option \<times> ('f, 'm) manager_scheme"

type_synonym 'f runner = "('f, unit) runner_scheme"

definition required_string :: "json \<Rightarrow> string \<Rightarrow> string result" where
  "required_string j key = rbind (json_index_const j key) get_string"

definition required_guid :: "json \<Rightarrow> string \<Rightarrow> guid result" where
  "required_guid j key = rbind (json_index_const j key) guid_from_json"

definition handleClose :: "('f, 'm) runner_scheme \<Rightarrow> addr \<Rightarrow> message \<Rightarrow> ('f, 'm) manager_scheme \<Rightarrow> exn option \<times> ('f, 'm) manager_scheme" where
  "handleClose run this request s =
     (case use_object this s of Inl e \<Rightarrow> (Some e, s)
      | Inr c \<Rightarrow> (case m_closeHandler c of None \<Rightarrow> (None, s) | Some f \<Rightarrow> run f this request s))"

definition handleMessage :: "('f, 'm) runner_scheme \<Rightarrow> addr \<Rightarrow> message \<Rightarrow> ('f, 'm) manager_scheme \<Rightarrow> exn option \<times> ('f, 'm) manager_scheme" where
  "handleMessage run this request s =
     (case use_object this s of Inl e \<Rightarrow> (Some e, s)
      | Inr c \<Rightarrow> (case m_messageHandler c of None \<Rightarrow> (None, s) | Some f \<Rightarrow> run f this request s))"

text \<open>\<open>commOpen\<close>: \<open>local\<close> is the address of the local variable \<open>new_comm\<close>, which is destroyed
  when the callback returns or throws.\<close>

definition commOpen :: "('f, 'm) runner_scheme \<Rightarrow> addr \<Rightarrow> message \<Rightarrow> ('f, 'm) manager_scheme \<Rightarrow> exn option \<times> ('f, 'm) manager_scheme" where
  "commOpen run local request s =
     (let content = m_content request
      in case required_string content ''target_name'' of
        Inl e \<Rightarrow> (Some e, s)
      | Inr target_name \<Rightarrow>
        (case m_targets s target_name of
           None \<Rightarrow> (None, publish (''comm_close'', m_header request, JObject [], content, []) s)
         | Some p \<Rightarrow>
           (case rbind (required_guid content ''comm_id'') (\<lambda>cid.
                 rbind (new_Comm local (Some p) cid s) (\<lambda>s'.
                 rbind (use_target p s') (\<lambda>t. Inr (t, s')))) of
              Inl e \<Rightarrow> (Some e, s)
            | Inr (t, s') \<Rightarrow>
              (let (thrown, s'') = run (t_callback t) local request s'
               in case destroy_Comm local s'' of
                    Inl e \<Rightarrow> (Some e, s'')
                  | Inr s''' \<Rightarrow> (thrown, s''')))))"

definition no_such_comm :: "guid \<Rightarrow> exn" where
  "no_such_comm cid = RuntimeError (''No such comm registered: '' @ cid)"

definition commClose :: "('f, 'm) runner_scheme \<Rightarrow> message \<Rightarrow> ('f, 'm) manager_scheme \<Rightarrow> exn option \<times> ('f, 'm) manager_scheme" where
  "commClose run request s =
     (case required_guid (m_content request) ''comm_id'' of
        Inl e \<Rightarrow> (Some e, s)
      | Inr cid \<Rightarrow>
        (case m_comms s cid of
           None \<Rightarrow> (Some (no_such_comm cid), s)
         | Some a \<Rightarrow>
           (case handleClose run a request s of
              (Some e, s') \<Rightarrow> (Some e, s')
            | (None, s') \<Rightarrow> (None, unregisterComm cid s'))))"

definition commMsg :: "('f, 'm) runner_scheme \<Rightarrow> message \<Rightarrow> ('f, 'm) manager_scheme \<Rightarrow> exn option \<times> ('f, 'm) manager_scheme" where
  "commMsg run request s =
     (case required_guid (m_content request) ''comm_id'' of
        Inl e \<Rightarrow> (Some e, s)
      | Inr cid \<Rightarrow>
        (case m_comms s cid of
           None \<Rightarrow> (Some (no_such_comm cid), s)
         | Some a \<Rightarrow> handleMessage run a request s))"

section \<open>The registry never dangles\<close>

text \<open>Every registered address holds a live object that carries the identifier it is registered under
  and that has not been moved from.\<close>

definition registry_ok :: "('f, 'm) manager_scheme \<Rightarrow> bool" where
  "registry_ok s \<longleftrightarrow>
     (\<forall>cid a. m_comms s cid = Some a \<longrightarrow>
        (\<exists>c. objects s a = Some c \<and> m_id c = cid \<and> m_movedFrom c \<noteq> Some True))"

lemma registry_okI:
  "(\<And>cid a. m_comms s cid = Some a \<Longrightarrow> \<exists>c. objects s a = Some c \<and> m_id c = cid \<and> m_movedFrom c \<noteq> Some True) \<Longrightarrow> registry_ok s"
  by (simp add: registry_ok_def)

lemma registry_okD:
  "registry_ok s \<Longrightarrow> m_comms s cid = Some a \<Longrightarrow> \<exists>c. objects s a = Some c \<and> m_id c = cid \<and> m_movedFrom c \<noteq> Some True"
  by (simp add: registry_ok_def)

lemmas comm_ops = registerComm_def unregisterComm_def new_Comm_def move_Comm_def copy_Comm_def
  move_assign_def copy_assign_def destroy_Comm_def onClose_def onMessage_def use_target_def use_object_def

text \<open>One operation on the objects or the tables: what callbacks and their owners may do. A new object
  takes an address where none lives.\<close>

inductive comm_step :: "('f, 'm) manager_scheme \<Rightarrow> ('f, 'm) manager_scheme \<Rightarrow> bool" where
  construct: "objects s a = None \<Longrightarrow> new_Comm a t cid s = Inr s' \<Longrightarrow> comm_step s s'"
| move: "objects s a = None \<Longrightarrow> move_Comm a b s = Inr s' \<Longrightarrow> comm_step s s'"
| copy: "objects s a = None \<Longrightarrow> copy_Comm fresh a b s = Inr s' \<Longrightarrow> comm_step s s'"
| move_to: "a \<noteq> b \<Longrightarrow> move_assign a b s = Inr s' \<Longrightarrow> comm_step s s'"
| copy_to: "copy_assign fresh a b s = Inr s' \<Longrightarrow> comm_step s s'"
| destroy: "destroy_Comm a s = Inr s' \<Longrightarrow> comm_step s s'"
| on_close: "onClose f a s = Inr s' \<Longrightarrow> comm_step s s'"
| on_message: "onMessage f a s = Inr s' \<Longrightarrow> comm_step s s'"
| send: "sendCommMessage ty md dt bs tn a s = Inr s' \<Longrightarrow> comm_step s s'"
| erase: "comm_step s (unregisterComm cid s)"
| publishing: "comm_step s (publish p s)"
| add_target: "targets s node = None \<Longrightarrow> comm_step s (registerCommTarget node name f s)"
| drop_target: "comm_step s (unregisterCommTarget name s)"

lemma registry_ok_new: "registry_ok s \<Longrightarrow> objects s a = None \<Longrightarrow> new_Comm a t cid s = Inr s' \<Longrightarrow> registry_ok s'"
  by (rule registry_okI)
     (auto simp: comm_ops result_simps split: option.splits if_splits dest!: registry_okD)

lemma registry_ok_move: "registry_ok s \<Longrightarrow> objects s a = None \<Longrightarrow> move_Comm a b s = Inr s' \<Longrightarrow> registry_ok s'"
  by (rule registry_okI)
     (fastforce simp: comm_ops result_simps split: option.splits if_splits dest!: registry_okD)

lemma registry_ok_copy: "registry_ok s \<Longrightarrow> objects s a = None \<Longrightarrow> copy_Comm fresh a b s = Inr s' \<Longrightarrow> registry_ok s'"
  by (rule registry_okI)
     (fastforce simp: comm_ops result_simps split: option.splits if_splits dest!: registry_okD)

lemma registry_ok_move_assign: "registry_ok s \<Longrightarrow> a \<noteq> b \<Longrightarrow> move_assign a b s = Inr s' \<Longrightarrow> registry_ok s'"
  by (rule registry_okI)
     (fastforce simp: comm_ops result_simps Let_def split: option.splits if_splits dest!: registry_okD)

lemma registry_ok_copy_assign: "registry_ok s \<Longrightarrow> copy_assign fresh a b s = Inr s' \<Longrightarrow> registry_ok s'"
  by (rule registry_okI)
     (fastforce simp: comm_ops result_simps Let_def split: option.splits if_splits dest!: registry_okD)

lemma registry_ok_destroy: "registry_ok s \<Longrightarrow> destroy_Comm a s = Inr s' \<Longrightarrow> registry_ok s'"
  by (rule registry_okI)
     (fastforce simp: comm_ops result_simps split: option.splits if_splits dest!: registry_okD)

lemma registry_ok_handlers:
  "registry_ok s \<Longrightarrow> onClose f a s = Inr s' \<Longrightarrow> registry_ok s'"
  "registry_ok s \<Longrightarrow> onMessage f a s = Inr s' \<Longrightarrow> registry_ok s'"
  by (rule registry_okI;
      fastforce simp: comm_ops result_simps split: option.splits if_splits dest!: registry_okD)+

lemma registry_ok_tables:
  "registry_ok s \<Longrightarrow> registry_ok (unregisterComm cid s)" "registry_ok s \<Longrightarrow> registry_ok (publish p s)"
  "registry_ok s \<Longrightarrow> registry_ok (registerCommTarget node name f s)"
  "registry_ok s \<Longrightarrow> registry_ok (unregisterCommTarget name s)"
  by (auto simp: registry_ok_def unregisterComm_def publish_def registerCommTarget_def unregisterCommTarget_def
      Let_def split: option.splits if_splits)

lemma registry_ok_send: "registry_ok s \<Longrightarrow> sendCommMessage ty md dt bs tn a s = Inr s' \<Longrightarrow> registry_ok s'"
  using registry_ok_tables(2)
  by (auto simp: sendCommMessage_def result_simps Let_def split: option.splits)

lemma comm_step_registry: "comm_step s s' \<Longrightarrow> registry_ok s \<Longrightarrow> registry_ok s'"
  by (induction rule: comm_step.induct)
     (blast intro: registry_ok_new registry_ok_move registry_ok_copy registry_ok_move_assign registry_ok_copy_assign
       registry_ok_destroy registry_ok_handlers registry_ok_send registry_ok_tables)+

lemma registry_ok_initial: "registry_ok (CommManager krn)"
  by (simp add: registry_ok_def CommManager_def)

text \<open>A callback that does nothing but such operations.\<close>

definition stepwise :: "('f, 'm) runner_scheme \<Rightarrow> bool" where
  "stepwise run \<longleftrightarrow> (\<forall>f a m s. comm_step\<^sup>*\<^sup>* s (snd (run f a m s)))"

lemma comm_steps_registry: "comm_step\<^sup>*\<^sup>* s s' \<Longrightarrow> registry_ok s \<Longrightarrow> registry_ok s'"
  by (induction rule: rtranclp_induct) (auto intro: comm_step_registry)

lemma stepwise_registry: "stepwise run \<Longrightarrow> registry_ok s \<Longrightarrow> registry_ok (snd (run f a m s))"
  using comm_steps_registry unfolding stepwise_def by blast

lemma stepwise_registryD: "stepwise run \<Longrightarrow> registry_ok s \<Longrightarrow> run f a m s = (e, s') \<Longrightarrow> registry_ok s'"
  using stepwise_registry [of run s f a m] by simp

lemma commMsg_registry: "stepwise run \<Longrightarrow> registry_ok s \<Longrightarrow> registry_ok (snd (commMsg run m s))"
  by (auto simp: commMsg_def handleMessage_def intro: stepwise_registry split: sum.split option.split)

lemma commClose_registry: "stepwise run \<Longrightarrow> registry_ok s \<Longrightarrow> registry_ok (snd (commClose run m s))"
  by (auto simp: commClose_def handleClose_def intro: stepwise_registryD registry_ok_tables(1)
      split: sum.splits option.splits prod.splits)

lemma commOpen_registry:
  "stepwise run \<Longrightarrow> registry_ok s \<Longrightarrow> objects s local = None \<Longrightarrow> registry_ok (snd (commOpen run local m s))"
  by (auto simp: commOpen_def Let_def result_simps intro: registry_ok_tables(2)
      split: sum.splits option.splits prod.splits)
     (blast intro: stepwise_registryD registry_ok_new registry_ok_destroy)+

section \<open>Properties\<close>


text \<open>A callback that keeps the comm it is given, at an address of its own, and listens to it.\<close>

definition keep :: "addr \<Rightarrow> 'f \<Rightarrow> addr \<Rightarrow> message \<Rightarrow> ('f, 'm) manager_scheme \<Rightarrow> exn option \<times> ('f, 'm) manager_scheme" where
  "keep a f local request s =
     (case rbind (move_Comm a local s) (onMessage f a) of Inl e \<Rightarrow> (Some e, s) | Inr s' \<Rightarrow> (None, s'))"


text \<open>Opening a comm whose target keeps it leaves the manager with the kept object under the
  identifier of the request and the local one gone; a later message for that identifier runs the
  handler the target installed, with the kept object, and nothing else.\<close>

lemma comm_open_then_message:
  assumes "required_string (m_content request) ''target_name'' = Inr name" "m_targets s name = Some p"
    "targets s p = Some t" "required_guid (m_content request) ''comm_id'' = Inr cid"
    "a \<noteq> local" "run (t_callback t) = keep a f"
    "required_guid (m_content later) ''comm_id'' = Inr cid"
  shows "\<exists>s'. commOpen run local request s = (None, s') \<and> m_comms s' cid = Some a \<and> objects s' local = None \<and>
              commMsg run later s' = run f a later s'"
  using assms
  by (simp add: commOpen_def commMsg_def handleMessage_def keep_def comm_ops Let_def)

lemma comm_open_then_message_witness:
  "\<exists>s'. commOpen (\<lambda>f. keep 9 ''listen'') 7
          (new_message [] JNull JNull JNull
             (jobj [(''target_name'', JString ''plot''), (''comm_id'', JString ''c1'')]) [])
          (registerCommTarget 3 ''plot'' ''open'' (CommManager None)) = (None, s') \<and>
        m_comms s' ''c1'' = Some 9"
proof -
  let ?m = "new_message [] JNull JNull JNull (jobj [(''target_name'', JString ''plot''), (''comm_id'', JString ''c1'')]) []"
  let ?s = "registerCommTarget 3 ''plot'' ''open'' (CommManager None)"
  have "required_string (m_content ?m) ''target_name'' = Inr ''plot''"
    "required_guid (m_content ?m) ''comm_id'' = Inr ''c1''"
    by (simp_all add: required_string_def required_guid_def guid_from_json_def Guid_def json_simps)
  moreover have "m_targets ?s ''plot'' = Some 3" "targets ?s 3 = Some \<lparr> t_name = ''plot'', t_callback = ''open'' \<rparr>"
    by (simp_all add: registerCommTarget_def CommManager_def Let_def)
  ultimately show ?thesis
    using comm_open_then_message [of ?m "''plot''" ?s 3 "\<lparr> t_name = ''plot'', t_callback = ''open'' \<rparr>" "''c1''" 9 7
        "\<lambda>f. keep 9 ''listen''" "''listen''" ?m] by auto
qed

text \<open>A target that does not keep its comm: the destructor of the local object then reads the
  flag that tells whether it was moved from, which the constructor never sets.\<close>

lemma comm_not_kept_reads_indeterminate_flag:
  assumes "required_string (m_content request) ''target_name'' = Inr name" "m_targets s name = Some p"
    "targets s p = Some t" "required_guid (m_content request) ''comm_id'' = Inr cid"
    "\<And>m s. run (t_callback t) local m s = (None, s)"
  shows "fst (commOpen run local request s) = Some (Undefined ''read of an indeterminate value'')"
  using assms by (simp add: commOpen_def comm_ops Let_def)

lemma comm_not_kept_reads_indeterminate_flag_witness:
  "fst (commOpen (\<lambda>f a m s. (None, s)) 7
          (new_message [] JNull JNull JNull
             (jobj [(''target_name'', JString ''plot''), (''comm_id'', JString ''c1'')]) [])
          (registerCommTarget 3 ''plot'' () (CommManager None)))
   = Some (Undefined ''read of an indeterminate value'')"
  by (rule comm_not_kept_reads_indeterminate_flag [where name = "''plot''" and p = 3 and cid = "''c1''"
        and t = "\<lparr> t_name = ''plot'', t_callback = () \<rparr>"])
     (simp_all add: required_string_def required_guid_def guid_from_json_def Guid_def json_simps
        registerCommTarget_def CommManager_def Let_def)

end
