(* ===== verification/Kernel_Io.thy ===== *)
theory Kernel_Io
  imports Message
begin

text \<open>
  What a kernel hands to its server: the sending half of \<open>KernelCore\<close>
  (\<open>native/src/adrastea/core/kernel/kernel_core.cpp\<close>: \<open>publishMessage\<close>, \<open>sendReply\<close>,
  \<open>sendStdin\<close>, \<open>publishStatus\<close>, \<open>buildStartMsg\<close>) and the request context of
  \<open>request_context.cpp\<close>.

  The kernel's effects are one list of events in the order they happen, across the channels, because
  their order is what the protocol is about. Every header takes its identifier and its date from a
  supply: \<open>newGuid()\<close> and the clock at the time of the \<open>n\<close>-th header.
\<close>

datatype channel = SHELL | CONTROL

text \<open>The calls on the server (\<open>native/include/adrastea/server.hpp\<close>).\<close>

datatype event =
    Publish pub_message channel
  | SendShell message
  | SendControl message
  | SendStdin message
  | BeginExecution
  | EndExecution
  | StopServer

record request_context =
  rc_header :: json
  rc_id :: guid_list

record kernel_io =
  m_kernelId :: string
  m_userName :: string
  m_sessionId :: string
  id_supply :: "nat \<Rightarrow> string \<times> string"
  drawn :: nat
  sent :: "event list"

definition emit :: "event \<Rightarrow> 'k kernel_io_scheme \<Rightarrow> 'k kernel_io_scheme" where
  "emit e k = k\<lparr> sent := sent k @ [e] \<rparr>"

text \<open>\<open>makeHeader\<close> with the user and the session of the kernel.\<close>

definition next_header :: "string \<Rightarrow> 'k kernel_io_scheme \<Rightarrow> json" where
  "next_header msg_type k = makeHeader (id_supply k (drawn k)) msg_type (m_userName k) (m_sessionId k)"

definition draw :: "'k kernel_io_scheme \<Rightarrow> 'k kernel_io_scheme" where
  "draw k = k\<lparr> drawn := Suc (drawn k) \<rparr>"

definition getTopic :: "string \<Rightarrow> 'k kernel_io_scheme \<Rightarrow> string" where
  "getTopic msg_type k = ''kernel_core.'' @ m_kernelId k @ ''.'' @ msg_type"

definition publishMessage ::
  "string \<Rightarrow> json \<Rightarrow> json \<Rightarrow> json \<Rightarrow> binary_buffer list \<Rightarrow> channel \<Rightarrow> 'k kernel_io_scheme \<Rightarrow> 'k kernel_io_scheme" where
  "publishMessage msg_type parent_header metadata cont buffers c k =
     emit (Publish (new_pub_message (getTopic msg_type k) (next_header msg_type k) parent_header metadata cont buffers) c)
       (draw k)"

definition sendStdin :: "string \<Rightarrow> guid_list \<Rightarrow> json \<Rightarrow> json \<Rightarrow> json \<Rightarrow> 'k kernel_io_scheme \<Rightarrow> 'k kernel_io_scheme" where
  "sendStdin msg_type id_list parent_header metadata cont k =
     emit (SendStdin (new_message id_list (next_header msg_type k) parent_header metadata cont [])) (draw k)"

definition sendReply ::
  "guid_list \<Rightarrow> string \<Rightarrow> json \<Rightarrow> json \<Rightarrow> json \<Rightarrow> channel \<Rightarrow> 'k kernel_io_scheme \<Rightarrow> 'k kernel_io_scheme" where
  "sendReply id_list reply_type parent_header metadata reply_content c k =
     (let reply = new_message id_list (next_header reply_type k) parent_header metadata reply_content []
      in emit (if c = SHELL then SendShell reply else SendControl reply) (draw k))"

definition publishStatus :: "json \<Rightarrow> string \<Rightarrow> channel \<Rightarrow> 'k kernel_io_scheme \<Rightarrow> 'k kernel_io_scheme" where
  "publishStatus parent_header status c k =
     publishMessage ''status'' parent_header (JObject []) (jobj [(''execution_state'', JString status)]) [] c k"

definition buildStartMsg :: "'k kernel_io_scheme \<Rightarrow> pub_message" where
  "buildStartMsg k =
     new_pub_message (''kernel_core.'' @ m_kernelId k @ ''.status'') (next_header ''status'' k) (JObject []) (JObject [])
       (jobj [(''execution_state'', JString ''starting'')]) []"

section \<open>Reading the events back\<close>

named_theorems io_simps

text \<open>A published message of a type for a request; a status; a reply.\<close>

fun publishes :: "string \<Rightarrow> json \<Rightarrow> event \<Rightarrow> bool" where
  "publishes msg_type parent (Publish m c) \<longleftrightarrow>
     json_lookup (m_header m) ''msg_type'' = Some (JString msg_type) \<and> m_parentHeader m = parent"
| "publishes _ _ _ \<longleftrightarrow> False"

fun is_status :: "string \<Rightarrow> json \<Rightarrow> event \<Rightarrow> bool" where
  "is_status status parent (Publish m c) \<longleftrightarrow>
     publishes ''status'' parent (Publish m c) \<and>
     json_lookup (m_content m) ''execution_state'' = Some (JString status)"
| "is_status _ _ _ \<longleftrightarrow> False"

fun reply_message :: "event \<Rightarrow> message option" where
  "reply_message (SendShell m) = Some m"
| "reply_message (SendControl m) = Some m"
| "reply_message _ = None"

definition is_reply :: "string \<Rightarrow> guid_list \<Rightarrow> json \<Rightarrow> event \<Rightarrow> bool" where
  "is_reply reply_type ids parent e =
     (case reply_message e of None \<Rightarrow> False
      | Some m \<Rightarrow> json_lookup (m_header m) ''msg_type'' = Some (JString reply_type) \<and>
                  m_parentHeader m = parent \<and> m_zmqId m = ids)"

text \<open>An operation only appends to what was sent.\<close>

definition appends :: "event list \<Rightarrow> 'k kernel_io_scheme \<Rightarrow> 'k kernel_io_scheme \<Rightarrow> bool" where
  "appends es k k' \<longleftrightarrow> sent k' = sent k @ es"

lemma next_header_type [simp]: "json_lookup (next_header ty k) ''msg_type'' = Some (JString ty)"
  by (simp add: next_header_def makeHeader_fields)

lemma sent_publishMessage [io_simps]:
  "sent (publishMessage ty ph md ct bs c k) =
     sent k @ [Publish (new_pub_message (getTopic ty k) (next_header ty k) ph md ct bs) c]"
  by (simp add: publishMessage_def emit_def draw_def)

lemma sent_sendReply [io_simps]:
  "sent (sendReply ids ty ph md ct c k) =
     sent k @ [if c = SHELL then SendShell (new_message ids (next_header ty k) ph md ct [])
               else SendControl (new_message ids (next_header ty k) ph md ct [])]"
  by (simp add: sendReply_def emit_def draw_def Let_def)

lemma sent_publishStatus [io_simps]:
  "sent (publishStatus ph st c k) =
     sent k @ [Publish (new_pub_message (getTopic ''status'' k) (next_header ''status'' k) ph (JObject [])
                 (jobj [(''execution_state'', JString st)]) []) c]"
  by (simp add: publishStatus_def sent_publishMessage)

lemma publishes_published [simp]:
  "publishes ty ph (Publish (new_pub_message t (next_header ty' k) ph' md ct bs) c) \<longleftrightarrow> ty = ty' \<and> ph = ph'"
  by (auto simp: next_header_def makeHeader_fields)

lemma is_status_published [simp]:
  "is_status st ph (Publish (new_pub_message t (next_header ''status'' k) ph' md (jobj [(''execution_state'', JString st')]) bs) c)
     \<longleftrightarrow> st = st' \<and> ph = ph'"
  by (auto simp: json_simps next_header_def)

lemma is_reply_sent [simp]:
  "is_reply ty ids ph (SendShell (new_message ids' (next_header ty' k) ph' md ct bs)) \<longleftrightarrow> ty = ty' \<and> ph = ph' \<and> ids = ids'"
  "is_reply ty ids ph (SendControl (new_message ids' (next_header ty' k) ph' md ct bs)) \<longleftrightarrow> ty = ty' \<and> ph = ph' \<and> ids = ids'"
  by (auto simp: is_reply_def next_header_def makeHeader_fields)

lemma is_reply_other [simp]:
  "\<not> is_reply ty ids ph (Publish m c)" "\<not> is_reply ty ids ph (SendStdin s)"
  "\<not> is_reply ty ids ph BeginExecution" "\<not> is_reply ty ids ph EndExecution" "\<not> is_reply ty ids ph StopServer"
  by (simp_all add: is_reply_def)

end
