(* ===== verification/Interp.thy ===== *)
theory Interp
  imports Kernel_Io
begin

text \<open>
  The framework's half of an interpreter: \<open>native/src/adrastea/core/execution/interpreter.cpp\<close>
  (and \<open>utils/input.cpp\<close>). The language backends override the \<open>*Impl\<close> functions; what they
  call back is here: the output of a running request, with its text coalesced per stream, and the
  questions to the user.

  The state of the interpreter extends what the kernel sends with, since the publisher that
  \<open>KernelCore\<close> registers is \<open>publishMessage\<close> on the shell channel (kernel_core.cpp:61-69). Clock
  readings are arguments, in the unit of \<open>kStreamFlushInterval\<close>; \<open>0\<close> is the clock's
  \<open>time_point{}\<close>, a flush that never was. Every operation runs under \<open>m_streamMutex\<close>, so the
  thread that flushes stale text takes whole steps between them (\<open>flusher_step\<close>).
\<close>

record pending_stream =
  ps_name :: string
  ps_text :: string
  ps_context :: request_context

record interp = kernel_io +
  m_executionCount :: int
  m_requestContext :: request_context
  m_allowStdin :: bool
  m_publisher :: bool
  m_stdin :: bool
  m_inputReplyHandler :: "string option"
  m_streamPending :: "pending_stream list"
  m_streamPendingBytes :: nat
  m_streamLastFlush :: int
  kStreamFlushInterval :: int
  kStreamFlushBytes :: nat

text \<open>\<open>m_inputReplyHandler\<close> is the handler of \<open>blockingInputRequest\<close>: the value it has captured.\<close>

section \<open>The setting of the two limits\<close>

text \<open>\<open>streamSetting\<close>: \<open>getenv\<close> and \<open>strtol\<close> of the whole text (\<open>None\<close> when it is not a
  number in full).\<close>

definition strtol_all :: "string \<Rightarrow> int option" where
  "strtol_all s =
     (let t = dropWhile isspace s;
          (neg, ds) = (case t of c # r \<Rightarrow> if c = CHR ''-'' then (True, r) else if c = CHR ''+'' then (False, r) else (False, t) | [] \<Rightarrow> (False, []))
      in if ds \<noteq> [] \<and> list_all isdigit ds
         then Some (let v = int (read_lsb (rev ds)); v = (if neg then - v else v)
                    in max (- (2 ^ 63)) (min (2 ^ 63 - 1) v))
         else None)"

definition streamSetting :: "string option \<Rightarrow> int \<Rightarrow> int \<Rightarrow> int" where
  "streamSetting value fallback minimum =
     (case value of None \<Rightarrow> fallback
      | Some s \<Rightarrow> if s = [] then fallback
                  else (case strtol_all s of Some parsed \<Rightarrow> if parsed \<ge> minimum then parsed else fallback | None \<Rightarrow> fallback))"

section \<open>Output\<close>

text \<open>\<open>m_publisher(context, msg_type, json::object(), content, {})\<close>.\<close>

definition publisher :: "request_context \<Rightarrow> string \<Rightarrow> json \<Rightarrow> 'k interp_scheme \<Rightarrow> 'k interp_scheme" where
  "publisher ctx msg_type cont k = publishMessage msg_type (rc_header ctx) (JObject []) cont [] SHELL k"

definition stream_content :: "pending_stream \<Rightarrow> json" where
  "stream_content p = jobj [(''name'', JString (ps_name p)), (''text'', JString (ps_text p))]"

definition flushStreamsLocked :: "int \<Rightarrow> 'k interp_scheme \<Rightarrow> 'k interp_scheme" where
  "flushStreamsLocked now k =
     (let pending = m_streamPending k;
          k = k\<lparr> m_streamPending := [], m_streamPendingBytes := 0 \<rparr>
      in if pending = [] \<or> \<not> m_publisher k then k
         else fold (\<lambda>stream. publisher (ps_context stream) ''stream'' (stream_content stream)) pending
                (k\<lparr> m_streamLastFlush := now \<rparr>))"

abbreviation flushStreams :: "int \<Rightarrow> 'k interp_scheme \<Rightarrow> 'k interp_scheme" where
  "flushStreams \<equiv> flushStreamsLocked"

text \<open>\<open>find_if\<close> by name, and the text added to the entry found or to a new one at the end.\<close>

fun add_pending :: "request_context \<Rightarrow> string \<Rightarrow> string \<Rightarrow> pending_stream list \<Rightarrow> pending_stream list" where
  "add_pending ctx name text [] = [\<lparr> ps_name = name, ps_text = text, ps_context = ctx \<rparr>]"
| "add_pending ctx name text (p # ps) =
     (if ps_name p = name then p\<lparr> ps_text := ps_text p @ text \<rparr> # ps else p # add_pending ctx name text ps)"

definition publishStream :: "int \<Rightarrow> string \<Rightarrow> string \<Rightarrow> 'k interp_scheme \<Rightarrow> 'k interp_scheme" where
  "publishStream now name text k =
     (if \<not> m_publisher k \<or> text = [] then k
      else
        let k = (if m_streamPending k = [] \<and> m_streamLastFlush k = 0
                 then k\<lparr> m_streamLastFlush := now - kStreamFlushInterval k \<rparr> else k);
            context = m_requestContext k;
            k = (if m_streamPending k \<noteq> [] \<and> rc_header (ps_context (hd (m_streamPending k))) \<noteq> rc_header context
                 then flushStreamsLocked now k else k);
            k = k\<lparr> m_streamPending := add_pending context name text (m_streamPending k),
                   m_streamPendingBytes := m_streamPendingBytes k + length text \<rparr>
        in if m_streamPendingBytes k \<ge> kStreamFlushBytes k \<or> now - m_streamLastFlush k \<ge> kStreamFlushInterval k
           then flushStreamsLocked now k
           else k)"

text \<open>One turn of \<open>streamFlusherLoop\<close> with the lock held.\<close>

definition flusher_step :: "int \<Rightarrow> 'k interp_scheme \<Rightarrow> 'k interp_scheme" where
  "flusher_step now k =
     (if m_streamPending k \<noteq> [] \<and> now \<ge> m_streamLastFlush k + kStreamFlushInterval k
      then flushStreamsLocked now k else k)"

definition buildDisplayContent :: "json \<Rightarrow> json \<Rightarrow> json \<Rightarrow> json" where
  "buildDisplayContent data metadata transient =
     jobj [(''data'', data), (''metadata'', metadata), (''transient'', transient)]"

text \<open>Everything but text: what is pending goes out first.\<close>

definition publish_after_flush :: "int \<Rightarrow> string \<Rightarrow> json \<Rightarrow> 'k interp_scheme \<Rightarrow> 'k interp_scheme" where
  "publish_after_flush now msg_type cont k =
     (let k = flushStreams now k
      in if m_publisher k then publisher (m_requestContext k) msg_type cont k else k)"

definition displayData :: "int \<Rightarrow> json \<Rightarrow> json \<Rightarrow> json \<Rightarrow> 'k interp_scheme \<Rightarrow> 'k interp_scheme" where
  "displayData now data metadata transient =
     publish_after_flush now ''display_data'' (buildDisplayContent data metadata transient)"

definition updateDisplayData :: "int \<Rightarrow> json \<Rightarrow> json \<Rightarrow> json \<Rightarrow> 'k interp_scheme \<Rightarrow> 'k interp_scheme" where
  "updateDisplayData now data metadata transient =
     publish_after_flush now ''update_display_data'' (buildDisplayContent data metadata transient)"

definition publishExecutionInput :: "string \<Rightarrow> int \<Rightarrow> 'k interp_scheme \<Rightarrow> 'k interp_scheme" where
  "publishExecutionInput code execution_count k =
     (if m_publisher k
      then publisher (m_requestContext k) ''execute_input''
             (jobj [(''code'', JString code), (''execution_count'', JInt execution_count)]) k
      else k)"

definition publishExecutionResult :: "int \<Rightarrow> int \<Rightarrow> json \<Rightarrow> json \<Rightarrow> 'k interp_scheme \<Rightarrow> 'k interp_scheme" where
  "publishExecutionResult now execution_count data metadata =
     publish_after_flush now ''execute_result''
       (jobj [(''execution_count'', JInt execution_count), (''data'', data), (''metadata'', metadata)])"

definition publishExecutionError :: "int \<Rightarrow> string \<Rightarrow> string \<Rightarrow> string list \<Rightarrow> 'k interp_scheme \<Rightarrow> 'k interp_scheme" where
  "publishExecutionError now ename evalue trace_back =
     publish_after_flush now ''error''
       (jobj [(''ename'', JString ename), (''evalue'', JString evalue), (''traceback'', JArray (map JString trace_back))])"

definition clearOutput :: "int \<Rightarrow> bool \<Rightarrow> 'k interp_scheme \<Rightarrow> 'k interp_scheme" where
  "clearOutput now wait = publish_after_flush now ''clear_output'' (jobj [(''wait'', JBool wait)])"

definition publishDebugEvent :: "int \<Rightarrow> json \<Rightarrow> bool \<Rightarrow> 'k interp_scheme \<Rightarrow> 'k interp_scheme" where
  "publishDebugEvent now event flushOutput k =
     (let k = (if flushOutput then flushStreams now k else k)
      in if m_publisher k then publisher (m_requestContext k) ''debug_event'' event k else k)"

section \<open>Input\<close>

definition inputReply :: "string \<Rightarrow> 'k interp_scheme \<Rightarrow> 'k interp_scheme" where
  "inputReply value k =
     (case m_inputReplyHandler k of None \<Rightarrow> k | Some _ \<Rightarrow> k\<lparr> m_inputReplyHandler := Some value \<rparr>)"

text \<open>\<open>KernelCore::dispatchStdin\<close>: an answer that is no object, or whose value is no string, is
  reported and dropped.\<close>

definition dispatchStdin :: "message \<Rightarrow> 'k interp_scheme \<Rightarrow> 'k interp_scheme" where
  "dispatchStdin msg k =
     (case value_string (m_content msg) ''value'' [] of Inl _ \<Rightarrow> k | Inr value \<Rightarrow> inputReply value k)"

text \<open>The server sends the question and waits for the answer: \<open>answer\<close> is the deserialized reply, or
  \<open>None\<close> for one that was refused.\<close>

definition inputRequest :: "int \<Rightarrow> string \<Rightarrow> bool \<Rightarrow> json \<Rightarrow> message option \<Rightarrow> 'k interp_scheme \<Rightarrow> 'k interp_scheme" where
  "inputRequest now prompt pwd ui answer k =
     (let k = flushStreams now k
      in if \<not> m_stdin k then k
         else
           let cont = jobj ([(''prompt'', JString prompt), (''password'', JBool pwd)]
                            @ (if ui = JNull then [] else [(''jovian_ui'', ui)]));
               ctx = m_requestContext k;
               k = sendStdin ''input_request'' (rc_id ctx) (rc_header ctx) (JObject []) cont k
           in case answer of None \<Rightarrow> k | Some msg \<Rightarrow> dispatchStdin msg k)"

definition stdin_refused :: exn where
  "stdin_refused = RuntimeError
     ''This execution didn't allow interactive input (allow_stdin was false) -- the caller needs to opt in (e.g. execute(code, { allowStdin: true })) and be ready to answer an input_request for a blocking read like this to work.''"

definition blockingInputRequest ::
  "int \<Rightarrow> string \<Rightarrow> bool \<Rightarrow> bool \<Rightarrow> json \<Rightarrow> message option \<Rightarrow> 'k interp_scheme \<Rightarrow> string result \<times> 'k interp_scheme" where
  "blockingInputRequest now prompt password allowStdin ui answer k =
     (if \<not> allowStdin then (Inl stdin_refused, k)
      else
        let k = k\<lparr> m_inputReplyHandler := Some [] \<rparr>;
            k = inputRequest now prompt password ui answer k;
            value = (case m_inputReplyHandler k of Some v \<Rightarrow> v | None \<Rightarrow> [])
        in (Inr value, k\<lparr> m_inputReplyHandler := None \<rparr>))"

section \<open>Requests with a default answer\<close>

definition debugRequestImpl :: "json \<Rightarrow> json result" where
  "debugRequestImpl request =
     rbind (value_int request ''seq'' 0) (\<lambda>seq.
     rbind (value_string request ''command'' []) (\<lambda>command.
       Inr (jobj [(''type'', JString ''response''), (''seq'', JInt 0), (''request_seq'', JInt seq),
                  (''success'', JBool False), (''command'', JString command),
                  (''message'', JString ''this kernel has no debugger'')])))"

definition internalRequestImpl :: "json \<Rightarrow> json" where
  "internalRequestImpl message =
     jobj [(''status'', JString ''error''), (''what'', JString ''internal request not supported'')]"

section \<open>A running backend\<close>

text \<open>What a backend calls while a request runs, and the turns of the flusher thread between the
  calls.\<close>

datatype action =
    Stream int string string
  | FlusherTick int
  | Display int json json json
  | UpdateDisplay int json json json
  | ExecutionResult int int json json
  | ExecutionError int string string "string list"
  | ClearOutput int bool
  | DebugEvent int json bool
  | Input int string bool json "message option"

fun act :: "action \<Rightarrow> 'k interp_scheme \<Rightarrow> 'k interp_scheme" where
  "act (Stream now name text) k = publishStream now name text k"
| "act (FlusherTick now) k = flusher_step now k"
| "act (Display now d md tr) k = displayData now d md tr k"
| "act (UpdateDisplay now d md tr) k = updateDisplayData now d md tr k"
| "act (ExecutionResult now n d md) k = publishExecutionResult now n d md k"
| "act (ExecutionError now en ev tb) k = publishExecutionError now en ev tb k"
| "act (ClearOutput now w) k = clearOutput now w k"
| "act (DebugEvent now e fl) k = publishDebugEvent now e fl k"
| "act (Input now p pw ui a) k = inputRequest now p pw ui a k"

section \<open>No text is lost\<close>

text \<open>The text of one stream for one request: what was published, and what waits.\<close>

fun stream_part :: "json \<Rightarrow> string \<Rightarrow> event \<Rightarrow> string" where
  "stream_part h n (Publish m c) =
     (if json_lookup (m_header m) ''msg_type'' = Some (JString ''stream'') \<and> m_parentHeader m = h \<and>
         json_lookup (m_content m) ''name'' = Some (JString n)
      then (case json_lookup (m_content m) ''text'' of Some (JString t) \<Rightarrow> t | _ \<Rightarrow> []) else [])"
| "stream_part h n _ = []"

definition stream_text :: "json \<Rightarrow> string \<Rightarrow> event list \<Rightarrow> string" where
  "stream_text h n es = concat (map (stream_part h n) es)"

definition pending_text :: "json \<Rightarrow> string \<Rightarrow> pending_stream list \<Rightarrow> string" where
  "pending_text h n ps =
     concat (map (\<lambda>p. if rc_header (ps_context p) = h \<and> ps_name p = n then ps_text p else []) ps)"

definition pending_ok :: "'k interp_scheme \<Rightarrow> bool" where
  "pending_ok k \<longleftrightarrow>
     distinct (map ps_name (m_streamPending k)) \<and>
     (\<forall>p \<in> set (m_streamPending k). rc_header (ps_context p) = rc_header (ps_context (hd (m_streamPending k)))) \<and>
     m_streamPendingBytes k = sum_list (map (length \<circ> ps_text) (m_streamPending k))"

lemma stream_text_simps [simp]:
  "stream_text h n [] = []" "stream_text h n (es @ es') = stream_text h n es @ stream_text h n es'"
  "stream_text h n (e # es) = stream_part h n e @ stream_text h n es"
  by (simp_all add: stream_text_def)

lemma pending_text_simps [simp]:
  "pending_text h n [] = []"
  "pending_text h n (p # ps) = (if rc_header (ps_context p) = h \<and> ps_name p = n then ps_text p else []) @ pending_text h n ps"
  by (simp_all add: pending_text_def)

lemma stream_part_published [simp]:
  "stream_part h n (Publish (new_pub_message t (next_header ty k) ph md ct bs) c) =
     (if ty = ''stream'' \<and> ph = h \<and> json_lookup ct ''name'' = Some (JString n)
      then (case json_lookup ct ''text'' of Some (JString t) \<Rightarrow> t | _ \<Rightarrow> []) else [])"
  by (auto simp: next_header_def makeHeader_fields)

lemma sent_publisher [io_simps]:
  "sent (publisher ctx ty ct k) =
     sent k @ [Publish (new_pub_message (getTopic ty k) (next_header ty k) (rc_header ctx) (JObject []) ct []) SHELL]"
  by (simp add: publisher_def sent_publishMessage)

lemma publisher_keeps [simp]:
  "m_streamPending (publisher ctx ty ct k) = m_streamPending k" "m_requestContext (publisher ctx ty ct k) = m_requestContext k"
  "m_publisher (publisher ctx ty ct k) = m_publisher k" "m_streamPendingBytes (publisher ctx ty ct k) = m_streamPendingBytes k"
  "m_streamLastFlush (publisher ctx ty ct k) = m_streamLastFlush k" "m_stdin (publisher ctx ty ct k) = m_stdin k"
  "m_executionCount (publisher ctx ty ct k) = m_executionCount k"
  by (simp_all add: publisher_def publishMessage_def emit_def draw_def)

lemma stream_content_fields [simp]:
  "json_lookup (stream_content p) ''name'' = Some (JString (ps_name p))"
  "json_lookup (stream_content p) ''text'' = Some (JString (ps_text p))"
  by (simp_all add: stream_content_def json_lookup_jobj)

lemma fold_publisher_keeps:
  "m_streamPending (fold (\<lambda>s. publisher (ps_context s) ''stream'' (stream_content s)) ps k) = m_streamPending k \<and>
   m_requestContext (fold (\<lambda>s. publisher (ps_context s) ''stream'' (stream_content s)) ps k) = m_requestContext k \<and>
   m_publisher (fold (\<lambda>s. publisher (ps_context s) ''stream'' (stream_content s)) ps k) = m_publisher k \<and>
   m_streamPendingBytes (fold (\<lambda>s. publisher (ps_context s) ''stream'' (stream_content s)) ps k) = m_streamPendingBytes k \<and>
   m_streamLastFlush (fold (\<lambda>s. publisher (ps_context s) ''stream'' (stream_content s)) ps k) = m_streamLastFlush k \<and>
   m_executionCount (fold (\<lambda>s. publisher (ps_context s) ''stream'' (stream_content s)) ps k) = m_executionCount k"
  by (induction ps arbitrary: k) simp_all

lemma fold_publisher_text:
  "stream_text h n (sent (fold (\<lambda>s. publisher (ps_context s) ''stream'' (stream_content s)) ps k)) =
     stream_text h n (sent k) @ pending_text h n ps"
  by (induction ps arbitrary: k) (auto simp: sent_publisher)

lemma flush_fields [simp]:
  "m_streamPending (flushStreamsLocked now k) = []" "m_streamPendingBytes (flushStreamsLocked now k) = 0"
  "m_requestContext (flushStreamsLocked now k) = m_requestContext k" "m_publisher (flushStreamsLocked now k) = m_publisher k"
  "m_executionCount (flushStreamsLocked now k) = m_executionCount k"
  by (simp_all add: flushStreamsLocked_def Let_def fold_publisher_keeps)

lemma flush_text:
  "m_publisher k \<Longrightarrow> stream_text h n (sent (flushStreamsLocked now k)) = stream_text h n (sent k) @ pending_text h n (m_streamPending k)"
  by (simp add: flushStreamsLocked_def Let_def fold_publisher_text)

lemma flush_ok [simp]: "pending_ok (flushStreamsLocked now k)"
  by (simp add: pending_ok_def)

lemma set_add_pending:
  "p \<in> set (add_pending ctx name text ps) \<Longrightarrow> \<exists>q. (q \<in> set ps \<or> q = \<lparr> ps_name = name, ps_text = [], ps_context = ctx \<rparr>) \<and> ps_context p = ps_context q"
  by (induction ps) (auto split: if_splits)

lemma names_add_pending:
  "map ps_name (add_pending ctx name text ps) = map ps_name ps @ (if name \<in> ps_name ` set ps then [] else [name])"
  by (induction ps) auto

lemma bytes_add_pending:
  "sum_list (map (length \<circ> ps_text) (add_pending ctx name text ps)) = sum_list (map (length \<circ> ps_text) ps) + length text"
  by (induction ps) auto

lemma text_add_pending:
  "distinct (map ps_name ps) \<Longrightarrow> \<forall>p \<in> set ps. rc_header (ps_context p) = rc_header ctx \<Longrightarrow>
   pending_text h n (add_pending ctx name text ps) =
     pending_text h n ps @ (if h = rc_header ctx \<and> n = name then text else [])"
proof (induction ps)
  case (Cons p ps)
  have none: "pending_text h n qs = []" if "n \<notin> ps_name ` set qs" for qs
    using that by (induction qs) auto
  show ?case
  proof (cases "ps_name p = name")
    case True
    then have "n = name \<Longrightarrow> pending_text h n ps = []"
      using Cons.prems(1) by (intro none) auto
    with True Cons.prems show ?thesis by auto
  next
    case False
    with Cons show ?thesis by auto
  qed
qed auto

lemma add_pending_hd: "\<forall>p \<in> set ps. rc_header (ps_context p) = h \<Longrightarrow> rc_header ctx = h \<Longrightarrow>
   \<forall>p \<in> set (add_pending ctx name text ps). rc_header (ps_context p) = h"
  by (fastforce dest: set_add_pending)

lemma add_pending_nonempty [simp]: "add_pending ctx name text ps \<noteq> []"
  by (cases ps) auto

lemma sent_pending: "sent (k\<lparr> m_streamPending := p, m_streamPendingBytes := b \<rparr>) = sent k"
  by simp

lemma pending_ok_lastFlush: "pending_ok (k\<lparr> m_streamLastFlush := t \<rparr>) = pending_ok k"
  unfolding pending_ok_def by simp

text \<open>Writing to a stream: the text joins the end of the stream's text for the request that runs, and
  nothing else moves.\<close>

lemma publishStream_spec:
  assumes "pending_ok k" "m_publisher k"
  shows "pending_ok (publishStream now name text k) \<and> m_publisher (publishStream now name text k) \<and>
    m_requestContext (publishStream now name text k) = m_requestContext k \<and>
    m_executionCount (publishStream now name text k) = m_executionCount k \<and>
    stream_text h n (sent (publishStream now name text k)) @ pending_text h n (m_streamPending (publishStream now name text k)) =
    stream_text h n (sent k) @ pending_text h n (m_streamPending k)
      @ (if h = rc_header (m_requestContext k) \<and> n = name then text else [])"
proof (cases "text = []")
  case True
  then show ?thesis using assms by (simp add: publishStream_def)
next
  case False
  define k1 where "k1 = (if m_streamPending k = [] \<and> m_streamLastFlush k = 0
                 then k\<lparr> m_streamLastFlush := now - kStreamFlushInterval k \<rparr> else k)"
  define k2 where "k2 = (if m_streamPending k1 \<noteq> [] \<and> rc_header (ps_context (hd (m_streamPending k1))) \<noteq> rc_header (m_requestContext k1)
                 then flushStreamsLocked now k1 else k1)"
  define k3 where "k3 = k2\<lparr> m_streamPending := add_pending (m_requestContext k2) name text (m_streamPending k2),
                   m_streamPendingBytes := m_streamPendingBytes k2 + length text \<rparr>"
  have k1: "sent k1 = sent k" "m_streamPending k1 = m_streamPending k" "m_publisher k1" "m_requestContext k1 = m_requestContext k"
      "m_executionCount k1 = m_executionCount k" "pending_ok k1"
    using assms by (simp_all add: k1_def pending_ok_lastFlush)
  have k2: "m_publisher k2" "m_requestContext k2 = m_requestContext k" "m_executionCount k2 = m_executionCount k" "pending_ok k2"
      "stream_text h n (sent k2) @ pending_text h n (m_streamPending k2) = stream_text h n (sent k) @ pending_text h n (m_streamPending k)"
    using k1 by (simp_all add: k2_def flush_text)
  have same: "\<forall>p \<in> set (m_streamPending k2). rc_header (ps_context p) = rc_header (m_requestContext k2)"
  proof (cases "m_streamPending k1 \<noteq> [] \<and> rc_header (ps_context (hd (m_streamPending k1))) \<noteq> rc_header (m_requestContext k1)")
    case True
    then have "k2 = flushStreamsLocked now k1" by (simp add: k2_def)
    then show ?thesis by simp
  next
    case False
    then have "k2 = k1" by (auto simp: k2_def)
    moreover have "rc_header (ps_context p) = rc_header (m_requestContext k1)" if "p \<in> set (m_streamPending k1)" for p
      using False that k1(6) unfolding pending_ok_def by (metis empty_iff empty_set)
    ultimately show ?thesis by blast
  qed
  have all: "\<forall>p \<in> set (add_pending (m_requestContext k2) name text (m_streamPending k2)). rc_header (ps_context p) = rc_header (m_requestContext k2)"
    using same by (rule add_pending_hd) simp
  have k3: "m_publisher k3" "m_requestContext k3 = m_requestContext k" "m_executionCount k3 = m_executionCount k" "pending_ok k3"
      "stream_text h n (sent k3) @ pending_text h n (m_streamPending k3) = stream_text h n (sent k) @ pending_text h n (m_streamPending k)
         @ (if h = rc_header (m_requestContext k) \<and> n = name then text else [])"
  proof -
    show "m_publisher k3" "m_requestContext k3 = m_requestContext k" "m_executionCount k3 = m_executionCount k"
      using k2 by (simp_all add: k3_def)
    show "pending_ok k3"
      using k2(4) all unfolding pending_ok_def k3_def
      by (auto simp: names_add_pending bytes_add_pending hd_in_set)
    have "distinct (map ps_name (m_streamPending k2))" using k2(4) by (simp add: pending_ok_def)
    then have "pending_text h n (m_streamPending k3) = pending_text h n (m_streamPending k2)
        @ (if h = rc_header (m_requestContext k) \<and> n = name then text else [])"
      using text_add_pending [OF _ same] k2(2) by (simp add: k3_def)
    then show "stream_text h n (sent k3) @ pending_text h n (m_streamPending k3) = stream_text h n (sent k) @ pending_text h n (m_streamPending k)
         @ (if h = rc_header (m_requestContext k) \<and> n = name then text else [])"
      using k2(5) k3_def by (metis append.assoc sent_pending)
  qed
  have "publishStream now name text k =
      (if m_streamPendingBytes k3 \<ge> kStreamFlushBytes k3 \<or> now - m_streamLastFlush k3 \<ge> kStreamFlushInterval k3
       then flushStreamsLocked now k3 else k3)"
    using False assms(2) k1(4) by (simp add: publishStream_def Let_def k3_def k2_def k1_def)
  then show ?thesis using k3 by (simp add: flush_text)
qed

section \<open>Every other operation\<close>

text \<open>The operations that publish something after the text: nothing stays pending, and what was pending
  is in front of it.\<close>

definition kept_output :: "json \<Rightarrow> string \<Rightarrow> 'k interp_scheme \<Rightarrow> 'k interp_scheme \<Rightarrow> bool" where
  "kept_output h n k k' \<longleftrightarrow>
     pending_ok k' \<and> m_publisher k' \<and> m_requestContext k' = m_requestContext k \<and>
     m_executionCount k' = m_executionCount k \<and>
     stream_text h n (sent k') @ pending_text h n (m_streamPending k') =
     stream_text h n (sent k) @ pending_text h n (m_streamPending k)"

lemma flush_kept: "m_publisher k \<Longrightarrow> kept_output h n k (flushStreamsLocked now k)"
  by (simp add: kept_output_def flush_text)

lemma publisher_kept:
  "pending_ok k \<Longrightarrow> m_publisher k \<Longrightarrow> ty \<noteq> ''stream'' \<Longrightarrow> m_streamPending k = [] \<Longrightarrow> kept_output h n k (publisher ctx ty ct k)"
  by (simp add: kept_output_def sent_publisher pending_ok_def)

lemma kept_trans: "kept_output h n k k' \<Longrightarrow> kept_output h n k' k'' \<Longrightarrow> kept_output h n k k''"
  by (simp add: kept_output_def)

lemma publish_after_flush_kept:
  "m_publisher k \<Longrightarrow> ty \<noteq> ''stream'' \<Longrightarrow> kept_output h n k (publish_after_flush now ty ct k)"
  by (simp add: publish_after_flush_def Let_def)
     (rule kept_trans [OF flush_kept publisher_kept], simp_all)

lemma publisher_debug_kept:
  "pending_ok k \<Longrightarrow> m_publisher k \<Longrightarrow> ty \<noteq> ''stream'' \<Longrightarrow>
     stream_text h n (sent (publisher ctx ty ct k)) @ pending_text h n (m_streamPending k) =
     stream_text h n (sent k) @ pending_text h n (m_streamPending k)"
  by (simp add: sent_publisher)

lemma pending_ok_publisher: "pending_ok (publisher ctx ty ct k) = pending_ok k"
  by (simp add: pending_ok_def)

lemma debug_kept: "pending_ok k \<Longrightarrow> m_publisher k \<Longrightarrow> kept_output h n k (publishDebugEvent now e fl k)"
  by (cases fl)
     (simp_all add: publishDebugEvent_def Let_def kept_output_def pending_ok_publisher sent_publisher flush_text)

lemma sendStdin_kept:
  "kept_output h n k k' \<Longrightarrow> kept_output h n k (sendStdin ty ids ph md ct k')"
  by (simp add: kept_output_def sendStdin_def emit_def draw_def pending_ok_def)

lemma dispatchStdin_kept:
  "kept_output h n k k' \<Longrightarrow> kept_output h n k (dispatchStdin msg k')"
  by (simp add: kept_output_def dispatchStdin_def inputReply_def pending_ok_def split: sum.split option.split)

lemma input_kept: "m_publisher k \<Longrightarrow> kept_output h n k (inputRequest now p pw ui a k)"
  using flush_kept [of k h n now]
  by (auto simp: inputRequest_def Let_def intro: sendStdin_kept dispatchStdin_kept split: option.split)

lemma flusher_kept: "pending_ok k \<Longrightarrow> m_publisher k \<Longrightarrow> kept_output h n k (flusher_step now k)"
  using flush_kept [of k h n now] by (simp add: flusher_step_def) (simp add: kept_output_def)

fun written :: "string \<Rightarrow> action \<Rightarrow> string" where
  "written n (Stream now name text) = (if n = name then text else [])"
| "written n _ = []"

lemmas act_defs = displayData_def updateDisplayData_def publishExecutionResult_def publishExecutionError_def clearOutput_def

lemma act_output:
  assumes "pending_ok k" "m_publisher k"
  shows "pending_ok (act a k) \<and> m_publisher (act a k) \<and> m_requestContext (act a k) = m_requestContext k \<and>
    m_executionCount (act a k) = m_executionCount k \<and>
    stream_text h n (sent (act a k)) @ pending_text h n (m_streamPending (act a k)) =
    stream_text h n (sent k) @ pending_text h n (m_streamPending k)
      @ (if h = rc_header (m_requestContext k) then written n a else [])"
proof (cases "\<exists>now name text. a = Stream now name text")
  case True
  then show ?thesis using publishStream_spec [OF assms] by auto
next
  case False
  then have "kept_output h n k (act a k) \<and> written n a = []"
    by (cases a) (simp_all add: assms act_defs publish_after_flush_kept flusher_kept debug_kept input_kept)
  then show ?thesis by (simp add: kept_output_def)
qed

lemma run_output:
  assumes "pending_ok k" "m_publisher k"
  shows "pending_ok (fold act acts k) \<and> m_publisher (fold act acts k) \<and> m_requestContext (fold act acts k) = m_requestContext k \<and>
    m_executionCount (fold act acts k) = m_executionCount k \<and>
    stream_text h n (sent (fold act acts k)) @ pending_text h n (m_streamPending (fold act acts k)) =
    stream_text h n (sent k) @ pending_text h n (m_streamPending k)
      @ (if h = rc_header (m_requestContext k) then concat (map (written n) acts) else [])"
  using assms
proof (induction acts arbitrary: k)
  case (Cons a acts)
  show ?case
    using act_output [OF Cons.prems, of a h n] Cons.IH [of "act a k"] by auto
qed simp

section \<open>How much may wait\<close>

definition pending_bounded :: "'k interp_scheme \<Rightarrow> bool" where
  "pending_bounded k \<longleftrightarrow> m_streamPendingBytes k < kStreamFlushBytes k"

lemma kStreamFlushBytes_keeps [simp]:
  "kStreamFlushBytes (publisher ctx ty ct k) = kStreamFlushBytes k"
  by (simp add: publisher_def publishMessage_def emit_def draw_def)

lemma kStreamFlushBytes_fold [simp]:
  "kStreamFlushBytes (fold (\<lambda>s. publisher (ps_context s) ''stream'' (stream_content s)) ps k) = kStreamFlushBytes k"
  by (induction ps arbitrary: k) simp_all

lemma kStreamFlushBytes_flush [simp]: "kStreamFlushBytes (flushStreamsLocked now k) = kStreamFlushBytes k"
  by (simp add: flushStreamsLocked_def Let_def)

lemma flush_bounded: "0 < kStreamFlushBytes k \<Longrightarrow> pending_bounded (flushStreamsLocked now k)"
  by (simp add: pending_bounded_def)

lemma publishStream_bounded:
  "pending_bounded k \<Longrightarrow> pending_bounded (publishStream now name text k)"
  by (auto simp: publishStream_def pending_bounded_def Let_def not_le)

lemma publish_after_flush_bounded:
  "0 < kStreamFlushBytes k \<Longrightarrow> pending_bounded (publish_after_flush now ty ct k)"
  by (simp add: publish_after_flush_def pending_bounded_def Let_def)

lemma act_bounded: "pending_bounded k \<Longrightarrow> pending_bounded (act a k)"
proof -
  assume b: "pending_bounded k"
  then have pos: "0 < kStreamFlushBytes k" by (simp add: pending_bounded_def)
  have io: "pending_bounded (sendStdin ty ids ph md ct k') = pending_bounded k'"
    "pending_bounded (dispatchStdin msg k') = pending_bounded k'" for ty ids ph md ct msg and k' :: "'a interp_scheme"
    by (simp_all add: pending_bounded_def sendStdin_def emit_def draw_def dispatchStdin_def inputReply_def
        split: sum.split option.split)
  have pub: "pending_bounded (publisher ctx ty ct k') = pending_bounded k'" for ctx ty ct and k' :: "'a interp_scheme"
    by (simp add: pending_bounded_def)
  show ?thesis
    using b pos
    by (cases a)
       (auto simp: publishStream_bounded act_defs publish_after_flush_bounded flusher_step_def flush_bounded
          publishDebugEvent_def inputRequest_def Let_def io pub
          split: option.split)
qed

section \<open>Properties\<close>


text \<open>An interpreter as the kernel's constructor leaves it, with nothing pending.\<close>

definition fresh_interp :: interp where
  "fresh_interp =
     \<lparr> m_kernelId = ''k'', m_userName = ''u'', m_sessionId = ''s'', id_supply = (\<lambda>n. (show_nat n, ''now'')), drawn = 0,
       sent = [], m_executionCount = 0, m_requestContext = \<lparr> rc_header = jobj [(''msg_id'', JString ''r1'')], rc_id = [''c''] \<rparr>,
       m_allowStdin = True, m_publisher = True, m_stdin = True, m_inputReplyHandler = None, m_streamPending = [],
       m_streamPendingBytes = 0, m_streamLastFlush = 0, kStreamFlushInterval = 50, kStreamFlushBytes = 16384 \<rparr>"

lemma fresh_interp_ok [simp]: "pending_ok fresh_interp" "m_publisher fresh_interp"
  by (simp_all add: fresh_interp_def pending_ok_def)


text \<open>Output that is not text comes after the text written before it: when a display is published,
  every piece written earlier in the request is already in the messages in front of it.\<close>

lemma display_follows_text:
  assumes "pending_ok k" "m_publisher k"
  shows "\<exists>es e. sent (displayData now d md tr (fold act acts k)) = es @ [e] \<and>
           publishes ''display_data'' (rc_header (m_requestContext k)) e \<and>
           stream_text (rc_header (m_requestContext k)) name es =
             stream_text (rc_header (m_requestContext k)) name (sent k)
             @ pending_text (rc_header (m_requestContext k)) name (m_streamPending k)
             @ concat (map (written name) acts)"
  using run_output [OF assms, of acts "rc_header (m_requestContext k)" name]
  by (simp add: displayData_def publish_after_flush_def Let_def sent_publisher flush_text)

lemma display_follows_text_witness:
  "\<exists>es e. sent (displayData 1004 JNull JNull JNull (fold act [Stream 1000 ''stdout'' ''a'', Stream 1001 ''stdout'' ''b''] fresh_interp))
            = es @ [e] \<and> publishes ''display_data'' (jobj [(''msg_id'', JString ''r1'')]) e \<and>
          stream_text (jobj [(''msg_id'', JString ''r1'')]) ''stdout'' es = ''ab''"
  using display_follows_text [of fresh_interp 1004 JNull JNull JNull "[Stream 1000 ''stdout'' ''a'', Stream 1001 ''stdout'' ''b'']" "''stdout''"]
  by (simp add: fresh_interp_def pending_ok_def)

text \<open>The text that waits stays below the limit of \<open>kStreamFlushBytes\<close>, whatever is written.\<close>

theorem pending_text_is_bounded:
  assumes "m_streamPendingBytes k < kStreamFlushBytes k"
  shows "m_streamPendingBytes (fold act acts k) < kStreamFlushBytes (fold act acts k)"
proof -
  have "pending_bounded (fold act acts k)" using assms
  proof (induction acts arbitrary: k)
    case Nil
    then show ?case by (simp add: pending_bounded_def)
  next
    case (Cons a acts)
    then show ?case using act_bounded [of k a] by (simp add: pending_bounded_def)
  qed
  then show ?thesis by (simp add: pending_bounded_def)
qed

theorem pending_text_is_bounded_witness:
  "m_streamPendingBytes (act (Stream 1000 ''stdout'' (replicate 20000 (CHR ''x''))) fresh_interp)
   < kStreamFlushBytes (act (Stream 1000 ''stdout'' (replicate 20000 (CHR ''x''))) fresh_interp)"
proof -
  have start: "m_streamPendingBytes fresh_interp < kStreamFlushBytes fresh_interp" by (simp add: fresh_interp_def)
  from pending_text_is_bounded [OF start, of "[Stream 1000 ''stdout'' (replicate 20000 (CHR ''x''))]"]
  show ?thesis by simp
qed

text \<open>A blocking question: without \<open>allow_stdin\<close> it is refused and nothing is sent; with it, the
  question goes to the client of the running request, the value of its answer is returned, and no
  handler stays behind. An answer that does not hold a string counts as empty.\<close>

lemma blocking_input_answers:
  assumes "m_stdin k"
  shows "blockingInputRequest now prompt pw False ui answer k = (Inl stdin_refused, k) \<and>
     (let (r, k') = blockingInputRequest now prompt pw True ui (Some msg) k
      in r = Inr (case value_string (m_content msg) ''value'' [] of Inr v \<Rightarrow> v | Inl _ \<Rightarrow> []) \<and>
         m_inputReplyHandler k' = None \<and>
         (\<exists>es q. sent k' = es @ [SendStdin q] \<and> m_zmqId q = rc_id (m_requestContext k) \<and>
                 m_parentHeader q = rc_header (m_requestContext k) \<and>
                 json_lookup (m_content q) ''prompt'' = Some (JString prompt)))"
proof -
  define k1 where "k1 = k\<lparr> m_inputReplyHandler := Some [] \<rparr>"
  define k2 where "k2 = flushStreamsLocked now k1"
  have fold: "m_stdin (fold (\<lambda>s. publisher (ps_context s) ''stream'' (stream_content s)) ps q) = m_stdin q \<and>
      m_inputReplyHandler (fold (\<lambda>s. publisher (ps_context s) ''stream'' (stream_content s)) ps q) = m_inputReplyHandler q" 
    for ps and q :: "'a interp_scheme"
    by (induction ps arbitrary: q) (simp_all add: publisher_def publishMessage_def emit_def draw_def)
  have k2: "m_stdin k2" "m_inputReplyHandler k2 = Some []" "m_requestContext k2 = m_requestContext k"
    using assms fold by (simp_all add: k2_def k1_def flushStreamsLocked_def Let_def fold_publisher_keeps)
  have req: "inputRequest now prompt pw ui (Some msg) k1 =
      dispatchStdin msg (sendStdin ''input_request'' (rc_id (m_requestContext k)) (rc_header (m_requestContext k)) (JObject [])
        (jobj ([(''prompt'', JString prompt), (''password'', JBool pw)] @ (if ui = JNull then [] else [(''jovian_ui'', ui)]))) k2)"
    using k2 by (simp add: inputRequest_def Let_def k2_def)
  show ?thesis
    using k2
    by (simp add: blockingInputRequest_def Let_def k1_def [symmetric] req dispatchStdin_def inputReply_def sendStdin_def
        emit_def draw_def json_lookup_jobj split: sum.split)
qed

lemma blocking_input_answers_witness:
  "fst (blockingInputRequest 1000 ''name? '' False True JNull
          (Some (new_message [''c''] JNull JNull JNull (jobj [(''value'', JString ''Ada'')]) [])) fresh_interp) = Inr ''Ada''"
  using blocking_input_answers [of fresh_interp 1000 "''name? ''" False JNull None
      "new_message [''c''] JNull JNull JNull (jobj [(''value'', JString ''Ada'')]) []"]
  by (simp add: fresh_interp_def json_simps split: prod.splits)

end
