(* ===== verification/Helper.thy ===== *)
theory Helper
  imports Json
begin

text \<open>
  \<open>native/src/adrastea/utils/helper.cpp\<close>: the contents of the replies an interpreter gives, and the
  command line of a kernel (\<open>-f\<close> with the connection file, \<open>--version\<close>).
\<close>

definition createErrorReply :: "string \<Rightarrow> string \<Rightarrow> json \<Rightarrow> json" where
  "createErrorReply ename evalue trace_back =
     jobj [(''status'', JString ''error''), (''ename'', JString ename), (''evalue'', JString evalue),
           (''traceback'', trace_back)]"

definition createSuccessfulReply :: "json \<Rightarrow> json \<Rightarrow> json" where
  "createSuccessfulReply payload user_expressions =
     jobj [(''status'', JString ''ok''), (''payload'', payload), (''user_expressions'', user_expressions)]"

definition createCompleteReply :: "json \<Rightarrow> int \<Rightarrow> int \<Rightarrow> json \<Rightarrow> json" where
  "createCompleteReply matches cursor_start cursor_end metadata =
     jobj [(''status'', JString ''ok''), (''matches'', matches), (''cursor_start'', JInt cursor_start),
           (''cursor_end'', JInt cursor_end), (''metadata'', metadata)]"

definition createInspectReply :: "bool \<Rightarrow> json \<Rightarrow> json \<Rightarrow> json" where
  "createInspectReply found data metadata =
     jobj [(''status'', JString ''ok''), (''found'', JBool found), (''data'', data), (''metadata'', metadata)]"

definition createIsCompleteReply :: "string \<Rightarrow> string \<Rightarrow> json" where
  "createIsCompleteReply status indent = jobj [(''status'', JString status), (''indent'', JString indent)]"

text \<open>\<open>codemirror_mode\<close> is a name or an object: its JSON value.\<close>

definition createInfoReply ::
  "string \<Rightarrow> string \<Rightarrow> string \<Rightarrow> string \<Rightarrow> string \<Rightarrow> string \<Rightarrow> string \<Rightarrow> json \<Rightarrow> string \<Rightarrow> string \<Rightarrow> json \<Rightarrow> string list \<Rightarrow> json" where
  "createInfoReply implementation implementation_version language_name language_version language_mimetype
     language_file_extension language_pygments_lexer language_codemirror_mode language_nbconvert_exporter banner
     help_links supported_features =
     jobj [(''status'', JString ''ok''), (''implementation'', JString implementation),
           (''implementation_version'', JString implementation_version),
           (''language_info'',
              jobj [(''name'', JString language_name), (''version'', JString language_version),
                    (''mimetype'', JString language_mimetype), (''file_extension'', JString language_file_extension),
                    (''pygments_lexer'', JString language_pygments_lexer), (''codemirror_mode'', language_codemirror_mode),
                    (''nbconvert_exporter'', JString language_nbconvert_exporter)]),
           (''banner'', JString banner), (''help_links'', help_links),
           (''supported_features'', JArray (map JString supported_features))]"

definition createShutdownReply :: "bool \<Rightarrow> json" where
  "createShutdownReply restart = jobj [(''status'', JString ''ok''), (''restart'', JBool restart)]"

definition createInterruptReply :: json where
  "createInterruptReply = jobj [(''status'', JString ''ok'')]"

text \<open>\<open>extractFilename\<close>: the argument after the first \<open>-f\<close> that has one, and the arguments without
  the two (\<open>argc\<close> and \<open>argv\<close> as the call leaves them).\<close>

fun extractFilename :: "string list \<Rightarrow> string \<times> string list" where
  "extractFilename [] = ([], [])"
| "extractFilename [a] = ([], [a])"
| "extractFilename (a # b # rest) =
     (if a = ''-f'' then (b, rest)
      else let (res, args) = extractFilename (b # rest) in (res, a # args))"

definition shouldPrintVersion :: "string list \<Rightarrow> bool" where
  "shouldPrintVersion argv = list_ex (\<lambda>a. a = ''--version'') argv"

section \<open>Laws\<close>

lemma createErrorReply_status [json_simps]:
  "json_lookup (createErrorReply en ev tb) ''status'' = Some (JString ''error'')"
  "is_object (createErrorReply en ev tb)"
  by (simp_all add: createErrorReply_def json_simps)

lemma extractFilename_found:
  "''-f'' \<notin> set pre \<Longrightarrow> extractFilename (pre @ ''-f'' # file # post) = (file, pre @ post)"
proof (induction pre)
  case (Cons a pre)
  then show ?case by (cases pre) auto
qed simp

lemma extractFilename_none:
  "''-f'' \<notin> set (butlast args) \<Longrightarrow> extractFilename args = ([], args)"
  by (induction args rule: extractFilename.induct) auto

end
