(* ===== verification/Kernel_Core.thy ===== *)
theory Kernel_Core
  imports Interp History Comm Helper
begin

text \<open>
  \<open>KernelCore\<close> (\<open>native/src/adrastea/core/kernel/kernel_core.cpp\<close>): the dispatch of a request to its
  handler between a busy and an idle status, every handler, the callback that ends an execution, and
  the abort of what is queued behind a failed one.

  The language backend is not part of the framework: it is a record of functions over a state of its
  own (\<open>backend\<close>), and an execution is the list of what it calls back (output, questions, the reply)
  with the exception it ends with, if any. The regular expressions of history searches, the comm
  callbacks and the text of an exception are parameters too, in \<open>environment\<close>.

  A handler returns the exception it ends with, if any, and the state. \<open>dispatch\<close> catches
  exceptions; \<open>Undefined\<close> is not one of them and goes through.
\<close>

section \<open>State\<close>

record execute_request_config =
  silent :: bool
  store_history :: bool
  allow_stdin :: bool

text \<open>What the execution of a request calls: an output, or the reply callback (with the clock).\<close>

datatype execution_step = Out action | Reply int json

record 'b backend =
  executeRequestImpl ::
    "int \<Rightarrow> string \<Rightarrow> execute_request_config \<Rightarrow> json \<Rightarrow> 'b \<Rightarrow> (execution_step list \<times> exn option) \<times> 'b"
  completeRequestImpl :: "string \<Rightarrow> int \<Rightarrow> 'b \<Rightarrow> json result \<times> 'b"
  inspectRequestImpl :: "string \<Rightarrow> int \<Rightarrow> int \<Rightarrow> 'b \<Rightarrow> json result \<times> 'b"
  isCompleteRequestImpl :: "string \<Rightarrow> 'b \<Rightarrow> json result \<times> 'b"
  kernelInfoRequestImpl :: "'b \<Rightarrow> json result \<times> 'b"
  shutdownRequestImpl :: "bool \<Rightarrow> 'b \<Rightarrow> json result \<times> 'b"
  interruptRequestImpl :: "'b \<Rightarrow> json result \<times> 'b"
  backendDebugRequestImpl :: "json \<Rightarrow> 'b \<Rightarrow> json result \<times> 'b"

record ('f, 'b) environment =
  e_backend :: "'b backend"
  e_regex :: "string \<Rightarrow> (string \<Rightarrow> bool) result"
  e_run :: "'f runner"
  e_local :: addr
  e_what :: "exn \<Rightarrow> string"

text \<open>The requests waiting behind a running one: those the server has set aside, and those still in the
  shell socket (as deserialized, or the error of one that is refused).\<close>

record ('f, 'b) kernel = interp +
  k_history :: history
  k_comms :: "'f manager"
  k_backend :: 'b
  k_deferred :: "message list"
  k_arrived :: "message result list"

type_synonym ('f, 'b) outcome = "exn option \<times> ('f, 'b) kernel"

fun caught :: "exn \<Rightarrow> bool" where
  "caught (Undefined _) = False"
| "caught _ = True"

section \<open>Aborting\<close>

text \<open>\<open>msg_type.replace(msg_type.find_last_of('_'), 8, "_reply")\<close>.\<close>

definition abort_reply_type :: "string \<Rightarrow> string result" where
  "abort_reply_type msg_type =
     (case find_last_of {CHR ''_''} msg_type of
        None \<Rightarrow> Inl (StdOutOfRange ''basic_string::replace'')
      | Some i \<Rightarrow> Inr (take i msg_type @ ''_reply'' @ drop (i + 8) msg_type))"

definition abortRequest :: "message \<Rightarrow> ('f, 'b) kernel \<Rightarrow> ('f, 'b) outcome" where
  "abortRequest msg k =
     (case rbind (value_string (m_header msg) ''msg_type'' []) abort_reply_type of
        Inl e \<Rightarrow> (Some e, k)
      | Inr msg_type \<Rightarrow>
          (None, sendReply (m_zmqId msg) msg_type (m_header msg) (JObject [])
                   (jobj [(''status'', JString ''aborted'')]) SHELL k))"

text \<open>\<open>ServerZmqImpl::abortQueue\<close>: first what was set aside, where an exception of the listener ends
  the whole, then what is in the socket, where it is reported and the next message read.\<close>

fun abort_deferred :: "message list \<Rightarrow> ('f, 'b) kernel \<Rightarrow> ('f, 'b) outcome" where
  "abort_deferred [] k = (None, k\<lparr> k_deferred := [] \<rparr>)"
| "abort_deferred (m # ms) k =
     (case abortRequest m (k\<lparr> k_deferred := ms \<rparr>) of
        (Some e, k) \<Rightarrow> (Some e, k)
      | (None, k) \<Rightarrow> abort_deferred ms k)"

fun abort_arrived :: "message result list \<Rightarrow> ('f, 'b) kernel \<Rightarrow> ('f, 'b) outcome" where
  "abort_arrived [] k = (None, k\<lparr> k_arrived := [] \<rparr>)"
| "abort_arrived (Inl e # ms) k = abort_arrived ms k"
| "abort_arrived (Inr m # ms) k = abort_arrived ms (snd (abortRequest m k))"

definition abortQueue :: "('f, 'b) kernel \<Rightarrow> ('f, 'b) outcome" where
  "abortQueue k =
     (case abort_deferred (k_deferred k) k of
        (Some e, k) \<Rightarrow> (Some e, k)
      | (None, k) \<Rightarrow> abort_arrived (k_arrived k) k)"

section \<open>Executing\<close>

definition getMetadata :: "('f, 'b) kernel \<Rightarrow> json" where
  "getMetadata k = jobj [(''started'', JString (snd (id_supply k (drawn k))))]"

text \<open>What the reply callback captured, and whether \<open>endExecution\<close> was called (the shared flag).\<close>

record execution =
  x_context :: request_context
  x_config :: execute_request_config
  x_stop_on_error :: bool
  x_code :: string

definition reply_callback :: "execution \<Rightarrow> json \<Rightarrow> bool \<Rightarrow> ('f, 'b) kernel \<Rightarrow> exn option \<times> bool \<times> ('f, 'b) kernel" where
  "reply_callback x reply ended k =
     (let k = (if ended then k else emit EndExecution k)
      in case rbind (value_int reply ''execution_count'' 1) (\<lambda>execution_count.
              rbind (value_string reply ''status'' ''error'') (\<lambda>status. Inr (execution_count, status))) of
        Inl e \<Rightarrow> (Some e, True, k)
      | Inr (execution_count, status) \<Rightarrow>
        let metadata = getMetadata k
        in case (if \<not> silent (x_config x) \<and> status = ''error'' \<and> x_stop_on_error x then abortQueue k else (None, k)) of
          (Some e, k) \<Rightarrow> (Some e, True, k)
        | (None, k) \<Rightarrow>
          let k = sendReply (rc_id (x_context x)) ''execute_reply'' (rc_header (x_context x)) metadata reply SHELL k;
              k = (if \<not> silent (x_config x) \<and> store_history (x_config x)
                   then k\<lparr> k_history := storeInputsImpl 0 execution_count (x_code x) [] (k_history k) \<rparr> else k)
          in (None, True, publishStatus (rc_header (x_context x)) ''idle'' SHELL k))"

text \<open>\<open>callback_impl\<close> of \<open>Interpreter::executeRequest\<close>.\<close>

definition callback_impl :: "execution \<Rightarrow> int \<Rightarrow> int \<Rightarrow> json \<Rightarrow> bool \<Rightarrow> ('f, 'b) kernel \<Rightarrow> exn option \<times> bool \<times> ('f, 'b) kernel" where
  "callback_impl x execution_count now reply ended k =
     (let k = flushStreams now k
      in case json_put reply ''execution_count'' (JInt execution_count) of
           Inl e \<Rightarrow> (Some e, ended, k)
         | Inr reply \<Rightarrow> reply_callback x reply ended k)"

text \<open>What a backend does during its execution, up to the first exception of a callback.\<close>

fun run_steps :: "execution \<Rightarrow> int \<Rightarrow> execution_step list \<Rightarrow> bool \<Rightarrow> ('f, 'b) kernel \<Rightarrow> exn option \<times> bool \<times> ('f, 'b) kernel" where
  "run_steps x n [] ended k = (None, ended, k)"
| "run_steps x n (Out a # steps) ended k = run_steps x n steps ended (act a k)"
| "run_steps x n (Reply now reply # steps) ended k =
     (case callback_impl x n now reply ended k of
        (Some e, ended, k) \<Rightarrow> (Some e, ended, k)
      | (None, ended, k) \<Rightarrow> run_steps x n steps ended k)"

text \<open>\<open>Interpreter::executeRequest\<close>.\<close>

definition interpreter_executeRequest ::
  "'b backend \<Rightarrow> execution \<Rightarrow> json \<Rightarrow> ('f, 'b) kernel \<Rightarrow> exn option \<times> bool \<times> ('f, 'b) kernel" where
  "interpreter_executeRequest B x user_expressions k =
     (let k = k\<lparr> m_requestContext := x_context x, m_allowStdin := allow_stdin (x_config x) \<rparr>;
          k = (if silent (x_config x) then k
               else let k = k\<lparr> m_executionCount := m_executionCount k + 1 \<rparr>
                    in publishExecutionInput (x_code x) (m_executionCount k) k);
          ((steps, thrown), b) = executeRequestImpl B (m_executionCount k) (x_code x) (x_config x) user_expressions (k_backend k);
          k = k\<lparr> k_backend := b \<rparr>
      in case run_steps x (m_executionCount k) steps False k of
           (Some e, ended, k) \<Rightarrow> (Some e, ended, k)
         | (None, ended, k) \<Rightarrow> (thrown, ended, k))"

text \<open>\<open>KernelCore::executeRequest\<close>: what it reads of the content, then the execution between
  \<open>beginExecution\<close> and the reply.\<close>

definition read_execution :: "message \<Rightarrow> (execution \<times> json) result" where
  "read_execution request =
     (let content = m_content request
      in rbind (value_string content ''code'' []) (\<lambda>code.
         rbind (value_bool content ''silent'' False) (\<lambda>sil.
         rbind (value_bool content ''store_history'' True) (\<lambda>store.
         rbind (value_json content ''user_expressions'' (JObject [])) (\<lambda>user_expressions.
         rbind (value_bool content ''allow_stdin'' True) (\<lambda>allow.
         rbind (value_bool content ''stop_on_error'' False) (\<lambda>stop.
           Inr (\<lparr> x_context = \<lparr> rc_header = m_header request, rc_id = m_zmqId request \<rparr>,
                  x_config = \<lparr> silent = sil, store_history = store \<and> \<not> sil, allow_stdin = allow \<rparr>,
                  x_stop_on_error = stop, x_code = code \<rparr>, user_expressions))))))))"

definition executeRequest :: "('f, 'b) environment \<Rightarrow> message \<Rightarrow> channel \<Rightarrow> ('f, 'b) kernel \<Rightarrow> ('f, 'b) outcome" where
  "executeRequest E request c k =
     (case read_execution request of
        Inl e \<Rightarrow> (Some e, k)
      | Inr (x, user_expressions) \<Rightarrow>
          (case interpreter_executeRequest (e_backend E) x user_expressions (emit BeginExecution k) of
             (None, ended, k) \<Rightarrow> (None, k)
           | (Some e, ended, k) \<Rightarrow>
               if caught e then
                 let (e', _, k) = reply_callback x (createErrorReply ''InternalError'' (e_what E e) (JArray [])) ended k
                 in (e', k)
               else (Some e, k)))"

section \<open>The other requests\<close>

text \<open>A call on the backend, and the reply made of its answer.\<close>

definition backend_reply ::
  "string \<Rightarrow> message \<Rightarrow> channel \<Rightarrow> ('b \<Rightarrow> json result \<times> 'b) \<Rightarrow> ('f, 'b) kernel \<Rightarrow> ('f, 'b) outcome" where
  "backend_reply reply_type request c call k =
     (let (r, b) = call (k_backend k); k = k\<lparr> k_backend := b \<rparr>
      in case r of
           Inl e \<Rightarrow> (Some e, k)
         | Inr reply \<Rightarrow> (None, sendReply (m_zmqId request) reply_type (m_header request) (JObject []) reply c k))"

definition completeRequest :: "'b backend \<Rightarrow> message \<Rightarrow> channel \<Rightarrow> ('f, 'b) kernel \<Rightarrow> ('f, 'b) outcome" where
  "completeRequest B request c k =
     (case rbind (value_string (m_content request) ''code'' []) (\<lambda>code.
           rbind (value_int (m_content request) ''cursor_pos'' (- 1)) (\<lambda>pos. Inr (code, pos))) of
        Inl e \<Rightarrow> (Some e, k)
      | Inr (code, pos) \<Rightarrow> backend_reply ''complete_reply'' request c (completeRequestImpl B code pos) k)"

definition inspectRequest :: "'b backend \<Rightarrow> message \<Rightarrow> channel \<Rightarrow> ('f, 'b) kernel \<Rightarrow> ('f, 'b) outcome" where
  "inspectRequest B request c k =
     (case rbind (value_string (m_content request) ''code'' []) (\<lambda>code.
           rbind (value_int (m_content request) ''cursor_pos'' (- 1)) (\<lambda>pos.
           rbind (value_int (m_content request) ''detail_level'' 0) (\<lambda>level. Inr (code, pos, level)))) of
        Inl e \<Rightarrow> (Some e, k)
      | Inr (code, pos, level) \<Rightarrow> backend_reply ''inspect_reply'' request c (inspectRequestImpl B code pos level) k)"

definition historyRequest ::
  "(string \<Rightarrow> (string \<Rightarrow> bool) result) \<Rightarrow> message \<Rightarrow> channel \<Rightarrow> ('f, 'b) kernel \<Rightarrow> ('f, 'b) outcome" where
  "historyRequest rx request c k =
     (case processRequest rx (m_content request) (k_history k) of
        Inl e \<Rightarrow> (Some e, k)
      | Inr hist \<Rightarrow> (None, sendReply (m_zmqId request) ''history_reply'' (m_header request) (JObject []) hist c k))"

definition isCompleteRequest :: "'b backend \<Rightarrow> message \<Rightarrow> channel \<Rightarrow> ('f, 'b) kernel \<Rightarrow> ('f, 'b) outcome" where
  "isCompleteRequest B request c k =
     (case value_string (m_content request) ''code'' [] of
        Inl e \<Rightarrow> (Some e, k)
      | Inr code \<Rightarrow> backend_reply ''is_complete_reply'' request c (isCompleteRequestImpl B code) k)"

text \<open>The table of \<open>commInfoRequest\<close>, in the order of the identifiers.\<close>

fun comm_table :: "guid list \<Rightarrow> string \<Rightarrow> 'f manager \<Rightarrow> ((string \<times> json) list) result" where
  "comm_table [] wanted s = Inr []"
| "comm_table (cid # cids) wanted s =
     (case m_comms s cid of None \<Rightarrow> comm_table cids wanted s
      | Some a \<Rightarrow>
        rbind (use_object a s) (\<lambda>obj.
        rbind (use_target (p_target obj) s) (\<lambda>t.
        rbind (comm_table cids wanted s) (\<lambda>rows.
          Inr (if wanted = [] \<or> t_name t = wanted
               then (cid, jobj [(''target_name'', JString (t_name t))]) # rows else rows)))))"

definition commInfoRequest :: "message \<Rightarrow> channel \<Rightarrow> ('f, 'b) kernel \<Rightarrow> ('f, 'b) outcome" where
  "commInfoRequest request c k =
     (let content = m_content request;
          wanted = (case json_lookup content ''target_name'' of
                      None \<Rightarrow> Inr [] | Some JNull \<Rightarrow> Inr [] | Some j \<Rightarrow> get_string j)
      in case rbind wanted (\<lambda>target_name. comm_table (sorted_list_of_set (dom (m_comms (k_comms k)))) target_name (k_comms k)) of
           Inl e \<Rightarrow> (Some e, k)
         | Inr rows \<Rightarrow>
             (None, sendReply (m_zmqId request) ''comm_info_reply'' (m_header request) (JObject [])
                      (jobj [(''comms'', jobj rows), (''status'', JString ''ok'')]) c k))"

definition kernelInfoRequest :: "'b backend \<Rightarrow> message \<Rightarrow> channel \<Rightarrow> ('f, 'b) kernel \<Rightarrow> ('f, 'b) outcome" where
  "kernelInfoRequest B request c k =
     backend_reply ''kernel_info_reply'' request c
       (\<lambda>b. let (r, b) = kernelInfoRequestImpl B b
            in (rbind r (\<lambda>reply. json_put reply ''protocol_version'' (JString kernel_protocol_version)), b)) k"

text \<open>\<open>reply["status"]\<close> on a value that is not constant: a missing key reads as null.\<close>

definition reply_status :: "json \<Rightarrow> string result" where
  "reply_status reply =
     (if is_object reply \<or> reply = JNull
      then (case json_lookup reply ''status'' of None \<Rightarrow> Inl (TypeError 302) | Some j \<Rightarrow> get_string j)
      else Inl (TypeError 305))"

definition announce_and_reply ::
  "string \<Rightarrow> string \<Rightarrow> message \<Rightarrow> channel \<Rightarrow> json \<Rightarrow> ('f, 'b) kernel \<Rightarrow> ('f, 'b) kernel" where
  "announce_and_reply pub_type reply_type request c reply k =
     sendReply (m_zmqId request) reply_type (m_header request) (JObject []) reply c
       (publishMessage pub_type (m_header request) (JObject []) reply [] CONTROL k)"

definition shutdownRequest :: "'b backend \<Rightarrow> message \<Rightarrow> channel \<Rightarrow> ('f, 'b) kernel \<Rightarrow> ('f, 'b) outcome" where
  "shutdownRequest B request c k =
     (case value_bool (m_content request) ''restart'' False of
        Inl e \<Rightarrow> (Some e, k)
      | Inr restart \<Rightarrow>
        (let (r, b) = shutdownRequestImpl B restart (k_backend k); k = k\<lparr> k_backend := b \<rparr>
         in case rbind r (\<lambda>reply. rbind (reply_status reply) (\<lambda>status. Inr (reply, status))) of
              Inl e \<Rightarrow> (Some e, k)
            | Inr (reply, status) \<Rightarrow>
                (let k = announce_and_reply ''shutdown'' ''shutdown_reply'' request c reply k
                 in (None, if status = ''ok'' then emit StopServer k else k))))"

definition interruptRequest :: "'b backend \<Rightarrow> message \<Rightarrow> channel \<Rightarrow> ('f, 'b) kernel \<Rightarrow> ('f, 'b) outcome" where
  "interruptRequest B request c k =
     (let (r, b) = interruptRequestImpl B (k_backend k); k = k\<lparr> k_backend := b \<rparr>
      in case rbind r (\<lambda>reply. rbind (reply_status reply) (\<lambda>status. Inr (reply, status))) of
           Inl e \<Rightarrow> (Some e, k)
         | Inr (reply, status) \<Rightarrow> (None, announce_and_reply ''interrupt'' ''interrupt_reply'' request c reply k))"

definition debugRequest :: "'b backend \<Rightarrow> message \<Rightarrow> channel \<Rightarrow> ('f, 'b) kernel \<Rightarrow> ('f, 'b) outcome" where
  "debugRequest B request c k = backend_reply ''debug_reply'' request c (backendDebugRequestImpl B (m_content request)) k"

text \<open>The comm requests: the manager publishes through \<open>publishMessage\<close> on the shell channel, with the
  header of the request the interpreter runs as the parent of what a comm sends.\<close>

definition with_comms :: "('f manager \<Rightarrow> exn option \<times> 'f manager) \<Rightarrow> ('f, 'b) kernel \<Rightarrow> ('f, 'b) outcome" where
  "with_comms f k =
     (let (e, s) = f ((k_comms k)\<lparr> p_kernel := Some (rc_header (m_requestContext k)), published := [] \<rparr>);
          k = fold (\<lambda>(ty, parent, md, cont, bufs). publishMessage ty parent md cont bufs SHELL) (published s) k
      in (e, k\<lparr> k_comms := s\<lparr> published := [] \<rparr> \<rparr>))"

section \<open>Dispatch\<close>

datatype handler =
    H_execute | H_complete | H_inspect | H_history | H_is_complete | H_comm_info | H_comm_open | H_comm_close
  | H_comm_msg | H_kernel_info | H_shutdown | H_interrupt | H_debug

definition m_handler :: "(string \<times> handler) list" where
  "m_handler =
     [(''execute_request'', H_execute), (''complete_request'', H_complete), (''inspect_request'', H_inspect),
      (''history_request'', H_history), (''is_complete_request'', H_is_complete),
      (''comm_info_request'', H_comm_info), (''comm_open'', H_comm_open), (''comm_close'', H_comm_close),
      (''comm_msg'', H_comm_msg), (''kernel_info_request'', H_kernel_info), (''shutdown_request'', H_shutdown),
      (''interrupt_request'', H_interrupt), (''debug_request'', H_debug)]"

definition getHandler :: "string \<Rightarrow> handler option" where
  "getHandler msg_type = map_of m_handler msg_type"

text \<open>All but \<open>execute_request\<close> are blocking, a type without a handler too.\<close>

definition blocking :: "handler option \<Rightarrow> bool" where
  "blocking h \<longleftrightarrow> h \<noteq> Some H_execute"

fun handle :: "('f, 'b) environment \<Rightarrow> handler \<Rightarrow> message \<Rightarrow> channel \<Rightarrow> ('f, 'b) kernel \<Rightarrow> ('f, 'b) outcome" where
  "handle E H_execute request c k = executeRequest E request c k"
| "handle E H_complete request c k = completeRequest (e_backend E) request c k"
| "handle E H_inspect request c k = inspectRequest (e_backend E) request c k"
| "handle E H_history request c k = historyRequest (e_regex E) request c k"
| "handle E H_is_complete request c k = isCompleteRequest (e_backend E) request c k"
| "handle E H_comm_info request c k = commInfoRequest request c k"
| "handle E H_comm_open request c k = with_comms (commOpen (e_run E) (e_local E) request) k"
| "handle E H_comm_close request c k = with_comms (commClose (e_run E) request) k"
| "handle E H_comm_msg request c k = with_comms (commMsg (e_run E) request) k"
| "handle E H_kernel_info request c k = kernelInfoRequest (e_backend E) request c k"
| "handle E H_shutdown request c k = shutdownRequest (e_backend E) request c k"
| "handle E H_interrupt request c k = interruptRequest (e_backend E) request c k"
| "handle E H_debug request c k = debugRequest (e_backend E) request c k"

text \<open>The exception that leaves \<open>dispatch\<close>, if any: one of reading the type of a header that is no
  object, which is outside the \<open>try\<close>.\<close>

definition dispatch :: "('f, 'b) environment \<Rightarrow> message \<Rightarrow> channel \<Rightarrow> ('f, 'b) kernel \<Rightarrow> ('f, 'b) outcome" where
  "dispatch E msg c k =
     (let header = m_header msg; k = publishStatus header ''busy'' c k
      in case value_string header ''msg_type'' [] of
           Inl e \<Rightarrow> (Some e, k)
         | Inr msg_type \<Rightarrow>
           (let h = getHandler msg_type;
                (thrown, k) = (case h of None \<Rightarrow> (None, k) | Some h \<Rightarrow> handle E h msg c k)
            in case thrown of
                 Some e \<Rightarrow> if caught e then (None, if blocking h then publishStatus header ''idle'' c k else k)
                           else (Some e, k)
               | None \<Rightarrow> (None, if blocking h then publishStatus header ''idle'' c k else k)))"

section \<open>What the framework's steps send\<close>

text \<open>Events that are output: no reply, no status, no bracket of an execution.\<close>

fun output_event :: "event \<Rightarrow> bool" where
  "output_event (Publish m c) \<longleftrightarrow> json_lookup (m_header m) ''msg_type'' \<noteq> Some (JString ''status'')"
| "output_event (SendStdin m) \<longleftrightarrow> True"
| "output_event _ \<longleftrightarrow> False"

definition outputs_only :: "'k kernel_io_scheme \<Rightarrow> 'k kernel_io_scheme \<Rightarrow> bool" where
  "outputs_only k k' \<longleftrightarrow> (\<exists>es. sent k' = sent k @ es \<and> list_all output_event es)"

lemma outputs_only_refl [simp]: "sent k' = sent k \<Longrightarrow> outputs_only k k'"
  by (simp add: outputs_only_def)

lemma outputs_only_trans: "outputs_only k k' \<Longrightarrow> outputs_only k' k'' \<Longrightarrow> outputs_only k k''"
  unfolding outputs_only_def by fastforce

lemma outputs_publisher: "ty \<noteq> ''status'' \<Longrightarrow> outputs_only k (publisher ctx ty ct k)"
  by (simp add: outputs_only_def sent_publisher)

lemma outputs_fold:
  "outputs_only k (fold (\<lambda>s. publisher (ps_context s) ''stream'' (stream_content s)) ps k)"
proof (induction ps arbitrary: k)
  case (Cons p ps)
  show ?case
    using outputs_only_trans [OF outputs_publisher Cons.IH] by fastforce
qed simp

lemma outputs_flush: "outputs_only k (flushStreamsLocked now k)"
proof -
  have "outputs_only (k\<lparr> m_streamPending := [], m_streamPendingBytes := 0, m_streamLastFlush := now \<rparr>)
     (fold (\<lambda>s. publisher (ps_context s) ''stream'' (stream_content s)) (m_streamPending k)
       (k\<lparr> m_streamPending := [], m_streamPendingBytes := 0, m_streamLastFlush := now \<rparr>))"
    by (rule outputs_fold)
  then show ?thesis by (simp add: flushStreamsLocked_def Let_def outputs_only_def)
qed

lemma outputs_publishStream: "outputs_only k (publishStream now name text k)"
  by (auto simp: publishStream_def Let_def intro!: outputs_only_trans [OF _ outputs_flush])
     (auto simp: outputs_only_def [of k] intro: outputs_flush [unfolded outputs_only_def])

lemma outputs_after_flush: "ty \<noteq> ''status'' \<Longrightarrow> outputs_only k (publish_after_flush now ty ct k)"
  using outputs_only_trans [OF outputs_flush outputs_publisher]
  by (auto simp: publish_after_flush_def Let_def intro: outputs_flush)

lemma outputs_sendStdin: "outputs_only k (sendStdin ty ids ph md ct k)"
  by (simp add: outputs_only_def sendStdin_def emit_def draw_def)

lemma outputs_dispatchStdin: "outputs_only k (dispatchStdin m k)"
  by (simp add: dispatchStdin_def inputReply_def split: sum.split option.split)

lemma outputs_input: "outputs_only k (inputRequest now p pw ui a k)"
  by (auto simp: inputRequest_def Let_def split: option.split
      intro: outputs_flush outputs_only_trans [OF outputs_flush outputs_sendStdin]
        outputs_only_trans [OF outputs_only_trans [OF outputs_flush outputs_sendStdin] outputs_dispatchStdin])

lemma outputs_act: "outputs_only k (act a k)"
  by (cases a)
     (auto simp: act_defs outputs_publishStream outputs_after_flush outputs_input flusher_step_def publishDebugEvent_def Let_def
        intro: outputs_flush outputs_publisher outputs_only_trans [OF outputs_flush outputs_publisher])

lemma outputs_run: "outputs_only k (fold act acts k)"
proof (induction acts arbitrary: k)
  case (Cons a acts)
  show ?case using outputs_only_trans [OF outputs_act Cons.IH] by simp
qed simp

text \<open>The interpreter's operations leave the kernel's own state alone.\<close>

lemma more_publisher [simp]: "interp.more (publisher ctx ty ct k) = interp.more k"
  by (simp add: publisher_def publishMessage_def emit_def draw_def)

lemma more_fold [simp]:
  "interp.more (fold (\<lambda>s. publisher (ps_context s) ''stream'' (stream_content s)) ps k) = interp.more k"
  by (induction ps arbitrary: k) simp_all

lemma more_flush [simp]: "interp.more (flushStreamsLocked now k) = interp.more k"
  by (simp add: flushStreamsLocked_def Let_def)

lemma more_act [simp]: "interp.more (act a k) = interp.more k"
  by (cases a)
     (simp_all add: publishStream_def flusher_step_def act_defs publish_after_flush_def publishDebugEvent_def inputRequest_def
        sendStdin_def emit_def draw_def dispatchStdin_def inputReply_def Let_def split: option.split sum.split)

lemma more_run [simp]: "interp.more (fold act acts k) = interp.more k"
  by (induction acts arbitrary: k) simp_all

lemma kernel_more:
  fixes k k' :: "('f, 'b) kernel"
  assumes "interp.more k = interp.more k'"
  shows "k_history k = k_history k'" "k_comms k = k_comms k'" "k_backend k = k_backend k'"
    "k_deferred k = k_deferred k'" "k_arrived k = k_arrived k'"
  using assms by (cases k; cases k'; simp)+

text \<open>Sending leaves the rest of the state alone.\<close>

lemma io_keeps [simp]:
  "k_history (sendReply ids ty ph md ct c k) = k_history k" "k_deferred (sendReply ids ty ph md ct c k) = k_deferred k"
  "k_arrived (sendReply ids ty ph md ct c k) = k_arrived k" "m_executionCount (sendReply ids ty ph md ct c k) = m_executionCount k"
  "k_backend (sendReply ids ty ph md ct c k) = k_backend k"
  "k_history (publishStatus ph st c k) = k_history k" "k_deferred (publishStatus ph st c k) = k_deferred k"
  "k_arrived (publishStatus ph st c k) = k_arrived k" "m_executionCount (publishStatus ph st c k) = m_executionCount k"
  "k_backend (publishStatus ph st c k) = k_backend k"
  "k_history (emit e k) = k_history k" "k_deferred (emit e k) = k_deferred k" "k_arrived (emit e k) = k_arrived k"
  "k_backend (emit e k) = k_backend k" "sent (emit e k) = sent k @ [e]"
  by (simp_all add: sendReply_def publishStatus_def publishMessage_def emit_def draw_def Let_def)

lemma emit_count [simp]: "m_executionCount (emit e k) = m_executionCount k"
  by (simp add: emit_def)

section \<open>Aborting what waits\<close>

definition abortable :: "message \<Rightarrow> bool" where
  "abortable m \<longleftrightarrow> (case value_string (m_header m) ''msg_type'' [] of Inl _ \<Rightarrow> False | Inr ty \<Rightarrow> CHR ''_'' \<in> set ty)"

text \<open>The answer to an aborted request: to its sender, about its header, with the status aborted.\<close>

definition aborts :: "message \<Rightarrow> event \<Rightarrow> bool" where
  "aborts m e = (case e of SendShell r \<Rightarrow> m_parentHeader r = m_header m \<and> m_zmqId r = m_zmqId m \<and>
       json_lookup (m_content r) ''status'' = Some (JString ''aborted'') | _ \<Rightarrow> False)"

lemma abort_reply_type_request:
  "abort_reply_type (stem @ ''_request'') = Inr (stem @ ''_reply'')"
  by (simp add: abort_reply_type_def find_last_of_append [of "CHR ''_''" "{CHR ''_''}" "''request''" stem, simplified])

lemma abortRequest_ok:
  assumes "abortable m"
  shows "\<exists>k' e. abortRequest m k = (None, k') \<and> sent k' = sent k @ [e] \<and> aborts m e \<and>
    k_deferred k' = k_deferred k \<and> k_arrived k' = k_arrived k \<and> k_history k' = k_history k \<and>
    m_executionCount k' = m_executionCount k"
proof -
  obtain ty where ty: "value_string (m_header m) ''msg_type'' [] = Inr ty" "CHR ''_'' \<in> set ty"
    using assms by (auto simp: abortable_def split: sum.splits)
  then obtain i where "find_last_of {CHR ''_''} ty = Some i"
    using find_last_of_None_iff [of "{CHR ''_''}" ty] by (cases "find_last_of {CHR ''_''} ty") auto
  then have "abort_reply_type ty = Inr (take i ty @ ''_reply'' @ drop (i + 8) ty)"
    by (simp add: abort_reply_type_def)
  then show ?thesis
    using ty(1) by (simp add: abortRequest_def sendReply_def emit_def draw_def aborts_def json_lookup_jobj Let_def)
qed

lemma abort_deferred_ok:
  assumes "list_all abortable ms"
  shows "\<exists>k' es. abort_deferred ms k = (None, k') \<and> sent k' = sent k @ es \<and> list_all2 aborts ms es \<and>
    k_deferred k' = [] \<and> k_arrived k' = k_arrived k \<and> k_history k' = k_history k \<and> m_executionCount k' = m_executionCount k"
  using assms
proof (induction ms arbitrary: k)
  case (Cons m ms)
  from Cons.prems have "abortable m" by simp
  then obtain k1 e where k1: "abortRequest m (k\<lparr> k_deferred := ms \<rparr>) = (None, k1)" "sent k1 = sent k @ [e]" "aborts m e"
    "k_arrived k1 = k_arrived k" "k_history k1 = k_history k" "m_executionCount k1 = m_executionCount k"
    using abortRequest_ok [of m "k\<lparr> k_deferred := ms \<rparr>"] by auto
  then show ?case using Cons.IH [of k1] Cons.prems by auto
qed simp


text \<open>What is still in the socket: a message that was refused, or that cannot be aborted, is passed over.\<close>

lemma abort_arrived_ok:
  "\<exists>k' es. abort_arrived ms k = (None, k') \<and> sent k' = sent k @ es \<and>
    (list_all (\<lambda>r. case r of Inl _ \<Rightarrow> True | Inr m \<Rightarrow> abortable m) ms \<longrightarrow>
       list_all2 aborts [m. Inr m \<leftarrow> ms] es) \<and>
    k_deferred k' = k_deferred k \<and> k_arrived k' = [] \<and> k_history k' = k_history k \<and> m_executionCount k' = m_executionCount k"
proof (induction ms k rule: abort_arrived.induct)
  case (3 m ms k)
  show ?case
  proof (cases "abortable m")
    case True
    then obtain k1 e where k1: "abortRequest m k = (None, k1)" "sent k1 = sent k @ [e]" "aborts m e"
      "k_deferred k1 = k_deferred k" "k_history k1 = k_history k" "m_executionCount k1 = m_executionCount k"
      using abortRequest_ok [of m k] by auto
    then show ?thesis using 3 by auto
  next
    case False
    have "\<exists>es. sent (snd (abortRequest m k)) = sent k @ es \<and> k_deferred (snd (abortRequest m k)) = k_deferred k \<and>
        k_history (snd (abortRequest m k)) = k_history k \<and> m_executionCount (snd (abortRequest m k)) = m_executionCount k"
      by (auto simp: abortRequest_def sendReply_def emit_def draw_def Let_def split: sum.split)
    then show ?thesis using 3 False by auto
  qed
qed auto

definition waiting_abortable :: "('f, 'b) kernel \<Rightarrow> bool" where
  "waiting_abortable k \<longleftrightarrow>
     list_all abortable (k_deferred k) \<and>
     list_all (\<lambda>r. case r of Inl _ \<Rightarrow> True | Inr m \<Rightarrow> abortable m) (k_arrived k)"

text \<open>The requests that wait, in the order they are aborted in.\<close>

definition waiting :: "('f, 'b) kernel \<Rightarrow> message list" where
  "waiting k = k_deferred k @ [m. Inr m \<leftarrow> k_arrived k]"

lemma abortQueue_ok:
  assumes "waiting_abortable k"
  shows "\<exists>k' es. abortQueue k = (None, k') \<and> sent k' = sent k @ es \<and> list_all2 aborts (waiting k) es \<and>
    k_deferred k' = [] \<and> k_arrived k' = [] \<and> k_history k' = k_history k \<and> m_executionCount k' = m_executionCount k"
proof -
  obtain k1 es1 where k1: "abort_deferred (k_deferred k) k = (None, k1)" "sent k1 = sent k @ es1"
    "list_all2 aborts (k_deferred k) es1" "k_deferred k1 = []" "k_arrived k1 = k_arrived k" "k_history k1 = k_history k"
    "m_executionCount k1 = m_executionCount k"
    using abort_deferred_ok [of "k_deferred k" k] assms by (auto simp: waiting_abortable_def)
  obtain k2 es2 where k2: "abort_arrived (k_arrived k) k1 = (None, k2)" "sent k2 = sent k1 @ es2"
    "list_all2 aborts [m. Inr m \<leftarrow> k_arrived k] es2" "k_deferred k2 = k_deferred k1" "k_arrived k2 = []" "k_history k2 = k_history k1"
    "m_executionCount k2 = m_executionCount k1"
    using abort_arrived_ok [of "k_arrived k" k1] assms by (auto simp: waiting_abortable_def)
  show ?thesis
    using k1 k2 by (auto simp: abortQueue_def waiting_def intro: list_all2_appendI)
qed

section \<open>The end of an execution\<close>

text \<open>A reply the callback accepts: an object with a number (if any) and a text (if any) where it reads
  them.\<close>

definition reply_reads :: "json \<Rightarrow> int \<Rightarrow> string \<Rightarrow> bool" where
  "reply_reads reply n st \<longleftrightarrow>
     value_int reply ''execution_count'' 1 = Inr n \<and> value_string reply ''status'' ''error'' = Inr st"

definition stops :: "execution \<Rightarrow> string \<Rightarrow> bool" where
  "stops x st \<longleftrightarrow> \<not> silent (x_config x) \<and> st = ''error'' \<and> x_stop_on_error x"

lemma reply_callback_ok:
  assumes "reply_reads reply n st" "stops x st \<longrightarrow> waiting_abortable k"
  shows "\<exists>k' es rp idle. reply_callback x reply ended k = (None, True, k') \<and>
     sent k' = sent k @ (if ended then [] else [EndExecution]) @ es @ [SendShell rp, idle] \<and>
     list_all2 aborts (if stops x st then waiting k else []) es \<and>
     is_reply ''execute_reply'' (rc_id (x_context x)) (rc_header (x_context x)) (SendShell rp) \<and> m_content rp = reply \<and>
     is_status ''idle'' (rc_header (x_context x)) idle \<and>
     k_history k' = (if \<not> silent (x_config x) \<and> store_history (x_config x)
                     then storeInputsImpl 0 n (x_code x) [] (k_history k) else k_history k) \<and>
     m_executionCount k' = m_executionCount k \<and>
     (stops x st \<longrightarrow> k_deferred k' = [] \<and> k_arrived k' = [])"
proof -
  define k0 where "k0 = (if ended then k else emit EndExecution k)"
  have k0: "sent k0 = sent k @ (if ended then [] else [EndExecution])" "k_history k0 = k_history k" "waiting k0 = waiting k"
    "waiting_abortable k0 = waiting_abortable k" "m_executionCount k0 = m_executionCount k"
    by (simp_all add: k0_def emit_def waiting_def waiting_abortable_def)
  obtain k1 es where k1: "(if stops x st then abortQueue k0 else (None, k0)) = (None, k1)" "sent k1 = sent k0 @ es"
    "list_all2 aborts (if stops x st then waiting k else []) es" "k_history k1 = k_history k" "m_executionCount k1 = m_executionCount k"
    "stops x st \<longrightarrow> k_deferred k1 = [] \<and> k_arrived k1 = []"
    using abortQueue_ok [of k0] assms(2) k0 by (cases "stops x st") auto
  have "reply_callback x reply ended k =
      (let k = sendReply (rc_id (x_context x)) ''execute_reply'' (rc_header (x_context x)) (getMetadata k0) reply SHELL k1;
           k = (if \<not> silent (x_config x) \<and> store_history (x_config x)
                then k\<lparr> k_history := storeInputsImpl 0 n (x_code x) [] (k_history k) \<rparr> else k)
       in (None, True, publishStatus (rc_header (x_context x)) ''idle'' SHELL k))"
    using assms(1) k1(1) by (simp add: reply_callback_def reply_reads_def k0_def [symmetric] stops_def Let_def)
  then show ?thesis
    using k0 k1
    by (cases "\<not> silent (x_config x) \<and> store_history (x_config x)") (auto simp: Let_def io_simps json_lookup_jobj)
qed


section \<open>An execution from request to idle\<close>

lemma run_outs: "run_steps x n (map Out acts @ steps) ended k = run_steps x n steps ended (fold act acts k)"
  by (induction acts arbitrary: k) simp_all

definition next_count :: "execution \<Rightarrow> ('f, 'b) kernel \<Rightarrow> int" where
  "next_count x k = (if silent (x_config x) then m_executionCount k else m_executionCount k + 1)"

text \<open>The state in which the backend starts: the request is the interpreter's, the input is announced.\<close>

definition started :: "execution \<Rightarrow> ('f, 'b) kernel \<Rightarrow> ('f, 'b) kernel" where
  "started x k =
     (let k = k\<lparr> m_requestContext := x_context x, m_allowStdin := allow_stdin (x_config x) \<rparr>
      in if silent (x_config x) then k
         else let k = k\<lparr> m_executionCount := m_executionCount k + 1 \<rparr>
              in publishExecutionInput (x_code x) (m_executionCount k) k)"

lemma started_fields:
  "m_executionCount (started x k) = next_count x k" "interp.more (started x k) = interp.more k"
  "outputs_only k (started x k)" "m_publisher (started x k) = m_publisher k"
  "m_requestContext (started x k) = x_context x" "pending_ok (started x k) = pending_ok k"
proof -
  show "outputs_only k (started x k)"
    by (auto simp: started_def publishExecutionInput_def outputs_only_def sent_publisher Let_def)
qed (auto simp: started_def next_count_def publishExecutionInput_def Let_def pending_ok_publisher pending_ok_def)

lemma interpreter_started:
  "interpreter_executeRequest B x ue k =
     (case executeRequestImpl B (next_count x k) (x_code x) (x_config x) ue (k_backend k) of
        ((steps, thrown), b) \<Rightarrow>
          (case run_steps x (next_count x k) steps False (started x k\<lparr> k_backend := b \<rparr>) of
             (Some e, ended, k) \<Rightarrow> (Some e, ended, k)
           | (None, ended, k) \<Rightarrow> (thrown, ended, k)))"
proof -
  have eq: "interpreter_executeRequest B x ue k =
     (let k = started x k;
          ((steps, thrown), b) = executeRequestImpl B (m_executionCount k) (x_code x) (x_config x) ue (k_backend k);
          k = k\<lparr> k_backend := b \<rparr>
      in case run_steps x (m_executionCount k) steps False k of
           (Some e, ended, k) \<Rightarrow> (Some e, ended, k)
         | (None, ended, k) \<Rightarrow> (thrown, ended, k))"
    by (simp add: interpreter_executeRequest_def started_def Let_def)
  have "k_backend (started x k) = k_backend k"
    by (rule kernel_more(3)) (simp add: started_fields)
  then show ?thesis
    by (simp add: eq started_fields Let_def split: prod.split)
qed

text \<open>The state after the output of the backend and the flush before its reply.\<close>

definition finished :: "execution \<Rightarrow> 'b \<Rightarrow> action list \<Rightarrow> ('f, 'b) kernel \<Rightarrow> ('f, 'b) kernel" where
  "finished x b acts k = fold act acts (started x k\<lparr> k_backend := b \<rparr>)"

lemma pending_ok_backend: "pending_ok (k\<lparr> k_backend := b \<rparr>) = pending_ok k"
  unfolding pending_ok_def by simp

lemma outputs_backend: "outputs_only k (k'\<lparr> k_backend := b \<rparr>) = outputs_only k k'"
  by (simp add: outputs_only_def)

lemma finished_fields:
  assumes "pending_ok k" "m_publisher k"
  shows "outputs_only k (finished x b acts k)" "m_executionCount (finished x b acts k) = next_count x k"
    "k_history (finished x b acts k) = k_history k" "waiting (finished x b acts k) = waiting k"
    "waiting_abortable (finished x b acts k) = waiting_abortable k"
    "pending_ok (finished x b acts k)" "m_publisher (finished x b acts k)" "m_requestContext (finished x b acts k) = x_context x"
proof -
  let ?s = "started x k\<lparr> k_backend := b \<rparr>"
  have start: "pending_ok ?s" "m_publisher ?s" using assms by (simp_all add: started_fields pending_ok_backend)
  note run = run_output [OF start, of acts]
  show "outputs_only k (finished x b acts k)"
    unfolding finished_def
    using outputs_only_trans [OF started_fields(3) [of k x] outputs_only_trans [OF _ outputs_run [of ?s acts]]] by simp
  show "m_executionCount (finished x b acts k) = next_count x k" "pending_ok (finished x b acts k)"
    "m_publisher (finished x b acts k)" "m_requestContext (finished x b acts k) = x_context x"
    using run by (simp_all add: finished_def started_fields)
  have more: "interp.more (finished x b acts k) = interp.more ?s" by (simp add: finished_def)
  have more': "interp.more (started x k) = interp.more k" by (rule started_fields)
  show "k_history (finished x b acts k) = k_history k" "waiting (finished x b acts k) = waiting k"
    "waiting_abortable (finished x b acts k) = waiting_abortable k"
    using kernel_more [OF more] kernel_more [OF more'] by (simp_all add: waiting_def waiting_abortable_def)
qed


text \<open>What the client sees of an execution: the brackets, output, the aborted requests, one reply, idle.\<close>

definition execution_events :: "execution \<Rightarrow> message list \<Rightarrow> json \<Rightarrow> event list \<Rightarrow> bool" where
  "execution_events x aborted reply es \<longleftrightarrow>
     (\<exists>outs abs rp idle. es = BeginExecution # outs @ [EndExecution] @ abs @ [SendShell rp, idle] \<and>
        list_all output_event outs \<and> list_all2 aborts aborted abs \<and>
        is_reply ''execute_reply'' (rc_id (x_context x)) (rc_header (x_context x)) (SendShell rp) \<and> m_content rp = reply \<and>
        is_status ''idle'' (rc_header (x_context x)) idle)"

definition history_after :: "execution \<Rightarrow> int \<Rightarrow> history \<Rightarrow> history" where
  "history_after x n h =
     (if \<not> silent (x_config x) \<and> store_history (x_config x) then storeInputsImpl 0 n (x_code x) [] h else h)"

lemma ends_with_reply:
  assumes "outputs_only (emit BeginExecution k) k1" "reply_reads reply n st" "stops x st \<longrightarrow> waiting_abortable k1"
  shows "\<exists>k' es. reply_callback x reply False k1 = (None, True, k') \<and> sent k' = sent k @ es \<and>
     execution_events x (if stops x st then waiting k1 else []) reply es \<and>
     k_history k' = history_after x n (k_history k1) \<and> m_executionCount k' = m_executionCount k1"
proof -
  obtain outs where outs: "sent k1 = sent k @ BeginExecution # outs" "list_all output_event outs"
    using assms(1) by (auto simp: outputs_only_def)
  obtain k' abs rp idle where k': "reply_callback x reply False k1 = (None, True, k')"
     "sent k' = sent k1 @ [EndExecution] @ abs @ [SendShell rp, idle]"
     "list_all2 aborts (if stops x st then waiting k1 else []) abs"
     "is_reply ''execute_reply'' (rc_id (x_context x)) (rc_header (x_context x)) (SendShell rp)" "m_content rp = reply"
     "is_status ''idle'' (rc_header (x_context x)) idle"
     "k_history k' = history_after x n (k_history k1)" "m_executionCount k' = m_executionCount k1"
    using reply_callback_ok [OF assms(2,3), of False] unfolding history_after_def by auto
  have "sent k' = sent k @ (BeginExecution # outs @ [EndExecution] @ abs @ [SendShell rp, idle])"
    using outs(1) k'(2) by simp
  moreover have "execution_events x (if stops x st then waiting k1 else []) reply (BeginExecution # outs @ [EndExecution] @ abs @ [SendShell rp, idle])"
    unfolding execution_events_def using outs(2) k' by blast
  ultimately show ?thesis using k' by blast
qed

lemma pending_ok_emit [simp]: "pending_ok (emit e k) = pending_ok k" "m_publisher (emit e k) = m_publisher k"
  by (simp_all add: emit_def pending_ok_def)

lemma waiting_emit [simp]: "waiting (emit e k) = waiting k" "waiting_abortable (emit e k) = waiting_abortable k"
  "next_count x (emit e k) = next_count x k"
  by (simp_all add: waiting_def waiting_abortable_def next_count_def)

lemma waiting_flush [simp]:
  "waiting (flushStreamsLocked now k) = waiting k" "waiting_abortable (flushStreamsLocked now k) = waiting_abortable k"
  "k_history (flushStreamsLocked now k) = k_history k"
  using kernel_more [OF more_flush, of now k] by (simp_all add: waiting_def waiting_abortable_def)

lemma execute_replies:
  assumes "read_execution request = Inr (x, ue)" "pending_ok k" "m_publisher k"
    "executeRequestImpl (e_backend E) (next_count x k) (x_code x) (x_config x) ue (k_backend k) =
       ((map Out acts @ [Reply now reply], None), b)"
    "json_put reply ''execution_count'' (JInt (next_count x k)) = Inr reply'" "reply_reads reply' n st"
    "stops x st \<longrightarrow> waiting_abortable k"
  shows "\<exists>k' es. executeRequest E request c k = (None, k') \<and> sent k' = sent k @ es \<and>
     execution_events x (if stops x st then waiting k else []) reply' es \<and>
     k_history k' = history_after x n (k_history k) \<and> m_executionCount k' = next_count x k"
proof -
  let ?k0 = "emit BeginExecution k"
  let ?k1 = "flushStreamsLocked now (finished x b acts ?k0)"
  have ok: "pending_ok ?k0" "m_publisher ?k0" using assms by simp_all
  note fin = finished_fields [OF ok, of x b acts]
  have "outputs_only ?k0 ?k1" by (rule outputs_only_trans [OF fin(1) outputs_flush])
  then obtain k' es where k': "reply_callback x reply' False ?k1 = (None, True, k')" "sent k' = sent k @ es"
     "execution_events x (if stops x st then waiting ?k1 else []) reply' es"
     "k_history k' = history_after x n (k_history ?k1)" "m_executionCount k' = m_executionCount ?k1"
    using ends_with_reply [of k ?k1 reply' n st x] assms(6,7) fin(5) by auto
  have "interpreter_executeRequest (e_backend E) x ue ?k0 = (None, True, k')"
    using assms(4,5) k'(1)
    by (simp add: interpreter_started run_outs callback_impl_def Let_def finished_def)
  then have "executeRequest E request c k = (None, k')"
    using assms(1) by (simp add: executeRequest_def)
  then show ?thesis using k' fin by auto
qed

lemma execute_throws:
  assumes "read_execution request = Inr (x, ue)" "pending_ok k" "m_publisher k"
    "executeRequestImpl (e_backend E) (next_count x k) (x_code x) (x_config x) ue (k_backend k) =
       ((map Out acts, Some e), b)" "caught e"
    "stops x ''error'' \<longrightarrow> waiting_abortable k"
  shows "\<exists>k' es. executeRequest E request c k = (None, k') \<and> sent k' = sent k @ es \<and>
     execution_events x (if stops x ''error'' then waiting k else [])
       (createErrorReply ''InternalError'' (e_what E e) (JArray [])) es \<and>
     k_history k' = history_after x 1 (k_history k) \<and> m_executionCount k' = next_count x k"
proof -
  let ?k0 = "emit BeginExecution k" and ?r = "createErrorReply ''InternalError'' (e_what E e) (JArray [])"
  let ?k1 = "finished x b acts ?k0"
  have ok: "pending_ok ?k0" "m_publisher ?k0" using assms by simp_all
  note fin = finished_fields [OF ok, of x b acts]
  have "reply_reads ?r 1 ''error''"
    by (simp add: reply_reads_def createErrorReply_def json_simps)
  then obtain k' es where k': "reply_callback x ?r False ?k1 = (None, True, k')" "sent k' = sent k @ es"
     "execution_events x (if stops x ''error'' then waiting ?k1 else []) ?r es"
     "k_history k' = history_after x 1 (k_history ?k1)" "m_executionCount k' = m_executionCount ?k1"
    using ends_with_reply [OF fin(1), of ?r 1 "''error''" x] assms(6) fin(5) by auto
  have "run_steps x (next_count x ?k0) (map Out acts @ []) False (started x ?k0\<lparr> k_backend := b \<rparr>) = (None, False, ?k1)"
    by (simp only: run_outs) (simp add: finished_def)
  then have "interpreter_executeRequest (e_backend E) x ue ?k0 = (Some e, False, ?k1)"
    using assms(4) by (simp add: interpreter_started)
  then have "executeRequest E request c k = (None, k')"
    using assms(1,5) k'(1) by (simp add: executeRequest_def)
  then show ?thesis using k' fin by auto
qed

section \<open>The other handlers\<close>

definition replies :: "event list \<Rightarrow> message list" where
  "replies es = List.map_filter reply_message es"

definition comm_handler :: "handler \<Rightarrow> bool" where
  "comm_handler h \<longleftrightarrow> h = H_comm_open \<or> h = H_comm_close \<or> h = H_comm_msg"

text \<open>A handler's events: its replies go to the sender of the request about its header, and there is one
  if it ends well and is not a comm's, none otherwise.\<close>

definition handler_events :: "handler \<Rightarrow> message \<Rightarrow> exn option \<Rightarrow> event list \<Rightarrow> bool" where
  "handler_events h m thrown es \<longleftrightarrow>
     length (replies es) = (if thrown = None \<and> \<not> comm_handler h then 1 else 0) \<and>
     (\<forall>r \<in> set (replies es). m_zmqId r = m_zmqId m \<and> m_parentHeader r = m_header m)"

lemma replies_simps [simp]:
  "replies [] = []" "replies (es @ es') = replies es @ replies es'"
  "replies (SendShell m # es) = m # replies es" "replies (SendControl m # es) = m # replies es"
  "replies (Publish p c # es) = replies es" "replies (StopServer # es) = replies es"
  by (simp_all add: replies_def List.map_filter_def)

lemma handler_eventsI:
  "sent (snd o') = sent k @ es \<Longrightarrow> handler_events h m (fst o') es \<Longrightarrow>
     \<exists>es. sent (snd o') = sent k @ es \<and> handler_events h m (fst o') es"
  by blast

lemma backend_reply_events:
  assumes "\<not> comm_handler h"
  shows "\<exists>es. sent (snd (backend_reply ty m c call k)) = sent k @ es \<and> handler_events h m (fst (backend_reply ty m c call k)) es"
proof -
  obtain r b where "call (k_backend k) = (r, b)" by fastforce
  then show ?thesis
    using assms by (cases r; cases c) (auto simp: backend_reply_def sent_sendReply handler_events_def intro!: exI)
qed

lemma no_events: "thrown \<noteq> None \<or> comm_handler h \<Longrightarrow> handler_events h m thrown []"
  by (auto simp: handler_events_def)

lemma fold_publish_events:
  "\<exists>es. sent (fold (\<lambda>(ty, parent, md, cont, bufs). publishMessage ty parent md cont bufs SHELL) ps k) = sent k @ es \<and> replies es = []"
proof (induction ps arbitrary: k)
  case (Cons p ps)
  obtain ty ph md ct bs where p: "p = (ty, ph, md, ct, bs)" by (cases p)
  obtain es where "sent (fold (\<lambda>(ty, parent, md, cont, bufs). publishMessage ty parent md cont bufs SHELL) ps
      (publishMessage ty ph md ct bs SHELL k)) = sent (publishMessage ty ph md ct bs SHELL k) @ es" "replies es = []"
    using Cons.IH by blast
  then show ?case by (simp add: p sent_publishMessage)
qed simp

lemma with_comms_events:
  assumes "comm_handler h"
  shows "\<exists>es. sent (snd (with_comms f k)) = sent k @ es \<and> handler_events h m (fst (with_comms f k)) es"
proof -
  obtain e s where es: "f ((k_comms k)\<lparr> p_kernel := Some (rc_header (m_requestContext k)), published := [] \<rparr>) = (e, s)"
    by fastforce
  obtain evs where "sent (fold (\<lambda>(ty, parent, md, cont, bufs). publishMessage ty parent md cont bufs SHELL) (published s) k) = sent k @ evs"
      "replies evs = []"
    using fold_publish_events by blast
  then show ?thesis
    using es assms by (simp add: with_comms_def handler_events_def Let_def)
qed

lemma sent_emit: "sent (emit e k) = sent k @ [e]"
  by (simp add: emit_def)

lemma announce_events:
  "\<not> comm_handler h \<Longrightarrow> \<exists>es. sent (announce_and_reply pt rt m c reply k) = sent k @ es \<and> handler_events h m None es \<and> handler_events h m None (es @ [StopServer])"
  by (cases c) (auto simp: announce_and_reply_def sent_sendReply sent_publishMessage handler_events_def intro!: exI)

lemma shutdown_events:
  "\<exists>es. sent (snd (shutdownRequest B m c k)) = sent k @ es \<and> handler_events H_shutdown m (fst (shutdownRequest B m c k)) es"
proof (cases "value_bool (m_content m) ''restart'' False")
  case (Inl e)
  then show ?thesis using no_events by (simp add: shutdownRequest_def)
next
  case (Inr restart)
  obtain r b where rb: "shutdownRequestImpl B restart (k_backend k) = (r, b)" by fastforce
  show ?thesis
  proof (cases "rbind r (\<lambda>reply. rbind (reply_status reply) (\<lambda>status. Inr (reply, status)))")
    case Inl
    then show ?thesis using Inr rb no_events by (simp add: shutdownRequest_def)
  next
    case (Inr p)
    obtain reply status where p: "p = (reply, status)" by fastforce
    obtain es where "sent (announce_and_reply ''shutdown'' ''shutdown_reply'' m c reply (k\<lparr> k_backend := b \<rparr>)) = sent k @ es"
      "handler_events H_shutdown m None es" "handler_events H_shutdown m None (es @ [StopServer])"
      using announce_events [of H_shutdown "''shutdown''" "''shutdown_reply''" m c reply "k\<lparr> k_backend := b \<rparr>"] by (auto simp: comm_handler_def)
    then show ?thesis
      using \<open>value_bool _ _ _ = Inr restart\<close> rb Inr p
      by (cases "status = ''ok''") (auto simp: shutdownRequest_def sent_emit Let_def)
  qed
qed

lemma interrupt_events:
  "\<exists>es. sent (snd (interruptRequest B m c k)) = sent k @ es \<and> handler_events H_interrupt m (fst (interruptRequest B m c k)) es"
proof -
  obtain r b where rb: "interruptRequestImpl B (k_backend k) = (r, b)" by fastforce
  obtain es where "sent (announce_and_reply ''interrupt'' ''interrupt_reply'' m c reply (k\<lparr> k_backend := b \<rparr>)) = sent k @ es reply"
      "handler_events H_interrupt m None (es reply)" for reply
    using announce_events [of H_interrupt "''interrupt''" "''interrupt_reply''" m c _ "k\<lparr> k_backend := b \<rparr>"]
    by (simp add: comm_handler_def) metis
  then show ?thesis
    using rb no_events
    by (cases "rbind r (\<lambda>reply. rbind (reply_status reply) (\<lambda>status. Inr (reply, status)))")
       (auto simp: interruptRequest_def)
qed

lemma simple_reply_events:
  "\<not> comm_handler h \<Longrightarrow> \<exists>es. sent (sendReply (m_zmqId m) ty (m_header m) md ct c k) = sent k @ es \<and> handler_events h m None es"
  by (cases c) (auto simp: sent_sendReply handler_events_def intro!: exI)

lemma handle_events:
  assumes "h \<noteq> H_execute"
  shows "\<exists>es. sent (snd (handle E h m c k)) = sent k @ es \<and> handler_events h m (fst (handle E h m c k)) es"
  using assms
  by (cases h)
     (auto simp: comm_handler_def completeRequest_def inspectRequest_def historyRequest_def isCompleteRequest_def
        commInfoRequest_def kernelInfoRequest_def debugRequest_def Let_def no_events
        intro!: backend_reply_events with_comms_events shutdown_events interrupt_events simple_reply_events
        split: sum.split)


section \<open>Properties\<close>

text \<open>C5. Every request but an execution is answered between a busy and an idle status about its header,
  on the spot: whatever its handler does, exceptions included, the events are the busy status, the
  handler's, the idle status; at most one of the handler's events is a reply, it goes to the sender
  of the request and about its header, and when the request is not a comm's and its handler ends
  well there is exactly one. A type without a handler gets the two statuses only.\<close>

theorem request_is_bracketed:
  assumes "value_string (m_header m) ''msg_type'' [] = Inr ty" "ty \<noteq> ''execute_request''"
    "fst (dispatch E m c k) = None"
  shows "\<exists>busy es idle. sent (snd (dispatch E m c k)) = sent k @ busy # es @ [idle] \<and>
     is_status ''busy'' (m_header m) busy \<and> is_status ''idle'' (m_header m) idle \<and>
     length (replies es) \<le> 1 \<and>
     (\<forall>r \<in> set (replies es). m_zmqId r = m_zmqId m \<and> m_parentHeader r = m_header m) \<and>
     (case getHandler ty of None \<Rightarrow> es = []
      | Some h \<Rightarrow> \<not> comm_handler h \<and> fst (handle E h m c (publishStatus (m_header m) ''busy'' c k)) = None \<longrightarrow>
                  length (replies es) = 1)"
proof -
  let ?k0 = "publishStatus (m_header m) ''busy'' c k"
  have k0: "\<exists>busy. sent ?k0 = sent k @ [busy] \<and> is_status ''busy'' (m_header m) busy"
    by (simp add: sent_publishStatus json_lookup_jobj)
  have idle: "\<exists>idle. sent (publishStatus (m_header m) ''idle'' c k') = sent k' @ [idle] \<and> is_status ''idle'' (m_header m) idle" for k' :: "('a, 'b) kernel"
    by (simp add: sent_publishStatus json_lookup_jobj)
  have blocking: "blocking (getHandler ty)"
    using assms(2) by (auto simp: blocking_def getHandler_def m_handler_def split: if_splits)
  show ?thesis
  proof (cases "getHandler ty")
    case None
    then have "dispatch E m c k = (None, publishStatus (m_header m) ''idle'' c ?k0)"
      using assms(1) blocking by (simp add: dispatch_def Let_def)
    moreover obtain busy where "sent ?k0 = sent k @ [busy]" "is_status ''busy'' (m_header m) busy" using k0 by blast
    moreover obtain idle' where "sent (publishStatus (m_header m) ''idle'' c ?k0) = sent ?k0 @ [idle']" "is_status ''idle'' (m_header m) idle'"
      using idle by blast
    ultimately show ?thesis
      using None by (intro exI [of _ busy] exI [of _ "[]"] exI [of _ idle']) simp
  next
    case (Some h)
    obtain thrown k1 where h: "handle E h m c ?k0 = (thrown, k1)" by fastforce
    have "h \<noteq> H_execute" using blocking Some by (simp add: blocking_def)
    from handle_events [OF this, of E m c ?k0] obtain es where
      es: "sent k1 = sent ?k0 @ es" "handler_events h m thrown es" using h by auto
    have "dispatch E m c k = (None, publishStatus (m_header m) ''idle'' c k1)"
      using assms(1,3) blocking Some h by (auto simp: dispatch_def Let_def split: option.splits if_splits)
    moreover obtain busy where "sent ?k0 = sent k @ [busy]" "is_status ''busy'' (m_header m) busy" using k0 by blast
    moreover obtain idle' where "sent (publishStatus (m_header m) ''idle'' c k1) = sent k1 @ [idle']" "is_status ''idle'' (m_header m) idle'"
      using idle by blast
    ultimately show ?thesis
      using es Some h unfolding handler_events_def
      by (intro exI [of _ busy] exI [of _ es] exI [of _ idle']) auto
  qed
qed

text \<open>C1. An execution the backend replies to: one execute_reply, to the sender and about the header of the
  request, with the backend's content and the execution count, after all its output and after the
  bracket of the execution is closed, then one idle status. With \<open>stop_on_error\<close> and an error, every
  request that waits is answered with the status aborted, in order, before that reply. The input is
  stored in the history, under its count, exactly when the request is neither silent nor opted
  out.\<close>

theorem execution_is_answered_once:
  assumes "value_string (m_header m) ''msg_type'' [] = Inr ''execute_request''"
    "read_execution m = Inr (x, ue)" "pending_ok k" "m_publisher k"
    "executeRequestImpl (e_backend E) (next_count x k) (x_code x) (x_config x) ue (k_backend k) =
       ((map Out acts @ [Reply now reply], None), b)"
    "json_put reply ''execution_count'' (JInt (next_count x k)) = Inr reply'" "reply_reads reply' n st"
    "stops x st \<longrightarrow> waiting_abortable k"
  shows "\<exists>k' busy es. dispatch E m c k = (None, k') \<and> sent k' = sent k @ busy # es \<and>
     is_status ''busy'' (m_header m) busy \<and>
     execution_events x (if stops x st then waiting k else []) reply' es \<and>
     k_history k' = history_after x n (k_history k) \<and> m_executionCount k' = next_count x k"
proof -
  let ?k0 = "publishStatus (m_header m) ''busy'' c k"
  have k0: "\<exists>busy. sent ?k0 = sent k @ [busy] \<and> is_status ''busy'' (m_header m) busy"
    by (simp add: sent_publishStatus json_lookup_jobj)
  have same: "next_count x ?k0 = next_count x k" "waiting ?k0 = waiting k" "waiting_abortable ?k0 = waiting_abortable k"
      "k_backend ?k0 = k_backend k" "pending_ok ?k0 = pending_ok k" "m_publisher ?k0 = m_publisher k"
    by (simp_all add: next_count_def waiting_def waiting_abortable_def pending_ok_def)
       (simp_all add: publishStatus_def publishMessage_def emit_def draw_def)
  obtain k' es where k': "executeRequest E m c ?k0 = (None, k')" "sent k' = sent ?k0 @ es"
    "execution_events x (if stops x st then waiting k else []) reply' es"
    "k_history k' = history_after x n (k_history k)" "m_executionCount k' = next_count x k"
    using execute_replies [of m x ue ?k0 E acts now reply b reply' n st c] assms unfolding same by auto
  have "getHandler ''execute_request'' = Some H_execute" by (simp add: getHandler_def m_handler_def)
  then have "dispatch E m c k = (None, k')"
    using assms(1) k'(1) by (simp add: dispatch_def Let_def blocking_def)
  then show ?thesis using k0 k' by auto
qed


text \<open>C9. An execution whose backend throws before it replies is answered all the same: one execute_reply
  with the error, then idle, so that the client is not left waiting.\<close>

theorem throwing_execution_is_answered:
  assumes "read_execution m = Inr (x, ue)" "pending_ok k" "m_publisher k"
    "executeRequestImpl (e_backend E) (next_count x k) (x_code x) (x_config x) ue (k_backend k) =
       ((map Out acts, Some e), b)" "caught e"
    "stops x ''error'' \<longrightarrow> waiting_abortable k"
  shows "\<exists>k' es. executeRequest E m c k = (None, k') \<and> sent k' = sent k @ es \<and>
     execution_events x (if stops x ''error'' then waiting k else [])
       (createErrorReply ''InternalError'' (e_what E e) (JArray [])) es \<and>
     k_history k' = history_after x 1 (k_history k)"
  using execute_throws [OF assms, of c] by blast

text \<open>A backend that throws after it has replied: the request gets a second execute_reply and a second
  idle status.\<close>

lemma throw_after_reply_answers_twice:
  assumes "read_execution m = Inr (x, ue)" "pending_ok k" "m_publisher k"
    "executeRequestImpl (e_backend E) (next_count x k) (x_code x) (x_config x) ue (k_backend k) =
       (([Reply now reply], Some e), b)" "caught e"
    "json_put reply ''execution_count'' (JInt (next_count x k)) = Inr reply'" "reply_reads reply' n st"
    "\<not> x_stop_on_error x"
  shows "\<exists>k' outs rp1 rp2 idle1 idle2. executeRequest E m c k = (None, k') \<and>
     sent k' = sent k @ BeginExecution # outs @ [EndExecution, SendShell rp1, idle1, SendShell rp2, idle2] \<and>
     is_reply ''execute_reply'' (m_zmqId m) (m_header m) (SendShell rp1) \<and>
     is_reply ''execute_reply'' (m_zmqId m) (m_header m) (SendShell rp2)"
proof -
  let ?k0 = "emit BeginExecution k" and ?r = "createErrorReply ''InternalError'' (e_what E e) (JArray [])"
  let ?k1 = "flushStreamsLocked now (finished x b [] ?k0)"
  have ok: "pending_ok ?k0" "m_publisher ?k0" using assms by simp_all
  note fin = finished_fields [OF ok, of x b "[]"]
  have no: "\<not> stops x s" for s using assms(8) by (simp add: stops_def)
  have ctx: "rc_id (x_context x) = m_zmqId m" "rc_header (x_context x) = m_header m"
    using assms(1) by (auto simp: read_execution_def Let_def result_simps)
  have "outputs_only ?k0 ?k1" by (rule outputs_only_trans [OF fin(1) outputs_flush])
  then obtain outs where outs: "sent ?k1 = sent k @ BeginExecution # outs"
    by (auto simp: outputs_only_def)
  obtain k2 rp1 idle1 where k2: "reply_callback x reply' False ?k1 = (None, True, k2)"
    "sent k2 = sent ?k1 @ [EndExecution, SendShell rp1, idle1]"
    "is_reply ''execute_reply'' (m_zmqId m) (m_header m) (SendShell rp1)"
    using reply_callback_ok [OF assms(7), of x ?k1 False] no ctx by auto
  have "reply_reads ?r 1 ''error''"
    by (simp add: reply_reads_def createErrorReply_def json_simps)
  then obtain k3 rp2 idle2 where k3: "reply_callback x ?r True k2 = (None, True, k3)"
    "sent k3 = sent k2 @ [SendShell rp2, idle2]"
    "is_reply ''execute_reply'' (m_zmqId m) (m_header m) (SendShell rp2)"
    using reply_callback_ok [of ?r 1 "''error''" x k2 True] no ctx by auto
  have "interpreter_executeRequest (e_backend E) x ue ?k0 = (Some e, True, k2)"
    using assms(4,6) k2(1) by (simp add: interpreter_started callback_impl_def Let_def finished_def)
  then have "executeRequest E m c k = (None, k3)"
    using assms(1,5) k3(1) by (simp add: executeRequest_def)
  then show ?thesis using outs k2 k3 by auto
qed

text \<open>An execute_request whose content the kernel cannot read (its code is no text, say) gets the busy
  status and nothing else: no reply, no idle.\<close>

lemma unreadable_execution_is_left_busy:
  assumes "value_string (m_header m) ''msg_type'' [] = Inr ''execute_request''" "read_execution m = Inl e" "caught e"
  shows "\<exists>busy. dispatch E m c k = (None, publishStatus (m_header m) ''busy'' c k) \<and>
           sent (publishStatus (m_header m) ''busy'' c k) = sent k @ [busy] \<and> is_status ''busy'' (m_header m) busy"
proof -
  have "getHandler ''execute_request'' = Some H_execute" by (simp add: getHandler_def m_handler_def)
  then show ?thesis
    using assms by (simp add: dispatch_def Let_def executeRequest_def blocking_def sent_publishStatus json_lookup_jobj)
qed

text \<open>A message whose header is no JSON object, or names its type with something else than a text, makes
  \<open>dispatch\<close> itself throw: reading the type is outside its handler of exceptions.\<close>

lemma header_without_type_escapes_dispatch:
  "(\<not> is_object (m_header m) \<longrightarrow> fst (dispatch E m c k) = Some (TypeError 306)) \<and>
   (is_object (m_header m) \<and> json_lookup (m_header m) ''msg_type'' = Some j \<and> \<not> is_string j \<longrightarrow>
      fst (dispatch E m c k) = Some (TypeError 302))"
  by (cases "m_header m"; cases j) (simp_all add: dispatch_def Let_def)


section \<open>A kernel to try them on\<close>

definition demo_env :: "(execution_step list \<times> exn option) \<Rightarrow> (unit, unit) environment" where
  "demo_env run =
     \<lparr> e_backend =
         \<lparr> executeRequestImpl = (\<lambda>n code config ue b. (run, b)),
           completeRequestImpl = (\<lambda>code pos b. (Inr (createCompleteReply (JArray []) pos pos (JObject [])), b)),
           inspectRequestImpl = (\<lambda>code pos level b. (Inl (RuntimeError ''no help''), b)),
           isCompleteRequestImpl = (\<lambda>code b. (Inr (createIsCompleteReply ''complete'' []), b)),
           kernelInfoRequestImpl = (\<lambda>b. (Inr (jobj [(''status'', JString ''ok'')]), b)),
           shutdownRequestImpl = (\<lambda>restart b. (Inr (createShutdownReply restart), b)),
           interruptRequestImpl = (\<lambda>b. (Inr createInterruptReply, b)),
           backendDebugRequestImpl = (\<lambda>req b. (debugRequestImpl req, b)) \<rparr>,
       e_regex = (\<lambda>_. Inl (RuntimeError ''regex'')), e_run = (\<lambda>f a m s. (None, s)), e_local = 1,
       e_what = (\<lambda>e. ''what'') \<rparr>"

definition demo_kernel :: "(unit, unit) kernel" where
  "demo_kernel = interp.extend fresh_interp
     \<lparr> k_history = [], k_comms = CommManager None, k_backend = (),
       k_deferred = [new_message [''c2''] (jobj [(''msg_type'', JString ''execute_request'')]) JNull JNull JNull []],
       k_arrived = [Inl (RuntimeError ''bad'')] \<rparr>"

definition demo_request :: "string \<Rightarrow> (string \<times> json) list \<Rightarrow> message" where
  "demo_request ty cts = new_message [''c1''] (jobj [(''msg_type'', JString ty)]) JNull JNull (jobj cts) []"

lemma demo_fields [simp]:
  "pending_ok demo_kernel" "m_publisher demo_kernel" "k_backend demo_kernel = ()" "sent demo_kernel = []"
  by (simp_all add: demo_kernel_def fresh_interp_def pending_ok_def interp.defs kernel.defs)

lemma demo_type [simp]: "value_string (m_header (demo_request ty cts)) ''msg_type'' [] = Inr ty"
  by (simp add: demo_request_def json_simps)

lemma demo_ids [simp]: "m_zmqId (demo_request ty cts) = [''c1'']"
  by (simp add: demo_request_def)

definition demo_execution :: "string \<Rightarrow> bool \<Rightarrow> execution" where
  "demo_execution code stop =
     \<lparr> x_context = \<lparr> rc_header = jobj [(''msg_type'', JString ''execute_request'')], rc_id = [''c1''] \<rparr>,
       x_config = \<lparr> silent = False, store_history = True, allow_stdin = True \<rparr>, x_stop_on_error = stop, x_code = code \<rparr>"

lemma demo_read:
  "read_execution (demo_request ''execute_request'' [(''code'', JString code), (''stop_on_error'', JBool stop)]) =
     Inr (demo_execution code stop, JObject [])"
  by (simp add: read_execution_def demo_request_def demo_execution_def json_simps Let_def)

lemma demo_count: "next_count (demo_execution code stop) demo_kernel = 1"
  by (simp add: next_count_def demo_execution_def demo_kernel_def fresh_interp_def interp.defs kernel.defs)

lemma demo_waiting: "waiting_abortable demo_kernel" "length (waiting demo_kernel) = 1"
  by (simp_all add: waiting_abortable_def waiting_def abortable_def demo_kernel_def fresh_interp_def interp.defs kernel.defs json_simps)

lemma demo_put:
  "json_put (jobj [(''status'', JString st)]) ''execution_count'' (JInt 1) = Inr (jobj [(''execution_count'', JInt 1), (''status'', JString st)])"
  "reply_reads (jobj [(''execution_count'', JInt 1), (''status'', JString st)]) 1 st"
  by (simp_all add: jobj_def reply_reads_def)

theorem request_is_bracketed_witness:
  "\<exists>busy es idle. sent (snd (dispatch (demo_env ([], None)) (demo_request ''is_complete_request'' [(''code'', JString ''1 +'')]) SHELL demo_kernel)) =
     busy # es @ [idle] \<and> length (replies es) \<le> 1"
proof -
  let ?m = "demo_request ''is_complete_request'' [(''code'', JString ''1 +'')]"
  have "fst (dispatch (demo_env ([], None)) ?m SHELL demo_kernel) = None"
    by (simp add: dispatch_def getHandler_def m_handler_def Let_def isCompleteRequest_def demo_env_def)
       (simp add: demo_request_def json_simps backend_reply_def)
  from request_is_bracketed [OF demo_type _ this] show ?thesis by auto
qed

theorem execution_is_answered_once_witness:
  "\<exists>k' busy es. dispatch (demo_env ([Out (Stream 1000 ''stdout'' ''hi''), Reply 1001 (jobj [(''status'', JString ''error'')])], None))
       (demo_request ''execute_request'' [(''code'', JString ''1''), (''stop_on_error'', JBool True)]) SHELL demo_kernel = (None, k') \<and>
     sent k' = busy # es \<and>
     execution_events (demo_execution ''1'' True) (waiting demo_kernel)
       (jobj [(''execution_count'', JInt 1), (''status'', JString ''error'')]) es"
proof -
  have "stops (demo_execution ''1'' True) ''error''" by (simp add: stops_def demo_execution_def)
  then show ?thesis
    using execution_is_answered_once [OF demo_type demo_read, of demo_kernel
        "demo_env ([Out (Stream 1000 ''stdout'' ''hi''), Reply 1001 (jobj [(''status'', JString ''error'')])], None)" "''1''" True
        "[Stream 1000 ''stdout'' ''hi'']" 1001 "jobj [(''status'', JString ''error'')]" "()" _ 1 "''error''" SHELL]
      demo_put [of "''error''"] demo_waiting
    by (auto simp: demo_count demo_env_def)
qed

theorem throwing_execution_is_answered_witness:
  "\<exists>k' es. executeRequest (demo_env ([Out (Stream 1000 ''stdout'' ''hi'')], Some (RuntimeError ''hera is not loaded'')))
       (demo_request ''execute_request'' [(''code'', JString ''1''), (''stop_on_error'', JBool False)]) SHELL demo_kernel = (None, k') \<and>
     sent k' = es \<and>
     execution_events (demo_execution ''1'' False) [] (createErrorReply ''InternalError'' ''what'' (JArray [])) es"
proof -
  have "\<not> stops (demo_execution ''1'' False) ''error''" by (simp add: stops_def demo_execution_def)
  then show ?thesis
    using throwing_execution_is_answered [OF demo_read, of demo_kernel
        "demo_env ([Out (Stream 1000 ''stdout'' ''hi'')], Some (RuntimeError ''hera is not loaded''))" "''1''" False
        "[Stream 1000 ''stdout'' ''hi'']" "RuntimeError ''hera is not loaded''" "()" SHELL]
    by (auto simp: demo_env_def)
qed

lemma throw_after_reply_answers_twice_witness:
  "\<exists>k' outs rp1 rp2 idle1 idle2.
     executeRequest (demo_env ([Reply 1001 (jobj [(''status'', JString ''ok'')])], Some (RuntimeError ''late'')))
       (demo_request ''execute_request'' [(''code'', JString ''1''), (''stop_on_error'', JBool False)]) SHELL demo_kernel = (None, k') \<and>
     sent k' = BeginExecution # outs @ [EndExecution, SendShell rp1, idle1, SendShell rp2, idle2]"
proof -
  have "\<not> x_stop_on_error (demo_execution ''1'' False)" by (simp add: demo_execution_def)
  then show ?thesis
    using throw_after_reply_answers_twice [OF demo_read, of demo_kernel
        "demo_env ([Reply 1001 (jobj [(''status'', JString ''ok'')])], Some (RuntimeError ''late''))" "''1''" False
        1001 "jobj [(''status'', JString ''ok'')]" "RuntimeError ''late''" "()" _ 1 "''ok''" SHELL] demo_put [of "''ok''"]
    by (auto simp: demo_count demo_env_def)
qed

lemma unreadable_execution_is_left_busy_witness:
  "\<exists>busy. sent (snd (dispatch (demo_env ([], None)) (demo_request ''execute_request'' [(''code'', JInt 1)]) SHELL demo_kernel)) = [busy]"
proof -
  have "read_execution (demo_request ''execute_request'' [(''code'', JInt 1)]) = Inl (TypeError 302)"
    by (simp add: read_execution_def demo_request_def json_simps Let_def)
  from unreadable_execution_is_left_busy [OF demo_type this, of "demo_env ([], None)" SHELL demo_kernel]
  show ?thesis by auto
qed

lemma header_without_type_escapes_dispatch_witness:
  "fst (dispatch (demo_env ([], None)) (new_message [] JDiscarded JNull JNull JNull []) SHELL demo_kernel) = Some (TypeError 306)"
  using header_without_type_escapes_dispatch [of "new_message [] JDiscarded JNull JNull JNull []" "demo_env ([], None)" SHELL demo_kernel]
  by simp

end
