(* ===== verification/Server.thy ===== *)
theory Server
  imports Serializer Kernel_Io
begin

text \<open>
  The server of a kernel: \<open>native/src/adrastea/transport/server/server_zmq_impl.cpp\<close>,
  \<open>server_zmq_default.cpp\<close> and \<open>transport/server.cpp\<close>. A socket is the queue of the multiparts that
  have arrived and the list of those sent. Three threads use the server: the kernel's, which polls
  the sockets and runs the requests; the watcher, which reads them while code runs; and the one that
  answers requests accepted meanwhile. Each of their steps runs under \<open>m_controlMutex\<close> or
  \<open>m_busyMutex\<close>, so an execution of the server is a sequence of whole steps, in any interleaving
  (\<open>server_step\<close>).

  \<open>deser\<close> is \<open>ZmqSerializer::deserialize\<close> with the server's authentication, \<open>accepts\<close> the filter
  of the requests the interpreter answers while it is busy.
\<close>

type_synonym deserializer = "multipart \<Rightarrow> message result"

record server =
  m_shell :: "multipart list"
  m_controller :: "multipart list"
  shell_sent :: "multipart list"
  control_sent :: "multipart list"
  iopub_sent :: "multipart list"
  m_deferredControl :: "message list"
  m_deferredShell :: "message list"
  m_busyQueue :: "message list"
  m_interruptHandler :: bool
  m_busyShellHandler :: bool
  m_watching :: bool
  m_watchQuit :: bool
  m_requestStop :: bool
  m_channelsStopped :: bool
  channel_stops :: nat

text \<open>As \<open>ServerZmq\<close>'s constructor leaves it; \<open>channel_stops\<close> counts the calls of
  \<open>stopChannels\<close>.\<close>

definition new_server :: server where
  "new_server =
     \<lparr> m_shell = [], m_controller = [], shell_sent = [], control_sent = [], iopub_sent = [],
       m_deferredControl = [], m_deferredShell = [], m_busyQueue = [], m_interruptHandler = True,
       m_busyShellHandler = True, m_watching = False, m_watchQuit = False, m_requestStop = False,
       m_channelsStopped = False, channel_stops = 0 \<rparr>"

section \<open>While code runs\<close>

definition beginExecution :: "'s server_scheme \<Rightarrow> 's server_scheme" where
  "beginExecution s = s\<lparr> m_watching := True \<rparr>"

definition endExecution :: "'s server_scheme \<Rightarrow> 's server_scheme" where
  "endExecution s = s\<lparr> m_watching := False \<rparr>"

definition isWatching :: "'s server_scheme \<Rightarrow> bool" where
  "isWatching s \<longleftrightarrow> m_watching s \<and> \<not> m_watchQuit s"

text \<open>Where a request that was read went: to the loop (now or later), to the busy thread, to the
  interrupt handler. A message that is refused, or whose type cannot be read, is reported and
  dropped.\<close>

datatype destination = ToLoop | ToBusy | ToHandler

definition pollShellOnce ::
  "deserializer \<Rightarrow> (string \<Rightarrow> bool) \<Rightarrow> 's server_scheme \<Rightarrow> (message \<times> destination) option \<times> 's server_scheme" where
  "pollShellOnce deser accepts s =
     (if \<not> m_busyShellHandler s then (None, s)
      else case m_shell s of
        [] \<Rightarrow> (None, s)
      | wire_msg # rest \<Rightarrow>
        (let s = s\<lparr> m_shell := rest \<rparr>
         in case rbind (deser wire_msg) (\<lambda>msg. rbind (value_string (m_header msg) ''msg_type'' []) (\<lambda>ty. Inr (msg, ty))) of
              Inl _ \<Rightarrow> (None, s)
            | Inr (msg, msg_type) \<Rightarrow>
                if m_deferredShell s = [] \<and> accepts msg_type
                then (Some (msg, ToBusy), s\<lparr> m_busyQueue := m_busyQueue s @ [msg] \<rparr>)
                else (Some (msg, ToLoop), s\<lparr> m_deferredShell := m_deferredShell s @ [msg] \<rparr>)))"

definition pollControlOnce :: "deserializer \<Rightarrow> 's server_scheme \<Rightarrow> (message \<times> destination) option \<times> 's server_scheme" where
  "pollControlOnce deser s =
     (case m_controller s of
        [] \<Rightarrow> (None, s)
      | wire_msg # rest \<Rightarrow>
        (let s = s\<lparr> m_controller := rest \<rparr>
         in case rbind (deser wire_msg) (\<lambda>msg. rbind (value_string (m_header msg) ''msg_type'' []) (\<lambda>ty. Inr (msg, ty))) of
              Inl _ \<Rightarrow> (None, s)
            | Inr (msg, msg_type) \<Rightarrow>
                if m_interruptHandler s \<and> (msg_type = ''interrupt_request'' \<or> msg_type = ''debug_request'')
                then (Some (msg, ToHandler), s)
                else (Some (msg, ToLoop), s\<lparr> m_deferredControl := m_deferredControl s @ [msg] \<rparr>)))"

text \<open>The busy thread takes the first request of its queue.\<close>

definition answerBusyRequest :: "'s server_scheme \<Rightarrow> message option \<times> 's server_scheme" where
  "answerBusyRequest s =
     (case m_busyQueue s of [] \<Rightarrow> (None, s) | m # ms \<Rightarrow> (Some m, s\<lparr> m_busyQueue := ms \<rparr>))"

section \<open>The kernel's loop\<close>

definition pollChannels :: "deserializer \<Rightarrow> 's server_scheme \<Rightarrow> (message \<times> channel) option \<times> 's server_scheme" where
  "pollChannels deser s =
     (case m_deferredControl s of
        msg # rest \<Rightarrow> (Some (msg, CONTROL), s\<lparr> m_deferredControl := rest \<rparr>)
      | [] \<Rightarrow>
        if \<not> m_requestStop s \<and> m_deferredShell s \<noteq> []
        then (Some (hd (m_deferredShell s), SHELL), s\<lparr> m_deferredShell := tl (m_deferredShell s) \<rparr>)
        else case m_controller s of
          wire_msg # rest \<Rightarrow>
            (let s = s\<lparr> m_controller := rest \<rparr>
             in case deser wire_msg of Inl _ \<Rightarrow> (None, s) | Inr msg \<Rightarrow> (Some (msg, CONTROL), s))
        | [] \<Rightarrow>
            if m_requestStop s then (None, s)
            else case m_shell s of
              [] \<Rightarrow> (None, s)
            | wire_msg # rest \<Rightarrow>
                (let s = s\<lparr> m_shell := rest \<rparr>
                 in case deser wire_msg of Inl _ \<Rightarrow> (None, s) | Inr msg \<Rightarrow> (Some (msg, SHELL), s)))"

definition setRequestStop :: "bool \<Rightarrow> 's server_scheme \<Rightarrow> 's server_scheme" where
  "setRequestStop stop s = s\<lparr> m_requestStop := stop \<rparr>"

definition stopImpl :: "'s server_scheme \<Rightarrow> 's server_scheme" where
  "stopImpl = setRequestStop True"

definition stopChannels :: "'s server_scheme \<Rightarrow> 's server_scheme" where
  "stopChannels s = s\<lparr> channel_stops := Suc (channel_stops s) \<rparr>"

definition close_channels :: "'s server_scheme \<Rightarrow> 's server_scheme" where
  "close_channels s = (if \<not> m_channelsStopped s then stopChannels (s\<lparr> m_channelsStopped := True \<rparr>) else s)"

text \<open>One turn of the loop: \<open>notify\<close> is the listener of a channel, \<open>idle\<close> the idle listener, as they
  change the server.\<close>

definition pollOnceImpl ::
  "deserializer \<Rightarrow> (message \<Rightarrow> channel \<Rightarrow> 's server_scheme \<Rightarrow> 's server_scheme) \<Rightarrow> ('s server_scheme \<Rightarrow> 's server_scheme)
     \<Rightarrow> 's server_scheme \<Rightarrow> bool \<times> 's server_scheme" where
  "pollOnceImpl deser notify idle s =
     (let s = (if m_requestStop s then s
               else case pollChannels deser s of
                 (Some (msg, c), s) \<Rightarrow> notify msg c s
               | (None, s) \<Rightarrow> if m_requestStop s then s else idle s)
      in if m_requestStop s then (False, close_channels s) else (True, s))"

text \<open>The loop of \<open>startImpl\<close>, for at most as many turns.\<close>

fun poll_turns ::
  "nat \<Rightarrow> deserializer \<Rightarrow> (message \<Rightarrow> channel \<Rightarrow> 's server_scheme \<Rightarrow> 's server_scheme) \<Rightarrow> ('s server_scheme \<Rightarrow> 's server_scheme)
     \<Rightarrow> 's server_scheme \<Rightarrow> bool \<times> 's server_scheme" where
  "poll_turns 0 deser notify idle s = (True, s)"
| "poll_turns (Suc n) deser notify idle s =
     (case pollOnceImpl deser notify idle s of
        (True, s) \<Rightarrow> poll_turns n deser notify idle s
      | (False, s) \<Rightarrow> (False, close_channels s))"

section \<open>Sending\<close>

definition sendShell ::
  "parser \<Rightarrow> printer \<Rightarrow> (frame list \<Rightarrow> frame) \<Rightarrow> message \<Rightarrow> 's server_scheme \<Rightarrow> ('s server_scheme) result" where
  "sendShell parse dump sign m s =
     rbind (serialize parse dump sign m) (\<lambda>wire. Inr (s\<lparr> shell_sent := shell_sent s @ [wire] \<rparr>))"

definition sendControl ::
  "parser \<Rightarrow> printer \<Rightarrow> (frame list \<Rightarrow> frame) \<Rightarrow> message \<Rightarrow> 's server_scheme \<Rightarrow> ('s server_scheme) result" where
  "sendControl parse dump sign m s =
     rbind (serialize parse dump sign m) (\<lambda>wire. Inr (s\<lparr> control_sent := control_sent s @ [wire] \<rparr>))"

definition publish ::
  "parser \<Rightarrow> printer \<Rightarrow> (frame list \<Rightarrow> frame) \<Rightarrow> pub_message \<Rightarrow> 's server_scheme \<Rightarrow> ('s server_scheme) result" where
  "publish parse dump sign m s =
     rbind (serializeIopub parse dump sign m) (\<lambda>wire. Inr (s\<lparr> iopub_sent := iopub_sent s @ [wire] \<rparr>))"

section \<open>All interleavings\<close>

text \<open>The history of a run beside the server: the shell requests in the order they were read, with where
  they went; those the loop was given (to handle or to abort) and those the busy thread took; the same
  for control.\<close>

record traced = server +
  t_shell :: "(message \<times> destination) list"
  t_loop :: "message list"
  t_busy :: "message list"
  t_control :: "(message \<times> destination) list"
  t_control_loop :: "message list"

definition new_traced :: traced where
  "new_traced = server.extend new_server
     \<lparr> t_shell = [], t_loop = [], t_busy = [], t_control = [], t_control_loop = [] \<rparr>"

definition opt_list :: "'a option \<Rightarrow> 'a list" where
  "opt_list o' = (case o' of None \<Rightarrow> [] | Some a \<Rightarrow> [a])"

definition shell_poll :: "deserializer \<Rightarrow> (string \<Rightarrow> bool) \<Rightarrow> traced \<Rightarrow> traced" where
  "shell_poll deser accepts s =
     (let (r, s) = pollShellOnce deser accepts s in s\<lparr> t_shell := t_shell s @ opt_list r \<rparr>)"

definition control_poll :: "deserializer \<Rightarrow> traced \<Rightarrow> traced" where
  "control_poll deser s = (let (r, s) = pollControlOnce deser s in s\<lparr> t_control := t_control s @ opt_list r \<rparr>)"

definition busy_answer :: "traced \<Rightarrow> traced" where
  "busy_answer s = (let (r, s) = answerBusyRequest s in s\<lparr> t_busy := t_busy s @ opt_list r \<rparr>)"

text \<open>What the loop takes: from what was set aside, or straight from a socket (read and delivered at
  once).\<close>

definition loop_poll :: "deserializer \<Rightarrow> traced \<Rightarrow> traced" where
  "loop_poll deser s =
     (case pollChannels deser s of
        (None, s') \<Rightarrow> s'
      | (Some (m, SHELL), s') \<Rightarrow>
          (let s'' = s'\<lparr> t_loop := t_loop s' @ [m] \<rparr>
           in if m_deferredShell s = [] then s''\<lparr> t_shell := t_shell s'' @ [(m, ToLoop)] \<rparr> else s'')
      | (Some (m, CONTROL), s') \<Rightarrow>
          (let s'' = s'\<lparr> t_control_loop := t_control_loop s' @ [m] \<rparr>
           in if m_deferredControl s = [] then s''\<lparr> t_control := t_control s'' @ [(m, ToLoop)] \<rparr> else s''))"

text \<open>One round of each loop of \<open>abortQueue\<close> (what the listener does is in \<open>Kernel_Core\<close>): a request set
  aside, and, once there is none (and the watcher is off, the execution being over), one from the
  socket.\<close>

definition abort_take :: "traced \<Rightarrow> traced" where
  "abort_take s =
     (case m_deferredShell s of [] \<Rightarrow> s | m # ms \<Rightarrow> s\<lparr> m_deferredShell := ms, t_loop := t_loop s @ [m] \<rparr>)"

definition abort_read :: "deserializer \<Rightarrow> traced \<Rightarrow> traced" where
  "abort_read deser s =
     (case m_shell s of [] \<Rightarrow> s
      | w # rest \<Rightarrow>
        (let s = s\<lparr> m_shell := rest \<rparr>
         in case deser w of Inl _ \<Rightarrow> s
            | Inr m \<Rightarrow> s\<lparr> t_loop := t_loop s @ [m], t_shell := t_shell s @ [(m, ToLoop)] \<rparr>))"

inductive server_step :: "deserializer \<Rightarrow> (string \<Rightarrow> bool) \<Rightarrow> traced \<Rightarrow> traced \<Rightarrow> bool" for deser accepts where
  shell_arrives: "server_step deser accepts s (s\<lparr> m_shell := m_shell s @ [w] \<rparr>)"
| control_arrives: "server_step deser accepts s (s\<lparr> m_controller := m_controller s @ [w] \<rparr>)"
| begins: "server_step deser accepts s (beginExecution s)"
| ends: "server_step deser accepts s (endExecution s)"
| watches_shell: "isWatching s \<Longrightarrow> server_step deser accepts s (shell_poll deser accepts s)"
| watches_control: "isWatching s \<Longrightarrow> server_step deser accepts s (control_poll deser s)"
| answers_busy: "server_step deser accepts s (busy_answer s)"
| polls: "server_step deser accepts s (loop_poll deser s)"
| aborts_deferred: "server_step deser accepts s (abort_take s)"
| aborts_arrived: "m_deferredShell s = [] \<Longrightarrow> server_step deser accepts s (abort_read deser s)"
| stops: "server_step deser accepts s (stopImpl s)"

section \<open>Order and conservation\<close>

definition sent_to :: "destination \<Rightarrow> (message \<times> destination) list \<Rightarrow> message list" where
  "sent_to d log = map fst (filter (\<lambda>e. snd e = d) log)"

lemma sent_to_simps [simp]:
  "sent_to d [] = []" "sent_to d (xs @ ys) = sent_to d xs @ sent_to d ys"
  "sent_to d ((m, d') # log) = (if d' = d then m # sent_to d log else sent_to d log)"
  by (simp_all add: sent_to_def)

text \<open>The shell requests for the loop are those it was given and those set aside, in the order they were
  read; the same for the busy thread and its queue; and nothing read after the first request that is
  still set aside went anywhere else.\<close>

definition shell_order :: "traced \<Rightarrow> bool" where
  "shell_order s \<longleftrightarrow>
     sent_to ToLoop (t_shell s) = t_loop s @ m_deferredShell s \<and>
     sent_to ToBusy (t_shell s) = t_busy s @ m_busyQueue s \<and>
     (\<exists>pre. t_shell s = pre @ map (\<lambda>m. (m, ToLoop)) (m_deferredShell s))"

definition control_order :: "traced \<Rightarrow> bool" where
  "control_order s \<longleftrightarrow> sent_to ToLoop (t_control s) = t_control_loop s @ m_deferredControl s"

lemma orderI:
  "t_shell s' = t_shell s \<Longrightarrow> t_loop s' = t_loop s \<Longrightarrow> t_busy s' = t_busy s \<Longrightarrow> m_deferredShell s' = m_deferredShell s \<Longrightarrow>
   m_busyQueue s' = m_busyQueue s \<Longrightarrow> t_control s' = t_control s \<Longrightarrow> t_control_loop s' = t_control_loop s \<Longrightarrow>
   m_deferredControl s' = m_deferredControl s \<Longrightarrow> shell_order s \<and> control_order s \<Longrightarrow> shell_order s' \<and> control_order s'"
  by (simp add: shell_order_def control_order_def)

lemma shell_poll_order: "shell_order s \<and> control_order s \<Longrightarrow> shell_order (shell_poll deser accepts s) \<and> control_order (shell_poll deser accepts s)"
  by (auto simp: shell_poll_def pollShellOnce_def opt_list_def shell_order_def control_order_def Let_def
      split: list.splits sum.splits if_splits)

lemma control_poll_order: "shell_order s \<and> control_order s \<Longrightarrow> shell_order (control_poll deser s) \<and> control_order (control_poll deser s)"
  by (auto simp: control_poll_def pollControlOnce_def opt_list_def shell_order_def control_order_def Let_def
      split: list.splits sum.splits if_splits)

lemma busy_answer_order: "shell_order s \<and> control_order s \<Longrightarrow> shell_order (busy_answer s) \<and> control_order (busy_answer s)"
  by (auto simp: busy_answer_def answerBusyRequest_def opt_list_def shell_order_def control_order_def
      split: list.splits)

lemma loop_poll_order: "shell_order s \<and> control_order s \<Longrightarrow> shell_order (loop_poll deser s) \<and> control_order (loop_poll deser s)"
  by (auto simp: loop_poll_def pollChannels_def control_order_def Let_def shell_order_def neq_Nil_conv
      split: list.splits sum.splits if_splits channel.splits)

lemma abort_take_order: "shell_order s \<and> control_order s \<Longrightarrow> shell_order (abort_take s) \<and> control_order (abort_take s)"
  by (auto simp: abort_take_def shell_order_def control_order_def split: list.splits)

lemma abort_read_order:
  "m_deferredShell s = [] \<Longrightarrow> shell_order s \<and> control_order s \<Longrightarrow> shell_order (abort_read deser s) \<and> control_order (abort_read deser s)"
  by (auto simp: abort_read_def shell_order_def control_order_def Let_def split: list.splits sum.splits)

lemma server_step_order:
  "server_step deser accepts s s' \<Longrightarrow> shell_order s \<and> control_order s \<Longrightarrow> shell_order s' \<and> control_order s'"
proof (induction rule: server_step.induct)
  case (watches_shell s)
  then show ?case by (simp add: shell_poll_order)
next
  case (watches_control s)
  then show ?case by (simp add: control_poll_order)
next
  case (answers_busy s)
  then show ?case by (simp add: busy_answer_order)
next
  case (polls s)
  then show ?case by (simp add: loop_poll_order)
next
  case (aborts_deferred s)
  then show ?case by (simp add: abort_take_order)
next
  case (aborts_arrived s)
  then show ?case by (simp add: abort_read_order)
qed (rule orderI; simp add: beginExecution_def endExecution_def stopImpl_def setRequestStop_def; fail)+


lemma new_traced_order: "shell_order new_traced \<and> control_order new_traced"
  by (simp add: shell_order_def control_order_def new_traced_def new_server_def server.defs traced.defs)

lemma server_steps_order:
  "(server_step deser accepts)\<^sup>*\<^sup>* new_traced s \<Longrightarrow> shell_order s \<and> control_order s"
  by (induction rule: rtranclp_induct) (auto simp: new_traced_order dest: server_step_order)

section \<open>Stopping\<close>

definition stops_once :: "'s server_scheme \<Rightarrow> bool" where
  "stops_once s \<longleftrightarrow> channel_stops s = (if m_channelsStopped s then 1 else 0)"

lemma close_channels_once: "stops_once s \<Longrightarrow> stops_once (close_channels s) \<and> m_channelsStopped (close_channels s)"
  by (simp add: stops_once_def close_channels_def stopChannels_def)

lemma pollChannels_keeps:
  "pollChannels deser s = (r, s') \<Longrightarrow>
     m_channelsStopped s' = m_channelsStopped s \<and> channel_stops s' = channel_stops s \<and> m_requestStop s' = m_requestStop s"
  by (auto simp: pollChannels_def Let_def split: list.splits if_splits sum.splits)

lemma pollOnce_once:
  assumes "\<And>m c s. stops_once s \<Longrightarrow> stops_once (notify m c s)" "\<And>s. stops_once s \<Longrightarrow> stops_once (idle s)" "stops_once s"
  shows "stops_once (snd (pollOnceImpl deser notify idle s))"
proof -
  obtain r s1 where p: "pollChannels deser s = (r, s1)" by fastforce
  have s1: "stops_once s1" using pollChannels_keeps [OF p] assms(3) by (simp add: stops_once_def)
  define s2 where "s2 = (if m_requestStop s then s else case pollChannels deser s of
      (Some (msg, c), s) \<Rightarrow> notify msg c s
    | (None, s) \<Rightarrow> if m_requestStop s then s else idle s)"
  have "stops_once s2"
    using s1 assms by (cases r) (simp_all add: s2_def p split: prod.split)
  moreover have "snd (pollOnceImpl deser notify idle s) = (if m_requestStop s2 then close_channels s2 else s2)"
    by (simp add: pollOnceImpl_def s2_def)
  ultimately show ?thesis using close_channels_once [of s2] by simp
qed

lemma poll_turns_once:
  assumes "\<And>m c s. stops_once s \<Longrightarrow> stops_once (notify m c s)" "\<And>s. stops_once s \<Longrightarrow> stops_once (idle s)" "stops_once s"
  shows "stops_once (snd (poll_turns n deser notify idle s))"
  using assms(3)
proof (induction n arbitrary: s)
  case (Suc n)
  obtain b s1 where p: "pollOnceImpl deser notify idle s = (b, s1)" by fastforce
  have "stops_once s1" using pollOnce_once [of notify idle s deser, OF assms(1,2) Suc.prems] p by simp
  then show ?case using Suc.IH [of s1] close_channels_once p by (cases b) auto
qed simp

lemma poll_turns_stopped:
  "m_requestStop s \<Longrightarrow> poll_turns (Suc n) deser notify idle s = (False, close_channels s)"
  by (simp add: pollOnceImpl_def close_channels_def stopChannels_def)

section \<open>Properties\<close>

text \<open>C3. Whatever the interleaving of arrivals, the watcher, the busy thread, the loop and aborts: every
  shell request that was read is in exactly one place, the loop gets its requests in the order they
  were read, so does the busy thread, and once a request is set aside everything read behind it is set
  aside too. The control requests for the loop keep their order as well.\<close>

theorem requests_keep_their_order:
  assumes "(server_step deser accepts)\<^sup>*\<^sup>* new_traced s"
  shows "sent_to ToLoop (t_shell s) = t_loop s @ m_deferredShell s \<and>
         sent_to ToBusy (t_shell s) = t_busy s @ m_busyQueue s \<and>
         (\<exists>pre. t_shell s = pre @ map (\<lambda>m. (m, ToLoop)) (m_deferredShell s)) \<and>
         sent_to ToLoop (t_control s) = t_control_loop s @ m_deferredControl s"
  using server_steps_order [OF assms] by (simp add: shell_order_def control_order_def)

text \<open>A deserializer that reads the type of a request from its one frame.\<close>

definition type_deser :: deserializer where
  "type_deser w = Inr (new_message [] (jobj [(''msg_type'', JString (concat w))]) JNull JNull JNull [])"

definition two_requests :: traced where
  "two_requests = loop_poll type_deser (endExecution (shell_poll type_deser (\<lambda>ty. ty = ''complete_request'')
     (shell_poll type_deser (\<lambda>ty. ty = ''complete_request'')
       (beginExecution (new_traced\<lparr> m_shell := [[''complete_request''], [''inspect_request'']] \<rparr>)))))"

lemma two_requests_reachable: "(server_step type_deser (\<lambda>ty. ty = ''complete_request''))\<^sup>*\<^sup>* new_traced two_requests"
proof -
  let ?step = "server_step type_deser (\<lambda>ty. ty = ''complete_request'')"
  let ?s1 = "new_traced\<lparr> m_shell := m_shell new_traced @ [[''complete_request'']] \<rparr>"
  let ?s2 = "?s1\<lparr> m_shell := m_shell ?s1 @ [[''inspect_request'']] \<rparr>"
  let ?s3 = "beginExecution ?s2"
  let ?s4 = "shell_poll type_deser (\<lambda>ty. ty = ''complete_request'') ?s3"
  let ?s5 = "shell_poll type_deser (\<lambda>ty. ty = ''complete_request'') ?s4"
  have w: "isWatching ?s3" "isWatching ?s4"
    by (simp_all add: isWatching_def beginExecution_def new_traced_def new_server_def server.defs traced.defs
        shell_poll_def pollShellOnce_def type_deser_def json_simps opt_list_def)
  have "?step new_traced ?s1" "?step ?s1 ?s2" "?step ?s2 ?s3" "?step ?s3 ?s4" "?step ?s4 ?s5"
    "?step ?s5 (endExecution ?s5)" "?step (endExecution ?s5) (loop_poll type_deser (endExecution ?s5))"
    using w by (blast intro: server_step.intros)+
  moreover have "?s2 = new_traced\<lparr> m_shell := [[''complete_request''], [''inspect_request'']] \<rparr>"
    by (simp add: new_traced_def new_server_def server.defs traced.defs)
  ultimately show ?thesis
    unfolding two_requests_def by (metis (no_types, lifting) converse_rtranclp_into_rtranclp rtranclp.rtrancl_refl)
qed

theorem requests_keep_their_order_witness:
  "sent_to ToBusy (t_shell two_requests) = t_busy two_requests @ m_busyQueue two_requests"
  using requests_keep_their_order [OF two_requests_reachable] by blast

text \<open>The order of the answers is not kept across the two: a request accepted by the busy thread can
  still be in its queue when the loop handles one that was read after it, once the execution is over.\<close>

lemma busy_request_can_be_overtaken:
  "(server_step type_deser (\<lambda>ty. ty = ''complete_request''))\<^sup>*\<^sup>* new_traced two_requests \<and>
   (\<exists>first second. t_shell two_requests = [(first, ToBusy), (second, ToLoop)] \<and>
      t_loop two_requests = [second] \<and> m_busyQueue two_requests = [first] \<and> t_busy two_requests = [])"
proof
  show "\<exists>first second. t_shell two_requests = [(first, ToBusy), (second, ToLoop)] \<and>
      t_loop two_requests = [second] \<and> m_busyQueue two_requests = [first] \<and> t_busy two_requests = []"
    by (simp add: two_requests_def beginExecution_def endExecution_def new_traced_def new_server_def server.defs traced.defs
        shell_poll_def pollShellOnce_def type_deser_def json_simps opt_list_def loop_poll_def pollChannels_def)
qed (rule two_requests_reachable)

text \<open>C12. The channels are stopped at most once however long the loop runs, and a stop is final: from then on
  a turn reads no message, runs neither listener nor idle work, and says so.\<close>

theorem stop_is_final_and_once:
  assumes "\<And>m c s. stops_once s \<Longrightarrow> stops_once (notify m c s)" "\<And>s. stops_once s \<Longrightarrow> stops_once (idle s)"
  shows "channel_stops (snd (poll_turns n deser notify idle new_server)) \<le> 1 \<and>
         (m_requestStop s \<longrightarrow> poll_turns (Suc n) deser notify idle s = (False, close_channels s) \<and>
            m_shell (close_channels s) = m_shell s \<and> m_controller (close_channels s) = m_controller s \<and>
            m_deferredShell (close_channels s) = m_deferredShell s)"
proof -
  have "stops_once new_server" by (simp add: stops_once_def new_server_def)
  from poll_turns_once [of notify idle new_server n deser, OF assms this]
  have "channel_stops (snd (poll_turns n deser notify idle new_server)) \<le> 1"
    by (simp add: stops_once_def)
  moreover have "m_shell (close_channels s) = m_shell s" "m_controller (close_channels s) = m_controller s"
    "m_deferredShell (close_channels s) = m_deferredShell s"
    by (simp_all add: close_channels_def stopChannels_def)
  ultimately show ?thesis using poll_turns_stopped by blast
qed

theorem stop_is_final_and_once_witness:
  "channel_stops (snd (poll_turns 5 type_deser (\<lambda>m c. stopImpl) (\<lambda>s. s) new_server)) \<le> 1"
proof -
  have "\<And>m c (s :: server). stops_once s \<Longrightarrow> stops_once (stopImpl s)"
    by (simp add: stops_once_def stopImpl_def setRequestStop_def)
  from stop_is_final_and_once [of "\<lambda>m c. stopImpl" "\<lambda>s. s", OF this] show ?thesis by blast
qed

end
