(* ===== verification/Outbox.thy ===== *)
theory Outbox
  imports Prelude
begin

text \<open>The supervisor's sender of one WebSocket client
  (\<^verbatim>\<open>src/native/src/themisto/outbox.hpp\<close>): the state shared by
  the producers and the sender thread, every operation of the class, and the sender thread
  cut into the atomic steps between which another thread can run. A schedule is a list of
  events, each one call of a producer or one step of the sender; what the network still
  holds (\<^verbatim>\<open>m_buffered\<close>) is an argument of each sender step.

  The lemmas show that whatever the interleaving, the frames sent, read back line by line,
  are the pushed texts in order and once each; that no frame is larger than
  \<^verbatim>\<open>kFrameBytes\<close> unless it is a single text; and that a stopped outbox
  sends all it accepted and ends.\<close>

section \<open>State\<close>

definition kFrameBytes :: nat where
  "kFrameBytes = 2 ^ 20"

definition kMaxBuffered :: nat where
  "kMaxBuffered = 2 ^ 20"

text \<open>Where the sender thread is in \<^verbatim>\<open>run()\<close>: at the wait on the
  condition variable, at the head of the loop over the batch, in \<^verbatim>\<open>flush\<close>'s
  wait for the network (with the text whose arrival caused the flush, or none when it is the
  flush after the loop), or returned.\<close>

datatype sender =
    Waiting
  | Looping (left_batch: "string list") (cur_frame: string)
  | Draining "(string \<times> string list) option"
  | Returned

record outbox =
  m_queue :: "string list"
  m_stopping :: bool
  m_abandoned :: bool
  m_sender :: sender
  m_sent :: "string list"

definition start :: outbox where
  "start = \<lparr>m_queue = [], m_stopping = False, m_abandoned = False, m_sender = Waiting, m_sent = []\<rparr>"

section \<open>Operations\<close>

definition push :: "string \<Rightarrow> outbox \<Rightarrow> outbox" where
  "push msg b = (if m_stopping b then b else b\<lparr>m_queue := m_queue b @ [msg]\<rparr>)"

definition stop :: "outbox \<Rightarrow> outbox" where
  "stop b = b\<lparr>m_stopping := True\<rparr>"

definition abandon :: "outbox \<Rightarrow> outbox" where
  "abandon b = b\<lparr>m_stopping := True, m_abandoned := True, m_queue := []\<rparr>"

text \<open>The text a frame becomes when one more message joins it.\<close>

definition join_frame :: "string \<Rightarrow> string \<Rightarrow> string" where
  "join_frame frame msg = (if frame = [] then msg else frame @ CHR 0x0A # msg)"

definition send_frame :: "string \<Rightarrow> outbox \<Rightarrow> outbox" where
  "send_frame frame b = b\<lparr>m_sent := m_sent b @ [frame]\<rparr>"

text \<open>One step of \<^verbatim>\<open>run()\<close>; \<^verbatim>\<open>buffered\<close> is what
  the connection reports when the step asks.\<close>

fun run_from :: "sender \<Rightarrow> nat \<Rightarrow> outbox \<Rightarrow> outbox" where
  "run_from Waiting buffered b =
     (if \<not> (m_stopping b \<or> m_queue b \<noteq> []) then b
      else if m_queue b = [] then b\<lparr>m_sender := Returned\<rparr>
      else b\<lparr>m_queue := [], m_sender := Looping (m_queue b) []\<rparr>)"
| "run_from (Looping (msg # batch) frame) buffered b =
     (if m_abandoned b then b\<lparr>m_sender := Returned\<rparr>
      else if frame \<noteq> [] \<and> length frame + length msg + 1 > kFrameBytes
      then send_frame frame b\<lparr>m_sender := Draining (Some (msg, batch))\<rparr>
      else b\<lparr>m_sender := Looping batch (join_frame frame msg)\<rparr>)"
| "run_from (Looping [] frame) buffered b =
     (if frame = [] then b\<lparr>m_sender := Waiting\<rparr>
      else send_frame frame b\<lparr>m_sender := Draining None\<rparr>)"
| "run_from (Draining next) buffered b =
     (if buffered > kMaxBuffered \<and> \<not> m_abandoned b then b
      else b\<lparr>m_sender := (case next of None \<Rightarrow> Waiting
                            | Some (msg, batch) \<Rightarrow> Looping batch (join_frame [] msg))\<rparr>)"
| "run_from Returned buffered b = b"

definition run_step :: "nat \<Rightarrow> outbox \<Rightarrow> outbox" where
  "run_step buffered b = run_from (m_sender b) buffered b"

datatype event = Push string | Stop | Abandon | Run nat

fun outbox_step :: "event \<Rightarrow> outbox \<Rightarrow> outbox" where
  "outbox_step (Push msg) b = push msg b"
| "outbox_step Stop b = stop b"
| "outbox_step Abandon b = abandon b"
| "outbox_step (Run buffered) b = run_step buffered b"

definition outbox_run :: "event list \<Rightarrow> outbox" where
  "outbox_run evs = fold outbox_step evs start"

text \<open>The texts a schedule hands over: those pushed before the first stop or abandon.\<close>

fun handed_over :: "event list \<Rightarrow> string list" where
  "handed_over [] = []"
| "handed_over (Push msg # evs) = msg # handed_over evs"
| "handed_over (Stop # evs) = []"
| "handed_over (Abandon # evs) = []"
| "handed_over (Run n # evs) = handed_over evs"

text \<open>A client's reading of a frame: the texts between its newlines.\<close>

fun frame_texts :: "string \<Rightarrow> string list" where
  "frame_texts [] = [[]]"
| "frame_texts (c # cs) =
     (if c = CHR 0x0A then [] # frame_texts cs
      else (case frame_texts cs of [] \<Rightarrow> [[c]] | l # ls \<Rightarrow> (c # l) # ls))"

definition one_line :: "string \<Rightarrow> bool" where
  "one_line msg \<longleftrightarrow> msg \<noteq> [] \<and> CHR 0x0A \<notin> set msg"

definition line_frame :: "string \<Rightarrow> bool" where
  "line_frame frame \<longleftrightarrow> frame \<noteq> [] \<and> (\<forall>l \<in> set (frame_texts frame). one_line l)"

section \<open>Frames and their texts\<close>

lemma frame_texts_nonempty [simp]: "frame_texts cs \<noteq> []"
  by (cases cs) (auto split: list.splits)

lemma frame_texts_line: "CHR 0x0A \<notin> set msg \<Longrightarrow> frame_texts msg = [msg]"
  by (induction msg) auto

lemma frame_texts_append:
  "CHR 0x0A \<notin> set msg \<Longrightarrow> frame_texts (frame @ CHR 0x0A # msg) = frame_texts frame @ [msg]"
  by (induction frame) (auto simp: frame_texts_line split: list.splits)

lemma single_text: "frame_texts cs = [l] \<Longrightarrow> cs = l"
  by (induction cs arbitrary: l) (auto split: if_splits list.splits)

lemma one_line_texts [simp]: "one_line msg \<Longrightarrow> frame_texts msg = [msg]"
  by (simp add: one_line_def frame_texts_line)

lemma join_frame_texts:
  "one_line msg \<Longrightarrow> frame_texts (join_frame frame msg) = (if frame = [] then [] else frame_texts frame) @ [msg]"
  by (auto simp: join_frame_def one_line_def frame_texts_line frame_texts_append)

lemma join_frame_nonempty [simp]: "one_line msg \<Longrightarrow> join_frame frame msg \<noteq> []"
  by (auto simp: join_frame_def one_line_def)

section \<open>The invariant of every schedule\<close>

text \<open>What the sender holds and has not sent.\<close>

fun in_hand :: "sender \<Rightarrow> string list" where
  "in_hand Waiting = []"
| "in_hand (Looping batch frame) = (if frame = [] then [] else frame_texts frame) @ batch"
| "in_hand (Draining None) = []"
| "in_hand (Draining (Some (msg, batch))) = msg # batch"
| "in_hand Returned = []"

definition sent_texts :: "outbox \<Rightarrow> string list" where
  "sent_texts b = concat (map frame_texts (m_sent b))"

definition accounted :: "outbox \<Rightarrow> string list" where
  "accounted b = sent_texts b @ in_hand (m_sender b) @ m_queue b"

fun frame_bounded :: "string \<Rightarrow> bool" where
  "frame_bounded frame \<longleftrightarrow> length frame \<le> kFrameBytes \<or> length (frame_texts frame) = 1"

fun sender_ok :: "sender \<Rightarrow> bool" where
  "sender_ok (Looping batch frame) \<longleftrightarrow>
     (\<forall>t \<in> set batch. one_line t) \<and> (frame = [] \<or> (frame_bounded frame \<and> line_frame frame))"
| "sender_ok (Draining (Some (msg, batch))) \<longleftrightarrow> (\<forall>t \<in> set (msg # batch). one_line t)"
| "sender_ok _ \<longleftrightarrow> True"

definition outbox_inv :: "outbox \<Rightarrow> bool" where
  "outbox_inv b \<longleftrightarrow> sender_ok (m_sender b) \<and> (\<forall>t \<in> set (m_queue b). one_line t)
     \<and> (\<forall>f \<in> set (m_sent b). frame_bounded f \<and> line_frame f)
     \<and> (m_abandoned b \<longrightarrow> m_stopping b \<and> m_queue b = [])
     \<and> (m_sender b = Returned \<longrightarrow> m_stopping b \<and> m_queue b = [])"

lemma join_frame_ok:
  assumes "one_line msg" "frame = [] \<or> (frame_bounded frame \<and> line_frame frame)"
    and "\<not> (frame \<noteq> [] \<and> length frame + length msg + 1 > kFrameBytes)"
  shows "frame_bounded (join_frame frame msg) \<and> line_frame (join_frame frame msg)"
proof (cases "frame = []")
  case True
  then show ?thesis using assms(1) by (simp add: join_frame_def line_frame_def one_line_def frame_texts_line)
next
  case False
  then have "length (join_frame frame msg) \<le> kFrameBytes"
    using assms(3) by (simp add: join_frame_def)
  moreover have "line_frame (join_frame frame msg)"
    using False assms(1,2) by (auto simp: line_frame_def join_frame_texts)
  ultimately show ?thesis by simp
qed

lemma run_step_inv:
  assumes inv: "outbox_inv b"
  shows "outbox_inv (run_step n b)"
proof (cases "m_sender b")
  case (Looping batch frame)
  show ?thesis
  proof (cases batch)
    case (Cons msg rest)
    then have one: "one_line msg" "frame = [] \<or> (frame_bounded frame \<and> line_frame frame)"
      using inv Looping by (simp_all add: outbox_inv_def)
    show ?thesis
      using inv Looping Cons one(2) join_frame_ok [OF one]
      by (simp add: run_step_def outbox_inv_def send_frame_def del: frame_bounded.simps) blast
  next
    case Nil
    then show ?thesis
      using inv Looping
      by (cases "frame = []") (simp_all add: run_step_def outbox_inv_def send_frame_def del: frame_bounded.simps)
  qed
next
  case (Draining nxt)
  then show ?thesis
  proof (cases nxt)
    case (Some p)
    then obtain msg rest where "nxt = Some (msg, rest)" by (cases p) simp
    moreover from this have "one_line msg" using inv Draining by (simp add: outbox_inv_def)
    then have "frame_bounded (join_frame [] msg) \<and> line_frame (join_frame [] msg)"
      using join_frame_ok [of msg "[]"] by simp
    ultimately show ?thesis
      using inv Draining by (simp add: run_step_def outbox_inv_def del: frame_bounded.simps)
  qed (use inv Draining in \<open>simp add: run_step_def outbox_inv_def del: frame_bounded.simps\<close>)
next
  case Waiting
  then show ?thesis
    using inv by (cases "m_stopping b") (simp_all add: run_step_def outbox_inv_def del: frame_bounded.simps)
qed (use inv in \<open>simp add: run_step_def\<close>)

lemma run_step_accounted:
  assumes inv: "outbox_inv b" and live: "\<not> m_abandoned b"
  shows "accounted (run_step n b) = accounted b"
proof (cases "m_sender b")
  case (Looping batch frame)
  then show ?thesis
    using assms by (cases batch) (auto simp: run_step_def accounted_def sent_texts_def send_frame_def outbox_inv_def
          join_frame_texts)
next
  case (Draining nxt)
  then show ?thesis
    using assms by (cases nxt) (auto simp: run_step_def accounted_def sent_texts_def outbox_inv_def join_frame_def
          one_line_def frame_texts_line)
qed (use assms in \<open>auto simp: run_step_def accounted_def sent_texts_def outbox_inv_def\<close>)

text \<open>An abandoned outbox only ever loses texts from the end of what it owes.\<close>

lemma run_step_prefix:
  assumes "outbox_inv b"
  shows "\<exists>lost. accounted b = accounted (run_step n b) @ lost"
proof (cases "m_abandoned b")
  case False
  then show ?thesis using run_step_accounted [OF assms] by auto
next
  case True
  then have q: "m_queue b = []" using assms by (simp add: outbox_inv_def)
  show ?thesis
  proof (cases "m_sender b")
    case (Looping batch frame)
    then show ?thesis
      using assms True q by (cases batch) (auto simp: run_step_def accounted_def sent_texts_def send_frame_def)
  next
    case (Draining nxt)
    then show ?thesis
      using assms True q by (cases nxt) (auto simp: run_step_def accounted_def sent_texts_def outbox_inv_def
          join_frame_def one_line_def frame_texts_line)
  qed (use q in \<open>auto simp: run_step_def accounted_def sent_texts_def\<close>)
qed

fun well_pushed :: "event \<Rightarrow> bool" where
  "well_pushed (Push msg) \<longleftrightarrow> one_line msg"
| "well_pushed _ \<longleftrightarrow> True"

lemma run_step_flags [simp]:
  "m_stopping (run_step n b) = m_stopping b" "m_abandoned (run_step n b) = m_abandoned b"
  by (cases "(m_sender b, n, b)" rule: run_from.cases; auto simp: run_step_def send_frame_def)+

lemma push_inv: "one_line msg \<Longrightarrow> outbox_inv b \<Longrightarrow> outbox_inv (push msg b)"
  by (auto simp: push_def outbox_inv_def simp del: frame_bounded.simps)

lemma stop_inv: "outbox_inv b \<Longrightarrow> outbox_inv (stop b)"
  by (simp add: stop_def outbox_inv_def del: frame_bounded.simps)

lemma abandon_inv: "outbox_inv b \<Longrightarrow> outbox_inv (abandon b)"
  by (simp add: abandon_def outbox_inv_def del: frame_bounded.simps)

lemma outbox_step_inv: "well_pushed e \<Longrightarrow> outbox_inv b \<Longrightarrow> outbox_inv (outbox_step e b)"
  by (cases e) (simp_all add: run_step_inv push_inv stop_inv abandon_inv)

lemma start_inv [simp]: "outbox_inv start"
  by (simp add: start_def outbox_inv_def)

interpretation outbox_events: event_system outbox_step well_pushed outbox_inv
  by unfold_locales (rule outbox_step_inv)

lemma outbox_run_inv: "list_all well_pushed evs \<Longrightarrow> outbox_inv (outbox_run evs)"
  by (simp add: outbox_run_def outbox_events.schedule_inv)

text \<open>What a schedule leaves accounted for: nothing is lost without an abandon, and
  with one only the end of the line is.\<close>

lemma push_accounted: "accounted (push msg b) = accounted b @ (if m_stopping b then [] else [msg])"
  by (simp add: push_def accounted_def sent_texts_def)

lemma stop_accounted [simp]: "accounted (stop b) = accounted b"
  by (simp add: stop_def accounted_def sent_texts_def)

lemma abandon_accounted: "\<exists>lost. accounted b = accounted (abandon b) @ lost"
  by (simp add: abandon_def accounted_def sent_texts_def)

lemma flag_simps [simp]:
  "m_stopping (push msg b) = m_stopping b" "m_abandoned (push msg b) = m_abandoned b"
  "m_stopping (stop b)" "m_abandoned (stop b) = m_abandoned b"
  "m_stopping (abandon b)" "m_abandoned (abandon b)"
  by (simp_all add: push_def stop_def abandon_def)

lemma fold_accounted:
  "list_all well_pushed evs \<Longrightarrow> outbox_inv b \<Longrightarrow> \<not> m_abandoned b \<Longrightarrow> Abandon \<notin> set evs \<Longrightarrow>
     accounted (fold outbox_step evs b) = accounted b @ (if m_stopping b then [] else handed_over evs)"
proof (induction evs arbitrary: b)
  case (Cons e evs)
  then have inv: "outbox_inv (outbox_step e b)" by (simp add: outbox_step_inv)
  show ?case
    using Cons inv by (cases e) (simp_all add: run_step_accounted push_accounted)
qed simp

lemma fold_accounted_prefix:
  "list_all well_pushed evs \<Longrightarrow> outbox_inv b \<Longrightarrow>
     \<exists>lost. accounted b @ (if m_stopping b then [] else handed_over evs)
          = accounted (fold outbox_step evs b) @ lost"
proof (induction evs arbitrary: b)
  case (Cons e evs)
  then have inv: "outbox_inv (outbox_step e b)" by (simp add: outbox_step_inv)
  obtain lost where IH: "accounted (outbox_step e b)
      @ (if m_stopping (outbox_step e b) then [] else handed_over evs)
      = accounted (fold outbox_step evs (outbox_step e b)) @ lost"
    using Cons.IH [OF _ inv] Cons.prems by auto
  show ?case
  proof (cases e)
    case (Push msg)
    then show ?thesis using IH by (auto simp: push_accounted)
  next
    case Stop
    then show ?thesis using IH by auto
  next
    case Abandon
    then show ?thesis using IH abandon_accounted [of b] by auto
  next
    case (Run n)
    have live: "\<not> m_stopping b \<Longrightarrow> accounted (run_step n b) = accounted b"
      using Cons.prems(2) by (intro run_step_accounted) (auto simp: outbox_inv_def)
    show ?thesis
      using IH Run run_step_prefix [OF Cons.prems(2), of n] live by (cases "m_stopping b") auto
  qed
qed auto

lemma start_accounted [simp]: "accounted start = []" "\<not> m_stopping start" "\<not> m_abandoned start"
  by (simp_all add: start_def accounted_def sent_texts_def)

lemma outbox_run_accounted:
  "list_all well_pushed evs \<Longrightarrow> Abandon \<notin> set evs \<Longrightarrow> accounted (outbox_run evs) = handed_over evs"
  by (simp add: outbox_run_def fold_accounted)

lemma sent_texts_prefix:
  assumes "list_all well_pushed evs"
  shows "\<exists>rest. handed_over evs = sent_texts (outbox_run evs) @ rest"
proof -
  obtain lost where "handed_over evs = accounted (outbox_run evs) @ lost"
    using fold_accounted_prefix [OF assms start_inv] by (auto simp: outbox_run_def)
  then show ?thesis by (auto simp: accounted_def)
qed

section \<open>Draining\<close>

fun work :: "sender \<Rightarrow> nat" where
  "work Waiting = 0"
| "work (Looping batch frame) = 2 * length batch + 2"
| "work (Draining None) = 1"
| "work (Draining (Some (msg, batch))) = 2 * length batch + 3"
| "work Returned = 0"

definition outbox_work :: "outbox \<Rightarrow> nat" where
  "outbox_work b = (if m_sender b = Returned then 0
     else work (m_sender b) + (if m_queue b = [] then 1 else 2 * length (m_queue b) + 5))"

lemma run_step_progress:
  assumes "m_stopping b" "n \<le> kMaxBuffered" "m_sender b \<noteq> Returned"
  shows "outbox_work (run_step n b) < outbox_work b"
proof (cases "m_sender b")
  case (Looping batch frame)
  then show ?thesis
    using assms by (cases batch) (auto simp: run_step_def outbox_work_def send_frame_def)
next
  case (Draining nxt)
  then show ?thesis
    using assms by (cases nxt) (auto simp: run_step_def outbox_work_def)
qed (use assms in \<open>auto simp: run_step_def outbox_work_def\<close>)

lemma outbox_work_zero: "outbox_work b = 0 \<longleftrightarrow> m_sender b = Returned"
  by (simp add: outbox_work_def)

lemma returned_stays: "m_sender b = Returned \<Longrightarrow> run_step n b = b"
  by (simp add: run_step_def)

lemma fold_drains:
  "m_stopping b \<Longrightarrow> list_all (\<lambda>n. n \<le> kMaxBuffered) ns \<Longrightarrow> outbox_work b \<le> length ns \<Longrightarrow>
     m_sender (fold outbox_step (map Run ns) b) = Returned"
proof (induction ns arbitrary: b)
  case (Cons n ns)
  have "outbox_work (run_step n b) \<le> length ns"
    using Cons.prems run_step_progress [of b n] returned_stays [of b n] outbox_work_zero [of b]
    by (cases "m_sender b = Returned") auto
  then show ?case using Cons by simp
qed (simp add: outbox_work_zero)

lemma stop_stops: "Stop \<in> set evs \<or> m_stopping b \<Longrightarrow> m_stopping (fold outbox_step evs b)"
proof (induction evs arbitrary: b)
  case (Cons e evs)
  then show ?case by (cases e) auto
qed simp

lemma handed_over_runs [simp]: "handed_over (evs @ map Run ns) = handed_over evs"
proof (induction evs)
  case Nil
  show ?case by (induction ns) auto
next
  case (Cons e evs)
  then show ?case by (cases e) auto
qed

section \<open>The properties\<close>

text \<open>C14. However the producers and the sender thread interleave, and whatever the
  connection reports as unsent, the frames handed to the connection, read line by line, are an
  initial part of the texts pushed before the outbox was stopped, in the order they were
  pushed and without a repeat; unless the outbox was abandoned, the remainder is exactly what
  the sender still holds followed by the queue.\<close>

theorem frames_carry_texts_in_order:
  assumes "list_all well_pushed evs"
  shows "(\<exists>rest. handed_over evs = sent_texts (outbox_run evs) @ rest)
    \<and> (Abandon \<notin> set evs \<longrightarrow> handed_over evs
        = sent_texts (outbox_run evs) @ in_hand (m_sender (outbox_run evs)) @ m_queue (outbox_run evs))"
  using sent_texts_prefix [OF assms] outbox_run_accounted [OF assms] by (auto simp: accounted_def)

theorem frames_carry_texts_in_order_witness:
  "sent_texts (outbox_run [Push ''ab'', Push ''c'', Run 0, Push ''d'', Run 0, Run 0, Run 0]) = [''ab'', ''c'']
   \<and> handed_over [Push ''ab'', Push ''c'', Run 0, Push ''d'', Run 0, Run 0, Run 0]
      = sent_texts (outbox_run [Push ''ab'', Push ''c'', Run 0, Push ''d'', Run 0, Run 0, Run 0]) @ [''d'']"
  using frames_carry_texts_in_order
    [of "[Push ''ab'', Push ''c'', Run 0, Push ''d'', Run 0, Run 0, Run 0]"]
  by (simp add: one_line_def outbox_run_def start_def push_def run_step_def send_frame_def
      join_frame_def sent_texts_def kFrameBytes_def)

text \<open>C15. No frame is longer than \<^verbatim>\<open>kFrameBytes\<close> unless it consists
  of a single pushed text, and none is empty.\<close>

theorem frames_are_bounded:
  assumes "list_all well_pushed evs" "frame \<in> set (m_sent (outbox_run evs))"
  shows "frame \<noteq> [] \<and> (length frame \<le> kFrameBytes \<or> frame \<in> set (handed_over evs))"
proof -
  have inv: "frame_bounded frame" "line_frame frame"
    using outbox_run_inv [OF assms(1)] assms(2) by (auto simp: outbox_inv_def simp del: frame_bounded.simps)
  have "frame \<in> set (handed_over evs)" if one: "length (frame_texts frame) = 1"
  proof -
    from one obtain l where l: "frame_texts frame = [l]" by (auto simp: length_Suc_conv)
    moreover have "frame = l" using l by (rule single_text)
    ultimately have "frame \<in> set (sent_texts (outbox_run evs))"
      using assms(2) by (force simp: sent_texts_def)
    then show ?thesis using sent_texts_prefix [OF assms(1)] by auto
  qed
  then show ?thesis using inv by (auto simp: line_frame_def)
qed

theorem frames_are_bounded_witness:
  "''ab'' \<noteq> [] \<and> (length ''ab'' \<le> kFrameBytes \<or> ''ab'' \<in> set (handed_over [Push ''ab'', Run 0, Run 0, Run 0]))"
  by (rule frames_are_bounded)
    (simp_all add: one_line_def outbox_run_def start_def push_def run_step_def send_frame_def
      join_frame_def kFrameBytes_def)

text \<open>C16. A stopped outbox that is not abandoned ends, and has then sent every text pushed
  before the stop: once the connection keeps its unsent bytes within
  \<^verbatim>\<open>kMaxBuffered\<close>, a bounded number of sender steps brings the thread to
  its return with all of them sent.\<close>

theorem stopped_outbox_sends_everything:
  assumes "list_all well_pushed evs" "Abandon \<notin> set evs" "Stop \<in> set evs"
  shows "\<exists>N. \<forall>ns. list_all (\<lambda>n. n \<le> kMaxBuffered) ns \<longrightarrow> N \<le> length ns \<longrightarrow>
     m_sender (outbox_run (evs @ map Run ns)) = Returned
     \<and> sent_texts (outbox_run (evs @ map Run ns)) = handed_over evs"
proof (intro exI allI impI)
  fix ns
  assume ns: "list_all (\<lambda>n. n \<le> kMaxBuffered) ns" "outbox_work (outbox_run evs) \<le> length ns"
  let ?b = "outbox_run (evs @ map Run ns)"
  have ret: "m_sender ?b = Returned"
    using fold_drains [OF _ ns] stop_stops [of evs start] assms(3) by (simp add: outbox_run_def)
  have wp: "list_all well_pushed (evs @ map Run ns)" "Abandon \<notin> set (evs @ map Run ns)"
    using assms by (auto simp: list_all_iff)
  have "m_queue ?b = []" using outbox_run_inv [OF wp(1)] ret by (simp add: outbox_inv_def)
  then show "m_sender ?b = Returned \<and> sent_texts ?b = handed_over evs"
    using outbox_run_accounted [OF wp] ret by (simp add: accounted_def)
qed

theorem stopped_outbox_sends_everything_witness:
  "\<exists>N. \<forall>ns. list_all (\<lambda>n. n \<le> kMaxBuffered) ns \<longrightarrow> N \<le> length ns \<longrightarrow>
     m_sender (outbox_run ([Push ''ab'', Run 0, Push ''c'', Stop, Push ''x''] @ map Run ns)) = Returned
     \<and> sent_texts (outbox_run ([Push ''ab'', Run 0, Push ''c'', Stop, Push ''x''] @ map Run ns)) = [''ab'', ''c'']"
  using stopped_outbox_sends_everything [of "[Push ''ab'', Run 0, Push ''c'', Stop, Push ''x'']"]
  by (simp add: one_line_def)

end
