(* ===== verification/Process.thy ===== *)
theory Process
  imports Prelude
begin

text \<open>The supervisor's child processes (\<^verbatim>\<open>src/native/src/themisto/kernel_process.cpp\<close>,
  the POSIX build): the command line and environment a kernel gets, \<^verbatim>\<open>start()\<close> with its
  exec-status pipe, the relay of the kernel's output, and liveness, interruption, killing and
  diagnosis over \<^verbatim>\<open>waitpidCached\<close>.

  The operating system is explicit: what each system call of \<^verbatim>\<open>start()\<close> answers is a
  field of a record, and the child's life as the kernel of the operating system keeps it (running,
  stopped, a zombie, reaped) is a state that \<^verbatim>\<open>waitpid\<close> and
  \<^verbatim>\<open>kill\<close> read and change as POSIX says.

  The lemmas show that a start either yields a running kernel with its arguments and environment
  or leaves nothing behind, that the relay prints the lines of the output however it was cut into
  reads, that no signal is ever sent to a process id that was reaped, and what a kill leaves.\<close>

section \<open>Options, arguments and environment\<close>

record KernelProcessOptions =
  kernelExePath :: string
  rHome :: string
  rPath :: string
  rLibs :: string
  pandocPath :: string
  pythonHome :: string
  pythonPath :: string
  venvPath :: string
  stataHome :: string
  stataEdition :: string
  workingDirectory :: string
  explicitArgs :: "string list"
  extraEnv :: "(string \<times> string) list"
  interruptBySignal :: bool
  registrationIp :: string
  registrationPort :: string
  registrationId :: string
  process_key :: string

definition validateWorkingDirectory :: "(string \<Rightarrow> bool) \<Rightarrow> string \<Rightarrow> unit result" where
  "validateWorkingDirectory is_directory dir =
     (if dir = [] then Inr ()
      else if \<not> is_directory dir
      then Inl (RuntimeError (''workingDirectory does not exist or is not a directory: '' @ dir))
      else Inr ())"

definition toArgPairs :: "KernelProcessOptions \<Rightarrow> (string \<times> string) list" where
  "toArgPairs opts =
     [(''--r-home'', rHome opts), (''--r-path'', rPath opts), (''--r-libs'', rLibs opts),
      (''--pandoc-path'', pandocPath opts), (''--python-home'', pythonHome opts),
      (''--python-path'', pythonPath opts), (''--venv-path'', venvPath opts),
      (''--stata-home'', stataHome opts), (''--stata-edition'', stataEdition opts),
      (''--registration-ip'', registrationIp opts), (''--registration-port'', registrationPort opts),
      (''--registration-id'', registrationId opts), (''--key'', process_key opts)]"

fun arg_pairs :: "(string \<times> string) list \<Rightarrow> string list" where
  "arg_pairs [] = []"
| "arg_pairs ((flag, val) # rest) = (if val = [] then arg_pairs rest else flag # val # arg_pairs rest)"

definition commandArguments :: "KernelProcessOptions \<Rightarrow> string list" where
  "commandArguments opts = (if explicitArgs opts \<noteq> [] then explicitArgs opts else arg_pairs (toArgPairs opts))"

definition outputPumpLabel :: "string \<Rightarrow> string" where
  "outputPumpLabel path =
     (let name = (case find_last_of {CHR ''/'', CHR 0x5C} path of None \<Rightarrow> path | Some i \<Rightarrow> drop (i + 1) path);
          name' = (if length name > 4 \<and> drop (length name - 4) name = ''.exe''
                   then take (length name - 4) name else name)
      in if name' = [] then ''kernel'' else name')"

text \<open>The constructor makes the kernel's path absolute when the file system can.\<close>

definition new_options :: "(string \<Rightarrow> string option) \<Rightarrow> KernelProcessOptions \<Rightarrow> KernelProcessOptions" where
  "new_options absolute opts =
     (if kernelExePath opts \<noteq> [] then
        (case absolute (kernelExePath opts) of Some p \<Rightarrow> opts\<lparr>kernelExePath := p\<rparr> | None \<Rightarrow> opts)
      else opts)"

text \<open>The library directories a kernel needs before its dynamic linker starts.\<close>

definition libDirs :: "KernelProcessOptions \<Rightarrow> string list" where
  "libDirs opts = (if rHome opts \<noteq> [] then [rHome opts @ ''/lib''] else [])
     @ (if pythonHome opts \<noteq> [] then [pythonHome opts @ ''/lib''] else [])"

fun join_dirs :: "string \<Rightarrow> string list \<Rightarrow> string" where
  "join_dirs combined [] = combined"
| "join_dirs combined (dir # dirs) =
     join_dirs ((if combined \<noteq> [] then combined @ '':'' else combined) @ dir) dirs"

type_synonym environ = "string \<rightharpoonup> string"

definition ldPathVar :: string where
  "ldPathVar = ''LD_LIBRARY_PATH''"

definition with_lib_path :: "KernelProcessOptions \<Rightarrow> environ \<Rightarrow> environ" where
  "with_lib_path opts env =
     (if libDirs opts \<noteq> [] then
        (let combined = join_dirs [] (libDirs opts);
             newLdPath = (case env ldPathVar of
                 Some existing \<Rightarrow> if existing \<noteq> [] then combined @ '':'' @ existing else combined
               | None \<Rightarrow> combined)
         in env(ldPathVar \<mapsto> newLdPath))
      else env)"

fun set_env :: "(string \<times> string) list \<Rightarrow> environ \<Rightarrow> environ" where
  "set_env [] env = env"
| "set_env ((name, val) # rest) env = set_env rest (env(name \<mapsto> val))"

section \<open>Starting a kernel\<close>

text \<open>What the operating system answers while \<^verbatim>\<open>start()\<close> runs: an error number stands
  for a failing call.\<close>

record os_answers =
  is_directory :: "string \<Rightarrow> bool"
  pipe_made :: bool
  status_pipe_made :: bool
  forked_pid :: int
  parent_env :: environ
  chdir_errno :: "string \<Rightarrow> int option"
  execv_errno :: "string \<Rightarrow> string list \<Rightarrow> environ \<Rightarrow> int option"
  strerror :: "int \<Rightarrow> string"

datatype fd = OutRead | OutWrite | StatusRead | StatusWrite

text \<open>What became of the child: it runs the program, or it wrote an error number to the
  exec-status pipe and ended with 127.\<close>

datatype child_image =
    Running_Program (image_path: string) (image_argv: "string list") (image_env: environ)
      (image_dir: "string option")
  | Reported_And_Exited int

definition child_after_fork :: "KernelProcessOptions \<Rightarrow> os_answers \<Rightarrow> child_image" where
  "child_after_fork opts os =
     (let argv = kernelExePath opts # commandArguments opts;
          env = with_lib_path opts (parent_env os);
          dir = workingDirectory opts
      in case (if dir \<noteq> [] then chdir_errno os dir else None) of
           Some e \<Rightarrow> Reported_And_Exited e
         | None \<Rightarrow>
             (let env' = set_env (extraEnv opts) env
              in case execv_errno os (kernelExePath opts) argv env' of
                   Some e \<Rightarrow> Reported_And_Exited e
                 | None \<Rightarrow> Running_Program (kernelExePath opts) argv env'
                             (if dir \<noteq> [] then Some dir else None)))"

record KernelProcess =
  m_options :: KernelProcessOptions
  m_processId :: int
  m_stdoutFd :: "fd option"
  m_reaped :: bool
  m_exitStatus :: int
  m_running :: bool
  m_pumping :: bool

definition new_KernelProcess :: "(string \<Rightarrow> string option) \<Rightarrow> KernelProcessOptions \<Rightarrow> KernelProcess" where
  "new_KernelProcess absolute opts =
     \<lparr>m_options = new_options absolute opts, m_processId = -1, m_stdoutFd = None, m_reaped = False,
      m_exitStatus = 0, m_running = False, m_pumping = False\<rparr>"

text \<open>What a start leaves: its outcome, the descriptors of its own the supervisor still has open,
  and the child with whether it has been waited for.\<close>

record start_effects =
  outcome :: "KernelProcess result"
  open_fds :: "fd list"
  child_left :: "(child_image \<times> bool) option"

abbreviation start_failed :: "string \<Rightarrow> fd list \<Rightarrow> (child_image \<times> bool) option \<Rightarrow> start_effects" where
  "start_failed what fds child \<equiv> \<lparr>outcome = Inl (RuntimeError what), open_fds = fds, child_left = child\<rparr>"

definition close_fd :: "fd \<Rightarrow> fd list \<Rightarrow> fd list" where
  "close_fd d fds = filter (\<lambda>x. x \<noteq> d) fds"

definition parent_after_fork :: "os_answers \<Rightarrow> child_image \<Rightarrow> KernelProcess \<Rightarrow> start_effects" where
  "parent_after_fork os child p =
     (let fds = close_fd StatusWrite (close_fd OutWrite [OutRead, OutWrite, StatusRead, StatusWrite]);
          fds' = close_fd StatusRead fds
      in case child of
           Reported_And_Exited e \<Rightarrow>
             start_failed (''Failed to spawn elara process (execv failed: '' @ strerror os e @ '')'')
               (close_fd OutRead fds') (Some (child, True))
         | Running_Program _ _ _ _ \<Rightarrow>
             \<lparr>outcome = Inr (p\<lparr>m_processId := forked_pid os, m_stdoutFd := Some OutRead,
                             m_running := True, m_pumping := True\<rparr>),
              open_fds = fds', child_left = Some (child, False)\<rparr>)"

definition start :: "os_answers \<Rightarrow> KernelProcess \<Rightarrow> start_effects" where
  "start os p =
     (case validateWorkingDirectory (is_directory os) (workingDirectory (m_options p)) of
        Inl e \<Rightarrow> \<lparr>outcome = Inl e, open_fds = [], child_left = None\<rparr>
      | Inr _ \<Rightarrow>
          if \<not> pipe_made os
          then start_failed ''Failed to create output pipe for elara process'' [] None
          else if \<not> status_pipe_made os
          then start_failed ''Failed to create exec-status pipe for elara process''
                 (close_fd OutWrite (close_fd OutRead [OutRead, OutWrite])) None
          else if forked_pid os < 0
          then start_failed ''Failed to fork elara process''
                 (close_fd StatusWrite (close_fd StatusRead (close_fd OutWrite (close_fd OutRead
                    [OutRead, OutWrite, StatusRead, StatusWrite])))) None
          else parent_after_fork os (child_after_fork (m_options p) os) p)"

section \<open>Relaying the output\<close>

definition pump_line :: "string \<Rightarrow> string \<Rightarrow> string" where
  "pump_line label l = ''['' @ label @ ''] '' @ l"

function relay :: "string \<Rightarrow> string \<Rightarrow> string list \<times> string" where
  "relay label carry =
     (case find_char (CHR 0x0A) carry of
        None \<Rightarrow> ([], carry)
      | Some pos \<Rightarrow>
          (let (out, rest) = relay label (drop (pos + 1) carry)
           in (pump_line label (take pos carry) # out, rest)))"
  by pat_completeness auto

termination
  by (relation "measure (\<lambda>(label, carry). length carry)") (auto dest: find_char_SomeD)

declare relay.simps [simp del]

text \<open>What one turn of the pump meets: bytes, the end of the file (or a read error), nothing
  within the poll's time, or a failing poll (interrupted or not). Each comes with
  \<^verbatim>\<open>m_running\<close> as that turn reads it.\<close>

datatype poll_result = Got string | Ended | Quiet | Failed bool

fun pump_loop :: "string \<Rightarrow> string \<Rightarrow> (bool \<times> poll_result) list \<Rightarrow> string list \<times> bool" where
  "pump_loop label carry [] = ([], False)"
| "pump_loop label carry ((running, r) # turns) =
     (let finish = (if carry \<noteq> [] then [pump_line label carry] else [], True)
      in case r of
           Got bytes \<Rightarrow>
             (let (out, rest) = relay label (carry @ bytes);
                  (out', ended) = pump_loop label rest turns
              in (out @ out', ended))
         | Ended \<Rightarrow> finish
         | Quiet \<Rightarrow> if \<not> running then finish else pump_loop label carry turns
         | Failed interrupted \<Rightarrow>
             if \<not> interrupted then finish
             else if \<not> running then finish
             else pump_loop label carry turns)"

definition startOutputPump :: "KernelProcess \<Rightarrow> (bool \<times> poll_result) list \<Rightarrow> string list \<times> bool" where
  "startOutputPump p turns = pump_loop (outputPumpLabel (kernelExePath (m_options p))) [] turns"

definition endOutputPump :: "KernelProcess \<Rightarrow> KernelProcess" where
  "endOutputPump p = (if \<not> m_pumping p then p else p\<lparr>m_running := False, m_pumping := False\<rparr>)"

section \<open>The child as the operating system keeps it\<close>

datatype child_state = Alive | Stopped int bool | Zombie int | Reaped

text \<open>What \<^verbatim>\<open>waitpid(pid, &status, options)\<close> finds at once: the value returned, the status
  when a child is reported, and the child afterwards. A stop is reported once, and only with
  \<^verbatim>\<open>WUNTRACED\<close>; its raw status is the signal shifted by eight bits over 0x7f. Without
  \<^verbatim>\<open>WNOHANG\<close> a call that finds nothing to report does not return: it waits for the child.\<close>

fun waitpid_now :: "int \<Rightarrow> bool \<Rightarrow> child_state \<Rightarrow> int \<times> int \<times> child_state" where
  "waitpid_now pid untraced (Zombie st) = (pid, st, Reaped)"
| "waitpid_now pid untraced Reaped = (-1, 0, Reaped)"
| "waitpid_now pid untraced Alive = (0, 0, Alive)"
| "waitpid_now pid untraced (Stopped sig reported) =
     (if untraced \<and> \<not> reported then (pid, sig * 256 + 127, Stopped sig True)
      else (0, 0, Stopped sig reported))"

text \<open>A kill signal ends a child that has not ended; the supervisor reaches the child by its
  process id.\<close>

fun sigkill :: "child_state \<Rightarrow> child_state" where
  "sigkill (Zombie st) = Zombie st"
| "sigkill Reaped = Reaped"
| "sigkill _ = Zombie 9"

definition SIGINT :: int where "SIGINT = 2"
definition SIGKILL :: int where "SIGKILL = 9"
definition SIGSEGV :: int where "SIGSEGV = 11"
definition SIGABRT :: int where "SIGABRT = 6"

text \<open>The supervisor's view and the operating system's, with every signal sent: the state the
  child was in when it was sent.\<close>

record world =
  proc :: KernelProcess
  child :: child_state
  signals :: "(int \<times> child_state) list"

section \<open>Liveness, interruption, killing, diagnosis\<close>

text \<open>\<^verbatim>\<open>waitpidCached\<close> with \<^verbatim>\<open>WNOHANG\<close>, which always returns, and without
  it, where \<open>None\<close> is a call that does not return.\<close>

definition note_wait :: "int \<times> int \<times> child_state \<Rightarrow> world \<Rightarrow> int \<times> world" where
  "note_wait found w =
     (let (result, status, c) = found
      in if result = m_processId (proc w)
         then (result, w\<lparr>proc := proc w\<lparr>m_reaped := True, m_exitStatus := status\<rparr>, child := c\<rparr>)
         else (result, w\<lparr>child := c\<rparr>))"

definition waitpidCached :: "bool \<Rightarrow> world \<Rightarrow> int \<times> world" where
  "waitpidCached untraced w =
     (if m_reaped (proc w) then (m_processId (proc w), w)
      else note_wait (waitpid_now (m_processId (proc w)) untraced (child w)) w)"

definition waitpidCached_blocking :: "world \<Rightarrow> (int \<times> world) option" where
  "waitpidCached_blocking w =
     (if m_reaped (proc w) then Some (m_processId (proc w), w)
      else let found = waitpid_now (m_processId (proc w)) False (child w)
           in if fst found = 0 then None else Some (note_wait found w))"

definition isAlive :: "world \<Rightarrow> bool \<times> world" where
  "isAlive w =
     (if m_processId (proc w) \<le> 0 then (False, w)
      else let (result, w') = waitpidCached False w in (result = 0, w'))"

definition send_signal :: "int \<Rightarrow> world \<Rightarrow> world" where
  "send_signal sig w = w\<lparr>signals := signals w @ [(sig, child w)],
     child := (if sig = SIGKILL then sigkill (child w) else child w)\<rparr>"

definition interrupt :: "world \<Rightarrow> bool \<times> world" where
  "interrupt w =
     (if \<not> (interruptBySignal (m_options (proc w)) \<and> m_processId (proc w) > 0) then (False, w)
      else let (alive, w') = isAlive w
           in if \<not> alive then (False, w') else (True, send_signal SIGINT w'))"

definition kill :: "world \<Rightarrow> world option" where
  "kill w =
     (case (if m_processId (proc w) > 0 then
              (case (if \<not> m_reaped (proc w) then
                       map_option snd (waitpidCached_blocking (send_signal SIGKILL w))
                     else Some w) of
                 None \<Rightarrow> None
               | Some w' \<Rightarrow> Some (w'\<lparr>proc := proc w'\<lparr>m_processId := -1\<rparr>\<rparr>))
            else Some w) of
        None \<Rightarrow> None
      | Some w' \<Rightarrow> Some (w'\<lparr>proc := endOutputPump (proc w')\<rparr>))"

definition WTERMSIG :: "int \<Rightarrow> int" where
  "WTERMSIG status = status mod 128"

definition WIFEXITED :: "int \<Rightarrow> bool" where
  "WIFEXITED status \<longleftrightarrow> WTERMSIG status = 0"

definition WEXITSTATUS :: "int \<Rightarrow> int" where
  "WEXITSTATUS status = (status div 256) mod 256"

definition WIFSIGNALED :: "int \<Rightarrow> bool" where
  "WIFSIGNALED status \<longleftrightarrow> 0 < WTERMSIG status \<and> WTERMSIG status < 127"

definition status_text :: "int \<Rightarrow> string" where
  "status_text status =
     (if WIFEXITED status then ''process exited with code '' @ show_int (WEXITSTATUS status)
      else if WIFSIGNALED status then
        ''process terminated by signal '' @ show_int (WTERMSIG status)
        @ (if WTERMSIG status = SIGSEGV then '' (SIGSEGV -- a native crash, e.g. in a compiled R package)''
           else if WTERMSIG status = SIGABRT then '' (SIGABRT)'' else [])
      else ''process status unknown (raw status '' @ show_int status @ '')'')"

definition describeStatus :: "world \<Rightarrow> string \<times> world" where
  "describeStatus w =
     (if m_processId (proc w) \<le> 0
      then (''process was never started or has already been cleaned up'', w)
      else let (result, w') = waitpidCached True w
           in (if result = 0 then ''process is still running -- likely hung or blocked rather than crashed''
               else if result < 0 then ''unable to query process status (waitpid failed)''
               else status_text (m_exitStatus (proc w')), w'))"

definition pid :: "KernelProcess \<Rightarrow> int" where
  "pid p = (if m_processId p > 0 then m_processId p else 0)"

text \<open>The memory of a kernel from the lines of its status file (\<open>None\<close>: the file is not
  there); \<^verbatim>\<open>std::stoull\<close> refuses what exceeds 64 bits, and the product wraps at 64
  bits.\<close>

definition rss_of_line :: "string \<Rightarrow> nat option result" where
  "rss_of_line line =
     (let rest = dropWhile isspace (drop 6 line);
          digits = takeWhile isdigit rest
      in if digits = [] then Inr None
         else if read_lsb (rev digits) \<ge> 2 ^ 64 then Inl (StdOutOfRange ''stoull'')
         else Inr (Some ((read_lsb (rev digits) * 1024) mod 2 ^ 64)))"

fun memory_lines :: "string list \<Rightarrow> nat option result" where
  "memory_lines [] = Inr None"
| "memory_lines (line # lines) =
     (if take 6 line \<noteq> ''VmRSS:'' then memory_lines lines else rss_of_line line)"

definition memoryUsageBytes :: "KernelProcess \<Rightarrow> string list option \<Rightarrow> nat option result" where
  "memoryUsageBytes p status_file =
     (if m_processId p \<le> 0 then Inr None
      else case status_file of None \<Rightarrow> Inr None | Some lines \<Rightarrow> memory_lines lines)"

section \<open>Starting: lemmas and property\<close>

lemma set_env_lookup: "set_env extra env v = (case map_of (rev extra) v of Some x \<Rightarrow> Some x | None \<Rightarrow> env v)"
proof (induction extra arbitrary: env)
  case (Cons nv extra)
  then show ?case by (cases nv) (auto simp: map_add_def split: option.splits)
qed simp

text \<open>The environment a kernel is started with: the extra variables over the supervisor's, with
  the library directories in front of the search path.\<close>

definition kernel_env :: "KernelProcessOptions \<Rightarrow> environ \<Rightarrow> environ" where
  "kernel_env opts env v =
     (case map_of (rev (extraEnv opts)) v of
        Some x \<Rightarrow> Some x
      | None \<Rightarrow>
          if v = ldPathVar \<and> libDirs opts \<noteq> [] then
            Some (join_dirs [] (libDirs opts)
              @ (case env ldPathVar of Some x \<Rightarrow> if x = [] then [] else '':'' @ x | None \<Rightarrow> []))
          else env v)"

lemma kernel_env_eq: "set_env (extraEnv opts) (with_lib_path opts env) = kernel_env opts env"
  by (rule ext) (auto simp: set_env_lookup kernel_env_def with_lib_path_def Let_def split: option.splits)

lemma child_after_fork_cases:
  "child_after_fork opts os =
     (case (if workingDirectory opts \<noteq> [] then chdir_errno os (workingDirectory opts) else None) of
        Some e \<Rightarrow> Reported_And_Exited e
      | None \<Rightarrow>
          (case execv_errno os (kernelExePath opts) (kernelExePath opts # commandArguments opts)
                  (kernel_env opts (parent_env os)) of
             Some e \<Rightarrow> Reported_And_Exited e
           | None \<Rightarrow> Running_Program (kernelExePath opts) (kernelExePath opts # commandArguments opts)
                       (kernel_env opts (parent_env os))
                       (if workingDirectory opts \<noteq> [] then Some (workingDirectory opts) else None)))"
  by (simp add: child_after_fork_def kernel_env_eq Let_def split: option.splits)

text \<open>C17. Starting a kernel is all or nothing. A start that throws leaves the supervisor with none
  of the descriptors it opened and with no child that has not been waited for; a start that returns
  leaves exactly the read end of the output pipe open, a child running the kernel's executable with
  its arguments, in the working directory asked for, with the extra variables over the
  supervisor's environment, and a process object that holds its id.\<close>

theorem start_is_all_or_nothing:
  "case outcome (start os p) of
     Inl e \<Rightarrow> open_fds (start os p) = [] \<and>
       (\<forall>c waited. child_left (start os p) = Some (c, waited) \<longrightarrow> waited)
   | Inr q \<Rightarrow> open_fds (start os p) = [OutRead]
       \<and> child_left (start os p) =
           Some (Running_Program (kernelExePath (m_options p))
                  (kernelExePath (m_options p) # commandArguments (m_options p))
                  (kernel_env (m_options p) (parent_env os))
                  (if workingDirectory (m_options p) \<noteq> [] then Some (workingDirectory (m_options p)) else None), False)
       \<and> m_processId q = forked_pid os \<and> m_running q \<and> m_options q = m_options p
       \<and> (workingDirectory (m_options p) = [] \<or> is_directory os (workingDirectory (m_options p)))"
  by (auto simp: start_def validateWorkingDirectory_def parent_after_fork_def child_after_fork_cases close_fd_def
      Let_def split: option.splits if_splits)

definition plain_options :: KernelProcessOptions where
  "plain_options = \<lparr>kernelExePath = ''/opt/elara'', rHome = ''/usr/lib/R'', rPath = [], rLibs = [], pandocPath = [],
     pythonHome = [], pythonPath = [], venvPath = [], stataHome = [], stataEdition = [], workingDirectory = ''/w'',
     explicitArgs = [], extraEnv = [(''A'', ''1'')], interruptBySignal = True, registrationIp = ''127.0.0.1'',
     registrationPort = ''5000'', registrationId = ''s1'', process_key = ''k''\<rparr>"

definition plain_os :: os_answers where
  "plain_os = \<lparr>is_directory = (\<lambda>d. d = ''/w''), pipe_made = True, status_pipe_made = True, forked_pid = 42,
     parent_env = Map.empty, chdir_errno = (\<lambda>_. None), execv_errno = (\<lambda>_ _ _. Some 2),
     strerror = (\<lambda>_. ''No such file'')\<rparr>"

theorem start_is_all_or_nothing_witness:
  "outcome (start plain_os (new_KernelProcess Some plain_options))
     = Inl (RuntimeError ''Failed to spawn elara process (execv failed: No such file)'')
   \<and> open_fds (start plain_os (new_KernelProcess Some plain_options)) = []
   \<and> child_left (start plain_os (new_KernelProcess Some plain_options)) = Some (Reported_And_Exited 2, True)"
proof -
  let ?r = "start plain_os (new_KernelProcess Some plain_options)"
  have failed: "outcome ?r = Inl (RuntimeError ''Failed to spawn elara process (execv failed: No such file)'')"
    and left: "map_option fst (child_left ?r) = Some (Reported_And_Exited 2)"
    by (simp_all add: start_def validateWorkingDirectory_def parent_after_fork_def child_after_fork_cases plain_os_def
        plain_options_def new_KernelProcess_def new_options_def Let_def)
  have "open_fds ?r = [] \<and> (\<forall>c waited. child_left ?r = Some (c, waited) \<longrightarrow> waited)"
    using start_is_all_or_nothing [of plain_os "new_KernelProcess Some plain_options"]
    unfolding failed sum.case .
  then show ?thesis using failed left by auto
qed

section \<open>Relaying: lemmas and property\<close>

text \<open>The lines of a text; what follows the last newline is a line when it is not empty.\<close>

fun lines_of :: "string \<Rightarrow> string \<Rightarrow> string list" where
  "lines_of cur [] = (if cur = [] then [] else [cur])"
| "lines_of cur (c # cs) = (if c = CHR 0x0A then cur # lines_of [] cs else lines_of (cur @ [c]) cs)"

lemma lines_of_skip: "CHR 0x0A \<notin> set l \<Longrightarrow> lines_of cur (l @ s) = lines_of (cur @ l) s"
  by (induction l arbitrary: cur) auto

lemma lines_of_line: "CHR 0x0A \<notin> set l \<Longrightarrow> lines_of [] (l @ CHR 0x0A # s) = l # lines_of [] s"
  by (simp add: lines_of_skip)

lemma relay_lines:
  "relay label carry = (out, rest) \<Longrightarrow>
     CHR 0x0A \<notin> set rest \<and>
     map (pump_line label) (lines_of [] (carry @ after)) = out @ map (pump_line label) (lines_of [] (rest @ after))"
proof (induction label carry arbitrary: out rest rule: relay.induct)
  case (1 label carry)
  show ?case
  proof (cases "find_char (CHR 0x0A) carry")
    case None
    moreover have "CHR 0x0A \<notin> set carry" using None find_char_None_iff by metis
    ultimately show ?thesis using 1(2) by (simp add: relay.simps [of label carry])
  next
    case (Some pos)
    obtain out' rest' where r: "relay label (drop (pos + 1) carry) = (out', rest')" by fastforce
    have "carry = take pos carry @ CHR 0x0A # drop (pos + 1) carry" "CHR 0x0A \<notin> set (take pos carry)"
      using find_char_take_drop [OF Some] find_char_SomeD [OF Some] by (auto simp: in_set_conv_nth)
    then have "lines_of [] (carry @ after) = take pos carry # lines_of [] (drop (pos + 1) carry @ after)"
      by (metis append_Cons append_assoc lines_of_line)
    then show ?thesis
      using 1(1) [OF Some r] 1(2) Some r by (auto simp: relay.simps [of label carry])
  qed
qed

fun bytes_read :: "(bool \<times> poll_result) list \<Rightarrow> string" where
  "bytes_read [] = []"
| "bytes_read ((running, Got bytes) # turns) = bytes @ bytes_read turns"
| "bytes_read ((running, Ended) # turns) = []"
| "bytes_read ((running, Quiet) # turns) = (if running then bytes_read turns else [])"
| "bytes_read ((running, Failed interrupted) # turns) = (if interrupted \<and> running then bytes_read turns else [])"

lemma pump_loop_lines:
  "pump_loop label carry turns = (out, True) \<Longrightarrow> CHR 0x0A \<notin> set carry \<Longrightarrow>
     out = map (pump_line label) (lines_of [] (carry @ bytes_read turns))"
proof (induction turns arbitrary: carry out)
  case (Cons turn turns)
  obtain running r where turn: "turn = (running, r)" by fastforce
  have done_: "map (pump_line label) (lines_of [] carry) = (if carry \<noteq> [] then [pump_line label carry] else [])"
    using lines_of_skip [OF Cons.prems(2), of "[]" "[]"] by simp
  show ?case
  proof (cases r)
    case (Got bytes)
    obtain o1 rest where r: "relay label (carry @ bytes) = (o1, rest)" by fastforce
    obtain o2 e where p: "pump_loop label rest turns = (o2, e)" by fastforce
    show ?thesis
      using Cons r p Got turn relay_lines [OF r, of "bytes_read turns"] by (auto simp: Let_def)
  next
    case Ended
    then show ?thesis using Cons.prems turn done_ by (simp add: Let_def)
  next
    case Quiet
    then show ?thesis using Cons turn done_ by (cases running) (auto simp: Let_def)
  next
    case (Failed interrupted)
    then show ?thesis
      using Cons turn done_ by (cases interrupted; cases running) (auto simp: Let_def)
  qed
qed simp

text \<open>Once the pump has ended, what it relayed is the kernel's output line by line, each line
  under the kernel's label and the unfinished last one too, however the pipe cut the output into
  reads and however often the poll was quiet or interrupted in between.\<close>

lemma relay_prints_the_lines:
  assumes "startOutputPump p turns = (out, True)"
  shows "out = map (pump_line (outputPumpLabel (kernelExePath (m_options p)))) (lines_of [] (bytes_read turns))"
  using pump_loop_lines [of _ "[]" turns out] assms by (simp add: startOutputPump_def)

lemma relay_prints_the_lines_witness:
  "fst (startOutputPump (new_KernelProcess Some plain_options)
      [(True, Got ''ab''), (True, Quiet), (True, Got [CHR ''c'', CHR 0x0A, CHR ''d'']), (False, Quiet)])
   = [''[elara] abc'', ''[elara] d'']"
proof -
  let ?p = "new_KernelProcess Some plain_options"
  let ?t = "[(True, Got ''ab''), (True, Quiet), (True, Got [CHR ''c'', CHR 0x0A, CHR ''d'']), (False, Quiet)]"
  have "snd (startOutputPump ?p ?t)"
    by (simp add: startOutputPump_def relay.simps)
  then have "startOutputPump ?p ?t = (fst (startOutputPump ?p ?t), True)"
    by (metis prod.collapse)
  from relay_prints_the_lines [OF this] show ?thesis
    by (simp add: new_KernelProcess_def new_options_def plain_options_def outputPumpLabel_def pump_line_def)
qed

text \<open>The pump ends at the first quiet turn after \<^verbatim>\<open>m_running\<close> is cleared, so
  \<^verbatim>\<open>endOutputPump\<close>'s join returns even while another process holds the pipe.\<close>

lemma pump_ends_when_told: "(False, Quiet) \<in> set turns \<Longrightarrow> snd (pump_loop label carry turns)"
proof (induction turns arbitrary: carry)
  case (Cons turn turns)
  obtain running r where turn: "turn = (running, r)" by fastforce
  show ?case
  proof (cases r)
    case (Got bytes)
    obtain o1 rest where r: "relay label (carry @ bytes) = (o1, rest)" by fastforce
    have "snd (pump_loop label rest turns)" using Cons Got turn by auto
    then show ?thesis using r Got turn by (auto simp: Let_def split: prod.splits)
  qed (use Cons turn in \<open>auto simp: Let_def\<close>)
qed simp

section \<open>Every sequence of operations and of the child's own moves\<close>

datatype proc_event =
    AskAlive | AskInterrupt | AskStatus | DoKill
  | ChildExits int | ChildSignalled int | ChildStops int | ChildContinues

fun child_move :: "proc_event \<Rightarrow> child_state \<Rightarrow> child_state" where
  "child_move (ChildExits code) Alive = Zombie ((code mod 256) * 256)"
| "child_move (ChildSignalled sig) Alive = Zombie sig"
| "child_move (ChildSignalled sig) (Stopped s r) = Zombie sig"
| "child_move (ChildStops sig) Alive = Stopped sig False"
| "child_move ChildContinues (Stopped s r) = Alive"
| "child_move _ c = c"

fun proc_step :: "proc_event \<Rightarrow> world \<Rightarrow> world option" where
  "proc_step AskAlive w = Some (snd (isAlive w))"
| "proc_step AskInterrupt w = Some (snd (interrupt w))"
| "proc_step AskStatus w = Some (snd (describeStatus w))"
| "proc_step DoKill w = kill w"
| "proc_step e w = Some (w\<lparr>child := child_move e (child w)\<rparr>)"

fun proc_run :: "proc_event list \<Rightarrow> world \<Rightarrow> world option" where
  "proc_run [] w = Some w"
| "proc_run (e # es) w = (case proc_step e w of None \<Rightarrow> None | Some w' \<Rightarrow> proc_run es w')"

definition started :: "KernelProcess \<Rightarrow> world" where
  "started p = \<lparr>proc = p, child = Alive, signals = []\<rparr>"

text \<open>While the process object holds an id it has not seen reaped, the operating system still
  has that child.\<close>

definition world_ok :: "world \<Rightarrow> bool" where
  "world_ok w \<longleftrightarrow>
     (m_processId (proc w) > 0 \<or> m_processId (proc w) = -1)
     \<and> (m_processId (proc w) > 0 \<and> \<not> m_reaped (proc w) \<longrightarrow> child w \<noteq> Reaped)
     \<and> (\<forall>s \<in> set (signals w). snd s \<noteq> Reaped)"

text \<open>The same for a child that is never stopped: it is then gone as soon as the object says so.\<close>

definition never_stopped :: "world \<Rightarrow> bool" where
  "never_stopped w \<longleftrightarrow> (\<forall>sig r. child w \<noteq> Stopped sig r)
     \<and> (m_reaped (proc w) \<or> m_processId (proc w) = -1 \<longrightarrow> child w = Reaped)"

lemma waitpidCached_ok:
  assumes "world_ok w" "m_processId (proc w) > 0" "waitpidCached u w = (r, w')"
  shows "world_ok w' \<and> m_processId (proc w') = m_processId (proc w) \<and> m_options (proc w') = m_options (proc w)
    \<and> signals w' = signals w \<and> (r = 0 \<longrightarrow> child w' \<noteq> Reaped) \<and> (never_stopped w \<longrightarrow> never_stopped w')"
  using assms
  by (cases "child w"; cases "m_reaped (proc w)")
    (auto simp: waitpidCached_def note_wait_def world_ok_def never_stopped_def split: if_splits)

lemma isAlive_ok:
  assumes "world_ok w" "isAlive w = (a, w')"
  shows "world_ok w' \<and> m_options (proc w') = m_options (proc w) \<and> signals w' = signals w
    \<and> (a \<longrightarrow> child w' \<noteq> Reaped) \<and> (never_stopped w \<longrightarrow> never_stopped w')"
proof (cases "m_processId (proc w) > 0")
  case True
  obtain r w1 where cached: "waitpidCached False w = (r, w1)" by fastforce
  then have "a = (r = 0)" "w' = w1" using True assms(2) by (simp_all add: isAlive_def)
  then show ?thesis using waitpidCached_ok [OF assms(1) True cached] by simp
qed (use assms in \<open>auto simp: isAlive_def\<close>)

lemma interrupt_ok:
  assumes "world_ok w"
  shows "world_ok (snd (interrupt w)) \<and> (never_stopped w \<longrightarrow> never_stopped (snd (interrupt w)))"
proof -
  obtain a w' where alive: "isAlive w = (a, w')" by fastforce
  note ok = isAlive_ok [OF assms alive]
  then have "a \<Longrightarrow> world_ok (send_signal SIGINT w')"
    "a \<Longrightarrow> never_stopped w' \<Longrightarrow> never_stopped (send_signal SIGINT w')"
    by (auto simp: world_ok_def send_signal_def SIGINT_def SIGKILL_def never_stopped_def)
  then show ?thesis using alive ok assms by (auto simp: interrupt_def)
qed

lemma describeStatus_ok:
  assumes "world_ok w"
  shows "world_ok (snd (describeStatus w)) \<and> (never_stopped w \<longrightarrow> never_stopped (snd (describeStatus w)))"
proof (cases "m_processId (proc w) > 0")
  case True
  obtain r w' where "waitpidCached True w = (r, w')" by fastforce
  then show ?thesis using waitpidCached_ok [OF assms True, of True r w'] True by (simp add: describeStatus_def)
qed (use assms in \<open>simp add: describeStatus_def\<close>)

lemma endOutputPump_simps [simp]:
  "m_processId (endOutputPump p) = m_processId p" "m_reaped (endOutputPump p) = m_reaped p"
  "m_options (endOutputPump p) = m_options p"
  by (simp_all add: endOutputPump_def)

lemma kill_total:
  assumes "world_ok w"
  shows "\<exists>w'. kill w = Some w' \<and> world_ok w' \<and> m_processId (proc w') = -1
     \<and> (never_stopped w \<longrightarrow> never_stopped w' \<and> child w' = Reaped)"
proof (cases "m_processId (proc w) > 0 \<and> \<not> m_reaped (proc w)")
  case True
  then have "child w \<noteq> Reaped" using assms by (simp add: world_ok_def)
  then have "\<exists>st. sigkill (child w) = Zombie st" by (cases "child w") auto
  then obtain st where "sigkill (child w) = Zombie st" by blast
  then show ?thesis
    using assms True \<open>child w \<noteq> Reaped\<close>
    by (auto simp: kill_def send_signal_def waitpidCached_blocking_def note_wait_def SIGKILL_def world_ok_def
        never_stopped_def)
next
  case False
  then show ?thesis using assms by (auto simp: kill_def world_ok_def never_stopped_def)
qed

lemma child_move_reaped [simp]: "child_move e Reaped = Reaped"
  by (cases e) auto

lemma child_move_not_reaped [simp]: "child_move e c = Reaped \<longleftrightarrow> c = Reaped"
  by (cases "(e, c)" rule: child_move.cases) auto

lemma child_move_not_stopped:
  "\<forall>sig. e \<noteq> ChildStops sig \<Longrightarrow> \<forall>sig r. c \<noteq> Stopped sig r \<Longrightarrow> child_move e c \<noteq> Stopped sig r"
  by (cases "(e, c)" rule: child_move.cases) auto

definition stops :: "proc_event \<Rightarrow> bool" where
  "stops e \<longleftrightarrow> (\<exists>sig. e = ChildStops sig)"

lemma child_step_ok:
  "world_ok w \<Longrightarrow> world_ok (w\<lparr>child := child_move e (child w)\<rparr>)"
  "never_stopped w \<Longrightarrow> \<not> stops e \<Longrightarrow> never_stopped (w\<lparr>child := child_move e (child w)\<rparr>)"
  by (auto simp: world_ok_def never_stopped_def stops_def child_move_not_stopped)

lemma proc_step_total:
  assumes "world_ok w"
  shows "\<exists>w'. proc_step e w = Some w' \<and> world_ok w'
     \<and> (never_stopped w \<longrightarrow> \<not> stops e \<longrightarrow> never_stopped w' \<and> (e = DoKill \<longrightarrow> child w' = Reaped))"
proof (cases e)
  case AskAlive
  then show ?thesis using isAlive_ok [OF assms, of "fst (isAlive w)" "snd (isAlive w)"] by auto
next
  case AskInterrupt
  then show ?thesis using interrupt_ok [OF assms] by auto
next
  case AskStatus
  then show ?thesis using describeStatus_ok [OF assms] by auto
next
  case DoKill
  then show ?thesis using kill_total [OF assms] by auto
qed (use assms child_step_ok [of w e] in auto)

lemma note_wait_reaped: "child w = Reaped \<Longrightarrow> child (snd (note_wait (waitpid_now p u (child w)) w)) = Reaped"
  by (simp add: note_wait_def)

lemma waitpidCached_reaped: "child w = Reaped \<Longrightarrow> child (snd (waitpidCached u w)) = Reaped"
  by (simp add: waitpidCached_def note_wait_def)

lemma isAlive_reaped: "child w = Reaped \<Longrightarrow> child (snd (isAlive w)) = Reaped"
  using waitpidCached_reaped [of w False] by (simp add: isAlive_def case_prod_unfold Let_def)

lemma interrupt_reaped: "child w = Reaped \<Longrightarrow> child (snd (interrupt w)) = Reaped"
  using isAlive_reaped [of w]
  by (simp add: interrupt_def send_signal_def SIGINT_def SIGKILL_def case_prod_unfold Let_def)

lemma describeStatus_reaped: "child w = Reaped \<Longrightarrow> child (snd (describeStatus w)) = Reaped"
  using waitpidCached_reaped [of w True] by (simp add: describeStatus_def case_prod_unfold Let_def)

lemma kill_reaped: "kill w = Some w' \<Longrightarrow> child w = Reaped \<Longrightarrow> child w' = Reaped"
  by (auto simp: kill_def send_signal_def waitpidCached_blocking_def note_wait_def split: if_splits option.splits)

lemma proc_step_reaped: "proc_step e w = Some w' \<Longrightarrow> child w = Reaped \<Longrightarrow> child w' = Reaped"
  by (cases e) (auto simp: isAlive_reaped interrupt_reaped describeStatus_reaped dest: kill_reaped)

lemma proc_run_reaped: "proc_run es w = Some w' \<Longrightarrow> child w = Reaped \<Longrightarrow> child w' = Reaped"
  by (induction es arbitrary: w) (auto dest: proc_step_reaped split: option.splits)

lemma proc_run_total:
  "world_ok w \<Longrightarrow> \<exists>w'. proc_run es w = Some w' \<and> world_ok w'
     \<and> (never_stopped w \<longrightarrow> \<not> list_ex stops es \<longrightarrow> never_stopped w' \<and> (DoKill \<in> set es \<longrightarrow> child w' = Reaped))"
proof (induction es arbitrary: w)
  case (Cons e es)
  obtain w1 where w1: "proc_step e w = Some w1" "world_ok w1"
    "never_stopped w \<longrightarrow> \<not> stops e \<longrightarrow> never_stopped w1 \<and> (e = DoKill \<longrightarrow> child w1 = Reaped)"
    using proc_step_total [OF Cons.prems] by blast
  obtain w2 where w2: "proc_run es w1 = Some w2" "world_ok w2"
    "never_stopped w1 \<longrightarrow> \<not> list_ex stops es \<longrightarrow> never_stopped w2 \<and> (DoKill \<in> set es \<longrightarrow> child w2 = Reaped)"
    using Cons.IH [OF w1(2)] by blast
  show ?case
    using w1 w2 proc_run_reaped [OF w2(1)] by auto
qed auto

lemma started_ok: "m_processId p > 0 \<Longrightarrow> \<not> m_reaped p \<Longrightarrow> world_ok (started p) \<and> never_stopped (started p)"
  by (simp add: started_def world_ok_def never_stopped_def)

text \<open>C18. From a started kernel, no operation of the process object ever blocks, in any order and
  with any behaviour of the child in between, and no signal is ever sent to a process id whose child
  has been reaped (and which may be another process's by then); and a kernel that was never stopped
  is reaped, not left as a zombie, once it has been killed.\<close>

theorem signals_only_reach_the_child:
  assumes "m_processId p > 0" "\<not> m_reaped p"
  shows "\<exists>w. proc_run es (started p) = Some w \<and> (\<forall>s \<in> set (signals w). snd s \<noteq> Reaped)
     \<and> (\<not> list_ex stops es \<longrightarrow> DoKill \<in> set es \<longrightarrow> child w = Reaped)"
  using proc_run_total [of "started p" es] started_ok [OF assms] by (auto simp: world_ok_def)

definition plain_process :: KernelProcess where
  "plain_process = (new_KernelProcess Some plain_options)\<lparr>m_processId := 42, m_running := True, m_pumping := True\<rparr>"

theorem signals_only_reach_the_child_witness:
  "\<exists>w. proc_run [AskInterrupt, ChildExits 3, AskAlive, AskInterrupt, DoKill] (started plain_process) = Some w
     \<and> (\<forall>s \<in> set (signals w). snd s \<noteq> Reaped) \<and> child w = Reaped"
  using signals_only_reach_the_child
    [of plain_process "[AskInterrupt, ChildExits 3, AskAlive, AskInterrupt, DoKill]"]
  by (simp add: plain_process_def new_KernelProcess_def stops_def)

text \<open>Asking for the diagnosis of a kernel that is stopped (SIGSTOP, say) makes the process object
  take it for reaped: it is reported dead, and a kill then sends no signal, forgets its id and leaves
  it stopped for good.\<close>

lemma diagnosis_loses_a_stopped_kernel:
  assumes "m_processId (proc w) > 0" "\<not> m_reaped (proc w)" "child w = Stopped sig False"
  shows "\<exists>w2. isAlive (snd (describeStatus w)) = (False, snd (describeStatus w)) \<and> kill (snd (describeStatus w)) = Some w2
     \<and> child w2 = Stopped sig True \<and> signals w2 = signals w \<and> m_processId (proc w2) = -1"
  using assms by (simp add: describeStatus_def isAlive_def kill_def waitpidCached_def note_wait_def)

lemma diagnosis_loses_a_stopped_kernel_witness:
  "let w1 = snd (describeStatus ((started plain_process)\<lparr>child := Stopped 19 False\<rparr>))
   in \<exists>w2. isAlive w1 = (False, w1) \<and> kill w1 = Some w2
     \<and> child w2 = Stopped 19 True \<and> signals w2 = [] \<and> m_processId (proc w2) = -1"
  using diagnosis_loses_a_stopped_kernel [of "(started plain_process)\<lparr>child := Stopped 19 False\<rparr>" 19]
  by (simp add: started_def plain_process_def new_KernelProcess_def)

section \<open>Reading a kernel's memory\<close>

lemma takeWhile_digits: "takeWhile isdigit (show_nat n @ CHR '' '' # s) = show_nat n"
proof -
  have "\<forall>c \<in> set (show_nat n). isdigit c" using show_nat_digits by blast
  moreover have "\<not> isdigit (CHR '' '')" by (simp add: isdigit_def)
  ultimately show ?thesis by (simp add: takeWhile_append2)
qed

lemma show_nat_first: "\<exists>c cs. show_nat n = c # cs \<and> \<not> isspace c"
proof -
  obtain c cs where s: "show_nat n = c # cs" by (cases "show_nat n") auto
  then have "isdigit c" using show_nat_digits [of c n] by simp
  then show ?thesis using s by (auto simp: isdigit_def isspace_def Let_def)
qed

lemma read_show_nat: "read_lsb (rev (show_nat n)) = n"
  by (simp add: show_nat_def read_digits_lsb)

lemma rss_line_read:
  assumes "\<forall>c \<in> set blanks. isspace c" "n < 2 ^ 64"
  shows "rss_of_line (''VmRSS:'' @ blanks @ show_nat n @ '' kB'') = Inr (Some (n * 1024 mod 2 ^ 64))"
proof -
  obtain c cs where first: "show_nat n = c # cs" "\<not> isspace c" using show_nat_first by blast
  have "dropWhile isspace (blanks @ show_nat n @ '' kB'') = show_nat n @ '' kB''"
    using assms(1) first by (simp add: dropWhile_append2)
  then show ?thesis
    using assms(2) by (simp add: rss_of_line_def takeWhile_digits read_show_nat)
qed

text \<open>The memory of a running kernel is read off the first \<^verbatim>\<open>VmRSS\<close> line of its status
  file, in bytes.\<close>

lemma memory_is_read:
  assumes "m_processId p > 0" "\<forall>l \<in> set before. take 6 l \<noteq> ''VmRSS:''" "\<forall>c \<in> set blanks. isspace c" "n < 2 ^ 54"
  shows "memoryUsageBytes p (Some (before @ (''VmRSS:'' @ blanks @ show_nat n @ '' kB'') # behind))
    = Inr (Some (n * 1024))"
proof -
  have "n * 1024 < 2 ^ 64" "n < 2 ^ 64" using assms(4) by simp_all
  then have "rss_of_line (''VmRSS:'' @ blanks @ show_nat n @ '' kB'') = Inr (Some (n * 1024))"
    using rss_line_read [OF assms(3), of n] by simp
  moreover have "memory_lines (before @ l # behind) = rss_of_line l" if "take 6 l = ''VmRSS:''" for l
    using assms(2) that by (induction before) auto
  ultimately show ?thesis using assms(1) by (simp add: memoryUsageBytes_def)
qed

end
