(* ===== verification/Session.thy ===== *)
theory Session
  imports Message Process
begin

text \<open>One session of the supervisor (\<^verbatim>\<open>Session\<close> and \<^verbatim>\<open>pollLoop\<close> of
  \<^verbatim>\<open>src/native/src/themisto/session_registry.cpp\<close>): the kernel process, the client
  connected to it, the callbacks of the attached WebSocket connection, and the poll thread that
  relays the kernel's messages and notices its end. The client's sockets are queues: what arrived
  and was not read, and what was sent.

  The lemmas show what the frames of the relay are, that a turn of the poll thread relays all that
  had arrived in order, and that the end of the process is reported as a crash exactly when no stop
  was under way.\<close>

section \<open>State\<close>

record SessionOptions =
  o_kernelType :: string
  o_rHome :: string
  o_rPath :: string
  o_rLibs :: string
  o_pandocPath :: string
  o_pythonHome :: string
  o_pythonPath :: string
  o_venvPath :: string
  o_stataHome :: string
  o_stataEdition :: string
  o_arkPath :: string
  o_kernelArgv :: "string list"
  o_kernelEnv :: "(string \<times> string) list"
  o_kernelInterruptMode :: string
  o_workingDirectory :: string

definition default_options :: SessionOptions where
  "default_options = \<lparr>o_kernelType = ''r'', o_rHome = [], o_rPath = [], o_rLibs = [], o_pandocPath = [],
     o_pythonHome = [], o_pythonPath = [], o_venvPath = [], o_stataHome = [], o_stataEdition = [], o_arkPath = [],
     o_kernelArgv = [], o_kernelEnv = [], o_kernelInterruptMode = [], o_workingDirectory = []\<rparr>"

datatype SessionStatus = Starting | Ready | Stopped | Crashed

fun toString :: "SessionStatus \<Rightarrow> string" where
  "toString Starting = ''starting''"
| "toString Ready = ''ready''"
| "toString Stopped = ''stopped''"
| "toString Crashed = ''crashed''"

text \<open>The client of one kernel: messages sent on each channel, messages that arrived on each, and how
  often its channels were stopped.\<close>

record client =
  shell_out :: "message list"
  control_out :: "message list"
  stdin_out :: "message list"
  iopub_in :: "pub_message list"
  shell_in :: "message list"
  control_in :: "message list"
  stdin_in :: "message list"
  stops_sent :: nat

definition new_client :: client where
  "new_client = \<lparr>shell_out = [], control_out = [], stdin_out = [], iopub_in = [], shell_in = [], control_in = [],
     stdin_in = [], stops_sent = 0\<rparr>"

text \<open>The session. The callbacks are the connection that owns them (\<open>None\<close>: none is attached); what
  they were called with is kept with the owner. \<open>s_fatal\<close> is an exception that left the poll thread
  (which ends the program).\<close>

record session =
  s_id :: string
  s_options :: SessionOptions
  s_process :: "world option"
  s_client :: "client option"
  s_status :: SessionStatus
  s_owner :: "nat option"
  s_frames :: "(nat \<times> string) list"
  s_exits :: "(nat \<times> string) list"
  s_polling :: bool
  s_expectingExit :: bool
  s_answeredShutdown :: bool
  s_connectionFile :: string
  s_fatal :: "exn option"

definition new_Session :: "string \<Rightarrow> SessionOptions \<Rightarrow> session" where
  "new_Session ident opts =
     \<lparr>s_id = ident, s_options = opts, s_process = None, s_client = None, s_status = Starting, s_owner = None,
      s_frames = [], s_exits = [], s_polling = False, s_expectingExit = False, s_answeredShutdown = False,
      s_connectionFile = [], s_fatal = None\<rparr>"

section \<open>Callbacks\<close>

definition emitMessage :: "string \<Rightarrow> session \<Rightarrow> session" where
  "emitMessage jsonText s =
     (case s_owner s of Some c \<Rightarrow> s\<lparr>s_frames := s_frames s @ [(c, jsonText)]\<rparr> | None \<Rightarrow> s)"

definition emitKernelExit :: "string \<Rightarrow> session \<Rightarrow> session" where
  "emitKernelExit reason s =
     (case s_owner s of Some c \<Rightarrow> s\<lparr>s_exits := s_exits s @ [(c, reason)]\<rparr> | None \<Rightarrow> s)"

text \<open>Calls on the process of a session; a session without one has none alive.\<close>

definition process_alive :: "session \<Rightarrow> bool \<times> session" where
  "process_alive s =
     (case s_process s of
        None \<Rightarrow> (False, s)
      | Some w \<Rightarrow> (let (a, w') = isAlive w in (a, s\<lparr>s_process := Some w'\<rparr>)))"

definition process_status :: "session \<Rightarrow> string \<times> session" where
  "process_status s =
     (case s_process s of
        None \<Rightarrow> ([], s)
      | Some w \<Rightarrow> (let (t, w') = describeStatus w in (t, s\<lparr>s_process := Some w'\<rparr>)))"

text \<open>The listener of the kernel's heartbeat.\<close>

definition kernel_status_listener :: "bool \<Rightarrow> session \<Rightarrow> session" where
  "kernel_status_listener dead s =
     (if \<not> dead then s
      else if s_status s = Crashed \<or> s_status s = Stopped then s
      else
        let s = s\<lparr>s_status := Crashed\<rparr>;
            reason = ''heartbeat gave up waiting for a response''
        in if s_process s \<noteq> None then
             (let (t, s) = process_status s in emitKernelExit (reason @ '' ('' @ t @ '')'') s)
           else emitKernelExit reason s)"

section \<open>The poll thread\<close>

definition frameFor :: "parser \<Rightarrow> printer \<Rightarrow> string \<Rightarrow> string \<Rightarrow> 'm message_base_scheme \<Rightarrow> string result" where
  "frameFor parse dump channel topic msg =
     rbind (value_string (m_header msg) ''msg_type'' []) (\<lambda>msg_type.
     rbind (value_string (m_parentHeader msg) ''msg_id'' []) (\<lambda>parent_msg_id.
       let envelope = jobj [(''type'', JString ''message''), (''channel'', JString channel), (''topic'', JString topic),
             (''msg_type'', JString msg_type), (''parent_msg_id'', JString parent_msg_id)]
       in case contentText msg of
            None \<Rightarrow> rbind (json_put envelope ''content'' (fst (content parse msg))) dump
          | Some txt \<Rightarrow>
              rbind (dump envelope) (\<lambda>head.
                Inr (butlast head @ '',\"content\":'' @ txt @ ''}''))))"

definition relay_message :: "parser \<Rightarrow> printer \<Rightarrow> string \<Rightarrow> message \<Rightarrow> session \<Rightarrow> session result" where
  "relay_message parse dump channel msg s =
     rbind (value_string (m_header msg) ''msg_type'' []) (\<lambda>msgType.
       let s = (if msgType = ''shutdown_reply'' then s\<lparr>s_answeredShutdown := True\<rparr> else s)
       in rbind (frameFor parse dump channel msgType msg) (\<lambda>frame. Inr (emitMessage frame s)))"

definition relay_pub :: "parser \<Rightarrow> printer \<Rightarrow> pub_message \<Rightarrow> session \<Rightarrow> session result" where
  "relay_pub parse dump msg s =
     rbind (frameFor parse dump ''iopub'' (m_topic msg) msg) (\<lambda>frame. Inr (emitMessage frame s))"

fun drain :: "('m \<Rightarrow> session \<Rightarrow> session result) \<Rightarrow> 'm list \<Rightarrow> session \<Rightarrow> session result" where
  "drain rel [] s = Inr s"
| "drain rel (m # ms) s = rbind (rel m s) (drain rel ms)"

text \<open>One turn of the loop: the liveness sample, the drains, and the end when the process is gone.
  The messages are taken off the queues; an exception of a relay leaves the thread.\<close>

definition drained :: "client \<Rightarrow> client" where
  "drained c = c\<lparr>iopub_in := [], shell_in := [], control_in := [], stdin_in := []\<rparr>"

definition poll_turn :: "parser \<Rightarrow> printer \<Rightarrow> session \<Rightarrow> session" where
  "poll_turn parse dump s =
     (case s_client s of
        None \<Rightarrow> s
      | Some c \<Rightarrow>
          if \<not> s_polling s then s
          else
            let (alive, s) = process_alive s;
                exited = (s_process s \<noteq> None \<and> \<not> alive);
                s = s\<lparr>s_client := Some (drained c)\<rparr>
            in case rbind (drain (relay_pub parse dump) (iopub_in c) s) (\<lambda>s.
                    rbind (drain (relay_message parse dump ''shell'') (shell_in c) s) (\<lambda>s.
                    rbind (drain (relay_message parse dump ''control'') (control_in c) s) (\<lambda>s.
                      drain (relay_message parse dump ''stdin'') (stdin_in c) s))) of
                 Inl e \<Rightarrow> s\<lparr>s_fatal := Some e, s_polling := False\<rparr>
               | Inr s \<Rightarrow>
                   if exited then
                     (let s = (if \<not> s_expectingExit s then
                                 (let (t, s) = process_status (s\<lparr>s_status := Crashed\<rparr>)
                                  in emitKernelExit (''kernel process exited unexpectedly ('' @ t @ '')'') s)
                               else s)
                      in s\<lparr>s_polling := False\<rparr>)
                   else s)"

section \<open>What a turn relays\<close>

fun frames_map :: "('m \<Rightarrow> string result) \<Rightarrow> 'm list \<Rightarrow> string list result" where
  "frames_map fr [] = Inr []"
| "frames_map fr (m # ms) = rbind (fr m) (\<lambda>f. rbind (frames_map fr ms) (\<lambda>fs. Inr (f # fs)))"

definition reply_frame :: "parser \<Rightarrow> printer \<Rightarrow> string \<Rightarrow> message \<Rightarrow> string result" where
  "reply_frame parse dump channel msg =
     rbind (value_string (m_header msg) ''msg_type'' []) (\<lambda>msgType. frameFor parse dump channel msgType msg)"

definition pub_frame :: "parser \<Rightarrow> printer \<Rightarrow> pub_message \<Rightarrow> string result" where
  "pub_frame parse dump msg = frameFor parse dump ''iopub'' (m_topic msg) msg"

text \<open>The frames of all that arrived, in the order the relay owes them.\<close>

definition waiting_frames :: "parser \<Rightarrow> printer \<Rightarrow> client \<Rightarrow> string list result" where
  "waiting_frames parse dump c =
     rbind (frames_map (pub_frame parse dump) (iopub_in c)) (\<lambda>a.
     rbind (frames_map (reply_frame parse dump ''shell'') (shell_in c)) (\<lambda>b.
     rbind (frames_map (reply_frame parse dump ''control'') (control_in c)) (\<lambda>d.
     rbind (frames_map (reply_frame parse dump ''stdin'') (stdin_in c)) (\<lambda>e. Inr (a @ b @ d @ e)))))"

definition answers_shutdown :: "message \<Rightarrow> bool" where
  "answers_shutdown msg \<longleftrightarrow> value_string (m_header msg) ''msg_type'' [] = Inr ''shutdown_reply''"

definition relayed :: "string list \<Rightarrow> bool \<Rightarrow> session \<Rightarrow> session" where
  "relayed fs answered s =
     s\<lparr>s_frames := s_frames s @ (case s_owner s of Some c \<Rightarrow> map (Pair c) fs | None \<Rightarrow> []),
       s_answeredShutdown := s_answeredShutdown s \<or> answered\<rparr>"

lemma relayed_nothing [simp]: "relayed [] False s = s"
  by (simp add: relayed_def split: option.split)

lemma relayed_twice [simp]: "relayed gs b (relayed fs a s) = relayed (fs @ gs) (a \<or> b) s"
  by (auto simp: relayed_def split: option.split)

lemma relay_pub_relayed:
  "pub_frame parse dump m = Inr f \<Longrightarrow> relay_pub parse dump m s = Inr (relayed [f] False s)"
  by (auto simp: pub_frame_def relay_pub_def relayed_def emitMessage_def split: option.split)

lemma relay_message_relayed:
  "reply_frame parse dump ch m = Inr f \<Longrightarrow> relay_message parse dump ch m s = Inr (relayed [f] (answers_shutdown m) s)"
proof -
  assume "reply_frame parse dump ch m = Inr f"
  then obtain ty where ty: "value_string (m_header m) ''msg_type'' [] = Inr ty" "frameFor parse dump ch ty m = Inr f"
    unfolding reply_frame_def rbind_eq_Inr_iff by blast
  then show ?thesis
    by (simp add: relay_message_def answers_shutdown_def relayed_def emitMessage_def split: option.split)
qed

lemma drain_pubs:
  "frames_map (pub_frame parse dump) ms = Inr fs \<Longrightarrow> drain (relay_pub parse dump) ms s = Inr (relayed fs False s)"
  by (induction ms arbitrary: fs s) (auto simp: result_simps relay_pub_relayed)

lemma drain_replies:
  "frames_map (reply_frame parse dump ch) ms = Inr fs \<Longrightarrow>
     drain (relay_message parse dump ch) ms s = Inr (relayed fs (list_ex answers_shutdown ms) s)"
  by (induction ms arbitrary: fs s) (auto simp: result_simps relay_message_relayed)

definition any_answer :: "client \<Rightarrow> bool" where
  "any_answer c \<longleftrightarrow> list_ex answers_shutdown (shell_in c @ control_in c @ stdin_in c)"

lemma drain_all:
  assumes "waiting_frames parse dump c = Inr fs"
  shows "rbind (drain (relay_pub parse dump) (iopub_in c) s) (\<lambda>s.
       rbind (drain (relay_message parse dump ''shell'') (shell_in c) s) (\<lambda>s.
       rbind (drain (relay_message parse dump ''control'') (control_in c) s) (\<lambda>s.
         drain (relay_message parse dump ''stdin'') (stdin_in c) s)))
     = Inr (relayed fs (any_answer c) s)"
  using assms by (auto simp: waiting_frames_def result_simps drain_pubs drain_replies any_answer_def)

lemma relayed_fields [simp]:
  "s_process (relayed fs a s) = s_process s" "s_status (relayed fs a s) = s_status s"
  "s_expectingExit (relayed fs a s) = s_expectingExit s" "s_exits (relayed fs a s) = s_exits s"
  "s_owner (relayed fs a s) = s_owner s" "s_client (relayed fs a s) = s_client s"
  "s_fatal (relayed fs a s) = s_fatal s" "s_polling (relayed fs a s) = s_polling s"
  by (simp_all add: relayed_def)

text \<open>A turn of the poll thread relays, to the connection that is attached, the frames of all
  messages that had arrived: published ones first, then those of the shell, control and stdin
  channels, each in order, also when the process has ended. The end of the process stops the
  polling; it makes the session crashed and is reported to the connection, once, exactly when
  no stop is under way.\<close>

lemma poll_turn_relays_and_reports:
  assumes "s_client s = Some c" "s_polling s" "s_process s = Some w" "s_owner s = Some o'"
    and "waiting_frames parse dump c = Inr fs"
  shows "s_frames (poll_turn parse dump s) = s_frames s @ map (Pair o') fs
    \<and> s_client (poll_turn parse dump s) = Some (drained c)
    \<and> s_fatal (poll_turn parse dump s) = s_fatal s
    \<and> s_polling (poll_turn parse dump s) = fst (isAlive w)
    \<and> (if fst (isAlive w) \<or> s_expectingExit s
       then s_status (poll_turn parse dump s) = s_status s \<and> s_exits (poll_turn parse dump s) = s_exits s
       else s_status (poll_turn parse dump s) = Crashed
         \<and> s_exits (poll_turn parse dump s)
             = s_exits s @ [(o', ''kernel process exited unexpectedly (''
                              @ fst (describeStatus (snd (isAlive w))) @ '')'')])"
  using assms
  by (simp add: poll_turn_def process_alive_def drain_all process_status_def emitKernelExit_def case_prod_unfold Let_def)
    (simp add: relayed_def)

definition plain_pub :: pub_message where
  "plain_pub = new_pub_message ''stream'' (jobj [(''msg_type'', JString ''stream'')]) (jobj []) (jobj []) (jobj []) []"

definition plain_client :: client where
  "plain_client = new_client\<lparr>iopub_in := [plain_pub]\<rparr>"

definition plain_session :: session where
  "plain_session = (new_Session ''s1'' default_options)\<lparr>s_process := Some (started plain_process),
     s_client := Some plain_client, s_status := Ready, s_owner := Some 7, s_polling := True\<rparr>"

lemma poll_turn_relays_and_reports_witness:
  "s_frames (poll_turn (\<lambda>_. JNull) (\<lambda>_. Inr ''{}'') plain_session) = [(7, ''{}'')]
   \<and> s_polling (poll_turn (\<lambda>_. JNull) (\<lambda>_. Inr ''{}'') plain_session)
   \<and> s_status (poll_turn (\<lambda>_. JNull) (\<lambda>_. Inr ''{}'') plain_session) = Ready"
proof -
  have frames: "waiting_frames (\<lambda>_. JNull) (\<lambda>_. Inr ''{}'') plain_client = Inr [''{}'']"
    by (simp add: waiting_frames_def plain_client_def new_client_def pub_frame_def frameFor_def plain_pub_def
        json_value_jobj jobj_def [of "[]"] jobj_def [of "[_, _, _, _, _]"])
  have alive: "fst (isAlive (started plain_process))"
    by (simp add: isAlive_def waitpidCached_def note_wait_def started_def plain_process_def new_KernelProcess_def)
  show ?thesis
    using poll_turn_relays_and_reports
      [of plain_session plain_client "started plain_process" 7 "\<lambda>_. JNull" "\<lambda>_. Inr ''{}''" "[''{}'']"]
      frames alive
    by (simp add: plain_session_def new_Session_def)
qed

text \<open>A kernel that hangs until its heartbeat gives up and then ends is reported twice to the
  attached connection: the heartbeat's listener looks at the status first, the poll thread does
  not.\<close>

lemma hung_then_dead_kernel_is_reported_twice:
  assumes "s_client s = Some c" "waiting_frames parse dump c = Inr fs" "s_polling s" "s_owner s = Some o'"
    and "s_status s = Ready" "\<not> s_expectingExit s" "s_process s = Some w"
    and "m_processId (proc w) > 0" "\<not> m_reaped (proc w)" "child w = Alive"
  shows "\<exists>r1 r2. s_exits (poll_turn parse dump ((kernel_status_listener True s)\<lparr>s_process :=
      Some (w\<lparr>child := Zombie st\<rparr>)\<rparr>)) = s_exits s @ [(o', r1), (o', r2)]"
  using assms
  by (simp add: kernel_status_listener_def process_status_def describeStatus_def waitpidCached_def note_wait_def
      emitKernelExit_def poll_turn_def process_alive_def isAlive_def drain_all)

lemma hung_then_dead_kernel_is_reported_twice_witness:
  "\<exists>r1 r2. s_exits (poll_turn (\<lambda>_. JNull) (\<lambda>_. Inr ''{}'')
      ((kernel_status_listener True (plain_session\<lparr>s_client := Some new_client\<rparr>))\<lparr>s_process :=
        Some ((started plain_process)\<lparr>child := Zombie 0\<rparr>)\<rparr>)) = [(7, r1), (7, r2)]"
  using hung_then_dead_kernel_is_reported_twice
    [of "plain_session\<lparr>s_client := Some new_client\<rparr>" new_client "\<lambda>_. JNull" "\<lambda>_. Inr ''{}''" "[]" 7
      "started plain_process" 0]
  by (simp add: plain_session_def new_Session_def new_client_def waiting_frames_def started_def plain_process_def
      new_KernelProcess_def)

end
