(* ===== verification/Registry.thy ===== *)
theory Registry
  imports Session
begin

text \<open>The supervisor's sessions (\<^verbatim>\<open>SessionRegistry\<close> of
  \<^verbatim>\<open>src/native/src/themisto/session_registry.cpp\<close>): creating one for each way a kernel is
  launched, sending requests to its kernel, stopping and restarting it. An operation on a session
  holds that session's lock for its whole duration; what the kernel, the poll thread and the heartbeat
  do meanwhile (during the grace period of a stop, while a registration is awaited) is an argument.
  The files the supervisor writes are part of the state, since they hold keys.

  A result \<open>None\<close> is an operation that never returns (a wait for a child that does not end); the
  lemmas show that it does not happen.\<close>

section \<open>State\<close>

record registry =
  m_kernelExePaths :: "(string \<times> string) list"
  m_registrationIp :: string
  m_registrationPort :: string
  m_registrationKey :: string
  m_sessions :: "(string \<times> session) list"
  m_held :: "session list"
  m_dead :: "session list"
  m_path :: string
  m_files :: "(string \<times> json) list"

text \<open>\<open>m_held\<close>: sessions no longer registered that a connection still refers to; \<open>m_dead\<close>: sessions
  destroyed.\<close>

definition new_SessionRegistry :: "(string \<times> string) list \<Rightarrow> string \<Rightarrow> string \<Rightarrow> registry" where
  "new_SessionRegistry kernelExePaths ip path =
     \<lparr>m_kernelExePaths = kernelExePaths, m_registrationIp = ip, m_registrationPort = [], m_registrationKey = [],
      m_sessions = [], m_held = [], m_dead = [], m_path = path, m_files = []\<rparr>"

text \<open>The listener binds a free port itself and keeps one key for the life of the supervisor.\<close>

definition startRegistrationListener :: "string \<Rightarrow> string \<Rightarrow> registry \<Rightarrow> string \<times> registry" where
  "startRegistrationListener bound fresh_key r =
     (bound, r\<lparr>m_registrationKey := fresh_key, m_registrationPort := bound\<rparr>)"

definition remove_file :: "string \<Rightarrow> (string \<times> json) list \<Rightarrow> (string \<times> json) list" where
  "remove_file path fs = filter (\<lambda>f. fst f \<noteq> path) fs"

section \<open>Environment of R\<close>

fun is_infix :: "string \<Rightarrow> string \<Rightarrow> bool" where
  "is_infix p [] \<longleftrightarrow> p = []"
| "is_infix p (c # cs) \<longleftrightarrow> starts_with (c # cs) p \<or> is_infix p cs"

definition ensureRBinOnPath :: "string \<Rightarrow> string \<Rightarrow> string \<Rightarrow> string" where
  "ensureRBinOnPath r_home r_path path =
     (let rBinDir = (if r_path \<noteq> [] then r_path else if r_home \<noteq> [] then r_home @ ''/bin/x64'' else [])
      in if rBinDir = [] then path
         else let rBinDir = map (\<lambda>c. if c = CHR ''/'' then CHR 0x5C else c) rBinDir
              in if is_infix rBinDir path then path else rBinDir @ '':'' @ path)"

section \<open>Launching\<close>

text \<open>What a launch meets: the file system, the operating system's answers to the start, fresh
  identifiers and free ports, and, while the registration is awaited, what the child does and what
  the listener answers in the end.\<close>

record launch =
  l_is_regular_file :: "string \<Rightarrow> bool"
  l_absolute :: "string \<Rightarrow> string option"
  l_os :: os_answers
  l_guid :: string
  l_ports :: "string list"
  l_temp :: string
  l_meanwhile :: "proc_event list"
  l_answer :: "unit result"

definition proc_options :: "registry \<Rightarrow> SessionOptions \<Rightarrow> string \<Rightarrow> KernelProcessOptions" where
  "proc_options r opts exe =
     \<lparr>kernelExePath = exe, rHome = o_rHome opts, rPath = o_rPath opts, rLibs = o_rLibs opts,
      pandocPath = o_pandocPath opts, pythonHome = o_pythonHome opts, pythonPath = o_pythonPath opts,
      venvPath = o_venvPath opts, stataHome = o_stataHome opts, stataEdition = o_stataEdition opts,
      workingDirectory = o_workingDirectory opts, explicitArgs = [], extraEnv = [], interruptBySignal = False,
      registrationIp = m_registrationIp r, registrationPort = m_registrationPort r, registrationId = [],
      process_key = []\<rparr>"

definition kernel_exe :: "registry \<Rightarrow> SessionOptions \<Rightarrow> string" where
  "kernel_exe r opts =
     (if o_kernelType opts = ''jupyter'' then (case o_kernelArgv opts of [] \<Rightarrow> [] | exe # _ \<Rightarrow> exe)
      else if o_kernelType opts = ''ark'' \<and> o_arkPath opts \<noteq> [] then o_arkPath opts
      else case map_of (m_kernelExePaths r) (o_kernelType opts) of Some exe \<Rightarrow> exe | None \<Rightarrow> [])"

definition no_exe_error :: "SessionOptions \<Rightarrow> string" where
  "no_exe_error opts =
     (if o_kernelType opts = ''jupyter''
      then ''kernelType 'jupyter' needs kernelArgv: the kernel's command, from its kernel.json''
      else if o_kernelType opts = ''ark''
      then ''kernelType 'ark' needs arkPath: the ark executable (Positron ships one)''
      else ''no kernel executable is configured for kernelType '' @ [CHR 0x27] @ o_kernelType opts @ [CHR 0x27]
        @ '' (this supervisor was started without one -- see main.cpp's kernel discovery)'')"

text \<open>\<^verbatim>\<open>std::stoi\<close> of a port.\<close>

definition stoi :: "string \<Rightarrow> int result" where
  "stoi s =
     (let digits = takeWhile isdigit (dropWhile isspace s)
      in if digits = [] then Inl (InvalidArgument ''stoi'')
         else if read_lsb (rev digits) \<ge> 2 ^ 31 then Inl (StdOutOfRange ''stoi'')
         else Inr (int (read_lsb (rev digits))))"

text \<open>\<^verbatim>\<open>freePort\<close>, so many times: ports are drawn until one is new. \<open>None\<close>: the draws given do not
  suffice.\<close>

fun free_ports :: "nat \<Rightarrow> string list \<Rightarrow> string list \<Rightarrow> string list option" where
  "free_ports 0 taken draws = Some []"
| "free_ports (Suc n) taken [] = None"
| "free_ports (Suc n) taken (p # draws) =
     (if p \<in> set taken then free_ports (Suc n) taken draws
      else map_option (Cons p) (free_ports n (p # taken) draws))"

definition connection_json :: "string \<Rightarrow> string list \<Rightarrow> json result" where
  "connection_json k ports =
     (case ports of
        [shell, iopub, stdin, control, hb] \<Rightarrow>
          rbind (stoi shell) (\<lambda>shell. rbind (stoi iopub) (\<lambda>iopub. rbind (stoi stdin) (\<lambda>stdin.
          rbind (stoi control) (\<lambda>control. rbind (stoi hb) (\<lambda>hb.
            Inr (jobj [(''transport'', JString ''tcp''), (''ip'', JString ''127.0.0.1''), (''key'', JString k),
              (''signature_scheme'', JString ''hmac-sha256''), (''shell_port'', JInt shell), (''iopub_port'', JInt iopub),
              (''stdin_port'', JInt stdin), (''control_port'', JInt control), (''hb_port'', JInt hb)]))))))
      | _ \<Rightarrow> Inl (RuntimeError ''five ports''))"

definition placeholder :: string where
  "placeholder = ''{connection_file}''"

function replace_placeholder :: "string \<Rightarrow> string \<Rightarrow> string" where
  "replace_placeholder path arg =
     (case arg of
        [] \<Rightarrow> []
      | c # cs \<Rightarrow> if starts_with arg placeholder then path @ replace_placeholder path (drop (length placeholder) arg)
                  else c # replace_placeholder path cs)"
  by pat_completeness auto

termination
  by (relation "measure (\<lambda>(p, a). length a)") (auto simp: placeholder_def)

declare replace_placeholder.simps [simp del]

text \<open>\<^verbatim>\<open>session.process = make_unique<KernelProcess>(...); session.process->start()\<close>\<close>

definition start_process :: "launch \<Rightarrow> KernelProcessOptions \<Rightarrow> session \<Rightarrow> exn option \<times> session" where
  "start_process l popts s =
     (let p = new_KernelProcess (l_absolute l) popts
      in case outcome (Process.start (l_os l) p) of
           Inl e \<Rightarrow> (Some e, s\<lparr>s_process := Some \<lparr>proc = p, child = Reaped, signals = []\<rparr>\<rparr>)
         | Inr p' \<Rightarrow> (None, s\<lparr>s_process := Some (started p')\<rparr>))"

definition connection_path :: "launch \<Rightarrow> string \<Rightarrow> string" where
  "connection_path l ident = l_temp l @ ''/jovian-kernel-'' @ ident @ ''.json''"

definition startJupyterKernel ::
  "launch \<Rightarrow> SessionOptions \<Rightarrow> KernelProcessOptions \<Rightarrow> session \<Rightarrow> (string \<times> json) list
     \<Rightarrow> (exn option \<times> session \<times> (string \<times> json) list) option" where
  "startJupyterKernel l opts popts s fs =
     (case free_ports 5 [] (l_ports l) of
        None \<Rightarrow> None
      | Some ports \<Rightarrow>
          let path = connection_path l (s_id s);
              s = s\<lparr>s_connectionFile := path\<rparr>
          in case connection_json (l_guid l) ports of
               Inl e \<Rightarrow> Some (Some e, s, fs)
             | Inr connection \<Rightarrow>
                 let fs = obj_put path connection fs;
                     args = map (replace_placeholder path) (tl (o_kernelArgv opts))
                 in if args = [] then
                      Some (Some (RuntimeError ''the kernel's command has no arguments: it needs \"{connection_file}\" to know its ports''), s, fs)
                    else
                      let popts = popts\<lparr>explicitArgs := args, extraEnv := o_kernelEnv opts,
                                        interruptBySignal := (o_kernelInterruptMode opts \<noteq> ''message''),
                                        process_key := l_guid l\<rparr>;
                          (thrown, s) = start_process l popts s
                      in Some (thrown, s, fs))"

text \<open>The other kernels: Ark with its registration file, ours with their flags, then the wait for the
  registration.\<close>

definition registration_path :: "launch \<Rightarrow> string \<Rightarrow> string" where
  "registration_path l ident = l_temp l @ ''/jovian-ark-'' @ ident @ ''.json''"

definition ark_options ::
  "launch \<Rightarrow> registry \<Rightarrow> SessionOptions \<Rightarrow> string \<Rightarrow> KernelProcessOptions
     \<Rightarrow> (KernelProcessOptions \<times> (string \<times> json) list) result" where
  "ark_options l r opts ident popts =
     rbind (stoi (m_registrationPort r)) (\<lambda>port.
       let path = registration_path l ident;
           registration = jobj [(''transport'', JString ''tcp''), (''signature_scheme'', JString ''hmac-sha256''),
             (''ip'', JString (m_registrationIp r)), (''key'', JString (m_registrationKey r)),
             (''registration_port'', JInt port)]
       in Inr (popts\<lparr>explicitArgs := [''--connection_file'', path, ''--session-mode'', ''notebook''],
                 extraEnv := (if o_rHome opts \<noteq> [] then obj_put ''R_HOME'' (o_rHome opts) (extraEnv popts)
                              else extraEnv popts)\<rparr>,
               obj_put path registration (m_files r)))"

definition wait_registered :: "launch \<Rightarrow> session \<Rightarrow> (exn option \<times> session) option" where
  "wait_registered l s =
     (case s_process s of
        None \<Rightarrow> Some (None, s)
      | Some w \<Rightarrow> map_option (\<lambda>w'. (case l_answer l of Inl e \<Rightarrow> Some e | Inr _ \<Rightarrow> None, s\<lparr>s_process := Some w'\<rparr>))
                    (proc_run (l_meanwhile l) w))"

definition with_r_path :: "SessionOptions \<Rightarrow> registry \<Rightarrow> registry" where
  "with_r_path opts r =
     (if o_kernelType opts = ''r'' \<or> o_kernelType opts = ''ark''
      then r\<lparr>m_path := ensureRBinOnPath (o_rHome opts) (o_rPath opts) (m_path r)\<rparr> else r)"

definition registered_options ::
  "launch \<Rightarrow> registry \<Rightarrow> SessionOptions \<Rightarrow> string \<Rightarrow> KernelProcessOptions
     \<Rightarrow> (KernelProcessOptions \<times> (string \<times> json) list) result" where
  "registered_options l r opts ident popts =
     (let popts = popts\<lparr>process_key := m_registrationKey r, registrationId := l_guid l\<rparr>
      in if o_kernelType opts = ''ark'' then ark_options l r opts ident popts else Inr (popts, m_files r))"

text \<open>\<^verbatim>\<open>RemoveOnExit\<close>\<close>

definition remove_registration :: "launch \<Rightarrow> SessionOptions \<Rightarrow> string \<Rightarrow> (string \<times> json) list \<Rightarrow> (string \<times> json) list" where
  "remove_registration l opts ident fs =
     (if o_kernelType opts = ''ark'' then remove_file (registration_path l ident) fs else fs)"

definition startRegisteredKernel ::
  "launch \<Rightarrow> registry \<Rightarrow> SessionOptions \<Rightarrow> KernelProcessOptions \<Rightarrow> session
     \<Rightarrow> (exn option \<times> session \<times> registry) option" where
  "startRegisteredKernel l r opts popts s =
     (let r = with_r_path opts r
      in case registered_options l r opts (s_id s) popts of
           Inl e \<Rightarrow> Some (Some e, s, r)
         | Inr (popts, fs) \<Rightarrow>
             let (thrown, s) = start_process l popts s
             in case (case thrown of Some e \<Rightarrow> Some (Some e, s) | None \<Rightarrow> wait_registered l s) of
                  None \<Rightarrow> None
                | Some (thrown, s) \<Rightarrow> Some (thrown, s, r\<lparr>m_files := remove_registration l opts (s_id s) fs\<rparr>))"

section \<open>Destroying a session\<close>

text \<open>\<^verbatim>\<open>~Session\<close>, with the destructor of its process.\<close>

definition destroy_Session :: "session \<Rightarrow> registry \<Rightarrow> registry option" where
  "destroy_Session s r =
     (let s = s\<lparr>s_polling := False\<rparr>;
          r = (if s_connectionFile s \<noteq> [] then r\<lparr>m_files := remove_file (s_connectionFile s) (m_files r)\<rparr> else r)
      in case s_process s of
           None \<Rightarrow> Some (r\<lparr>m_dead := m_dead r @ [s]\<rparr>)
         | Some w \<Rightarrow> map_option (\<lambda>w'. r\<lparr>m_dead := m_dead r @ [s\<lparr>s_process := Some w'\<rparr>]\<rparr>) (Process.kill w))"

text \<open>A reference to a session that is no longer registered goes away: the session stays while a
  connection refers to it.\<close>

definition release_Session :: "session \<Rightarrow> registry \<Rightarrow> registry option" where
  "release_Session s r = (if s_owner s \<noteq> None then Some (r\<lparr>m_held := m_held r @ [s]\<rparr>) else destroy_Session s r)"

section \<open>Creating a session\<close>

definition start_kernel ::
  "launch \<Rightarrow> registry \<Rightarrow> SessionOptions \<Rightarrow> KernelProcessOptions \<Rightarrow> session
     \<Rightarrow> (exn option \<times> session \<times> registry) option" where
  "start_kernel l r opts popts s =
     (if o_kernelType opts = ''jupyter''
      then map_option (\<lambda>(thrown, s, fs). (thrown, s, r\<lparr>m_files := fs\<rparr>)) (startJupyterKernel l opts popts s (m_files r))
      else startRegisteredKernel l r opts popts s)"

definition kernel_ready :: "session \<Rightarrow> registry \<Rightarrow> registry" where
  "kernel_ready s r =
     (let s = s\<lparr>s_client := Some new_client, s_status := Ready, s_polling := True\<rparr>
      in r\<lparr>m_sessions := obj_put (s_id s) s (m_sessions r)\<rparr>)"

definition createSessionWithId ::
  "(exn \<Rightarrow> string) \<Rightarrow> launch \<Rightarrow> string \<Rightarrow> SessionOptions \<Rightarrow> registry \<Rightarrow> ((string \<times> string) \<times> registry) option" where
  "createSessionWithId what l ident opts r =
     (let exe = kernel_exe r opts
      in if exe = [] then Some (([], no_exe_error opts), r)
         else if \<not> l_is_regular_file l exe then Some (([], ''kernel executable not found: '' @ exe), r)
         else
           let s = new_Session ident opts; popts = proc_options r opts exe
           in case start_kernel l r opts popts s of
                None \<Rightarrow> None
              | Some (Some e, s, r) \<Rightarrow> map_option (\<lambda>r. (([], what e), r)) (destroy_Session s r)
              | Some (None, s, r) \<Rightarrow> Some ((ident, []), kernel_ready s r))"

definition createSession ::
  "(exn \<Rightarrow> string) \<Rightarrow> launch \<Rightarrow> string \<Rightarrow> SessionOptions \<Rightarrow> registry \<Rightarrow> ((string \<times> string) \<times> registry) option" where
  "createSession what l fresh opts r = createSessionWithId what l fresh opts r"

definition getSession :: "string \<Rightarrow> registry \<Rightarrow> session option" where
  "getSession ident r = map_of (m_sessions r) ident"

definition set_session :: "session \<Rightarrow> string \<Rightarrow> registry \<Rightarrow> registry" where
  "set_session s ident r = r\<lparr>m_sessions := obj_put ident s (m_sessions r)\<rparr>"

section \<open>Sending to the kernel\<close>

datatype request_channel = OnShell | OnControl | OnStdin

fun send_on :: "request_channel \<Rightarrow> message \<Rightarrow> client \<Rightarrow> client" where
  "send_on OnShell m c = c\<lparr>shell_out := shell_out c @ [m]\<rparr>"
| "send_on OnControl m c = c\<lparr>control_out := control_out c @ [m]\<rparr>"
| "send_on OnStdin m c = c\<lparr>stdin_out := stdin_out c @ [m]\<rparr>"

definition client_request :: "json \<Rightarrow> json \<Rightarrow> message" where
  "client_request header cont = new_message [''client_id''] header (JObject []) (JObject []) cont []"

text \<open>\<^verbatim>\<open>makeHeader(...)\<close>, then \<^verbatim>\<open>header["msg_id"] = msgId\<close>.\<close>

definition request_header :: "string \<times> string \<Rightarrow> string \<Rightarrow> string \<Rightarrow> string \<Rightarrow> json result" where
  "request_header fresh msgType sessionId msgId =
     json_put (makeHeader fresh msgType ''client_user'' sessionId) ''msg_id'' (JString msgId)"

definition execute_content :: "string \<Rightarrow> json \<Rightarrow> json result" where
  "execute_content code opts =
     rbind (value_bool opts ''silent'' False) (\<lambda>silent.
     rbind (value_bool opts ''storeHistory'' True) (\<lambda>store.
     rbind (if json_contains opts ''userExpressions'' then
              rbind (json_index_const opts ''userExpressions'') (\<lambda>ue. Inr (if is_object ue then ue else JObject []))
            else Inr (JObject [])) (\<lambda>ue.
     rbind (value_bool opts ''allowStdin'' False) (\<lambda>allow.
     rbind (value_bool opts ''stopOnError'' False) (\<lambda>stop.
       Inr (jobj [(''code'', JString code), (''silent'', JBool silent), (''store_history'', JBool store),
                  (''user_expressions'', ue), (''allow_stdin'', JBool allow), (''stop_on_error'', JBool stop)]))))))"

definition sendExecute ::
  "string \<times> string \<Rightarrow> string \<Rightarrow> string \<Rightarrow> string \<Rightarrow> json \<Rightarrow> registry \<Rightarrow> bool result \<times> registry" where
  "sendExecute fresh sessionId msgId code opts r =
     (case getSession sessionId r of
        None \<Rightarrow> (Inr False, r)
      | Some s \<Rightarrow>
          (case s_client s of
             None \<Rightarrow> (Inr False, r)
           | Some c \<Rightarrow>
               (case rbind (request_header fresh ''execute_request'' sessionId msgId) (\<lambda>header.
                     rbind (execute_content code opts) (\<lambda>cont. Inr (client_request header cont))) of
                  Inl e \<Rightarrow> (Inl e, r)
                | Inr req \<Rightarrow> (Inr True, set_session (s\<lparr>s_client := Some (send_on OnShell req c)\<rparr>) sessionId r))))"

definition kShellRequests :: "string list" where
  "kShellRequests = [''complete_request'', ''inspect_request'', ''is_complete_request'', ''kernel_info_request'',
     ''history_request'', ''comm_info_request'', ''comm_open'', ''comm_msg'', ''comm_close'']"

definition kControlRequests :: "string list" where
  "kControlRequests = [''interrupt_request'', ''debug_request'']"

definition request_allowed :: "string \<Rightarrow> string \<Rightarrow> bool" where
  "request_allowed ch msgType \<longleftrightarrow>
     (let onShell = (ch = ''shell''); onControl = (ch = ''control'')
      in \<not> ((\<not> onShell \<and> \<not> onControl) \<or> (onShell \<and> msgType \<notin> set kShellRequests)
            \<or> (onControl \<and> msgType \<notin> set kControlRequests)))"

definition interrupt_envelope :: "bool \<Rightarrow> string \<Rightarrow> json" where
  "interrupt_envelope interrupted msgId =
     jobj [(''type'', JString ''message''), (''channel'', JString ''control''), (''topic'', JString ''interrupt_reply''),
       (''msg_type'', JString ''interrupt_reply''), (''parent_msg_id'', JString msgId),
       (''content'', if interrupted then jobj [(''status'', JString ''ok'')]
         else jobj [(''status'', JString ''error''), (''ename'', JString ''InterruptFailed''),
                    (''evalue'', JString ''the kernel process could not be interrupted'')])]"

definition interrupt_by_signal ::
  "printer \<Rightarrow> string \<Rightarrow> string \<Rightarrow> session \<Rightarrow> registry \<Rightarrow> bool result \<times> registry" where
  "interrupt_by_signal dump sessionId msgId s r =
     (let (interrupted, s) = (case s_process s of
            None \<Rightarrow> (False, s)
          | Some w \<Rightarrow> (let (i, w') = interrupt w in (i, s\<lparr>s_process := Some w'\<rparr>)))
      in case dump (interrupt_envelope interrupted msgId) of
           Inl e \<Rightarrow> (Inl e, set_session s sessionId r)
         | Inr frame \<Rightarrow> (Inr True, set_session (emitMessage frame s) sessionId r))"

text \<open>The value returned, the error text, and the registry.\<close>

definition sendRequest ::
  "printer \<Rightarrow> string \<times> string \<Rightarrow> string \<Rightarrow> string \<Rightarrow> string \<Rightarrow> string \<Rightarrow> json \<Rightarrow> registry
     \<Rightarrow> (bool result \<times> registry) \<times> string" where
  "sendRequest dump fresh sessionId ch msgType msgId cont r =
     (if \<not> request_allowed ch msgType
      then ((Inr False, r), [CHR 0x27] @ msgType @ [CHR 0x27] @ '' is not an allowed request on the ''
                             @ [CHR 0x27] @ ch @ [CHR 0x27] @ '' channel'')
      else case getSession sessionId r of
        None \<Rightarrow> ((Inr False, r), ''session not found'')
      | Some s \<Rightarrow>
          (case s_client s of
             None \<Rightarrow> ((Inr False, r), ''session not found'')
           | Some c \<Rightarrow>
               if msgType = ''interrupt_request'' \<and> o_kernelType (s_options s) = ''jupyter''
                  \<and> o_kernelInterruptMode (s_options s) \<noteq> ''message''
               then (interrupt_by_signal dump sessionId msgId s r, [])
               else case request_header fresh msgType sessionId msgId of
                 Inl e \<Rightarrow> ((Inl e, r), [])
               | Inr header \<Rightarrow>
                   let req = client_request header (if is_object cont then cont else JObject []);
                       chan = (if ch = ''control'' then OnControl else OnShell)
                   in ((Inr True, set_session (s\<lparr>s_client := Some (send_on chan req c)\<rparr>) sessionId r), [])))"

fun copy_keys :: "string list \<Rightarrow> json \<Rightarrow> json \<Rightarrow> json result" where
  "copy_keys [] opts cont = Inr cont"
| "copy_keys (k # ks) opts cont =
     (if json_contains opts k
      then rbind (json_index_const opts k) (\<lambda>v. rbind (json_put cont k v) (copy_keys ks opts))
      else copy_keys ks opts cont)"

definition history_content :: "json \<Rightarrow> json result" where
  "history_content opts =
     rbind (value_string opts ''histAccessType'' ''tail'') (\<lambda>access.
     rbind (value_bool opts ''output'' False) (\<lambda>output.
     rbind (value_bool opts ''raw'' True) (\<lambda>raw.
     rbind (value_int opts ''n'' 100) (\<lambda>n.
       copy_keys [''session'', ''start'', ''stop'', ''pattern'', ''unique''] opts
         (jobj [(''hist_access_type'', JString access), (''output'', JBool output), (''raw'', JBool raw), (''n'', JInt n)])))))"

definition sendHistory ::
  "printer \<Rightarrow> string \<times> string \<Rightarrow> string \<Rightarrow> string \<Rightarrow> json \<Rightarrow> registry \<Rightarrow> bool result \<times> registry" where
  "sendHistory dump fresh sessionId msgId opts r =
     (case history_content opts of
        Inl e \<Rightarrow> (Inl e, r)
      | Inr cont \<Rightarrow> fst (sendRequest dump fresh sessionId ''shell'' ''history_request'' msgId cont r))"

definition sendInterrupt ::
  "printer \<Rightarrow> string \<times> string \<Rightarrow> string \<Rightarrow> string \<Rightarrow> registry \<Rightarrow> bool result \<times> registry" where
  "sendInterrupt dump fresh sessionId msgId r =
     fst (sendRequest dump fresh sessionId ''control'' ''interrupt_request'' msgId (JObject []) r)"

definition sendInputReply :: "string \<times> string \<Rightarrow> string \<Rightarrow> string \<Rightarrow> registry \<Rightarrow> bool \<times> registry" where
  "sendInputReply fresh sessionId val r =
     (case getSession sessionId r of
        None \<Rightarrow> (False, r)
      | Some s \<Rightarrow>
          (case s_client s of
             None \<Rightarrow> (False, r)
           | Some c \<Rightarrow>
               let req = client_request (makeHeader fresh ''input_reply'' ''client_user'' sessionId)
                           (jobj [(''value'', JString val)])
               in (True, set_session (s\<lparr>s_client := Some (send_on OnStdin req c)\<rparr>) sessionId r)))"

section \<open>Stopping and restarting\<close>

text \<open>What happens to a session on other threads while a stop sleeps.\<close>

datatype session_event =
    Child_Moves proc_event
  | Published pub_message
  | Replied message
  | Control_Replied message
  | Asked message
  | Poll_Turn
  | Heartbeat_Lost

definition arrives :: "(client \<Rightarrow> client) \<Rightarrow> session \<Rightarrow> session" where
  "arrives f s = s\<lparr>s_client := map_option f (s_client s)\<rparr>"

fun session_step :: "parser \<Rightarrow> printer \<Rightarrow> session_event \<Rightarrow> session \<Rightarrow> session" where
  "session_step parse dump (Child_Moves e) s =
     s\<lparr>s_process := map_option (\<lambda>w. w\<lparr>child := child_move e (child w)\<rparr>) (s_process s)\<rparr>"
| "session_step parse dump (Published m) s = arrives (\<lambda>c. c\<lparr>iopub_in := iopub_in c @ [m]\<rparr>) s"
| "session_step parse dump (Replied m) s = arrives (\<lambda>c. c\<lparr>shell_in := shell_in c @ [m]\<rparr>) s"
| "session_step parse dump (Control_Replied m) s = arrives (\<lambda>c. c\<lparr>control_in := control_in c @ [m]\<rparr>) s"
| "session_step parse dump (Asked m) s = arrives (\<lambda>c. c\<lparr>stdin_in := stdin_in c @ [m]\<rparr>) s"
| "session_step parse dump Poll_Turn s = poll_turn parse dump s"
| "session_step parse dump Heartbeat_Lost s = kernel_status_listener True s"

text \<open>The grace period: the number of sleeps taken and the session after them.\<close>

function grace_loop :: "(nat \<Rightarrow> session \<Rightarrow> session) \<Rightarrow> nat \<Rightarrow> session \<Rightarrow> nat \<times> session" where
  "grace_loop sleeping i s =
     (let (alive, s) = process_alive s
      in if alive \<and> (i < 20 \<or> (s_answeredShutdown s \<and> i < 120))
         then grace_loop sleeping (i + 1) (sleeping i s) else (i, s))"
  by pat_completeness auto

termination
  by (relation "measure (\<lambda>(f, i, s). 120 - i)") auto

declare grace_loop.simps [simp del]

definition request_shutdown :: "string \<times> string \<Rightarrow> string \<Rightarrow> bool \<Rightarrow> session \<Rightarrow> session" where
  "request_shutdown fresh ident restart s =
     (let (wasAlive, s) = process_alive s
      in case s_client s of
           Some c \<Rightarrow>
             if wasAlive then
               s\<lparr>s_expectingExit := True, s_answeredShutdown := False,
                 s_client := Some (send_on OnControl
                   (client_request (makeHeader fresh ''shutdown_request'' ''client_user'' ident)
                     (jobj [(''restart'', JBool restart)])) c)\<rparr>
             else s
         | None \<Rightarrow> s)"

definition tear_down :: "session \<Rightarrow> session option" where
  "tear_down s =
     (let s = s\<lparr>s_polling := False, s_client := map_option (\<lambda>c. c\<lparr>stops_sent := stops_sent c + 1\<rparr>) (s_client s)\<rparr>;
          (alive, s) = process_alive s
      in case (if alive then (case s_process s of
                  None \<Rightarrow> Some s
                | Some w \<Rightarrow> map_option (\<lambda>w'. s\<lparr>s_process := Some w'\<rparr>) (Process.kill w)) else Some s) of
           None \<Rightarrow> None
         | Some s \<Rightarrow> Some (s\<lparr>s_status := Stopped\<rparr>))"

text \<open>\<open>stopSession\<close> up to its return, where its own reference to the session goes away.\<close>

definition stop_and_unregister ::
  "(nat \<Rightarrow> session \<Rightarrow> session) \<Rightarrow> string \<times> string \<Rightarrow> string \<Rightarrow> bool \<Rightarrow> session \<Rightarrow> registry \<Rightarrow> (session \<times> registry) option" where
  "stop_and_unregister sleeping fresh ident restart s r =
     map_option (\<lambda>s. (s, r\<lparr>m_sessions := filter (\<lambda>e. fst e \<noteq> ident) (m_sessions r)\<rparr>))
       (tear_down (snd (grace_loop sleeping 0 (request_shutdown fresh ident restart s))))"

definition stopSession ::
  "(nat \<Rightarrow> session \<Rightarrow> session) \<Rightarrow> string \<times> string \<Rightarrow> string \<Rightarrow> bool \<Rightarrow> registry \<Rightarrow> (bool \<times> registry) option" where
  "stopSession sleeping fresh ident restart r =
     (case getSession ident r of
        None \<Rightarrow> Some (False, r)
      | Some s \<Rightarrow>
          (case stop_and_unregister sleeping fresh ident restart s r of
             None \<Rightarrow> None
           | Some (s, r) \<Rightarrow> map_option (Pair True) (release_Session s r)))"

text \<open>\<open>restartSession\<close> keeps its own reference to the old session until it returns.\<close>

definition restartSession ::
  "(exn \<Rightarrow> string) \<Rightarrow> (nat \<Rightarrow> session \<Rightarrow> session) \<Rightarrow> string \<times> string \<Rightarrow> launch \<Rightarrow> string \<Rightarrow> SessionOptions option
     \<Rightarrow> registry \<Rightarrow> ((string \<times> string) \<times> registry) option" where
  "restartSession what sleeping fresh l ident newOptions r =
     (case getSession ident r of
        None \<Rightarrow> Some (([], ''session not found''), r)
      | Some s \<Rightarrow>
          let opts = (case newOptions of Some opts \<Rightarrow> opts | None \<Rightarrow> s_options s)
          in case stop_and_unregister sleeping fresh ident True s r of
               None \<Rightarrow> None
             | Some (s, r) \<Rightarrow>
                 (case createSessionWithId what l ident opts r of
                    None \<Rightarrow> None
                  | Some (answer, r) \<Rightarrow> map_option (Pair answer) (release_Session s r)))"

section \<open>Listing\<close>

record HeartbeatStatus =
  hasPong :: bool
  rttMs :: json
  sinceLastPongMs :: int
  misses :: nat

definition sessionToJson :: "HeartbeatStatus \<Rightarrow> string list option \<Rightarrow> session \<Rightarrow> json result" where
  "sessionToJson hb status_file s =
     (let heartbeat = (if s_client s = None then JNull
             else jobj [(''hasPong'', JBool (hasPong hb)), (''rttMs'', rttMs hb),
               (''sinceLastPongMs'', JInt (sinceLastPongMs hb)), (''misses'', JInt (int (misses hb)))]);
          opts = s_options s;
          result = jobj [(''heartbeat'', heartbeat), (''sessionId'', JString (s_id s)),
            (''status'', JString (toString (s_status s))), (''kernelType'', JString (o_kernelType opts)),
            (''workingDirectory'', JString (o_workingDirectory opts)),
            (''pid'', JInt (case s_process s of Some w \<Rightarrow> Process.pid (proc w) | None \<Rightarrow> 0)),
            (''options'', jobj [(''kernelType'', JString (o_kernelType opts)), (''rHome'', JString (o_rHome opts)),
               (''rPath'', JString (o_rPath opts)), (''rLibs'', JString (o_rLibs opts)),
               (''pandocPath'', JString (o_pandocPath opts)), (''pythonHome'', JString (o_pythonHome opts)),
               (''pythonPath'', JString (o_pythonPath opts)), (''venvPath'', JString (o_venvPath opts)),
               (''stataHome'', JString (o_stataHome opts)), (''stataEdition'', JString (o_stataEdition opts)),
               (''arkPath'', JString (o_arkPath opts)), (''workingDirectory'', JString (o_workingDirectory opts))])]
      in rbind (case s_process s of Some w \<Rightarrow> memoryUsageBytes (proc w) status_file | None \<Rightarrow> Inr None) (\<lambda>mem.
           json_put result ''memoryBytes'' (case mem of Some b \<Rightarrow> JInt (int b) | None \<Rightarrow> JNull)))"

fun list_json :: "(session \<Rightarrow> json result) \<Rightarrow> (string \<times> session) list \<Rightarrow> json list result" where
  "list_json f [] = Inr []"
| "list_json f (e # es) = rbind (f (snd e)) (\<lambda>j. rbind (list_json f es) (\<lambda>js. Inr (j # js)))"

definition listSessions :: "(session \<Rightarrow> json result) \<Rightarrow> registry \<Rightarrow> json result" where
  "listSessions f r = rbind (list_json f (m_sessions r)) (\<lambda>js. Inr (JArray js))"

text \<open>The destructor: the sessions nobody stopped.\<close>

fun stop_remaining :: "(string \<times> session) list \<Rightarrow> (string \<times> session) list option" where
  "stop_remaining [] = Some []"
| "stop_remaining ((ident, s) # rest) =
     (case (if s_status s = Stopped then Some s
            else let s = s\<lparr>s_client := map_option (\<lambda>c. c\<lparr>stops_sent := stops_sent c + 1\<rparr>) (s_client s)\<rparr>
                 in case s_process s of
                      None \<Rightarrow> Some s
                    | Some w \<Rightarrow> map_option (\<lambda>w'. s\<lparr>s_process := Some w'\<rparr>) (Process.kill w)) of
        None \<Rightarrow> None
      | Some s \<Rightarrow> map_option (Cons (ident, s)) (stop_remaining rest))"

section \<open>What a session keeps through the events of other threads\<close>

definition sent_by_client :: "session \<Rightarrow> (message list \<times> message list \<times> message list \<times> nat) option" where
  "sent_by_client s = map_option (\<lambda>c. (shell_out c, control_out c, stdin_out c, stops_sent c)) (s_client s)"

text \<open>The fields no event of another thread changes.\<close>

definition keeps :: "session \<Rightarrow> session \<Rightarrow> bool" where
  "keeps s s' \<longleftrightarrow> s_id s' = s_id s \<and> s_options s' = s_options s \<and> s_owner s' = s_owner s
     \<and> s_connectionFile s' = s_connectionFile s \<and> sent_by_client s' = sent_by_client s"

lemma keeps_refl [simp]: "keeps s s"
  by (simp add: keeps_def)

lemma keeps_trans: "keeps s s' \<Longrightarrow> keeps s' s'' \<Longrightarrow> keeps s s''"
  by (simp add: keeps_def)

text \<open>The process of a session is one the operating system still knows, or one that is gone; with
  \<open>calm\<close> it was never stopped either.\<close>

definition sess_ok :: "bool \<Rightarrow> session \<Rightarrow> bool" where
  "sess_ok calm s \<longleftrightarrow> (\<exists>w. s_process s = Some w \<and> world_ok w \<and> (calm \<longrightarrow> never_stopped w))"

lemma process_alive_ok:
  assumes "sess_ok calm s"
  shows "sess_ok calm (snd (process_alive s)) \<and> keeps s (snd (process_alive s))"
proof -
  obtain w where w: "s_process s = Some w" "world_ok w" "calm \<longrightarrow> never_stopped w"
    using assms by (auto simp: sess_ok_def)
  then show ?thesis
    using isAlive_ok [OF w(2), of "fst (isAlive w)" "snd (isAlive w)"]
    by (simp add: process_alive_def sess_ok_def keeps_def sent_by_client_def case_prod_unfold Let_def)
qed

lemma process_status_ok:
  assumes "sess_ok calm s"
  shows "sess_ok calm (snd (process_status s)) \<and> keeps s (snd (process_status s))"
proof -
  obtain w where w: "s_process s = Some w" "world_ok w" "calm \<longrightarrow> never_stopped w"
    using assms by (auto simp: sess_ok_def)
  then show ?thesis
    using describeStatus_ok [OF w(2)]
    by (simp add: process_status_def sess_ok_def keeps_def sent_by_client_def case_prod_unfold Let_def)
qed

lemma emit_ok [simp]:
  "sess_ok calm (emitMessage t s) = sess_ok calm s" "keeps s0 (emitMessage t s) = keeps s0 s"
  "sess_ok calm (emitKernelExit t s) = sess_ok calm s" "keeps s0 (emitKernelExit t s) = keeps s0 s"
  by (simp_all add: emitMessage_def emitKernelExit_def sess_ok_def keeps_def sent_by_client_def split: option.split)

text \<open>Updates of fields neither predicate reads.\<close>

lemma field_ok [simp]:
  "sess_ok calm (s\<lparr>s_status := st\<rparr>) = sess_ok calm s" "keeps s0 (s\<lparr>s_status := st\<rparr>) = keeps s0 s"
  "sess_ok calm (s\<lparr>s_polling := b\<rparr>) = sess_ok calm s" "keeps s0 (s\<lparr>s_polling := b\<rparr>) = keeps s0 s"
  "sess_ok calm (s\<lparr>s_answeredShutdown := b\<rparr>) = sess_ok calm s" "keeps s0 (s\<lparr>s_answeredShutdown := b\<rparr>) = keeps s0 s"
  "sess_ok calm (s\<lparr>s_expectingExit := b\<rparr>) = sess_ok calm s" "keeps s0 (s\<lparr>s_expectingExit := b\<rparr>) = keeps s0 s"
  "sess_ok calm (s\<lparr>s_fatal := x\<rparr>) = sess_ok calm s" "keeps s0 (s\<lparr>s_fatal := x\<rparr>) = keeps s0 s"
  "sess_ok calm (s\<lparr>s_client := c\<rparr>) = sess_ok calm s" "keeps (s\<lparr>s_status := st\<rparr>) s0 = keeps s s0"
  by (simp_all add: sess_ok_def keeps_def sent_by_client_def)

lemma relay_pub_ok:
  "relay_pub parse dump m s = Inr s' \<Longrightarrow> sess_ok calm s' = sess_ok calm s \<and> keeps s0 s' = keeps s0 s"
  by (auto simp: relay_pub_def result_simps)

lemma relay_message_ok:
  "relay_message parse dump ch m s = Inr s' \<Longrightarrow> sess_ok calm s' = sess_ok calm s \<and> keeps s0 s' = keeps s0 s"
  unfolding relay_message_def Let_def by (auto simp: result_simps split del: if_split) (auto split: if_splits)

lemma drain_ok:
  assumes "\<And>m s s'. rel m s = Inr s' \<Longrightarrow> sess_ok calm s' = sess_ok calm s \<and> keeps s0 s' = keeps s0 s"
  shows "drain rel ms s = Inr s' \<Longrightarrow> sess_ok calm s' = sess_ok calm s \<and> keeps s0 s' = keeps s0 s"
  by (induction ms arbitrary: s) (auto simp: result_simps dest: assms)

lemma drains_ok:
  assumes "rbind (drain (relay_pub parse dump) ps s) (\<lambda>s.
       rbind (drain (relay_message parse dump c1) qs s) (\<lambda>s.
       rbind (drain (relay_message parse dump c2) bs s) (\<lambda>s. drain (relay_message parse dump c3) cs s))) = Inr s'"
    and "sess_ok calm s" "keeps s0 s"
  shows "sess_ok calm s' \<and> keeps s0 s'"
proof -
  obtain t1 t2 t3 where t: "drain (relay_pub parse dump) ps s = Inr t1"
    "drain (relay_message parse dump c1) qs t1 = Inr t2" "drain (relay_message parse dump c2) bs t2 = Inr t3"
    "drain (relay_message parse dump c3) cs t3 = Inr s'"
    using assms(1) unfolding rbind_eq_Inr_iff by blast
  show ?thesis
    using assms(2,3) drain_ok [of "relay_pub parse dump" calm s0, OF relay_pub_ok t(1)]
      drain_ok [of "relay_message parse dump c1" calm s0, OF relay_message_ok t(2)]
      drain_ok [of "relay_message parse dump c2" calm s0, OF relay_message_ok t(3)]
      drain_ok [of "relay_message parse dump c3" calm s0, OF relay_message_ok t(4)] by simp
qed

lemma poll_turn_ok:
  assumes ok: "sess_ok calm s"
  shows "sess_ok calm (poll_turn parse dump s) \<and> keeps s (poll_turn parse dump s)"
proof (cases "s_client s")
  case (Some c)
  let ?a = "snd (process_alive s)\<lparr>s_client := Some (drained c)\<rparr>"
  have a: "sess_ok calm ?a" "keeps s ?a"
    using process_alive_ok [OF ok] Some
    by (simp_all add: keeps_def sent_by_client_def drained_def)
  show ?thesis
  proof (cases "s_polling s")
    case True
    let ?d = "rbind (drain (relay_pub parse dump) (iopub_in c) ?a) (\<lambda>s.
       rbind (drain (relay_message parse dump ''shell'') (shell_in c) s) (\<lambda>s.
       rbind (drain (relay_message parse dump ''control'') (control_in c) s) (\<lambda>s.
         drain (relay_message parse dump ''stdin'') (stdin_in c) s)))"
    have d: "sess_ok calm s' \<and> keeps s s'" if "?d = Inr s'" for s'
      by (rule drains_ok [OF that a])
    have e: "sess_ok calm (snd (process_status (s'\<lparr>s_status := Crashed\<rparr>)))
        \<and> keeps s (snd (process_status (s'\<lparr>s_status := Crashed\<rparr>)))" if "?d = Inr s'" for s'
      using process_status_ok [of calm "s'\<lparr>s_status := Crashed\<rparr>"] d [OF that] by (auto intro: keeps_trans)
    show ?thesis
      using Some True a d e by (cases ?d) (auto simp: poll_turn_def case_prod_unfold Let_def)
  qed (use Some ok in \<open>simp add: poll_turn_def\<close>)
qed (use ok in \<open>simp add: poll_turn_def\<close>)

lemma kernel_status_listener_ok:
  assumes "sess_ok calm s"
  shows "sess_ok calm (kernel_status_listener dead s) \<and> keeps s (kernel_status_listener dead s)"
  using assms process_status_ok [of calm "s\<lparr>s_status := Crashed\<rparr>"]
  by (simp add: kernel_status_listener_def Let_def case_prod_unfold)

definition calm_event :: "bool \<Rightarrow> session_event \<Rightarrow> bool" where
  "calm_event calm e \<longleftrightarrow> (calm \<longrightarrow> (\<forall>sig. e \<noteq> Child_Moves (ChildStops sig)))"

lemma arrives_ok:
  "sess_ok calm (arrives f s) = sess_ok calm s"
  "(\<And>c. shell_out (f c) = shell_out c \<and> control_out (f c) = control_out c \<and> stdin_out (f c) = stdin_out c
      \<and> stops_sent (f c) = stops_sent c) \<Longrightarrow> keeps s (arrives f s)"
  by (cases "s_client s"; simp add: arrives_def keeps_def sent_by_client_def)+

lemma session_step_ok:
  assumes ok: "sess_ok calm s" and calm: "calm_event calm e"
  shows "sess_ok calm (session_step parse dump e s) \<and> keeps s (session_step parse dump e s)"
proof (cases e)
  case (Child_Moves m)
  obtain w where w: "s_process s = Some w" "world_ok w" "calm \<longrightarrow> never_stopped w"
    using ok by (auto simp: sess_ok_def)
  moreover have "calm \<Longrightarrow> \<not> stops m" using calm Child_Moves by (auto simp: calm_event_def stops_def)
  ultimately show ?thesis
    using Child_Moves child_step_ok [of w m] by (simp add: sess_ok_def keeps_def sent_by_client_def)
next
  case Poll_Turn
  then show ?thesis using poll_turn_ok [OF ok] by simp
next
  case Heartbeat_Lost
  then show ?thesis using kernel_status_listener_ok [OF ok] by simp
qed (use ok in \<open>simp_all add: arrives_ok\<close>)

interpretation session_events: event_system "session_step parse dump" "calm_event calm" "\<lambda>s. sess_ok calm s \<and> keeps s0 s"
  for parse dump calm s0
  by unfold_locales (auto dest: session_step_ok intro: keeps_trans)

text \<open>What other threads do during a sleep: any schedule of events.\<close>

definition sleeping :: "parser \<Rightarrow> printer \<Rightarrow> (nat \<Rightarrow> session_event list) \<Rightarrow> nat \<Rightarrow> session \<Rightarrow> session" where
  "sleeping parse dump ticks i = fold (session_step parse dump) (ticks i)"

definition calm_ticks :: "bool \<Rightarrow> (nat \<Rightarrow> session_event list) \<Rightarrow> bool" where
  "calm_ticks calm ticks \<longleftrightarrow> (\<forall>i. list_all (calm_event calm) (ticks i))"

lemma sleeping_ok:
  assumes "sess_ok calm s" "calm_ticks calm ticks"
  shows "sess_ok calm (sleeping parse dump ticks i s) \<and> keeps s (sleeping parse dump ticks i s)"
  unfolding sleeping_def
  by (rule session_events.schedule_inv) (use assms in \<open>auto simp: calm_ticks_def\<close>)

lemma grace_loop_ok:
  assumes "calm_ticks calm ticks"
  shows "sess_ok calm s \<Longrightarrow> sess_ok calm (snd (grace_loop (sleeping parse dump ticks) i s))
     \<and> keeps s (snd (grace_loop (sleeping parse dump ticks) i s))"
proof (induction "sleeping parse dump ticks" i s rule: grace_loop.induct)
  case (1 i s)
  obtain a s1 where p: "process_alive s = (a, s1)" by fastforce
  have s1: "sess_ok calm s1" "keeps s s1" using process_alive_ok [OF 1(2)] p by simp_all
  show ?case
  proof (cases "a \<and> (i < 20 \<or> (s_answeredShutdown s1 \<and> i < 120))")
    case True
    let ?s2 = "sleeping parse dump ticks i s1"
    have s2: "sess_ok calm ?s2" "keeps s1 ?s2" using sleeping_ok [OF s1(1) assms] by simp_all
    show ?thesis
      using 1(1) [OF p [symmetric] refl True s2(1)] s1(2) s2(2) True p
      by (auto simp: grace_loop.simps [of _ i s] intro: keeps_trans)
  next
    case False
    then show ?thesis using p s1 by (auto simp: grace_loop.simps [of _ i s])
  qed
qed

lemma grace_loop_bound: "i \<le> 120 \<Longrightarrow> fst (grace_loop f i s) \<le> 120"
proof (induction f i s rule: grace_loop.induct)
  case (1 f i s)
  obtain a s1 where "process_alive s = (a, s1)" by fastforce
  then show ?case using 1 by (auto simp: grace_loop.simps [of f i s])
qed

section \<open>Stopping\<close>

definition gone :: "world \<Rightarrow> bool" where
  "gone w \<longleftrightarrow> m_processId (proc w) = -1 \<or> m_reaped (proc w)"

lemma gone_not_alive: "gone w \<Longrightarrow> world_ok w \<Longrightarrow> isAlive w = (False, w)"
  by (auto simp: gone_def world_ok_def isAlive_def waitpidCached_def)

lemma not_alive_gone:
  assumes "world_ok w" "\<not> fst (isAlive w)"
  shows "gone (snd (isAlive w))"
  using assms
  by (cases "child w"; cases "m_processId (proc w) > 0"; cases "m_reaped (proc w)")
    (auto simp: world_ok_def isAlive_def waitpidCached_def note_wait_def gone_def)

lemma tear_down_total:
  assumes "sess_ok calm s"
  shows "\<exists>s' w. tear_down s = Some s' \<and> s_status s' = Stopped \<and> \<not> s_polling s' \<and> s_process s' = Some w
    \<and> world_ok w \<and> gone w \<and> (calm \<longrightarrow> child w = Reaped)
    \<and> s_id s' = s_id s \<and> s_owner s' = s_owner s \<and> s_connectionFile s' = s_connectionFile s
    \<and> sent_by_client s' = map_option (\<lambda>(a, b, c, n). (a, b, c, n + 1)) (sent_by_client s)"
proof -
  let ?s1 = "s\<lparr>s_polling := False, s_client := map_option (\<lambda>c. c\<lparr>stops_sent := stops_sent c + 1\<rparr>) (s_client s)\<rparr>"
  obtain w where w: "s_process s = Some w" "world_ok w" "calm \<longrightarrow> never_stopped w"
    using assms by (auto simp: sess_ok_def)
  obtain a w1 where a: "isAlive w = (a, w1)" by fastforce
  note w1 = isAlive_ok [OF w(2) a]
  have client: "sent_by_client (?s1\<lparr>s_process := x, s_status := st\<rparr>)
      = map_option (\<lambda>(a, b, c, n). (a, b, c, n + 1)) (sent_by_client s)" for x st
    by (cases "s_client s") (simp_all add: sent_by_client_def)
  show ?thesis
  proof (cases a)
    case True
    obtain w2 where "Process.kill w1 = Some w2" "world_ok w2" "m_processId (proc w2) = -1"
      "never_stopped w1 \<longrightarrow> child w2 = Reaped"
      using kill_total [of w1] w1 by blast
    then have "tear_down s = Some (?s1\<lparr>s_process := Some w2, s_status := Stopped\<rparr>)" "gone w2" "calm \<longrightarrow> child w2 = Reaped"
      using a True w w1 by (auto simp: tear_down_def process_alive_def gone_def)
    then show ?thesis using client \<open>world_ok w2\<close> by simp
  next
    case False
    then have "gone w1" using not_alive_gone [OF w(2)] a by simp
    moreover have "calm \<longrightarrow> child w1 = Reaped"
      using \<open>gone w1\<close> w(3) w1 by (auto simp: never_stopped_def gone_def)
    moreover have "tear_down s = Some (?s1\<lparr>s_process := Some w1, s_status := Stopped\<rparr>)"
      using a False w by (simp add: tear_down_def process_alive_def)
    ultimately show ?thesis using client w1 by simp
  qed
qed

lemma request_shutdown_ok:
  assumes "sess_ok calm s"
  shows "sess_ok calm (request_shutdown fresh ident restart s)
    \<and> s_id (request_shutdown fresh ident restart s) = s_id s
    \<and> s_owner (request_shutdown fresh ident restart s) = s_owner s
    \<and> s_connectionFile (request_shutdown fresh ident restart s) = s_connectionFile s
    \<and> sent_by_client (request_shutdown fresh ident restart s) =
        map_option (\<lambda>(a, b, c, n). (a, b @ (if fst (process_alive s) then
            [client_request (makeHeader fresh ''shutdown_request'' ''client_user'' ident) (jobj [(''restart'', JBool restart)])]
            else []), c, n)) (sent_by_client s)"
proof -
  have "s_client (snd (process_alive s)) = s_client s"
    by (simp add: process_alive_def case_prod_unfold Let_def split: option.split)
  then show ?thesis
    using process_alive_ok [OF assms]
    by (cases "s_client s") (simp_all add: request_shutdown_def case_prod_unfold Let_def keeps_def sent_by_client_def
        sess_ok_def)
qed

lemma stop_and_unregister_total:
  assumes "sess_ok calm s" "calm_ticks calm ticks"
  shows "\<exists>s' w. stop_and_unregister (sleeping parse dump ticks) fresh ident restart s r
      = Some (s', r\<lparr>m_sessions := filter (\<lambda>e. fst e \<noteq> ident) (m_sessions r)\<rparr>)
    \<and> s_status s' = Stopped \<and> \<not> s_polling s' \<and> s_process s' = Some w \<and> world_ok w \<and> gone w
    \<and> (calm \<longrightarrow> child w = Reaped)
    \<and> s_id s' = s_id s \<and> s_owner s' = s_owner s \<and> s_connectionFile s' = s_connectionFile s
    \<and> sent_by_client s' = map_option (\<lambda>(a, b, c, n). (a, b @ (if fst (process_alive s) then
            [client_request (makeHeader fresh ''shutdown_request'' ''client_user'' ident) (jobj [(''restart'', JBool restart)])]
            else []), c, n + 1)) (sent_by_client s)"
proof -
  let ?s1 = "request_shutdown fresh ident restart s"
  let ?s2 = "snd (grace_loop (sleeping parse dump ticks) 0 ?s1)"
  note s1 = request_shutdown_ok [OF assms(1), of fresh ident restart]
  have s2: "sess_ok calm ?s2" "keeps ?s1 ?s2" using grace_loop_ok [OF assms(2)] s1 by blast+
  obtain s' w where t: "tear_down ?s2 = Some s'" "s_status s' = Stopped" "\<not> s_polling s'" "s_process s' = Some w"
    "world_ok w" "gone w" "calm \<longrightarrow> child w = Reaped" "s_id s' = s_id ?s2" "s_owner s' = s_owner ?s2"
    "s_connectionFile s' = s_connectionFile ?s2"
    "sent_by_client s' = map_option (\<lambda>(a, b, c, n). (a, b, c, n + 1)) (sent_by_client ?s2)"
    using tear_down_total [OF s2(1)] by blast
  show ?thesis
    using t s1 s2(2)
    by (intro exI [of _ s'] exI [of _ w])
      (simp add: stop_and_unregister_def keeps_def option.map_comp comp_def case_prod_unfold)
qed

lemma kill_gone:
  assumes "gone w" "world_ok w"
  shows "\<exists>w'. Process.kill w = Some w' \<and> child w' = child w \<and> signals w' = signals w \<and> m_processId (proc w') = -1"
  using assms by (cases "m_processId (proc w) > 0") (auto simp: gone_def Process.kill_def world_ok_def)

lemma release_gone:
  assumes "s_process s = Some w" "gone w" "world_ok w"
  shows "\<exists>r'. release_Session s r = Some r' \<and> m_sessions r' = m_sessions r
    \<and> (if s_owner s = None then m_held r' = m_held r \<and> (\<exists>w'. m_dead r' = m_dead r @ [s\<lparr>s_polling := False, s_process := Some w'\<rparr>]
           \<and> child w' = child w \<and> m_processId (proc w') = -1)
         \<and> m_files r' = (if s_connectionFile s = [] then m_files r else remove_file (s_connectionFile s) (m_files r))
       else m_held r' = m_held r @ [s] \<and> m_dead r' = m_dead r \<and> m_files r' = m_files r)"
proof -
  obtain w' where "Process.kill w = Some w'" "child w' = child w" "m_processId (proc w') = -1"
    using kill_gone [OF assms(2,3)] by blast
  then show ?thesis using assms(1) by (auto simp: release_Session_def destroy_Session_def Let_def)
qed

lemma map_of_filter_key: "map_of (filter (\<lambda>e. fst e \<noteq> k) l) x = (if x = k then None else map_of l x)"
  by (induction l) auto

text \<open>The request a stop sends to a kernel that is alive.\<close>

definition shutdown_requests :: "string \<times> string \<Rightarrow> string \<Rightarrow> bool \<Rightarrow> session \<Rightarrow> message list" where
  "shutdown_requests fresh ident restart s = (if fst (process_alive s) then
     [client_request (makeHeader fresh ''shutdown_request'' ''client_user'' ident) (jobj [(''restart'', JBool restart)])]
     else [])"


definition plain_registry :: registry where
  "plain_registry = \<lparr>m_kernelExePaths = [(''r'', ''/opt/elara'')], m_registrationIp = ''127.0.0.1'',
     m_registrationPort = ''5000'', m_registrationKey = ''k'', m_sessions = [(''s1'', plain_session)], m_held = [],
     m_dead = [], m_path = [], m_files = []\<rparr>"


section \<open>Creating\<close>

lemma start_process_ok:
  assumes "forked_pid (l_os l) \<noteq> 0" "start_process l popts s = (thrown, s')"
  shows "sess_ok True s' \<and> s_id s' = s_id s \<and> s_options s' = s_options s \<and> s_connectionFile s' = s_connectionFile s
    \<and> s_owner s' = s_owner s"
proof -
  let ?p = "new_KernelProcess (l_absolute l) popts"
  have p: "m_processId ?p = -1" "\<not> m_reaped ?p" by (simp_all add: new_KernelProcess_def)
  have q: "m_processId q > 0 \<and> \<not> m_reaped q" if "outcome (Process.start (l_os l) ?p) = Inr q" for q
    using that assms(1) p
    by (auto simp: Process.start_def parent_after_fork_def Let_def split: sum.splits if_splits child_image.splits)
  show ?thesis
  proof (cases "outcome (Process.start (l_os l) ?p)")
    case (Inl e)
    then show ?thesis
      using assms(2) p by (auto simp: start_process_def sess_ok_def world_ok_def never_stopped_def)
  next
    case (Inr q)
    then show ?thesis
      using assms(2) q [OF Inr] started_ok [of q] by (auto simp: start_process_def sess_ok_def)
  qed
qed

lemma wait_registered_ok:
  assumes "sess_ok True s"
  shows "\<exists>thrown' s''. wait_registered l s = Some (thrown', s'') \<and> sess_ok False s'' \<and> s_id s'' = s_id s
    \<and> s_options s'' = s_options s \<and> s_connectionFile s'' = s_connectionFile s \<and> s_owner s'' = s_owner s"
proof -
  obtain w where w: "s_process s = Some w" "world_ok w" using assms by (auto simp: sess_ok_def)
  obtain w' where "proc_run (l_meanwhile l) w = Some w'" "world_ok w'"
    using proc_run_total [OF w(2), of "l_meanwhile l"] by blast
  then show ?thesis using w by (simp add: wait_registered_def sess_ok_def)
qed

lemma sess_ok_weaken: "sess_ok True s \<Longrightarrow> sess_ok False s"
  by (auto simp: sess_ok_def)

lemma destroy_total:
  assumes "sess_ok False s \<or> s_process s = None"
  shows "\<exists>r' s'. destroy_Session s r = Some r' \<and> m_sessions r' = m_sessions r \<and> m_held r' = m_held r
    \<and> m_dead r' = m_dead r @ [s'] \<and> (\<forall>w. s_process s' = Some w \<longrightarrow> gone w)
    \<and> m_files r' = (if s_connectionFile s = [] then m_files r else remove_file (s_connectionFile s) (m_files r))"
proof (cases "s_process s")
  case None
  then show ?thesis by (auto simp: destroy_Session_def Let_def)
next
  case (Some w)
  then have "world_ok w" using assms by (auto simp: sess_ok_def)
  then obtain w' where "Process.kill w = Some w'" "m_processId (proc w') = -1" using kill_total [of w] by blast
  then show ?thesis using Some by (auto simp: destroy_Session_def Let_def gone_def)
qed

lemma fresh_file_removed: "path \<notin> fst ` set fs \<Longrightarrow> remove_file path (obj_put path j fs) = fs"
proof -
  assume new: "path \<notin> fst ` set fs"
  then have "filter (\<lambda>f. fst f \<noteq> path) fs = fs" by (auto simp: filter_id_conv)
  moreover have "filter (\<lambda>f. fst f \<noteq> path) (obj_put path j fs) = filter (\<lambda>f. fst f \<noteq> path) fs"
    by (induction fs) auto
  ultimately show ?thesis by (simp add: remove_file_def)
qed

lemma absent_file_kept: "path \<notin> fst ` set fs \<Longrightarrow> remove_file path fs = fs"
  by (auto simp: remove_file_def filter_id_conv)

text \<open>A launch the registry can carry out: a fork gives an id or fails, five ports are found, and no
  file of an earlier launch stands under the names this one uses.\<close>

definition launch_ok :: "launch \<Rightarrow> string \<Rightarrow> registry \<Rightarrow> bool" where
  "launch_ok l ident r \<longleftrightarrow> forked_pid (l_os l) \<noteq> 0 \<and> free_ports 5 [] (l_ports l) \<noteq> None
     \<and> connection_path l ident \<notin> fst ` set (m_files r) \<and> registration_path l ident \<notin> fst ` set (m_files r)"

lemma connection_path_nonempty [simp]: "connection_path l ident \<noteq> []" "registration_path l ident \<noteq> []"
  by (simp_all add: connection_path_def registration_path_def)

lemma jupyter_started:
  assumes "launch_ok l ident r"
  shows "\<exists>thrown s fs. startJupyterKernel l opts popts (new_Session ident opts) (m_files r) = Some (thrown, s, fs)
     \<and> (sess_ok False s \<or> s_process s = None \<and> thrown \<noteq> None)
     \<and> s_id s = ident \<and> s_options s = opts \<and> s_owner s = None \<and> s_connectionFile s = connection_path l ident
     \<and> (fs = m_files r \<and> thrown \<noteq> None \<or> (\<exists>j. fs = obj_put (connection_path l ident) j (m_files r)))"
proof -
  obtain ports where ports: "free_ports 5 [] (l_ports l) = Some ports" using assms by (auto simp: launch_ok_def)
  show ?thesis
  proof (cases "connection_json (l_guid l) ports")
    case (Inl e)
    then show ?thesis using ports by (simp add: startJupyterKernel_def new_Session_def Let_def)
  next
    case (Inr j)
    let ?path = "connection_path l ident"
    let ?s = "(new_Session ident opts)\<lparr>s_connectionFile := ?path\<rparr>"
    let ?args = "map (replace_placeholder ?path) (tl (o_kernelArgv opts))"
    let ?popts = "popts\<lparr>explicitArgs := ?args, extraEnv := o_kernelEnv opts,
        interruptBySignal := (o_kernelInterruptMode opts \<noteq> ''message''), process_key := l_guid l\<rparr>"
    obtain t s' where sp: "start_process l ?popts ?s = (t, s')" by fastforce
    have ok: "sess_ok True s' \<and> s_id s' = ident \<and> s_options s' = opts \<and> s_connectionFile s' = ?path \<and> s_owner s' = None"
      using start_process_ok [OF _ sp] assms by (simp add: launch_ok_def new_Session_def)
    show ?thesis
    proof (cases "?args = []")
      case True
      then show ?thesis using ports Inr by (auto simp: startJupyterKernel_def new_Session_def Let_def)
    next
      case False
      then have "startJupyterKernel l opts popts (new_Session ident opts) (m_files r)
          = Some (t, s', obj_put ?path j (m_files r))"
        using ports Inr sp by (simp add: startJupyterKernel_def Let_def new_Session_def)
      then show ?thesis using ok by (auto dest: sess_ok_weaken)
    qed
  qed
qed

lemma registered_started:
  assumes "launch_ok l ident r"
  shows "\<exists>thrown s r'. startRegisteredKernel l r opts popts (new_Session ident opts) = Some (thrown, s, r')
     \<and> (sess_ok False s \<or> s_process s = None \<and> thrown \<noteq> None)
     \<and> s_id s = ident \<and> s_options s = opts \<and> s_owner s = None \<and> s_connectionFile s = []
     \<and> m_sessions r' = m_sessions r \<and> m_held r' = m_held r \<and> m_dead r' = m_dead r \<and> m_files r' = m_files r"
proof -
  let ?r = "with_r_path opts r"
  let ?s = "new_Session ident opts"
  have r: "m_sessions ?r = m_sessions r" "m_held ?r = m_held r" "m_dead ?r = m_dead r" "m_files ?r = m_files r"
    by (simp_all add: with_r_path_def)
  show ?thesis
  proof (cases "registered_options l ?r opts ident popts")
    case (Inl e)
    then have "startRegisteredKernel l r opts popts ?s = Some (Some e, ?s, ?r)"
      by (simp add: startRegisteredKernel_def new_Session_def)
    then show ?thesis using r by (simp add: new_Session_def)
  next
    case (Inr pf)
    obtain po fs where pf: "pf = (po, fs)" by (cases pf)
    have fs: "remove_registration l opts ident fs = m_files r"
      using Inr pf assms r(4)
      by (auto simp: registered_options_def ark_options_def remove_registration_def result_simps Let_def launch_ok_def
          fresh_file_removed split: if_splits)
    obtain t s1 where sp: "start_process l po ?s = (t, s1)" by fastforce
    have s1: "sess_ok True s1 \<and> s_id s1 = ident \<and> s_options s1 = opts \<and> s_connectionFile s1 = [] \<and> s_owner s1 = None"
      using start_process_ok [OF _ sp] assms by (simp add: launch_ok_def new_Session_def)
    obtain t2 s2 where s2: "(case t of Some e \<Rightarrow> Some (Some e, s1) | None \<Rightarrow> wait_registered l s1) = Some (t2, s2)"
      "sess_ok False s2" "s_id s2 = ident" "s_options s2 = opts" "s_connectionFile s2 = []" "s_owner s2 = None"
      using wait_registered_ok [of s1 l] s1 sess_ok_weaken [of s1] by (cases t) auto
    have "s_id ?s = ident" by (simp add: new_Session_def)
    then have "startRegisteredKernel l r opts popts ?s = Some (t2, s2, ?r\<lparr>m_files := m_files r\<rparr>)"
      using Inr pf sp s2(1,3) fs by (simp add: startRegisteredKernel_def Let_def)
    then show ?thesis using s2 r by simp
  qed
qed

text \<open>The files after a start of either kind: none new, or the connection file.\<close>

definition file_account :: "launch \<Rightarrow> string \<Rightarrow> registry \<Rightarrow> session \<Rightarrow> registry \<Rightarrow> bool" where
  "file_account l ident r s r' \<longleftrightarrow>
     s_connectionFile s = [] \<and> m_files r' = m_files r
     \<or> s_connectionFile s = connection_path l ident
       \<and> (m_files r' = m_files r \<or> (\<exists>j. m_files r' = obj_put (connection_path l ident) j (m_files r)))"

lemma kernel_started:
  assumes "launch_ok l ident r"
  shows "\<exists>t s r'. start_kernel l r opts popts (new_Session ident opts) = Some (t, s, r')
     \<and> (sess_ok False s \<or> s_process s = None \<and> t \<noteq> None) \<and> s_id s = ident \<and> s_options s = opts \<and> s_owner s = None
     \<and> m_sessions r' = m_sessions r \<and> m_held r' = m_held r \<and> m_dead r' = m_dead r \<and> file_account l ident r s r'"
proof (cases "o_kernelType opts = ''jupyter''")
  case True
  obtain t s fs where j: "startJupyterKernel l opts popts (new_Session ident opts) (m_files r) = Some (t, s, fs)"
    "sess_ok False s \<or> s_process s = None \<and> t \<noteq> None" "s_id s = ident" "s_options s = opts" "s_owner s = None"
    "s_connectionFile s = connection_path l ident"
    "fs = m_files r \<and> t \<noteq> None \<or> (\<exists>j. fs = obj_put (connection_path l ident) j (m_files r))"
    using jupyter_started [OF assms, of opts popts] by blast
  then have "file_account l ident r s (r\<lparr>m_files := fs\<rparr>)" by (auto simp: file_account_def)
  moreover have "start_kernel l r opts popts (new_Session ident opts) = Some (t, s, r\<lparr>m_files := fs\<rparr>)"
    using True j(1) by (simp add: start_kernel_def)
  ultimately show ?thesis using j by simp
next
  case False
  then have "start_kernel l r opts popts (new_Session ident opts)
      = startRegisteredKernel l r opts popts (new_Session ident opts)" by (simp add: start_kernel_def)
  then show ?thesis using registered_started [OF assms, of opts popts] by (simp add: file_account_def) blast
qed

lemma file_account_registration:
  assumes "file_account l ident r s r'" "launch_ok l ident r"
  shows "registration_path l ident \<notin> fst ` set (m_files r')"
proof -
  have ne: "registration_path l ident \<noteq> connection_path l ident"
    by (simp add: registration_path_def connection_path_def)
  have out: "registration_path l ident \<notin> fst ` set (m_files r)" using assms(2) by (simp add: launch_ok_def)
  have "m_files r' = m_files r \<or> (\<exists>j. m_files r' = obj_put (connection_path l ident) j (m_files r))"
    using assms(1) unfolding file_account_def by blast
  moreover have "fst ` set (obj_put (connection_path l ident) j (m_files r))
      = insert (connection_path l ident) (fst ` set (m_files r))" for j
    using fst_obj_put [of "connection_path l ident" j "m_files r"] by simp
  ultimately show ?thesis using ne out by (metis insertE)
qed

lemma file_account_cleared:
  assumes "file_account l ident r s r'" "launch_ok l ident r"
  shows "(if s_connectionFile s = [] then m_files r' else remove_file (s_connectionFile s) (m_files r')) = m_files r"
proof -
  have new: "connection_path l ident \<notin> fst ` set (m_files r)" using assms(2) by (simp add: launch_ok_def)
  show ?thesis
  proof (cases "s_connectionFile s = []")
    case True
    then have "s_connectionFile s \<noteq> connection_path l ident" using connection_path_nonempty(1) by metis
    then show ?thesis using assms(1) True by (simp add: file_account_def)
  next
    case False
    then have "s_connectionFile s = connection_path l ident" "m_files r' = m_files r
        \<or> (\<exists>j. m_files r' = obj_put (connection_path l ident) j (m_files r))"
      using assms(1) unfolding file_account_def by blast+
    then show ?thesis using False fresh_file_removed [OF new] absent_file_kept [OF new] by auto
  qed
qed


definition plain_launch :: launch where
  "plain_launch = \<lparr>l_is_regular_file = (\<lambda>p. p = ''/opt/elara''), l_absolute = Some, l_os = plain_os, l_guid = ''g'',
     l_ports = [''1'', ''2'', ''3'', ''4'', ''5''], l_temp = ''/tmp'', l_meanwhile = [AskAlive],
     l_answer = Inl (RuntimeError ''timed out'')\<rparr>"


section \<open>Restarting a Jupyter kernel\<close>

lemma start_process_file [simp]: "s_connectionFile (snd (start_process l popts s)) = s_connectionFile s"
  "s_id (snd (start_process l popts s)) = s_id s"
  by (simp_all add: start_process_def Let_def split: sum.split)

lemma jupyter_connection_file:
  assumes "startJupyterKernel l opts popts s fs = Some (t, s', fs')"
  shows "s_connectionFile s' = connection_path l (s_id s) \<and> s_id s' = s_id s"
  using assms
  by (auto simp: startJupyterKernel_def Let_def case_prod_unfold split: option.splits sum.splits if_splits)

lemma created_jupyter_session:
  assumes "createSessionWithId what l ident opts r = Some ((ident, err), r')" "ident \<noteq> []"
    and "o_kernelType opts = ''jupyter''"
  shows "\<exists>s. getSession ident r' = Some s \<and> s_connectionFile s = connection_path l ident"
proof -
  have "kernel_exe r opts \<noteq> []" "l_is_regular_file l (kernel_exe r opts)"
    using assms(1,2) by (auto simp: createSessionWithId_def Let_def split: if_splits)
  then obtain s r1 where s: "start_kernel l r opts (proc_options r opts (kernel_exe r opts)) (new_Session ident opts)
      = Some (None, s, r1)" and r': "r' = kernel_ready s r1"
    using assms(1,2) by (auto simp: createSessionWithId_def Let_def split: option.splits)
  then obtain fs where "startJupyterKernel l opts (proc_options r opts (kernel_exe r opts)) (new_Session ident opts)
      (m_files r) = Some (None, s, fs)"
    using assms(3) by (auto simp: start_kernel_def)
  then have "s_connectionFile s = connection_path l ident" "s_id s = ident"
    using jupyter_connection_file by (fastforce simp: new_Session_def)+
  then show ?thesis using r' by (simp add: kernel_ready_def getSession_def)
qed

text \<open>C24. A successful restart of a Jupyter kernel removes the connection file of the kernel it has just
  started: the old session, which the restart refers to until it returns, has the same identifier, hence
  the same file, and removes it when it goes.\<close>

theorem restart_removes_the_new_connection_file:
  assumes "getSession ident r = Some s" "sess_ok calm s" "calm_ticks calm ticks"
    and "o_kernelType (s_options s) = ''jupyter''" "s_connectionFile s = connection_path l ident" "s_owner s = None"
    and "restartSession what (sleeping parse dump ticks) fresh l ident None r = Some ((ident, err), r')" "ident \<noteq> []"
  shows "\<exists>s'. getSession ident r' = Some s' \<and> s_connectionFile s' = connection_path l ident
    \<and> connection_path l ident \<notin> fst ` set (m_files r')"
proof -
  let ?r1 = "r\<lparr>m_sessions := filter (\<lambda>e. fst e \<noteq> ident) (m_sessions r)\<rparr>"
  obtain s1 w where s1: "stop_and_unregister (sleeping parse dump ticks) fresh ident True s r = Some (s1, ?r1)"
    "s_process s1 = Some w" "world_ok w" "gone w" "s_owner s1 = None" "s_connectionFile s1 = connection_path l ident"
    using stop_and_unregister_total [OF assms(2,3), of parse dump fresh ident True r] assms(5,6) by auto
  obtain r2 where r2: "createSessionWithId what l ident (s_options s) ?r1 = Some ((ident, err), r2)"
    "release_Session s1 r2 = Some r'"
    using assms(1,7) s1(1) by (auto simp: restartSession_def split: option.splits)
  have "m_sessions r' = m_sessions r2 \<and> m_files r' = remove_file (connection_path l ident) (m_files r2)"
    using release_gone [OF s1(2,4,3), of r2] r2(2) s1(5,6) by auto
  then show ?thesis
    using created_jupyter_session [OF r2(1) assms(8,4)] by (auto simp: getSession_def remove_file_def)
qed

definition jupyter_options :: SessionOptions where
  "jupyter_options = default_options\<lparr>o_kernelType := ''jupyter'', o_kernelArgv := [''/opt/java'', ''{connection_file}'']\<rparr>"

definition good_os :: os_answers where
  "good_os = plain_os\<lparr>execv_errno := (\<lambda>_ _ _. None)\<rparr>"

definition jupyter_launch :: launch where
  "jupyter_launch = plain_launch\<lparr>l_is_regular_file := (\<lambda>p. p = ''/opt/java''), l_os := good_os\<rparr>"

definition jupyter_registry :: registry where
  "jupyter_registry = plain_registry\<lparr>m_sessions := [(''s1'', plain_session\<lparr>s_options := jupyter_options, s_owner := None,
     s_connectionFile := connection_path jupyter_launch ''s1''\<rparr>)]\<rparr>"

lemma plain_ports: "free_ports 5 [] [''1'', ''2'', ''3'', ''4'', ''5''] = Some [''1'', ''2'', ''3'', ''4'', ''5'']"
  by code_simp

lemma plain_connection: "connection_json k [''1'', ''2'', ''3'', ''4'', ''5''] \<noteq> Inl e"
proof -
  have "stoi ''1'' = Inr 1" "stoi ''2'' = Inr 2" "stoi ''3'' = Inr 3" "stoi ''4'' = Inr 4" "stoi ''5'' = Inr 5"
    by (simp_all add: stoi_def isdigit_def isspace_def)
  then show ?thesis by (simp add: connection_json_def)
qed

lemma good_start:
  "workingDirectory (m_options p) = [] \<Longrightarrow> \<exists>q. outcome (Process.start good_os p) = Inr q"
  by (simp add: Process.start_def validateWorkingDirectory_def parent_after_fork_def child_after_fork_def Let_def
      good_os_def plain_os_def)

lemma jupyter_created:
  "\<exists>err r'. createSessionWithId what jupyter_launch ''s1'' jupyter_options r = Some ((''s1'', err), r')"
proof -
  have l: "l_ports jupyter_launch = [''1'', ''2'', ''3'', ''4'', ''5'']" "l_os jupyter_launch = good_os"
    "l_is_regular_file jupyter_launch ''/opt/java''"
    by (simp_all add: jupyter_launch_def plain_launch_def)
  have o: "kernel_exe r jupyter_options = ''/opt/java''" "o_kernelType jupyter_options = ''jupyter''"
    "o_kernelArgv jupyter_options = [''/opt/java'', ''{connection_file}'']" "o_workingDirectory jupyter_options = []"
    by (simp_all add: jupyter_options_def kernel_exe_def default_options_def)
  obtain j where j: "connection_json (l_guid jupyter_launch) [''1'', ''2'', ''3'', ''4'', ''5''] = Inr j"
    using plain_connection by (metis sumE)
  have started: "fst (start_process jupyter_launch popts s) = None" if "workingDirectory popts = []" for popts s
    using good_start [of "new_KernelProcess (l_absolute jupyter_launch) popts"] that l(2)
    by (auto simp: start_process_def new_KernelProcess_def new_options_def split: option.split)
  have "\<exists>s fs. startJupyterKernel jupyter_launch jupyter_options (proc_options r jupyter_options ''/opt/java'')
      (new_Session ''s1'' jupyter_options) (m_files r) = Some (None, s, fs)"
    using started o(4)
    by (simp add: startJupyterKernel_def l(1) plain_ports j o(3) Let_def proc_options_def case_prod_unfold)
  then have "\<exists>s r'. start_kernel jupyter_launch r jupyter_options (proc_options r jupyter_options ''/opt/java'')
      (new_Session ''s1'' jupyter_options) = Some (None, s, r')"
    using o(2) by (auto simp: start_kernel_def)
  then show ?thesis using l(3) o(1) by (auto simp: createSessionWithId_def Let_def)
qed

theorem restart_removes_the_new_connection_file_witness:
  "\<exists>err r' s'. restartSession (\<lambda>_. []) (sleeping (\<lambda>_. JNull) (\<lambda>_. Inr ''{}'') (\<lambda>i. [Poll_Turn])) (''i'', ''d'')
        jupyter_launch ''s1'' None jupyter_registry = Some ((''s1'', err), r')
     \<and> getSession ''s1'' r' = Some s' \<and> s_connectionFile s' = ''/tmp/jovian-kernel-s1.json''
     \<and> ''/tmp/jovian-kernel-s1.json'' \<notin> fst ` set (m_files r')"
proof -
  let ?s = "plain_session\<lparr>s_options := jupyter_options, s_owner := None,
     s_connectionFile := connection_path jupyter_launch ''s1''\<rparr>"
  let ?sl = "sleeping (\<lambda>_. JNull) (\<lambda>_. Inr ''{}'') (\<lambda>i. [Poll_Turn])"
  let ?r = jupyter_registry
  let ?r1 = "?r\<lparr>m_sessions := filter (\<lambda>e. fst e \<noteq> ''s1'') (m_sessions ?r)\<rparr>"
  have ok: "sess_ok True ?s"
    by (simp add: sess_ok_def plain_session_def world_ok_def never_stopped_def started_def plain_process_def
        new_KernelProcess_def)
  have calm: "calm_ticks True (\<lambda>i. [Poll_Turn])" by (simp add: calm_ticks_def calm_event_def)
  have get: "getSession ''s1'' ?r = Some ?s" by (simp add: getSession_def jupyter_registry_def)
  have opts: "s_options ?s = jupyter_options" by simp
  obtain s1 w where s1: "stop_and_unregister ?sl (''i'', ''d'') ''s1'' True ?s ?r = Some (s1, ?r1)"
    "s_process s1 = Some w" "world_ok w" "gone w"
    using stop_and_unregister_total [OF ok calm, of "\<lambda>_. JNull" "\<lambda>_. Inr ''{}''" "(''i'', ''d'')" "''s1''" True ?r] by blast
  obtain err r2 where r2: "createSessionWithId (\<lambda>_. []) jupyter_launch ''s1'' jupyter_options ?r1 = Some ((''s1'', err), r2)"
    using jupyter_created by blast
  obtain r3 where r3: "release_Session s1 r2 = Some r3" using release_gone [OF s1(2,4,3)] by blast
  have re: "restartSession (\<lambda>_. []) ?sl (''i'', ''d'') jupyter_launch ''s1'' None ?r = Some ((''s1'', err), r3)"
    unfolding restartSession_def get option.case Let_def opts using s1(1) r2 r3 by simp
  have type: "o_kernelType (s_options ?s) = ''jupyter''" by (simp add: jupyter_options_def)
  have path: "connection_path jupyter_launch ''s1'' = ''/tmp/jovian-kernel-s1.json''"
    by (simp add: connection_path_def jupyter_launch_def plain_launch_def)
  have "\<exists>s'. getSession ''s1'' r3 = Some s' \<and> s_connectionFile s' = connection_path jupyter_launch ''s1''
    \<and> connection_path jupyter_launch ''s1'' \<notin> fst ` set (m_files r3)"
    by (rule restart_removes_the_new_connection_file [OF get ok calm type _ _ re]) simp_all
  then show ?thesis using re unfolding path by blast
qed

section \<open>What clients can make a kernel receive\<close>

datatype client_op =
    Execute "string \<times> string" string string string json
  | Request "string \<times> string" string string string string json
  | History "string \<times> string" string string json
  | Interrupt "string \<times> string" string string
  | Input_Reply "string \<times> string" string string

fun client_step :: "printer \<Rightarrow> client_op \<Rightarrow> registry \<Rightarrow> registry" where
  "client_step dump (Execute fresh sid mid code opts) r = snd (sendExecute fresh sid mid code opts r)"
| "client_step dump (Request fresh sid ch ty mid cont) r = snd (fst (sendRequest dump fresh sid ch ty mid cont r))"
| "client_step dump (History fresh sid mid opts) r = snd (sendHistory dump fresh sid mid opts r)"
| "client_step dump (Interrupt fresh sid mid) r = snd (sendInterrupt dump fresh sid mid r)"
| "client_step dump (Input_Reply fresh sid val) r = snd (sendInputReply fresh sid val r)"

definition typed_in :: "string list \<Rightarrow> message \<Rightarrow> bool" where
  "typed_in tys m \<longleftrightarrow> (\<exists>t \<in> set tys. json_lookup (m_header m) ''msg_type'' = Some (JString t))"

definition client_clean :: "client \<Rightarrow> bool" where
  "client_clean c \<longleftrightarrow> list_all (typed_in (''execute_request'' # kShellRequests)) (shell_out c)
     \<and> list_all (typed_in kControlRequests) (control_out c) \<and> list_all (typed_in [''input_reply'']) (stdin_out c)"

definition clean_session :: "session \<Rightarrow> bool" where
  "clean_session s \<longleftrightarrow> (case s_client s of None \<Rightarrow> True | Some c \<Rightarrow> client_clean c)"

definition clean :: "registry \<Rightarrow> bool" where
  "clean r \<longleftrightarrow> (\<forall>e \<in> set (m_sessions r). clean_session (snd e))"

lemma set_obj_put: "set (obj_put k v es) \<subseteq> insert (k, v) (set es)"
  by (induction es) auto

lemma clean_set_session: "clean r \<Longrightarrow> clean_session s \<Longrightarrow> clean (set_session s sid r)"
  using set_obj_put [of sid s "m_sessions r"] by (fastforce simp: clean_def set_session_def)

lemma clean_get: "clean r \<Longrightarrow> getSession sid r = Some s \<Longrightarrow> clean_session s"
  by (auto simp: clean_def getSession_def dest!: map_of_SomeD)

lemma request_header_type:
  "request_header fresh ty sid mid = Inr h \<Longrightarrow> json_lookup h ''msg_type'' = Some (JString ty)"
  unfolding request_header_def by (simp add: json_lookup_put json_simps)

lemma client_request_header [simp]: "m_header (client_request h c) = h"
  by (simp add: client_request_def)

lemma sendExecute_clean: "clean r \<Longrightarrow> clean (snd (sendExecute fresh sid mid code opts r))"
proof -
  assume cl: "clean r"
  show ?thesis
  proof (cases "getSession sid r")
    case (Some s)
    then have s: "clean_session s" using cl clean_get by blast
    show ?thesis
    proof (cases "s_client s")
      case (Some c)
      show ?thesis
        using cl s Some \<open>getSession sid r = Some s\<close>
        by (auto simp: sendExecute_def result_simps clean_session_def client_clean_def typed_in_def
            dest: request_header_type intro!: clean_set_session split: sum.split)
    qed (use cl Some in \<open>simp add: sendExecute_def\<close>)
  qed (use cl in \<open>simp add: sendExecute_def\<close>)
qed

lemma interrupt_by_signal_clean:
  "clean r \<Longrightarrow> clean_session s \<Longrightarrow> clean (snd (interrupt_by_signal dump sid mid s r))"
  by (auto simp: interrupt_by_signal_def clean_session_def emitMessage_def case_prod_unfold Let_def
      intro!: clean_set_session split: option.splits sum.splits)

lemma request_allowed_cases:
  "request_allowed ch ty \<Longrightarrow> ch = ''shell'' \<and> ty \<in> set kShellRequests \<or> ch = ''control'' \<and> ty \<in> set kControlRequests"
  by (auto simp: request_allowed_def Let_def)

lemma sendRequest_clean:
  assumes cl: "clean r"
  shows "clean (snd (fst (sendRequest dump fresh sid ch ty mid cont r)))"
proof (cases "request_allowed ch ty")
  case True
  note allowed = request_allowed_cases [OF True]
  show ?thesis
  proof (cases "getSession sid r")
    case (Some s)
    then have s: "clean_session s" using cl clean_get by blast
    note get = Some
    show ?thesis
    proof (cases "s_client s")
      case (Some c)
      have sent: "clean_session (s\<lparr>s_client := Some (send_on (if ch = ''control'' then OnControl else OnShell)
          (client_request h x) c)\<rparr>)" if "request_header fresh ty sid mid = Inr h" for h x
        using s Some allowed request_header_type [OF that]
        by (auto simp: clean_session_def client_clean_def typed_in_def)
      show ?thesis
        using True get Some cl s sent interrupt_by_signal_clean [OF cl s]
        by (auto simp: sendRequest_def Let_def intro!: clean_set_session split: sum.split)
    qed (use cl True get in \<open>simp add: sendRequest_def\<close>)
  qed (use cl True in \<open>simp add: sendRequest_def\<close>)
qed (use cl in \<open>simp add: sendRequest_def\<close>)

lemma sendInputReply_clean: "clean r \<Longrightarrow> clean (snd (sendInputReply fresh sid val r))"
  using clean_get [of r sid]
  by (auto simp: sendInputReply_def Let_def clean_session_def client_clean_def typed_in_def makeHeader_fields
      intro!: clean_set_session split: option.split)

lemma client_step_clean: "clean r \<Longrightarrow> clean (client_step dump op r)"
  by (cases op) (auto simp: sendExecute_clean sendRequest_clean sendInputReply_clean sendHistory_def sendInterrupt_def
      split: sum.split)

interpretation client_ops: event_system "client_step dump" "\<lambda>_. True" clean for dump
  by unfold_locales (rule client_step_clean)

text \<open>C21. No sequence of client operations makes a kernel receive anything but what the supervisor
  allows: on the shell channel executions and the nine listed requests, on the control channel
  interrupts and debug requests, on the stdin channel input replies. In particular no client can send a
  shutdown request.\<close>

theorem kernels_receive_only_allowed_requests:
  assumes "clean r" "getSession sid (fold (client_step dump) ops r) = Some s" "s_client s = Some c"
  shows "list_all (typed_in (''execute_request'' # kShellRequests)) (shell_out c)
    \<and> list_all (typed_in kControlRequests) (control_out c) \<and> list_all (typed_in [''input_reply'']) (stdin_out c)"
proof -
  have "clean (fold (client_step dump) ops r)"
    by (rule client_ops.schedule_inv) (use assms(1) in \<open>simp_all add: list_all_iff\<close>)
  then show ?thesis using clean_get [OF _ assms(2)] assms(3) by (auto simp: clean_session_def client_clean_def)
qed

theorem kernels_receive_only_allowed_requests_witness:
  "\<exists>s c. getSession ''s1'' (fold (client_step (\<lambda>_. Inr ''{}''))
        [Request (''i'', ''d'') ''s1'' ''control'' ''shutdown_request'' ''m'' (JObject []),
         Input_Reply (''i'', ''d'') ''s1'' ''v''] plain_registry) = Some s
     \<and> s_client s = Some c \<and> control_out c = [] \<and> length (stdin_out c) = 1
     \<and> list_all (typed_in [''input_reply'']) (stdin_out c)"
proof -
  let ?ops = "[Request (''i'', ''d'') ''s1'' ''control'' ''shutdown_request'' ''m'' (JObject []),
         Input_Reply (''i'', ''d'') ''s1'' ''v'']"
  have clean: "clean plain_registry"
    by (simp add: clean_def plain_registry_def clean_session_def plain_session_def client_clean_def plain_client_def
        new_client_def)
  have ex: "\<exists>s c. getSession ''s1'' (fold (client_step (\<lambda>_. Inr ''{}'')) ?ops plain_registry) = Some s
     \<and> s_client s = Some c \<and> control_out c = [] \<and> length (stdin_out c) = 1"
    by (simp add: sendRequest_def request_allowed_def kControlRequests_def sendInputReply_def getSession_def
        plain_registry_def plain_session_def plain_client_def new_client_def set_session_def Let_def)
  then show ?thesis
    using kernels_receive_only_allowed_requests [OF clean, of "''s1''" "\<lambda>_. Inr ''{}''" ?ops] by blast
qed

end
