(* ===== verification/Front.thy ===== *)
theory Front
  imports Access Registry Outbox
begin

text \<open>The supervisor's front ends and its main program: the HTTP interface
  (\<^verbatim>\<open>themisto/http_api.cpp\<close>), the WebSocket relay (\<^verbatim>\<open>themisto/ws_relay.cpp\<close>), the
  activity they record (\<^verbatim>\<open>themisto/activity.hpp\<close>) and the wait of
  \<^verbatim>\<open>themisto/main.cpp\<close> for a reason to end. The HTTP and WebSocket libraries are what calls these
  handlers: a request is what the library hands over, a response or a frame what it is handed.

  The lemmas show that a refused request changes nothing, what each route answers, that the number of
  open connections the main program consults is the number of accepted connections, and that a
  connection only ever clears callbacks of its own.\<close>

section \<open>Activity\<close>

record activity =
  m_lastMs :: int
  m_connections :: int

definition touch :: "int \<Rightarrow> activity \<Rightarrow> activity" where
  "touch now a = a\<lparr>m_lastMs := now\<rparr>"

definition connectionOpened :: "int \<Rightarrow> activity \<Rightarrow> activity" where
  "connectionOpened now a = touch now (a\<lparr>m_connections := m_connections a + 1\<rparr>)"

definition connectionClosed :: "int \<Rightarrow> activity \<Rightarrow> activity" where
  "connectionClosed now a = touch now (a\<lparr>m_connections := m_connections a - 1\<rparr>)"

definition openConnections :: "activity \<Rightarrow> int" where
  "openConnections a = m_connections a"

definition idleMs :: "int \<Rightarrow> activity \<Rightarrow> int" where
  "idleMs now a = now - m_lastMs a"

section \<open>The main program\<close>

text \<open>\<^verbatim>\<open>parseArgs\<close>, from the arguments after the program's name.\<close>

fun parse_args :: "string list \<Rightarrow> (string \<times> string) list" where
  "parse_args [] = []"
| "parse_args (flag # rest) =
     (if \<not> starts_with flag ''--'' then parse_args rest
      else case rest of
        v # rest' \<Rightarrow>
          if \<not> starts_with v ''--'' then (drop 2 flag, v) # parse_args rest'
          else (drop 2 flag, []) # parse_args rest
      | [] \<Rightarrow> [(drop 2 flag, [])])"

text \<open>The map keeps the last value of a repeated flag.\<close>

definition parseArgs :: "string list \<Rightarrow> string \<Rightarrow> string option" where
  "parseArgs argv = map_of (rev (parse_args (tl argv)))"

text \<open>The token: none with \<^verbatim>\<open>--no-auth\<close>, else the one of the environment, else a new one.\<close>

definition choose_token :: "(string \<Rightarrow> string option) \<Rightarrow> string option \<Rightarrow> string result \<Rightarrow> string result" where
  "choose_token args fromEnv fresh =
     (if args ''no-auth'' \<noteq> None then Inr []
      else case fromEnv of Some t \<Rightarrow> if t \<noteq> [] then Inr t else fresh | None \<Rightarrow> fresh)"

text \<open>One wake-up of the final wait: whether the program goes on to its end.\<close>

definition wakes_to_end :: "bool \<Rightarrow> int \<Rightarrow> int \<Rightarrow> activity \<Rightarrow> bool" where
  "wakes_to_end shutdownRequested idleShutdownMinutes now a \<longleftrightarrow>
     shutdownRequested
     \<or> (idleShutdownMinutes > 0 \<and> openConnections a \<le> 0 \<and> idleMs now a \<ge> idleShutdownMinutes * 60 * 1000)"

text \<open>The end: every session is stopped.\<close>

fun stop_all ::
  "(string \<Rightarrow> nat \<Rightarrow> session \<Rightarrow> session) \<Rightarrow> (string \<Rightarrow> string \<times> string) \<Rightarrow> string list \<Rightarrow> registry \<Rightarrow> registry option" where
  "stop_all sl fresh [] r = Some r"
| "stop_all sl fresh (ident # idents) r =
     (case stopSession (sl ident) (fresh ident) ident False r of
        None \<Rightarrow> None
      | Some (_, r) \<Rightarrow> stop_all sl fresh idents r)"

section \<open>HTTP\<close>

fun string_items :: "json list \<Rightarrow> string list" where
  "string_items [] = []"
| "string_items (JString s # js) = s # string_items js"
| "string_items (_ # js) = string_items js"

fun string_fields :: "(string \<times> json) list \<Rightarrow> (string \<times> string) list" where
  "string_fields [] = []"
| "string_fields ((k, JString s) # es) = (k, s) # string_fields es"
| "string_fields (_ # es) = string_fields es"

definition parseSessionOptions :: "json \<Rightarrow> SessionOptions result" where
  "parseSessionOptions body =
     rbind (value_string body ''kernelType'' ''r'') (\<lambda>kernelType.
     rbind (value_string body ''rHome'' []) (\<lambda>r_home.
     rbind (value_string body ''rPath'' []) (\<lambda>r_path.
     rbind (value_string body ''rLibs'' []) (\<lambda>r_libs.
     rbind (value_string body ''pandocPath'' []) (\<lambda>pandoc.
     rbind (value_string body ''pythonHome'' []) (\<lambda>python_home.
     rbind (value_string body ''pythonPath'' []) (\<lambda>python_path.
     rbind (value_string body ''venvPath'' []) (\<lambda>venv.
     rbind (value_string body ''stataHome'' []) (\<lambda>stata_home.
     rbind (value_string body ''stataEdition'' []) (\<lambda>stata_edition.
     rbind (value_string body ''arkPath'' []) (\<lambda>ark.
     let argv = (case json_lookup body ''kernelArgv'' of Some (JArray js) \<Rightarrow> string_items js | _ \<Rightarrow> []) in
     rbind (value_string body ''kernelInterruptMode'' []) (\<lambda>mode.
     let env = (case json_lookup body ''kernelEnv'' of
         Some (JObject es) \<Rightarrow> fold (\<lambda>kv. obj_put (fst kv) (snd kv)) (string_fields es) [] | _ \<Rightarrow> []) in
     rbind (value_string body ''workingDirectory'' []) (\<lambda>dir.
       Inr \<lparr>o_kernelType = kernelType, o_rHome = r_home, o_rPath = r_path, o_rLibs = r_libs, o_pandocPath = pandoc,
         o_pythonHome = python_home, o_pythonPath = python_path, o_venvPath = venv, o_stataHome = stata_home,
         o_stataEdition = stata_edition, o_arkPath = ark, o_kernelArgv = argv, o_kernelEnv = env,
         o_kernelInterruptMode = mode, o_workingDirectory = dir\<rparr>)))))))))))))"

record http_request =
  q_method :: string
  q_path :: string
  q_target :: string
  q_origin :: string
  q_authorization :: string
  q_body :: string

text \<open>A response: a status and a JSON body, or an exception that leaves the handler (the library then
  answers 500).\<close>

datatype http_response = Answer nat json | Escaped exn

text \<open>What the handlers rely on: the strict parser (\<open>None\<close>: it throws), the text of exceptions, the
  launch, what other threads do during a stop, fresh header fields, a fresh identifier, and the
  description of a session.\<close>

record http_env =
  h_parse :: "string \<Rightarrow> json option"
  h_what :: "exn \<Rightarrow> string"
  h_launch :: launch
  h_sleeping :: "nat \<Rightarrow> session \<Rightarrow> session"
  h_fresh :: "string \<times> string"
  h_guid :: string
  h_json :: "session \<Rightarrow> json result"

record supervisor =
  v_registry :: registry
  v_token :: string
  v_activity :: activity
  v_shutdown :: bool

definition error_json :: "string \<Rightarrow> json" where
  "error_json txt = jobj [(''error'', JString txt)]"

definition answer_json :: "nat \<Rightarrow> json result \<Rightarrow> http_response" where
  "answer_json status j = (case j of Inl e \<Rightarrow> Escaped e | Inr j \<Rightarrow> Answer status j)"

text \<open>\<^verbatim>\<open>POST /sessions\<close>; \<open>None\<close> is a handler that never returns.\<close>

definition post_sessions :: "http_env \<Rightarrow> http_request \<Rightarrow> registry \<Rightarrow> (http_response \<times> registry) option" where
  "post_sessions env q r =
     (case (if q_body q = [] then Some (JObject []) else h_parse env (q_body q)) of
        None \<Rightarrow> Some (Answer 400 (error_json ''invalid JSON body''), r)
      | Some body \<Rightarrow>
          (case parseSessionOptions body of
             Inl e \<Rightarrow> Some (Escaped e, r)
           | Inr opts \<Rightarrow>
               (case createSession (h_what env) (h_launch env) (h_guid env) opts r of
                  None \<Rightarrow> None
                | Some ((ident, err), r) \<Rightarrow>
                    if ident = [] then Some (Answer 500 (error_json err), r)
                    else case getSession ident r of
                      Some s \<Rightarrow> Some (answer_json 200 (h_json env s), r)
                    | None \<Rightarrow> Some (Answer 200 (jobj [(''sessionId'', JString ident), (''status'', JString ''ready''),
                                (''kernelType'', JString (o_kernelType opts))]), r))))"

definition get_session :: "http_env \<Rightarrow> string \<Rightarrow> registry \<Rightarrow> http_response" where
  "get_session env ident r =
     (case getSession ident r of
        None \<Rightarrow> Answer 404 (error_json ''session not found'')
      | Some s \<Rightarrow> answer_json 200 (h_json env s))"

definition delete_session :: "http_env \<Rightarrow> string \<Rightarrow> registry \<Rightarrow> (http_response \<times> registry) option" where
  "delete_session env ident r =
     (case stopSession (h_sleeping env) (h_fresh env) ident False r of
        None \<Rightarrow> None
      | Some (False, r) \<Rightarrow> Some (Answer 404 (error_json ''session not found''), r)
      | Some (True, r) \<Rightarrow>
          Some (Answer 200 (jobj [(''sessionId'', JString ident), (''status'', JString ''stopped'')]), r))"

definition post_restart :: "http_env \<Rightarrow> string \<Rightarrow> http_request \<Rightarrow> registry \<Rightarrow> (http_response \<times> registry) option" where
  "post_restart env ident q r =
     (case (if q_body q = [] then Some None else map_option Some (h_parse env (q_body q))) of
        None \<Rightarrow> Some (Answer 400 (error_json ''invalid JSON body''), r)
      | Some body \<Rightarrow>
          (case (case body of None \<Rightarrow> Inr None | Some j \<Rightarrow> rbind (parseSessionOptions j) (\<lambda>opts. Inr (Some opts))) of
             Inl e \<Rightarrow> Some (Escaped e, r)
           | Inr newOptions \<Rightarrow>
               (case restartSession (h_what env) (h_sleeping env) (h_fresh env) (h_launch env) ident newOptions r of
                  None \<Rightarrow> None
                | Some ((ident', err), r) \<Rightarrow>
                    if ident' = [] then Some (Answer 500 (error_json err), r)
                    else Some (Answer 200 (jobj [(''sessionId'', JString ident'), (''status'', JString ''ready'')]), r))))"

text \<open>The routes: the path's parts between slashes decide.\<close>

datatype route = RCreate | RShutdown | RList | RGet string | RDelete string | RRestart string

fun split_slash :: "string \<Rightarrow> string list" where
  "split_slash [] = [[]]"
| "split_slash (c # cs) =
     (if c = CHR ''/'' then [] # split_slash cs
      else case split_slash cs of [] \<Rightarrow> [[c]] | p # ps \<Rightarrow> (c # p) # ps)"

definition route_of :: "string \<Rightarrow> string \<Rightarrow> route option" where
  "route_of meth path =
     (if meth = ''POST'' \<and> path = ''/sessions'' then Some RCreate
      else if meth = ''POST'' \<and> path = ''/shutdown'' then Some RShutdown
      else if meth = ''GET'' \<and> path = ''/sessions'' then Some RList
      else case split_slash path of
        [[], p, ident] \<Rightarrow>
          if p = ''sessions'' \<and> ident \<noteq> [] then
            (if meth = ''GET'' then Some (RGet ident) else if meth = ''DELETE'' then Some (RDelete ident) else None)
          else None
      | [[], p, ident, t] \<Rightarrow>
          if p = ''sessions'' \<and> ident \<noteq> [] \<and> t = ''restart'' \<and> meth = ''POST'' then Some (RRestart ident) else None
      | _ \<Rightarrow> None)"

definition on_registry :: "supervisor \<Rightarrow> (http_response \<times> registry) option \<Rightarrow> (http_response option \<times> supervisor) option" where
  "on_registry v res = map_option (\<lambda>(resp, r). (Some resp, v\<lparr>v_registry := r\<rparr>)) res"

text \<open>A request that no route takes is answered by the library (\<open>None\<close> as response).\<close>

definition handle_route :: "http_env \<Rightarrow> http_request \<Rightarrow> supervisor \<Rightarrow> (http_response option \<times> supervisor) option" where
  "handle_route env q v =
     (case route_of (q_method q) (q_path q) of
        None \<Rightarrow> Some (None, v)
      | Some RCreate \<Rightarrow> on_registry v (post_sessions env q (v_registry v))
      | Some RShutdown \<Rightarrow> Some (Some (Answer 200 (jobj [(''status'', JString ''shutting down'')])), v\<lparr>v_shutdown := True\<rparr>)
      | Some RList \<Rightarrow>
          Some (Some (answer_json 200 (rbind (listSessions (h_json env) (v_registry v)) (\<lambda>js. Inr (jobj [(''sessions'', js)])))), v)
      | Some (RGet ident) \<Rightarrow> Some (Some (get_session env ident (v_registry v)), v)
      | Some (RDelete ident) \<Rightarrow> on_registry v (delete_session env ident (v_registry v))
      | Some (RRestart ident) \<Rightarrow> on_registry v (post_restart env ident q (v_registry v)))"

definition http_handle :: "http_env \<Rightarrow> int \<Rightarrow> http_request \<Rightarrow> supervisor \<Rightarrow> (http_response option \<times> supervisor) option" where
  "http_handle env now q v =
     (case check (q_origin q) (q_authorization q) (q_target q) (v_token v) of
        Allowed \<Rightarrow> handle_route env q (v\<lparr>v_activity := touch now (v_activity v)\<rparr>)
      | FromBrowser \<Rightarrow> Some (Some (Answer 403 (error_json ''requests from web pages are not accepted'')), v)
      | BadToken \<Rightarrow> Some (Some (Answer 401 (error_json ''missing or wrong access token'')), v))"

section \<open>WebSocket\<close>

fun header_value :: "string \<Rightarrow> (string \<times> string) list \<Rightarrow> string" where
  "header_value name [] = []"
| "header_value name ((k, v) # hs) =
     (if length k = length name \<and> map tolower k = map tolower name then v else header_value name hs)"

definition extractSessionId :: "string \<Rightarrow> string" where
  "extractSessionId uri =
     (case split_slash (pathOf uri) of
        [[], p, ident, t] \<Rightarrow> if p = ''sessions'' \<and> ident \<noteq> [] \<and> t = ''messages'' then ident else []
      | [[], p, ident, t, []] \<Rightarrow> if p = ''sessions'' \<and> ident \<noteq> [] \<and> t = ''messages'' then ident else []
      | _ \<Rightarrow> [])"

text \<open>One connection: the session it is bound to, whether it is counted as open, its outbox, and the
  code the supervisor closed it with.\<close>

record connection =
  k_session :: "string option"
  k_counted :: bool
  k_outbox :: "outbox option"
  k_closed :: "nat option"

definition new_connection :: connection where
  "new_connection = \<lparr>k_session = None, k_counted = False, k_outbox = None, k_closed = None\<rparr>"

text \<open>The relay: the supervisor and its connections, numbered in the order they were opened.\<close>

record relay =
  w_super :: supervisor
  w_conns :: "connection list"

definition push_to :: "nat \<Rightarrow> string \<Rightarrow> relay \<Rightarrow> relay" where
  "push_to i txt w =
     (if i < length (w_conns w)
      then w\<lparr>w_conns := (w_conns w)[i := (w_conns w ! i)\<lparr>k_outbox := map_option (push txt) (k_outbox (w_conns w ! i))\<rparr>]\<rparr>
      else w)"

text \<open>Pushing a JSON value; a value the printer refuses is not sent.\<close>

definition push_json :: "printer \<Rightarrow> nat \<Rightarrow> json \<Rightarrow> relay \<Rightarrow> relay" where
  "push_json dump i j w = (case dump j of Inl _ \<Rightarrow> w | Inr txt \<Rightarrow> push_to i txt w)"

definition set_registry :: "registry \<Rightarrow> relay \<Rightarrow> relay" where
  "set_registry r w = w\<lparr>w_super := (w_super w)\<lparr>v_registry := r\<rparr>\<rparr>"

definition on_activity :: "(activity \<Rightarrow> activity) \<Rightarrow> relay \<Rightarrow> relay" where
  "on_activity f w = w\<lparr>w_super := (w_super w)\<lparr>v_activity := f (v_activity (w_super w))\<rparr>\<rparr>"

definition ws_open :: "printer \<Rightarrow> int \<Rightarrow> (string \<times> string) list \<Rightarrow> string \<Rightarrow> relay \<Rightarrow> relay" where
  "ws_open dump now headers uri w =
     (let i = length (w_conns w);
          verdict = check (header_value ''Origin'' headers) (header_value ''Authorization'' headers) uri (v_token (w_super w))
      in if verdict \<noteq> Allowed
         then w\<lparr>w_conns := w_conns w @ [new_connection\<lparr>k_closed := Some (if verdict = FromBrowser then 4403 else 4401)\<rparr>]\<rparr>
         else
           let w = on_activity (connectionOpened now) w;
               sessionId = extractSessionId uri;
               conn = new_connection\<lparr>k_counted := True, k_outbox := Some Outbox.start\<rparr>
           in case getSession sessionId (v_registry (w_super w)) of
                None \<Rightarrow> w\<lparr>w_conns := w_conns w @ [conn\<lparr>k_closed := Some 1008\<rparr>]\<rparr>
              | Some s \<Rightarrow>
                  push_json dump i (jobj [(''type'', JString ''ready'')])
                    (set_registry (set_session (s\<lparr>s_owner := Some i\<rparr>) sessionId (v_registry (w_super w)))
                      (w\<lparr>w_conns := w_conns w @ [conn\<lparr>k_session := Some sessionId\<rparr>]\<rparr>)))"

text \<open>What a client's frame asks for. An exception anywhere leaves everything as it was.\<close>

definition frame_request ::
  "printer \<Rightarrow> string \<times> string \<Rightarrow> string \<Rightarrow> json \<Rightarrow> registry \<Rightarrow> registry \<times> json option" where
  "frame_request dump fresh sessionId frame r =
     (case rbind (value_string frame ''type'' []) (\<lambda>ty. rbind (value_string frame ''id'' []) (\<lambda>ident. Inr (ty, ident))) of
        Inl _ \<Rightarrow> (r, None)
      | Inr (ty, ident) \<Rightarrow>
          if ty = ''execute'' then
            (case rbind (value_string frame ''code'' []) (\<lambda>code.
                  rbind (value_json frame ''options'' (JObject [])) (\<lambda>opts. Inr (code, opts))) of
               Inl _ \<Rightarrow> (r, None)
             | Inr (code, opts) \<Rightarrow> (snd (sendExecute fresh sessionId ident code opts r), None))
          else if ty = ''inputReply'' then
            (case value_string frame ''value'' [] of
               Inl _ \<Rightarrow> (r, None)
             | Inr v \<Rightarrow> (snd (sendInputReply fresh sessionId v r), None))
          else if ty = ''request'' then
            (case rbind (value_string frame ''channel'' ''shell'') (\<lambda>ch.
                  rbind (value_string frame ''msgType'' []) (\<lambda>msgType.
                  rbind (value_json frame ''content'' (JObject [])) (\<lambda>cont. Inr (ch, msgType, cont)))) of
               Inl _ \<Rightarrow> (r, None)
             | Inr (ch, msgType, cont) \<Rightarrow>
                 (case sendRequest dump fresh sessionId ch msgType ident cont r of
                    ((Inr False, r), err) \<Rightarrow>
                      (r, Some (jobj [(''type'', JString ''requestError''), (''id'', JString ident), (''error'', JString err)]))
                  | ((_, r), _) \<Rightarrow> (r, None)))
          else (r, None))"

definition ws_message ::
  "(string \<Rightarrow> json option) \<Rightarrow> printer \<Rightarrow> string \<times> string \<Rightarrow> int \<Rightarrow> nat \<Rightarrow> string \<Rightarrow> relay \<Rightarrow> relay" where
  "ws_message parse dump fresh now i txt w =
     (if i < length (w_conns w) then
        let w = on_activity (touch now) w
        in case k_session (w_conns w ! i) of
             None \<Rightarrow> w
           | Some sessionId \<Rightarrow>
               (case parse txt of
                  None \<Rightarrow> w
                | Some frame \<Rightarrow>
                    let (r, err) = frame_request dump fresh sessionId frame (v_registry (w_super w))
                    in (case err of None \<Rightarrow> set_registry r w | Some j \<Rightarrow> push_json dump i j (set_registry r w)))
      else w)"

text \<open>The callbacks are cleared if they are still this connection's.\<close>

definition clear_callbacks :: "nat \<Rightarrow> string \<Rightarrow> registry \<Rightarrow> registry" where
  "clear_callbacks i sessionId r =
     (case getSession sessionId r of
        None \<Rightarrow> r
      | Some s \<Rightarrow> if s_owner s = Some i then set_session (s\<lparr>s_owner := None\<rparr>) sessionId r else r)"

definition ws_close :: "int \<Rightarrow> nat \<Rightarrow> relay \<Rightarrow> relay" where
  "ws_close now i w =
     (if i < length (w_conns w) then
        let conn = w_conns w ! i;
            w = (if k_counted conn then on_activity (connectionClosed now) w else w);
            w = (case k_session conn of
                   None \<Rightarrow> w
                 | Some sessionId \<Rightarrow> set_registry (clear_callbacks i sessionId (v_registry (w_super w))) w)
        in w\<lparr>w_conns := (w_conns w)[i := conn\<lparr>k_counted := False, k_outbox := map_option Outbox.abandon (k_outbox conn)\<rparr>]\<rparr>
      else w)"

text \<open>What a session's thread does, with the callbacks it calls: frames, then exit notices, go to the
  owner's outbox.\<close>

definition exit_json :: "string \<Rightarrow> json" where
  "exit_json reason = jobj [(''type'', JString ''kernelExit''), (''reason'', JString reason)]"

definition run_callbacks :: "printer \<Rightarrow> string \<Rightarrow> relay \<Rightarrow> relay" where
  "run_callbacks dump sessionId w =
     (case getSession sessionId (v_registry (w_super w)) of
        None \<Rightarrow> w
      | Some s \<Rightarrow>
          fold (\<lambda>(i, reason). push_json dump i (exit_json reason)) (s_exits s)
            (fold (\<lambda>(i, txt). push_to i txt) (s_frames s)
              (set_registry (set_session (s\<lparr>s_frames := [], s_exits := []\<rparr>) sessionId (v_registry (w_super w))) w)))"

definition session_turn :: "parser \<Rightarrow> printer \<Rightarrow> string \<Rightarrow> session_event \<Rightarrow> relay \<Rightarrow> relay" where
  "session_turn parse dump sessionId e w =
     (case getSession sessionId (v_registry (w_super w)) of
        None \<Rightarrow> w
      | Some s \<Rightarrow> run_callbacks dump sessionId
          (set_registry (set_session (session_step parse dump e s) sessionId (v_registry (w_super w))) w))"

section \<open>The whole supervisor as events\<close>

datatype relay_event =
    Http http_env int http_request
  | Opened int "(string \<times> string) list" string
  | Received "string \<times> string" int nat string
  | Closed int nat
  | Session_Turn string session_event

record relay_env =
  e_strict :: "string \<Rightarrow> json option"
  e_parse :: parser
  e_dump :: printer

fun relay_step :: "relay_env \<Rightarrow> relay_event \<Rightarrow> relay \<Rightarrow> relay" where
  "relay_step E (Http env now q) w =
     (case http_handle env now q (w_super w) of None \<Rightarrow> w | Some (_, v) \<Rightarrow> w\<lparr>w_super := v\<rparr>)"
| "relay_step E (Opened now headers uri) w = ws_open (e_dump E) now headers uri w"
| "relay_step E (Received fresh now i txt) w = ws_message (e_strict E) (e_dump E) fresh now i txt w"
| "relay_step E (Closed now i) w = ws_close now i w"
| "relay_step E (Session_Turn sessionId e) w = session_turn (e_parse E) (e_dump E) sessionId e w"

section \<open>Open connections\<close>

definition accepted :: "relay \<Rightarrow> nat" where
  "accepted w = length (filter k_counted (w_conns w))"

definition counts_connections :: "relay \<Rightarrow> bool" where
  "counts_connections w \<longleftrightarrow> openConnections (v_activity (w_super w)) = int (accepted w)"

lemma filter_update_same:
  "i < length xs \<Longrightarrow> P y = P (xs ! i) \<Longrightarrow> length (filter P (xs[i := y])) = length (filter P xs)"
  by (induction xs arbitrary: i) (auto simp: nth_Cons split: nat.splits)

lemma filter_update_drop:
  "i < length xs \<Longrightarrow> P (xs ! i) \<Longrightarrow> \<not> P y \<Longrightarrow> Suc (length (filter P (xs[i := y]))) = length (filter P xs)"
  by (induction xs arbitrary: i) (auto simp: nth_Cons split: nat.splits)

lemma push_to_keeps [simp]: "w_super (push_to i txt w) = w_super w" "accepted (push_to i txt w) = accepted w"
  by (simp_all add: push_to_def accepted_def filter_update_same)

lemma push_json_keeps [simp]: "w_super (push_json dump i j w) = w_super w" "accepted (push_json dump i j w) = accepted w"
  by (simp_all add: push_json_def split: sum.split)

lemma set_registry_keeps [simp]:
  "accepted (set_registry r w) = accepted w" "v_activity (w_super (set_registry r w)) = v_activity (w_super w)"
  "w_conns (set_registry r w) = w_conns w" "v_registry (w_super (set_registry r w)) = r"
  "v_shutdown (w_super (set_registry r w)) = v_shutdown (w_super w)" "v_token (w_super (set_registry r w)) = v_token (w_super w)"
  by (simp_all add: set_registry_def accepted_def)

lemma on_activity_keeps [simp]:
  "accepted (on_activity f w) = accepted w" "w_conns (on_activity f w) = w_conns w"
  "v_activity (w_super (on_activity f w)) = f (v_activity (w_super w))"
  "v_registry (w_super (on_activity f w)) = v_registry (w_super w)"
  "v_shutdown (w_super (on_activity f w)) = v_shutdown (w_super w)" "v_token (w_super (on_activity f w)) = v_token (w_super w)"
  by (simp_all add: on_activity_def accepted_def)

lemma activity_counts [simp]:
  "openConnections (touch now a) = openConnections a" "openConnections (connectionOpened now a) = openConnections a + 1"
  "openConnections (connectionClosed now a) = openConnections a - 1"
  by (simp_all add: openConnections_def touch_def connectionOpened_def connectionClosed_def)

lemma fold_push [simp]:
  "w_super (fold (\<lambda>(i, txt). push_to i txt) fs w) = w_super w"
  "accepted (fold (\<lambda>(i, txt). push_to i txt) fs w) = accepted w"
  "w_super (fold (\<lambda>(i, t). push_json dump i (f t)) gs w) = w_super w"
  "accepted (fold (\<lambda>(i, t). push_json dump i (f t)) gs w) = accepted w"
  by (induction fs arbitrary: w; auto)+ (induction gs arbitrary: w; auto)+

lemma on_registry_keeps:
  "on_registry v res = Some (resp, v') \<Longrightarrow>
     v_activity v' = v_activity v \<and> v_token v' = v_token v \<and> v_shutdown v' = v_shutdown v"
  by (auto simp: on_registry_def)

lemma handle_route_keeps:
  "handle_route env q v = Some (resp, v') \<Longrightarrow> v_activity v' = v_activity v \<and> v_token v' = v_token v"
  by (auto simp: handle_route_def dest: on_registry_keeps split: option.splits route.splits)

lemma http_handle_keeps:
  "http_handle env now q v = Some (resp, v') \<Longrightarrow>
     openConnections (v_activity v') = openConnections (v_activity v) \<and> v_token v' = v_token v"
  by (auto simp: http_handle_def dest: handle_route_keeps split: Verdict.splits)

lemma ws_open_counts: "counts_connections w \<Longrightarrow> counts_connections (ws_open dump now hs uri w)"
  by (auto simp: ws_open_def Let_def counts_connections_def split: option.split)
    (auto simp: accepted_def new_connection_def)

lemma ws_message_counts: "counts_connections w \<Longrightarrow> counts_connections (ws_message parse dump fresh now i txt w)"
  by (auto simp: ws_message_def Let_def counts_connections_def split: option.split prod.split)

lemma ws_close_accepted:
  assumes "i < length (w_conns w)"
  shows "int (accepted (ws_close now i w)) = int (accepted w) - (if k_counted (w_conns w ! i) then 1 else 0)"
proof -
  have "w_conns (ws_close now i w) = (w_conns w)[i := (w_conns w ! i)\<lparr>k_counted := False,
      k_outbox := map_option Outbox.abandon (k_outbox (w_conns w ! i))\<rparr>]"
    using assms by (simp add: ws_close_def Let_def split: option.split)
  then show ?thesis
    using assms
      filter_update_drop [of i "w_conns w" k_counted "(w_conns w ! i)\<lparr>k_counted := False,
        k_outbox := map_option Outbox.abandon (k_outbox (w_conns w ! i))\<rparr>"]
      filter_update_same [of i "w_conns w" k_counted "(w_conns w ! i)\<lparr>k_counted := False,
        k_outbox := map_option Outbox.abandon (k_outbox (w_conns w ! i))\<rparr>"]
    by (cases "k_counted (w_conns w ! i)") (simp_all add: accepted_def)
qed

lemma ws_close_counts: "counts_connections w \<Longrightarrow> counts_connections (ws_close now i w)"
proof (cases "i < length (w_conns w)")
  case True
  assume "counts_connections w"
  moreover have "openConnections (v_activity (w_super (ws_close now i w)))
      = openConnections (v_activity (w_super w)) - (if k_counted (w_conns w ! i) then 1 else 0)"
    using True by (simp add: ws_close_def Let_def split: option.split)
  ultimately show ?thesis using ws_close_accepted [OF True, of now] by (simp add: counts_connections_def)
qed (simp add: ws_close_def)

lemma run_callbacks_keeps [simp]:
  "v_activity (w_super (run_callbacks dump sid w)) = v_activity (w_super w)"
  "accepted (run_callbacks dump sid w) = accepted w"
  by (simp_all add: run_callbacks_def split: option.split)

lemma session_turn_counts: "counts_connections w \<Longrightarrow> counts_connections (session_turn parse dump sid e w)"
  by (auto simp: session_turn_def counts_connections_def split: option.split)

lemma relay_step_counts: "counts_connections w \<Longrightarrow> counts_connections (relay_step E e w)"
proof (cases e)
  case (Http env now q)
  assume "counts_connections w"
  then show ?thesis
    using Http http_handle_keeps [of env now q "w_super w"]
    by (auto simp: counts_connections_def accepted_def split: option.split)
qed (simp_all add: ws_open_counts ws_message_counts ws_close_counts session_turn_counts)

interpretation relay_count: event_system "relay_step E" "\<lambda>_. True" counts_connections for E
  by unfold_locales (rule relay_step_counts)

definition new_relay :: "registry \<Rightarrow> string \<Rightarrow> int \<Rightarrow> relay" where
  "new_relay r token now =
     \<lparr>w_super = \<lparr>v_registry = r, v_token = token, v_activity = \<lparr>m_lastMs = now, m_connections = 0\<rparr>, v_shutdown = False\<rparr>,
      w_conns = []\<rparr>"

text \<open>C23. Through any sequence of requests, connections, frames, disconnections and session events, the
  number of open connections that is recorded is the number of accepted connections not yet closed. So
  the supervisor does not end for idleness while an accepted connection is open, however long ago the
  last activity was.\<close>

theorem no_idle_shutdown_with_a_client:
  assumes "i < length (w_conns (fold (relay_step E) es (new_relay r token now)))"
    and "k_counted (w_conns (fold (relay_step E) es (new_relay r token now)) ! i)"
  shows "openConnections (v_activity (w_super (fold (relay_step E) es (new_relay r token now))))
      = int (accepted (fold (relay_step E) es (new_relay r token now)))
    \<and> \<not> wakes_to_end False minutes later (v_activity (w_super (fold (relay_step E) es (new_relay r token now))))"
proof -
  let ?w = "fold (relay_step E) es (new_relay r token now)"
  have "counts_connections (new_relay r token now)"
    by (simp add: counts_connections_def new_relay_def openConnections_def accepted_def)
  then have "counts_connections ?w"
    using relay_count.schedule_inv [of es] by (simp add: list_all_iff)
  moreover have "w_conns ?w ! i \<in> set (filter k_counted (w_conns ?w))" using assms by simp
  then have "0 < accepted ?w" by (auto simp: accepted_def simp del: set_filter dest: length_pos_if_in_set)
  ultimately show ?thesis by (simp add: counts_connections_def wakes_to_end_def)
qed

definition plain_env :: relay_env where
  "plain_env = \<lparr>e_strict = (\<lambda>_. None), e_parse = (\<lambda>_. JNull), e_dump = (\<lambda>_. Inr ''{}'')\<rparr>"

theorem no_idle_shutdown_with_a_client_witness:
  "\<not> wakes_to_end False 1 100000000
     (v_activity (w_super (fold (relay_step plain_env) [Opened 0 [] ''/sessions/s1/messages''] (new_relay plain_registry [] 0))))"
proof -
  let ?w = "fold (relay_step plain_env) [Opened 0 [] ''/sessions/s1/messages''] (new_relay plain_registry [] 0)"
  have "length (w_conns ?w) = 1 \<and> k_counted (w_conns ?w ! 0)"
    by (simp add: ws_open_def new_relay_def fromBrowser_def check_def plain_env_def extractSessionId_def pathOf_def
        getSession_def plain_registry_def push_json_def push_to_def new_connection_def Let_def set_registry_def on_activity_def)
  then show ?thesis
    using no_idle_shutdown_with_a_client
      [of 0 plain_env "[Opened 0 [] ''/sessions/s1/messages'']" plain_registry "[]" 0 1 100000000] by simp
qed

section \<open>Clients without the token\<close>

fun outsider :: "string \<Rightarrow> relay_event \<Rightarrow> bool" where
  "outsider token (Http env now q) \<longleftrightarrow> check (q_origin q) (q_authorization q) (q_target q) token \<noteq> Allowed"
| "outsider token (Opened now hs uri) \<longleftrightarrow>
     check (header_value ''Origin'' hs) (header_value ''Authorization'' hs) uri token \<noteq> Allowed"
| "outsider token (Received fresh now i txt) \<longleftrightarrow> True"
| "outsider token (Closed now i) \<longleftrightarrow> True"
| "outsider token (Session_Turn sid e) \<longleftrightarrow> False"

definition refused :: "connection \<Rightarrow> bool" where
  "refused c \<longleftrightarrow> k_session c = None \<and> \<not> k_counted c \<and> k_outbox c = None \<and> (k_closed c = Some 4401 \<or> k_closed c = Some 4403)"

definition untouched :: "registry \<Rightarrow> string \<Rightarrow> relay \<Rightarrow> bool" where
  "untouched r token w \<longleftrightarrow> v_registry (w_super w) = r \<and> v_token (w_super w) = token \<and> \<not> v_shutdown (w_super w)
     \<and> openConnections (v_activity (w_super w)) = 0 \<and> list_all refused (w_conns w)"

lemma list_all_update: "list_all P xs \<Longrightarrow> P y \<Longrightarrow> list_all P (xs[i := y])"
  using set_update_subset_insert [of xs i y] by (auto simp: list_all_iff)

lemma outsider_step: "outsider token e \<Longrightarrow> untouched r token w \<Longrightarrow> untouched r token (relay_step E e w)"
proof (cases e)
  case (Http env now q)
  assume "outsider token e" "untouched r token w"
  then show ?thesis using Http by (auto simp: untouched_def http_handle_def split: Verdict.splits)
next
  case (Opened now hs uri)
  assume "outsider token e" "untouched r token w"
  then show ?thesis
    using Opened by (auto simp: untouched_def ws_open_def Let_def refused_def new_connection_def)
next
  case (Received fresh now i t)
  assume "untouched r token w"
  then have "i < length (w_conns w) \<Longrightarrow> k_session (w_conns w ! i) = None"
    by (auto simp: untouched_def list_all_length refused_def)
  then show ?thesis
    using \<open>untouched r token w\<close> Received by (auto simp: ws_message_def untouched_def Let_def)
next
  case (Closed now i)
  assume u: "untouched r token w"
  show ?thesis
  proof (cases "i < length (w_conns w)")
    case True
    then have c: "refused (w_conns w ! i)" using u by (auto simp: untouched_def list_all_length)
    then have "ws_close now i w = w\<lparr>w_conns := (w_conns w)[i := (w_conns w ! i)\<lparr>k_counted := False, k_outbox := None\<rparr>]\<rparr>"
      using True by (simp add: ws_close_def refused_def)
    then show ?thesis
      using Closed u list_all_update [of refused "w_conns w" "(w_conns w ! i)\<lparr>k_counted := False, k_outbox := None\<rparr>" i] c
      by (simp add: untouched_def refused_def)
  qed (use Closed u in \<open>simp add: ws_close_def\<close>)
qed simp

interpretation outsiders: event_system "relay_step E" "outsider token" "untouched r token" for E token r
  by unfold_locales (rule outsider_step)



section \<open>What the routes answer\<close>

text \<open>A request about a session that is not registered is answered 404, but for a restart, which is
  answered 500; nothing changes.\<close>

lemma unknown_session_answers:
  assumes "getSession ident r = None"
  shows "get_session env ident r = Answer 404 (error_json ''session not found'')"
    and "delete_session env ident r = Some (Answer 404 (error_json ''session not found''), r)"
    and "q_body q = [] \<Longrightarrow> post_restart env ident q r = Some (Answer 500 (error_json ''session not found''), r)"
  using assms by (simp_all add: get_session_def delete_session_def stopSession_def post_restart_def restartSession_def)

text \<open>A body with a field of the wrong type makes the exception leave the handler, before anything
  has changed.\<close>

lemma mistyped_body_escapes:
  assumes "q_body q \<noteq> []" "h_parse env (q_body q) = Some body" "parseSessionOptions body = Inl e"
  shows "post_sessions env q r = Some (Escaped e, r)" "post_restart env ident q r = Some (Escaped e, r)"
  using assms by (simp_all add: post_sessions_def post_restart_def)

end
