(* ===== verification/Connection.thy ===== *)
theory Connection
  imports Serializer
begin

text \<open>
  What both ends of a kernel's sockets share: end points and free ports
  (\<open>native/src/adrastea/transport/common/middleware.cpp\<close>), the two configurations
  (\<open>native/include/adrastea/kernel_configuration.hpp\<close>) and the reading of a connection file
  (\<open>native/src/adrastea/core/kernel/kernel_configuration.cpp\<close>).

  The random source is an argument (the \<open>n\<close>-th draw), and so is whether binding an end point
  succeeds at an attempt.
\<close>

section \<open>End points and ports\<close>

definition getControllerEndPoint :: "string \<Rightarrow> string" where
  "getControllerEndPoint channel = ''inproc://'' @ channel @ ''_controller''"

definition getPublisherEndPoint :: string where
  "getPublisherEndPoint = ''inproc://publisher''"

definition getEndPoint :: "string \<Rightarrow> string \<Rightarrow> string \<Rightarrow> string" where
  "getEndPoint transport ip port =
     (let sep = (if transport = ''tcp'' then CHR '':'' else CHR ''-'') in transport @ ''://'' @ ip @ sep # port)"

text \<open>The loop of \<open>findFreePortImpl\<close>: \<open>left\<close> tries are left, \<open>k\<close> were made. When none is left a port is
  drawn once more but not bound.\<close>

primrec try_ports :: "(nat \<Rightarrow> int) \<Rightarrow> (nat \<Rightarrow> string \<Rightarrow> bool) \<Rightarrow> string \<Rightarrow> string \<Rightarrow> nat \<Rightarrow> nat \<Rightarrow> string" where
  "try_ports draw bind transport ip 0 k = []"
| "try_ports draw bind transport ip (Suc left) k =
     (let rd_port = show_int (draw k)
      in if bind k (getEndPoint transport ip rd_port) then rd_port else try_ports draw bind transport ip left (Suc k))"

definition findFreePortImpl ::
  "(nat \<Rightarrow> int) \<Rightarrow> (nat \<Rightarrow> string \<Rightarrow> bool) \<Rightarrow> string \<Rightarrow> string \<Rightarrow> nat \<Rightarrow> string" where
  "findFreePortImpl draw bind transport ip max_tries = try_ports draw bind transport ip max_tries 0"

text \<open>The end point a socket is bound to. A port that was given is bound or refused; \<open>why\<close> is the
  library's text for the refusal.\<close>

definition initSocket ::
  "(nat \<Rightarrow> int) \<Rightarrow> (nat \<Rightarrow> string \<Rightarrow> bool) \<Rightarrow> string \<Rightarrow> string \<Rightarrow> string \<Rightarrow> string \<Rightarrow> string result" where
  "initSocket draw bind why transport ip port =
     (if port \<noteq> [] then
        if bind 0 (getEndPoint transport ip port) then Inr (getEndPoint transport ip port)
        else Inl (RuntimeError (''cannot bind '' @ getEndPoint transport ip port @ '': '' @ why
                  @ '' (the port was chosen by whoever started this process, and something else has it)''))
      else
        let rd_port = findFreePortImpl draw bind transport ip 100
        in if rd_port = [] then Inl (RuntimeError (''no free port found on '' @ ip))
           else Inr (getEndPoint transport ip rd_port))"

definition getSocketPort :: "string \<Rightarrow> string" where
  "getSocketPort end_point =
     (case find_last_of {CHR '':''} end_point of None \<Rightarrow> end_point | Some k \<Rightarrow> drop (k + 1) end_point)"

section \<open>Configurations\<close>

record CommonConfiguration =
  c_transport :: string
  c_ip :: string
  c_signatureScheme :: string
  c_key :: string

record KernelConfiguration = CommonConfiguration +
  c_kernelId :: string
  c_controlPort :: string
  c_shellPort :: string
  c_stdinPort :: string
  c_iopubPort :: string
  c_hbPort :: string

record RegistrationConfiguration = CommonConfiguration +
  c_registrationId :: string
  c_registrationIp :: string
  c_registrationPort :: string

datatype configuration = Kernel_Config KernelConfiguration | Registration_Config RegistrationConfiguration

definition new_KernelConfiguration :: KernelConfiguration where
  "new_KernelConfiguration = \<lparr>c_transport = ''tcp'', c_ip = ''127.0.0.1'', c_signatureScheme = ''hmac-sha256'', c_key = [],
     c_kernelId = [], c_controlPort = [], c_shellPort = [], c_stdinPort = [], c_iopubPort = [], c_hbPort = []\<rparr>"

definition new_RegistrationConfiguration :: RegistrationConfiguration where
  "new_RegistrationConfiguration = \<lparr>c_transport = ''tcp'', c_ip = ''127.0.0.1'', c_signatureScheme = ''hmac-sha256'', c_key = [],
     c_registrationId = [], c_registrationIp = [], c_registrationPort = []\<rparr>"

definition getKernelConfiguration :: "configuration \<Rightarrow> KernelConfiguration" where
  "getKernelConfiguration config =
     (case config of
        Kernel_Config conf \<Rightarrow> conf
      | Registration_Config conf \<Rightarrow> new_KernelConfiguration\<lparr>c_transport := c_transport conf, c_ip := c_ip conf,
          c_signatureScheme := c_signatureScheme conf, c_key := c_key conf\<rparr>)"

section \<open>Connection files\<close>

text \<open>\<open>doc["x"].get<T>()\<close> on a constant document.\<close>

definition doc_string :: "json \<Rightarrow> string \<Rightarrow> string result" where
  "doc_string doc k = rbind (json_index_const doc k) get_string"

definition doc_port :: "json \<Rightarrow> string \<Rightarrow> string result" where
  "doc_port doc k = rbind (json_index_const doc k) (\<lambda>j. rbind (get_int j) (\<lambda>i. Inr (show_int i)))"

definition loadCommonConfiguration :: "json \<Rightarrow> (string \<times> string \<times> string \<times> string) result" where
  "loadCommonConfiguration doc =
     rbind (doc_string doc ''transport'') (\<lambda>transport.
     rbind (doc_string doc ''ip'') (\<lambda>ip.
     rbind (value_string doc ''signature_scheme'' []) (\<lambda>scheme.
     rbind (if scheme \<noteq> [] then doc_string doc ''key'' else Inr []) (\<lambda>k.
       Inr (transport, ip, scheme, k)))))"

definition loadKernelConfiguration :: "json \<Rightarrow> KernelConfiguration result" where
  "loadKernelConfiguration doc =
     rbind (loadCommonConfiguration doc) (\<lambda>(transport, ip, scheme, k).
     rbind (doc_port doc ''control_port'') (\<lambda>control.
     rbind (doc_port doc ''shell_port'') (\<lambda>shell.
     rbind (doc_port doc ''stdin_port'') (\<lambda>stdin.
     rbind (doc_port doc ''iopub_port'') (\<lambda>iopub.
     rbind (doc_port doc ''hb_port'') (\<lambda>hb.
       Inr (new_KernelConfiguration\<lparr>c_transport := transport, c_ip := ip, c_signatureScheme := scheme, c_key := k,
         c_controlPort := control, c_shellPort := shell, c_stdinPort := stdin, c_iopubPort := iopub, c_hbPort := hb\<rparr>)))))))"

definition loadRegistrationConfiguration :: "json \<Rightarrow> RegistrationConfiguration result" where
  "loadRegistrationConfiguration doc =
     rbind (loadCommonConfiguration doc) (\<lambda>(transport, ip, scheme, k).
     rbind (doc_string doc ''kernel_id'') (\<lambda>ident.
     rbind (doc_string doc ''registration_ip'') (\<lambda>rip.
     rbind (doc_string doc ''registration_port'') (\<lambda>rport.
       Inr (new_RegistrationConfiguration\<lparr>c_transport := transport, c_ip := ip, c_signatureScheme := scheme, c_key := k,
         c_registrationId := ident, c_registrationIp := rip, c_registrationPort := rport\<rparr>)))))"

text \<open>\<open>doc\<close>: what \<open>ifs >> doc\<close> gives, which throws for a file that is not JSON.\<close>

definition loadConfiguration :: "json result \<Rightarrow> configuration result" where
  "loadConfiguration file =
     rbind file (\<lambda>doc.
     rbind (value_string doc ''registration_ip'' []) (\<lambda>registration_ip.
       if registration_ip \<noteq> [] then rbind (loadRegistrationConfiguration doc) (\<lambda>c. Inr (Registration_Config c))
       else rbind (loadKernelConfiguration doc) (\<lambda>c. Inr (Kernel_Config c))))"

section \<open>Lemmas\<close>

text \<open>A port that is found was drawn and bound, after fewer than so many failures; none is found only
  after that many failures.\<close>

lemma try_ports_result:
  "(\<exists>i<left. try_ports draw bind t ip left k = show_int (draw (k + i)) \<and> bind (k + i) (getEndPoint t ip (show_int (draw (k + i))))
      \<and> (\<forall>j<i. \<not> bind (k + j) (getEndPoint t ip (show_int (draw (k + j))))))
   \<or> try_ports draw bind t ip left k = [] \<and> (\<forall>j<left. \<not> bind (k + j) (getEndPoint t ip (show_int (draw (k + j)))))"
proof (induction left arbitrary: k)
  case (Suc left)
  show ?case
  proof (cases "bind k (getEndPoint t ip (show_int (draw k)))")
    case True
    then show ?thesis by (intro disjI1 exI [of _ 0]) simp
  next
    case False
    then have eq: "try_ports draw bind t ip (Suc left) k = try_ports draw bind t ip left (Suc k)" by simp
    have shift: "(\<forall>j<Suc n. \<not> bind (k + j) (getEndPoint t ip (show_int (draw (k + j)))))
        \<longleftrightarrow> (\<forall>j<n. \<not> bind (Suc k + j) (getEndPoint t ip (show_int (draw (Suc k + j)))))" for n
      using False by (auto simp: less_Suc_eq_0_disj)
    from Suc.IH [of "Suc k"] show ?thesis
    proof
      assume "\<exists>i<left. try_ports draw bind t ip left (Suc k) = show_int (draw (Suc k + i))
          \<and> bind (Suc k + i) (getEndPoint t ip (show_int (draw (Suc k + i))))
          \<and> (\<forall>j<i. \<not> bind (Suc k + j) (getEndPoint t ip (show_int (draw (Suc k + j)))))"
      then obtain i where "i < left" "try_ports draw bind t ip left (Suc k) = show_int (draw (Suc k + i))"
          "bind (Suc k + i) (getEndPoint t ip (show_int (draw (Suc k + i))))"
          "\<forall>j<i. \<not> bind (Suc k + j) (getEndPoint t ip (show_int (draw (Suc k + j))))" by blast
      then show ?thesis unfolding eq shift [symmetric] by (intro disjI1 exI [of _ "Suc i"]) (simp del: try_ports.simps)
    next
      assume "try_ports draw bind t ip left (Suc k) = []
          \<and> (\<forall>j<left. \<not> bind (Suc k + j) (getEndPoint t ip (show_int (draw (Suc k + j)))))"
      then show ?thesis unfolding eq shift by blast
    qed
  qed
qed simp

lemma show_int_nonempty [simp]: "show_int i \<noteq> []" "[] \<noteq> show_int i"
  by (simp_all add: show_int_def not_sym)

lemma show_int_chars: "c \<in> set (show_int i) \<Longrightarrow> isdigit c \<or> c = CHR ''-''"
  using show_nat_digits by (auto simp: show_int_def split: if_splits)

lemma getSocketPort_tcp:
  assumes "CHR '':'' \<notin> set port"
  shows "getSocketPort (getEndPoint ''tcp'' ip port) = port"
proof -
  have "find_last_of {CHR '':''} ((''tcp://'' @ ip) @ CHR '':'' # port) = Some (length (''tcp://'' @ ip))"
    using assms by (intro find_last_of_append) auto
  then show ?thesis by (simp add: getSocketPort_def getEndPoint_def Let_def)
qed

text \<open>A socket that chooses its own port is bound to a drawn one, in the range asked for, and reports
  exactly that port; when a hundred tries fail the start fails. A socket given a port is bound to that
  port or the start fails.\<close>

lemma socket_is_bound_to_its_port:
  assumes "\<forall>k. 49152 \<le> draw k \<and> draw k \<le> 65536"
  shows "case initSocket draw bind why ''tcp'' ip [] of
      Inr end_point \<Rightarrow> \<exists>k<100. end_point = getEndPoint ''tcp'' ip (show_int (draw k)) \<and> bind k end_point
        \<and> getSocketPort end_point = show_int (draw k) \<and> 49152 \<le> draw k \<and> draw k \<le> 65536
    | Inl _ \<Rightarrow> \<forall>k<100. \<not> bind k (getEndPoint ''tcp'' ip (show_int (draw k)))"
    and "p \<noteq> [] \<Longrightarrow> CHR '':'' \<notin> set p \<Longrightarrow> case initSocket draw bind why ''tcp'' ip p of
      Inr end_point \<Rightarrow> bind 0 end_point \<and> getSocketPort end_point = p | Inl _ \<Rightarrow> \<not> bind 0 (getEndPoint ''tcp'' ip p)"
proof -
  have port: "getSocketPort (getEndPoint ''tcp'' ip (show_int i)) = show_int i" for i
    using show_int_chars [of "CHR '':''" i] by (intro getSocketPort_tcp) (auto simp: isdigit_def)
  from try_ports_result [of 100 draw bind "''tcp''" ip 0]
  show "case initSocket draw bind why ''tcp'' ip [] of
      Inr end_point \<Rightarrow> \<exists>k<100. end_point = getEndPoint ''tcp'' ip (show_int (draw k)) \<and> bind k end_point
        \<and> getSocketPort end_point = show_int (draw k) \<and> 49152 \<le> draw k \<and> draw k \<le> 65536
    | Inl _ \<Rightarrow> \<forall>k<100. \<not> bind k (getEndPoint ''tcp'' ip (show_int (draw k)))"
    using assms port by (auto simp: initSocket_def findFreePortImpl_def Let_def simp del: try_ports.simps)
  show "p \<noteq> [] \<Longrightarrow> CHR '':'' \<notin> set p \<Longrightarrow> case initSocket draw bind why ''tcp'' ip p of
      Inr end_point \<Rightarrow> bind 0 end_point \<and> getSocketPort end_point = p | Inl _ \<Rightarrow> \<not> bind 0 (getEndPoint ''tcp'' ip p)"
    by (simp add: initSocket_def getSocketPort_tcp)
qed

end
