(* ===== verification/Handshake.thy ===== *)
theory Handshake
  imports Connection
begin

text \<open>
  How a kernel registers with the supervisor: the listener
  (\<open>native/src/adrastea/transport/client/client_handshake_zmq.cpp\<close>) and the kernel's side
  (\<open>native/src/adrastea/transport/server/handshaking.cpp\<close>). A registration is a signed
  message, in Adrastea's short form or as a JEP 66 \<open>handshake_request\<close>, and is answered signed.

  What the listener's socket gives is a list of events: a message at a time, or a poll interval
  without one, with the time and what \<open>shouldAbort\<close> said. A wait that has not ended at the end
  of the list is \<open>None\<close>. The printer, the parser and the authentication's digest are parameters, as in
  the wire format.

  Shown: only a message signed with the listener's key names the ports of a session, and only the
  awaited kernel's when it is in the short form; a kernel with the key registers, and both ends
  succeed; a kernel that ends, or is silent for a minute, ends the wait.
\<close>

section \<open>The listener\<close>

definition kRegistrationTimeoutMs :: int where
  "kRegistrationTimeoutMs = 60000"

datatype recv_event = Arrived int multipart | Quiet int bool

record listener =
  l_key :: string
  l_auth :: authentication
  l_sent :: "multipart list"

text \<open>The parameters: the digest, the parser and the printer, and the identifier and date of the
  replies' headers, and the text of an exception.\<close>

record handshake_env =
  e_mac :: mac
  e_parse :: parser
  e_dump :: printer
  e_fresh :: "string \<times> string"
  e_what :: "exn \<Rightarrow> string"

definition e_sign :: "handshake_env \<Rightarrow> authentication \<Rightarrow> frame list \<Rightarrow> frame" where
  "e_sign E a = signImpl (e_mac E) a"

definition e_verify :: "handshake_env \<Rightarrow> authentication \<Rightarrow> frame \<Rightarrow> frame list \<Rightarrow> bool result" where
  "e_verify E a = verifyImpl (e_mac E) a"

definition new_listener :: "bool \<Rightarrow> bool \<Rightarrow> RegistrationConfiguration \<Rightarrow> listener result" where
  "new_listener fetched allocated config =
     rbind (makeAuthentication fetched allocated (c_signatureScheme config) (c_key config)) (\<lambda>a.
       Inr \<lparr>l_key = c_key config, l_auth = a, l_sent = []\<rparr>)"

text \<open>\<open>receive\<close>, started with the given deadline: what it returns or throws, the time, and the events that
  are left.\<close>

fun receive :: "int \<Rightarrow> recv_event list \<Rightarrow> (multipart result \<times> int \<times> recv_event list) option" where
  "receive deadline [] = None"
| "receive deadline (Arrived now wire_msg # es) = Some (Inr wire_msg, now, es)"
| "receive deadline (Quiet now shouldAbort # es) =
     (if shouldAbort then
        Some (Inl (RuntimeError ''Kernel process exited before it could register -- check its stderr output for the actual error.''), now, es)
      else if now \<ge> deadline then
        Some (Inl (RuntimeError (''Did not receive kernel configuration within '' @ show_int (kRegistrationTimeoutMs div 1000)
          @ ''s -- the kernel process is still running but never registered. Check its stderr output for what it's doing.'')), now, es)
      else receive deadline es)"

definition jep66_port :: "json \<Rightarrow> string \<Rightarrow> string result" where
  "jep66_port ct name =
     rbind (json_at ct name) (\<lambda>value.
       if is_string value then get_string value else rbind (get_longlong value) (\<lambda>i. Inr (show_int i)))"

definition frames_after_delimiter :: "multipart \<Rightarrow> nat" where
  "frames_after_delimiter wire_msg = length (dropWhile (\<lambda>f. f \<noteq> DELIMITER) wire_msg) - 1"

definition jep66_config :: "string \<Rightarrow> json \<Rightarrow> KernelConfiguration result" where
  "jep66_config k ct =
     rbind (jep66_port ct ''control_port'') (\<lambda>control.
     rbind (jep66_port ct ''shell_port'') (\<lambda>shell.
     rbind (jep66_port ct ''stdin_port'') (\<lambda>stdin.
     rbind (jep66_port ct ''iopub_port'') (\<lambda>iopub.
     rbind (jep66_port ct ''hb_port'') (\<lambda>hb.
       Inr (new_KernelConfiguration\<lparr>c_key := k, c_controlPort := control, c_shellPort := shell, c_stdinPort := stdin,
         c_iopubPort := iopub, c_hbPort := hb\<rparr>))))))"

text \<open>The reply to a JEP 66 request, on the wire.\<close>

definition jep66_reply :: "handshake_env \<Rightarrow> authentication \<Rightarrow> message \<Rightarrow> multipart result" where
  "jep66_reply E a request =
     rbind (value_string (m_header request) ''session'' []) (\<lambda>session.
       serialize (e_parse E) (e_dump E) (e_sign E a)
         (new_message (m_zmqId request) (makeHeader (e_fresh E) ''handshake_reply'' ''themisto'' session)
            (m_header request) (JObject []) (jobj [(''status'', JString ''ok'')]) []))"

definition readJep66Handshake :: "handshake_env \<Rightarrow> multipart \<Rightarrow> listener \<Rightarrow> (KernelConfiguration option \<times> listener) result" where
  "readJep66Handshake E wire_msg h =
     (if frames_after_delimiter wire_msg < 5 then Inr (None, h)
      else case deserialize (e_parse E) (e_verify E (l_auth h)) wire_msg False of
        Inl (Undefined u) \<Rightarrow> Inl (Undefined u)
      | Inl e \<Rightarrow> Inl (RuntimeError (''Rejected a kernel's handshake: '' @ e_what E e))
      | Inr request \<Rightarrow>
          rbind (value_string (m_header request) ''msg_type'' []) (\<lambda>msg_type.
            if msg_type \<noteq> ''handshake_request'' then Inr (None, h)
            else
              rbind (jep66_config (l_key h) (m_content request)) (\<lambda>config.
              rbind (jep66_reply E (l_auth h) request) (\<lambda>wire_reply.
                Inr (Some config, h\<lparr>l_sent := l_sent h @ [wire_reply]\<rparr>)))))"

definition answerShortForm :: "handshake_env \<Rightarrow> guid_list \<Rightarrow> string \<Rightarrow> listener \<Rightarrow> listener" where
  "answerShortForm E routing_ids t h =
     h\<lparr>l_sent := l_sent h @ [serializeZmqId routing_ids [] @ [e_sign E (l_auth h) [t], t]]\<rparr>"

text \<open>\<open>j["x"].get<std::string>()\<close> on a value that is not constant: a missing key is created null.\<close>

definition own_string :: "json \<Rightarrow> string \<Rightarrow> string result" where
  "own_string j k = (case json_lookup j k of None \<Rightarrow> get_string JNull | Some v \<Rightarrow> get_string v)"

definition short_config :: "string \<Rightarrow> json \<Rightarrow> KernelConfiguration result" where
  "short_config k j =
     rbind (value_string j ''kernel_id'' []) (\<lambda>ident.
     rbind (own_string j ''control_port'') (\<lambda>control.
     rbind (own_string j ''shell_port'') (\<lambda>shell.
     rbind (own_string j ''stdin_port'') (\<lambda>stdin.
     rbind (own_string j ''iopub_port'') (\<lambda>iopub.
     rbind (own_string j ''hb_port'') (\<lambda>hb.
       Inr (new_KernelConfiguration\<lparr>c_key := k, c_kernelId := ident, c_controlPort := control, c_shellPort := shell,
         c_stdinPort := stdin, c_iopubPort := iopub, c_hbPort := hb\<rparr>)))))))"

text \<open>Why a registration in the short form is refused, empty when it is not.\<close>

definition refusal :: "handshake_env \<Rightarrow> authentication \<Rightarrow> string \<Rightarrow> frame \<Rightarrow> frame \<Rightarrow> string result" where
  "refusal E a expectedKernelId signature ct =
     rbind (e_verify E a signature [ct]) (\<lambda>ok.
       if \<not> ok then Inr ''not signed with this supervisor's key''
       else
         let j = e_parse E ct in
         if j = JDiscarded \<or> \<not> is_object j then Inr ''not a JSON object''
         else if expectedKernelId \<noteq> [] then
           rbind (value_string j ''kernel_id'' []) (\<lambda>ident.
             Inr (if ident \<noteq> expectedKernelId
                  then ''another kernel's ('' @ ident @ '', not '' @ expectedKernelId @ '')'' else []))
         else Inr [])"

text \<open>What a message other than a JEP 66 handshake does: the wait goes on (\<open>None\<close>) or ends.\<close>

definition readShortForm :: "handshake_env \<Rightarrow> string \<Rightarrow> multipart \<Rightarrow> listener \<Rightarrow> (KernelConfiguration option \<times> listener) result" where
  "readShortForm E expectedKernelId wire_msg h =
     rbind (deserializeZmqId wire_msg) (\<lambda>(routing_ids, wire_msg).
       case wire_msg of
         signature # ct # _ \<Rightarrow>
           rbind (refusal E (l_auth h) expectedKernelId signature ct) (\<lambda>refused.
             if refused \<noteq> [] then Inr (None, answerShortForm E routing_ids (''REJECTED '' @ refused) h)
             else rbind (short_config (l_key h) (e_parse E ct)) (\<lambda>config.
               Inr (Some config, answerShortForm E routing_ids ''ACK'' h)))
       | _ \<Rightarrow> Inr (None, h))"

definition readRegistration :: "handshake_env \<Rightarrow> string \<Rightarrow> multipart \<Rightarrow> listener \<Rightarrow> (KernelConfiguration option \<times> listener) result" where
  "readRegistration E expectedKernelId wire_msg h =
     rbind (readJep66Handshake E wire_msg h) (\<lambda>(jep66, h).
       case jep66 of Some config \<Rightarrow> Inr (Some config, h) | None \<Rightarrow> readShortForm E expectedKernelId wire_msg h)"

lemma receive_shorter: "receive deadline es = Some (r, now, es') \<Longrightarrow> length es' < length es"
  by (induction deadline es rule: receive.induct) (auto split: if_splits)

text \<open>The loop. Each turn's wait has its own deadline.\<close>

function waitForConfiguration ::
  "handshake_env \<Rightarrow> string \<Rightarrow> int \<Rightarrow> recv_event list \<Rightarrow> listener \<Rightarrow> (KernelConfiguration result \<times> listener) option" where
  "waitForConfiguration E expectedKernelId now es h =
     (case receive (now + kRegistrationTimeoutMs) es of
        None \<Rightarrow> None
      | Some (Inl e, _, _) \<Rightarrow> Some (Inl e, h)
      | Some (Inr wire_msg, now', es') \<Rightarrow>
          (case readRegistration E expectedKernelId wire_msg h of
             Inl e \<Rightarrow> Some (Inl e, h)
           | Inr (Some config, h) \<Rightarrow> Some (Inr config, h)
           | Inr (None, h) \<Rightarrow> waitForConfiguration E expectedKernelId now' es' h))"
  by pat_completeness auto
termination
  by (relation "measure (\<lambda>(_, _, _, es, _). length es)") (auto dest: receive_shorter)

declare waitForConfiguration.simps [simp del]

section \<open>The kernel\<close>

definition registration_json :: "string \<Rightarrow> KernelConfiguration \<Rightarrow> json" where
  "registration_json ident c =
     jobj [(''kernel_id'', JString ident), (''control_port'', JString (c_controlPort c)), (''shell_port'', JString (c_shellPort c)),
       (''stdin_port'', JString (c_stdinPort c)), (''iopub_port'', JString (c_iopubPort c)), (''hb_port'', JString (c_hbPort c))]"

text \<open>\<open>sendConnectionInfo\<close> up to its send: the wire message.\<close>

definition registration_message :: "handshake_env \<Rightarrow> authentication \<Rightarrow> string \<Rightarrow> KernelConfiguration \<Rightarrow> multipart result" where
  "registration_message E a ident c =
     rbind (e_dump E (registration_json ident c)) (\<lambda>buffer.
       Inr (serializeZmqId [] [] @ [e_sign E a [buffer], buffer]))"

text \<open>And from its receive on: the exception it ends with, if any; \<open>None\<close> is no answer within the timeout.\<close>

definition check_answer :: "handshake_env \<Rightarrow> authentication \<Rightarrow> multipart option \<Rightarrow> unit result" where
  "check_answer E a answer =
     (case answer of
        None \<Rightarrow> Inl (RuntimeError ''The supervisor did not answer this kernel's registration within 5 s'')
      | Some rep \<Rightarrow>
          rbind (deserializeZmqId rep) (\<lambda>(_, rep).
            case rep of
              rep_sig # rep_content # _ \<Rightarrow>
                rbind (e_verify E a rep_sig [rep_content]) (\<lambda>ok.
                  if \<not> ok then Inl (RuntimeError ''The supervisor's answer to this kernel's registration is not signed with its key'')
                  else if rep_content \<noteq> ''ACK'' then
                    Inl (RuntimeError (''The supervisor refused this kernel's registration: ''
                      @ (if starts_with rep_content ''REJECTED '' then drop 9 rep_content else rep_content)))
                  else Inr ())
            | _ \<Rightarrow> Inl (RuntimeError ''The supervisor's answer to this kernel's registration is not one'')))"

text \<open>The whole call: \<open>answers\<close> is what the socket receives for the message that is sent.\<close>

definition sendConnectionInfo ::
  "handshake_env \<Rightarrow> authentication \<Rightarrow> (multipart \<Rightarrow> multipart option) \<Rightarrow> string \<Rightarrow> KernelConfiguration \<Rightarrow> unit result" where
  "sendConnectionInfo E a answers ident c =
     rbind (registration_message E a ident c) (\<lambda>wire_msg. check_answer E a (answers wire_msg))"

section \<open>Who may register\<close>

text \<open>A registration in the short form, and one by a JEP 66 request, that is signed with the key of
  the listener.\<close>

definition signed_short :: "handshake_env \<Rightarrow> authentication \<Rightarrow> string \<Rightarrow> string \<Rightarrow> multipart \<Rightarrow> KernelConfiguration \<Rightarrow> bool" where
  "signed_short E a k expected wire config \<longleftrightarrow>
     (\<exists>ids sig ct rest. wire = ids @ DELIMITER # sig # ct # rest \<and> DELIMITER \<notin> set ids
        \<and> e_verify E a sig [ct] = Inr True \<and> short_config k (e_parse E ct) = Inr config
        \<and> (expected = [] \<or> c_kernelId config = expected))"

definition signed_jep66 :: "handshake_env \<Rightarrow> authentication \<Rightarrow> string \<Rightarrow> multipart \<Rightarrow> KernelConfiguration \<Rightarrow> bool" where
  "signed_jep66 E a k wire config \<longleftrightarrow>
     (\<exists>ids sig hdr ph md ct rest. wire = ids @ DELIMITER # sig # hdr # ph # md # ct # rest \<and> DELIMITER \<notin> set ids
        \<and> e_verify E a sig [hdr, ph, md, ct] = Inr True
        \<and> value_string (e_parse E hdr) ''msg_type'' [] = Inr ''handshake_request''
        \<and> jep66_config k (e_parse E ct) = Inr config)"

lemma deserializeZmqId_cases:
  "deserializeZmqId wire = Inr (ids, rest) \<Longrightarrow> wire = ids @ DELIMITER # rest \<and> DELIMITER \<notin> set ids"
  by (cases wire rule: wire_cases) (auto simp: deserializeZmqId_found deserializeZmqId_missing deserializeZmqId_def [of "[]"])

lemma refusal_empty:
  "refusal E a expected sig ct = Inr [] \<Longrightarrow> e_verify E a sig [ct] = Inr True \<and> is_object (e_parse E ct)
     \<and> (expected = [] \<or> value_string (e_parse E ct) ''kernel_id'' [] = Inr expected)"
  by (auto simp: refusal_def Let_def rbind_eq_Inr_iff split: if_splits)

lemma short_config_id: "short_config k j = Inr config \<Longrightarrow> value_string j ''kernel_id'' [] = Inr (c_kernelId config)"
  by (auto simp: short_config_def rbind_eq_Inr_iff new_KernelConfiguration_def)

lemma readShortForm_cases:
  assumes "readShortForm E expected wire h = Inr (r, h')"
  obtains "r = None" "h' = h"
  | ids sig ct rest refused where "r = None" "h' = answerShortForm E ids (''REJECTED '' @ refused) h"
  | ids sig ct rest config where "deserializeZmqId wire = Inr (ids, sig # ct # rest)"
      "refusal E (l_auth h) expected sig ct = Inr []" "short_config (l_key h) (e_parse E ct) = Inr config"
      "r = Some config" "h' = answerShortForm E ids ''ACK'' h"
proof -
  obtain ids frames where f: "deserializeZmqId wire = Inr (ids, frames)"
    using assms by (auto simp: readShortForm_def rbind_eq_Inr_iff)
  consider "length frames < 2" | sig ct rest where "frames = sig # ct # rest"
    by (cases frames; cases "tl frames") auto
  then show thesis
  proof cases
    case 1
    then have "readShortForm E expected wire h = Inr (None, h)"
      using f by (cases frames) (auto simp: readShortForm_def)
    then show thesis using assms that(1) by simp
  next
    case (2 sig ct rest)
    then obtain refused where "refusal E (l_auth h) expected sig ct = Inr refused"
      using assms f by (auto simp: readShortForm_def rbind_eq_Inr_iff)
    then show thesis
      using assms f 2 that(2,3) by (cases "refused = []") (auto simp: readShortForm_def rbind_eq_Inr_iff)
  qed
qed

lemma readJep66_cases:
  assumes "readJep66Handshake E wire h = Inr (r, h')"
  obtains "r = None" "h' = h"
  | request config reply where "deserialize (e_parse E) (e_verify E (l_auth h)) wire False = Inr request"
      "value_string (m_header request) ''msg_type'' [] = Inr ''handshake_request''"
      "jep66_config (l_key h) (m_content request) = Inr config" "r = Some config" "h' = h\<lparr>l_sent := l_sent h @ [reply]\<rparr>"
proof (cases "frames_after_delimiter wire < 5")
  case True
  then show thesis using assms that(1) by (simp add: readJep66Handshake_def)
next
  case False
  obtain request where d: "deserialize (e_parse E) (e_verify E (l_auth h)) wire False = Inr request"
    using assms False
    by (cases "deserialize (e_parse E) (e_verify E (l_auth h)) wire False")
      (simp_all add: readJep66Handshake_def split: exn.splits)
  obtain m where m: "value_string (m_header request) ''msg_type'' [] = Inr m"
    using assms False d by (auto simp: readJep66Handshake_def rbind_eq_Inr_iff)
  show thesis
  proof (cases "m = ''handshake_request''")
    case True
    then show thesis using assms False d m that(2) by (auto simp: readJep66Handshake_def rbind_eq_Inr_iff)
  next
    case False
    then show thesis using assms \<open>\<not> frames_after_delimiter wire < 5\<close> d m that(1) by (simp add: readJep66Handshake_def)
  qed
qed

lemma readShortForm_accepts:
  assumes "readShortForm E expected wire h = Inr (Some config, h')"
  shows "signed_short E (l_auth h) (l_key h) expected wire config"
proof -
  obtain ids sig ct rest where w: "deserializeZmqId wire = Inr (ids, sig # ct # rest)"
      "refusal E (l_auth h) expected sig ct = Inr []" "short_config (l_key h) (e_parse E ct) = Inr config"
    using assms by (cases rule: readShortForm_cases) auto
  have "expected = [] \<or> c_kernelId config = expected"
    using refusal_empty [OF w(2)] short_config_id [OF w(3)] by auto
  then show ?thesis
    using deserializeZmqId_cases [OF w(1)] refusal_empty [OF w(2)] w(3) unfolding signed_short_def by blast
qed

lemma readJep66_accepts:
  assumes "readJep66Handshake E wire h = Inr (Some config, h')"
  shows "signed_jep66 E (l_auth h) (l_key h) wire config"
proof -
  obtain request where r: "deserialize (e_parse E) (e_verify E (l_auth h)) wire False = Inr request"
      "value_string (m_header request) ''msg_type'' [] = Inr ''handshake_request''"
      "jep66_config (l_key h) (m_content request) = Inr config"
    using assms by (cases rule: readJep66_cases) auto
  then obtain ids frames where f: "wire = ids @ DELIMITER # frames" "DELIMITER \<notin> set ids" "5 \<le> length frames"
      "e_verify E (l_auth h) (frames ! 0) [frames ! 1, frames ! 2, frames ! 3, frames ! 4] = Inr True"
      "m_header request = e_parse E (frames ! 1)" "m_content request = e_parse E (frames ! 4)"
    unfolding deserialize_cases by (auto simp: accepted_parts_def Let_def)
  obtain a b c d e rest where "frames = a # b # c # d # e # rest"
    using f(3) by (auto simp: Suc_le_length_iff numeral_eq_Suc)
  then show ?thesis
    using f r unfolding signed_jep66_def
    by (intro exI [of _ ids] exI [of _ a] exI [of _ b] exI [of _ c] exI [of _ d] exI [of _ e] exI [of _ rest]) simp
qed

lemma readRegistration_cases:
  assumes "readRegistration E expected wire h = Inr (r, h')"
  obtains "readJep66Handshake E wire h = Inr (r, h')" "r \<noteq> None"
  | "readJep66Handshake E wire h = Inr (None, h)" "readShortForm E expected wire h = Inr (r, h')"
proof -
  obtain c h1 where j: "readJep66Handshake E wire h = Inr (c, h1)"
    using assms by (auto simp: readRegistration_def rbind_eq_Inr_iff)
  then show thesis
  proof (cases rule: readJep66_cases)
    case 1
    then show thesis using assms j that(2) by (simp add: readRegistration_def)
  next
    case (2 request config reply)
    then show thesis using assms j that(1) by (auto simp: readRegistration_def)
  qed
qed

lemma readRegistration_accepts:
  assumes "readRegistration E expected wire h = Inr (Some config, h')"
  shows "signed_short E (l_auth h) (l_key h) expected wire config \<or> signed_jep66 E (l_auth h) (l_key h) wire config"
  using assms by (cases rule: readRegistration_cases) (blast intro: readShortForm_accepts readJep66_accepts)+

lemma readRegistration_keeps:
  assumes "readRegistration E expected wire h = Inr (r, h')"
  shows "l_auth h' = l_auth h \<and> l_key h' = l_key h"
  using assms
proof (cases rule: readRegistration_cases)
  case 1
  from 1(1) show ?thesis by (cases rule: readJep66_cases) simp_all
next
  case 2
  from 2(2) show ?thesis by (cases rule: readShortForm_cases) (simp_all add: answerShortForm_def)
qed

lemma receive_member: "receive deadline es = Some (Inr wire, t, es') \<Longrightarrow> Arrived t wire \<in> set es \<and> set es' \<subseteq> set es"
  by (induction deadline es rule: receive.induct) (auto split: if_splits)

text \<open>C27. Only a message signed with the listener's key gives the ports of a session: when the wait for
  a registration returns a configuration, a message that arrived is signed with that key and says so,
  either in the short form, and then it is the awaited kernel's, or as a JEP 66 request.\<close>

theorem registration_is_authentic:
  assumes "waitForConfiguration E expected now es h = Some (Inr config, h')"
  shows "\<exists>t wire. Arrived t wire \<in> set es
    \<and> (signed_short E (l_auth h) (l_key h) expected wire config \<or> signed_jep66 E (l_auth h) (l_key h) wire config)"
  using assms
proof (induction E expected now es h rule: waitForConfiguration.induct)
  case (1 E expected now es h)
  obtain wire t es' where r: "receive (now + kRegistrationTimeoutMs) es = Some (Inr wire, t, es')"
    using "1.prems" by (subst (asm) waitForConfiguration.simps) (auto split: option.splits sum.splits prod.splits)
  obtain c h1 where reg: "readRegistration E expected wire h = Inr (c, h1)"
    using "1.prems" r by (subst (asm) waitForConfiguration.simps) (auto split: sum.splits prod.splits)
  show ?case
  proof (cases c)
    case (Some config')
    then have "config' = config"
      using "1.prems" r reg by (subst (asm) waitForConfiguration.simps) auto
    then show ?thesis using readRegistration_accepts [of E expected wire h config h1] reg Some receive_member [OF r] by blast
  next
    case None
    then have "waitForConfiguration E expected t es' h1 = Some (Inr config, h')"
      using "1.prems" r reg by (subst (asm) waitForConfiguration.simps) auto
    then have "\<exists>t wire. Arrived t wire \<in> set es'
        \<and> (signed_short E (l_auth h1) (l_key h1) expected wire config \<or> signed_jep66 E (l_auth h1) (l_key h1) wire config)"
      using "1.IH" [OF r refl refl refl reg] None by blast
    then show ?thesis using readRegistration_keeps [OF reg] receive_member [OF r] by auto
  qed
qed

definition plain_mac :: mac where
  "plain_mac hash k t = [length t mod 256]"

definition plain_kernel :: KernelConfiguration where
  "plain_kernel = new_KernelConfiguration\<lparr>c_controlPort := ''1'', c_shellPort := ''2'', c_stdinPort := ''3'', c_iopubPort := ''4'',
     c_hbPort := ''5''\<rparr>"

text \<open>A printer and a parser for the one registration of the examples.\<close>

definition plain_handshake :: handshake_env where
  "plain_handshake = \<lparr>e_mac = plain_mac, e_parse = (\<lambda>t. if t = ''{}'' then registration_json ''k1'' plain_kernel else JDiscarded),
     e_dump = (\<lambda>j. Inr ''{}''), e_fresh = (''i'', ''d''), e_what = (\<lambda>e. [])\<rparr>"

definition plain_listener :: listener where
  "plain_listener = \<lparr>l_key = ''secret'', l_auth = OpensslAuthentication ''SHA256'' ''secret'', l_sent = []\<rparr>"

section \<open>A kernel with the key registers\<close>

lemma registration_fields:
  "short_config k (registration_json ident c) = Inr (new_KernelConfiguration\<lparr>c_key := k, c_kernelId := ident,
     c_controlPort := c_controlPort c, c_shellPort := c_shellPort c, c_stdinPort := c_stdinPort c,
     c_iopubPort := c_iopubPort c, c_hbPort := c_hbPort c\<rparr>)"
  by (simp add: short_config_def registration_json_def own_string_def json_value_jobj json_lookup_jobj)

lemma registration_not_refused:
  assumes "e_parse E buffer = registration_json ident c" "expected = [] \<or> expected = ident"
  shows "refusal E a expected (e_sign E a [buffer]) buffer = Inr []"
proof -
  have j: "registration_json ident c \<noteq> JDiscarded" "is_object (registration_json ident c)"
    "value_string (registration_json ident c) ''kernel_id'' [] = Inr ident"
    by (simp_all add: registration_json_def json_value_jobj) (simp add: jobj_def)
  have "e_verify E a (e_sign E a [buffer]) [buffer] = Inr True"
    by (simp only: e_verify_def e_sign_def auth.verify_sign)
  with assms j show ?thesis by (auto simp: refusal_def)
qed

definition still_waiting :: "int \<Rightarrow> recv_event \<Rightarrow> bool" where
  "still_waiting now e \<longleftrightarrow> (case e of Quiet t aborted \<Rightarrow> \<not> aborted \<and> t < now + kRegistrationTimeoutMs | Arrived _ _ \<Rightarrow> False)"

lemma receive_after_quiet:
  "list_all (still_waiting now) quiet \<Longrightarrow> receive (now + kRegistrationTimeoutMs) (quiet @ Arrived t wire # es) = Some (Inr wire, t, es)"
  by (induction quiet) (auto simp: still_waiting_def split: recv_event.splits)

lemma delimiter_alone: "rid \<noteq> DELIMITER \<Longrightarrow> frames_after_delimiter (rid # DELIMITER # fs) = length fs"
  by (simp add: frames_after_delimiter_def)

text \<open>A kernel that has the listener's key registers: whatever poll intervals pass before (within the
  minute, the kernel alive), the wait returns the kernel's identifier and ports with that key, the
  listener answers that one message, and with that answer the kernel's own call succeeds.\<close>

lemma registration_round_trip:
  assumes "prints_back (e_parse E) (e_dump E) (registration_json ident c)" "rid \<noteq> DELIMITER"
    and "expected = [] \<or> expected = ident" "list_all (still_waiting now) quiet"
    and "registration_message E (l_auth h) ident c = Inr wire"
  shows "\<exists>answer config h'. waitForConfiguration E expected now (quiet @ [Arrived t (rid # wire)]) h = Some (Inr config, h')
    \<and> l_sent h' = l_sent h @ [rid # answer]
    \<and> config = new_KernelConfiguration\<lparr>c_key := l_key h, c_kernelId := ident, c_controlPort := c_controlPort c,
        c_shellPort := c_shellPort c, c_stdinPort := c_stdinPort c, c_iopubPort := c_iopubPort c, c_hbPort := c_hbPort c\<rparr>
    \<and> sendConnectionInfo E (l_auth h) (\<lambda>w. if w = wire then Some answer else None) ident c = Inr ()"
proof -
  let ?a = "l_auth h"
  obtain buffer where b: "e_dump E (registration_json ident c) = Inr buffer" "e_parse E buffer = registration_json ident c"
    using assms(1) by (auto simp: prints_back_def split: sum.splits)
  have wire: "wire = [DELIMITER, e_sign E ?a [buffer], buffer]"
    using assms(5) b(1) by (simp add: registration_message_def serializeZmqId_def)
  let ?answer = "[DELIMITER, e_sign E ?a [''ACK''], ''ACK'']"
  let ?config = "new_KernelConfiguration\<lparr>c_key := l_key h, c_kernelId := ident, c_controlPort := c_controlPort c,
        c_shellPort := c_shellPort c, c_stdinPort := c_stdinPort c, c_iopubPort := c_iopubPort c, c_hbPort := c_hbPort c\<rparr>"
  let ?h = "h\<lparr>l_sent := l_sent h @ [rid # ?answer]\<rparr>"
  have "deserializeZmqId (rid # wire) = Inr ([rid], [e_sign E ?a [buffer], buffer])"
    using deserializeZmqId_found [of "[rid]" "[e_sign E ?a [buffer], buffer]"] assms(2) by (simp add: wire)
  then have "readRegistration E expected (rid # wire) h = Inr (Some ?config, ?h)"
    using assms(2) registration_not_refused [OF b(2) assms(3)]
    by (simp add: readRegistration_def readJep66Handshake_def wire delimiter_alone readShortForm_def b(2)
        registration_fields answerShortForm_def serializeZmqId_def)
  then have w: "waitForConfiguration E expected now (quiet @ [Arrived t (rid # wire)]) h = Some (Inr ?config, ?h)"
    by (subst waitForConfiguration.simps) (simp add: receive_after_quiet [OF assms(4)])
  have "e_verify E ?a (e_sign E ?a [''ACK'']) [''ACK''] = Inr True"
    by (simp only: e_verify_def e_sign_def auth.verify_sign)
  then have "check_answer E ?a (Some ?answer) = Inr ()"
    using deserializeZmqId_found [of "[]" "[e_sign E ?a [''ACK''], ''ACK'']"] by (simp add: check_answer_def)
  then have "sendConnectionInfo E ?a (\<lambda>w. if w = wire then Some ?answer else None) ident c = Inr ()"
    using assms(5) by (simp add: sendConnectionInfo_def)
  with w show ?thesis by (intro exI [of _ ?answer] exI [of _ ?config] exI [of _ ?h]) simp
qed

lemma plain_registration:
  "registration_message plain_handshake (l_auth plain_listener) ''k1'' plain_kernel
     = Inr [DELIMITER, e_sign plain_handshake (l_auth plain_listener) [''{}''], ''{}'']"
  by (simp add: registration_message_def plain_handshake_def serializeZmqId_def)

lemma registration_round_trip_witness:
  "\<exists>answer config h'. waitForConfiguration plain_handshake ''k1'' 0 ([Quiet 250 False]
      @ [Arrived 300 (''z'' # [DELIMITER, e_sign plain_handshake (l_auth plain_listener) [''{}''], ''{}''])]) plain_listener
      = Some (Inr config, h') \<and> c_shellPort config = ''2''
    \<and> sendConnectionInfo plain_handshake (l_auth plain_listener)
        (\<lambda>w. if w = [DELIMITER, e_sign plain_handshake (l_auth plain_listener) [''{}''], ''{}''] then Some answer else None)
        ''k1'' plain_kernel = Inr ()"
proof -
  have p: "prints_back (e_parse plain_handshake) (e_dump plain_handshake) (registration_json ''k1'' plain_kernel)"
    by (simp add: prints_back_def plain_handshake_def)
  have q: "list_all (still_waiting 0) [Quiet 250 False]" by (simp add: still_waiting_def kRegistrationTimeoutMs_def)
  have z: "''z'' \<noteq> DELIMITER" by (simp add: DELIMITER_def)
  show ?thesis
    using registration_round_trip [OF p z _ q plain_registration, of "''k1''" 300]
    by (auto simp: plain_kernel_def new_KernelConfiguration_def)
qed

theorem registration_is_authentic_witness:
  "\<exists>t wire config. Arrived t wire \<in> set [Arrived 300 (''z'' # [DELIMITER, e_sign plain_handshake (l_auth plain_listener) [''{}''], ''{}''])]
    \<and> (signed_short plain_handshake (l_auth plain_listener) (l_key plain_listener) ''k1'' wire config
       \<or> signed_jep66 plain_handshake (l_auth plain_listener) (l_key plain_listener) wire config)"
proof -
  let ?wire = "[DELIMITER, e_sign plain_handshake (l_auth plain_listener) [''{}''], ''{}'']"
  have "refusal plain_handshake (l_auth plain_listener) ''k1'' (e_sign plain_handshake (l_auth plain_listener) [''{}'']) ''{}'' = Inr []"
    by (rule registration_not_refused [of _ _ "''k1''" plain_kernel]) (simp_all add: plain_handshake_def)
  moreover have "deserializeZmqId (''z'' # ?wire) = Inr ([''z''], tl ?wire)"
    using deserializeZmqId_found [of "[''z'']" "tl ?wire"] by (simp add: DELIMITER_def)
  moreover have "e_parse plain_handshake ''{}'' = registration_json ''k1'' plain_kernel" by (simp add: plain_handshake_def)
  ultimately have "\<exists>config h'. readRegistration plain_handshake ''k1'' (''z'' # ?wire) plain_listener = Inr (Some config, h')"
    by (simp add: readRegistration_def readJep66Handshake_def delimiter_alone DELIMITER_def frames_after_delimiter_def
        readShortForm_def registration_fields)
  then obtain config h' where "readRegistration plain_handshake ''k1'' (''z'' # ?wire) plain_listener = Inr (Some config, h')" by blast
  then have "waitForConfiguration plain_handshake ''k1'' 0 [Arrived 300 (''z'' # ?wire)] plain_listener = Some (Inr config, h')"
    by (subst waitForConfiguration.simps) simp
  then show ?thesis using registration_is_authentic by blast
qed

section \<open>The wait ends\<close>

lemma receive_ends: "Quiet t True \<in> set es \<Longrightarrow> \<exists>r now es'. receive deadline es = Some (r, now, es')
    \<and> (\<forall>wire. r = Inr wire \<longrightarrow> Quiet t True \<in> set es')"
  by (induction deadline es rule: receive.induct) auto

text \<open>A kernel that ends ends the wait, whatever else arrives: every poll interval asks, and a refused
  registration only starts the next wait.\<close>

lemma dead_kernel_ends_the_wait:
  "Quiet t True \<in> set es \<Longrightarrow> \<exists>r. waitForConfiguration E expected now es h = Some r"
proof (induction E expected now es h rule: waitForConfiguration.induct)
  case (1 E expected now es h)
  obtain r now' es' where r: "receive (now + kRegistrationTimeoutMs) es = Some (r, now', es')"
      "\<forall>wire. r = Inr wire \<longrightarrow> Quiet t True \<in> set es'"
    using receive_ends [OF "1.prems"] by blast
  show ?case
  proof (cases r)
    case (Inl e)
    then show ?thesis using r by (simp add: waitForConfiguration.simps)
  next
    case (Inr wire)
    show ?thesis
    proof (cases "\<exists>h1. readRegistration E expected wire h = Inr (None, h1)")
      case True
      then obtain h1 where h1: "readRegistration E expected wire h = Inr (None, h1)" by blast
      have "\<exists>r. waitForConfiguration E expected now' es' h1 = Some r"
        using "1.IH" [OF r(1) refl Inr refl h1 refl refl] r(2) Inr by blast
      then show ?thesis using r Inr h1 by (simp add: waitForConfiguration.simps [of E expected now])
    next
      case False
      then show ?thesis using r Inr
        by (subst waitForConfiguration.simps) (auto split: sum.splits prod.splits option.splits)
    qed
  qed
qed

end
