(* ===== verification/Client_Channels.thy ===== *)
theory Client_Channels
  imports Serializer
begin

text \<open>
  The supervisor's side of a kernel's channels: the heartbeat
  (\<open>native/src/adrastea/transport/client/client_heartbeat.cpp\<close>), the published messages
  (\<open>client_iopub.cpp\<close>), and the sends and receives of \<open>client_zmq_impl.cpp\<close>; and the kernel's
  heartbeat (\<open>transport/server/heartbeat.cpp\<close>), which sends every ping back.

  One turn of the heartbeat's loop is a function of what the turn meets. The thread that receives
  published messages and the thread that waits for them share a queue, a flag and a pair of sockets; what
  each does between two shared accesses is a step, so that every interleaving is a list of steps.

  Shown: a kernel is reported dead exactly when more than \<open>m_maxRetry\<close> pings in a row go unanswered, once;
  published messages are handed on in the order they arrived, whatever the interleaving, and only
  unreadable ones are dropped; the wake-up signal can be lost.
\<close>

section \<open>The heartbeat of the client\<close>

definition max_retry :: nat where
  "max_retry = 3"

record ClientHeartbeat =
  m_maxRetry :: nat
  m_requestStop :: bool
  m_lastRttMicros :: int
  m_lastPongMs :: int
  m_misses :: nat
  retry_count :: nat
  hb_running :: bool
  hb_dead :: nat

definition new_ClientHeartbeat :: "nat \<Rightarrow> ClientHeartbeat" where
  "new_ClientHeartbeat retries = \<lparr>m_maxRetry = retries, m_requestStop = False, m_lastRttMicros = - 1, m_lastPongMs = - 1,
     m_misses = 0, retry_count = 0, hb_running = True, hb_dead = 0\<rparr>"

text \<open>What a turn meets: a pong (with the times of the ping and the pong, in microseconds), no pong within
  the timeout (or an error while it is read), or an exception of the send or the poll; and whether a stop
  message came too.\<close>

datatype turn_outcome = Pong int int bool | Missed bool | Failed

definition notifyKernelDead :: "ClientHeartbeat \<Rightarrow> ClientHeartbeat" where
  "notifyKernelDead c = c\<lparr>hb_dead := hb_dead c + 1\<rparr>"

text \<open>What follows the answer in \<open>run\<close>: the count of retries, and the report after which the loop is left.\<close>

definition count_retries :: "ClientHeartbeat \<Rightarrow> ClientHeartbeat" where
  "count_retries c =
     (if m_misses c \<noteq> 0 then
        if retry_count c < m_maxRetry c then c\<lparr>retry_count := retry_count c + 1\<rparr>
        else (notifyKernelDead c)\<lparr>hb_running := False\<rparr>
      else c\<lparr>retry_count := 0\<rparr>)"

fun heartbeat_turn :: "turn_outcome \<Rightarrow> ClientHeartbeat \<Rightarrow> ClientHeartbeat" where
  "heartbeat_turn (Pong sent now stopped) c =
     count_retries (c\<lparr>m_requestStop := m_requestStop c \<or> stopped, m_lastRttMicros := now - sent,
       m_lastPongMs := now div 1000, m_misses := 0\<rparr>)"
| "heartbeat_turn (Missed stopped) c =
     count_retries (c\<lparr>m_requestStop := m_requestStop c \<or> stopped, m_misses := m_misses c + 1\<rparr>)"
| "heartbeat_turn Failed c = c"

text \<open>The loop: a turn is made while it runs and no stop was requested.\<close>

definition run_turn :: "turn_outcome \<Rightarrow> ClientHeartbeat \<Rightarrow> ClientHeartbeat" where
  "run_turn t c = (if hb_running c \<and> \<not> m_requestStop c then heartbeat_turn t c else c)"

record heartbeat_report =
  st_hasPong :: bool
  st_rttMicros :: int
  st_sinceLastPongMs :: int
  st_misses :: nat

definition heartbeat_status :: "int \<Rightarrow> ClientHeartbeat \<Rightarrow> heartbeat_report" where
  "heartbeat_status nowMs c =
     (let has = m_lastRttMicros c \<ge> 0 \<and> m_lastPongMs c \<ge> 0
      in \<lparr>st_hasPong = has, st_rttMicros = (if has then m_lastRttMicros c else 0),
          st_sinceLastPongMs = (if has then nowMs - m_lastPongMs c else 0), st_misses = m_misses c\<rparr>)"

section \<open>The heartbeat of the kernel\<close>

text \<open>Per poll: a ping, or none, and whether a stop message came; what is sent back on the heartbeat and on
  the control socket.\<close>

fun Heartbeat_run :: "(multipart option \<times> multipart option) list \<Rightarrow> multipart list \<times> multipart list" where
  "Heartbeat_run [] = ([], [])"
| "Heartbeat_run ((ping, stop) # polls) =
     (let echo = (case ping of None \<Rightarrow> [] | Some p \<Rightarrow> [p])
      in case stop of
           Some s \<Rightarrow> (echo, [s])
         | None \<Rightarrow> let (pongs, acks) = Heartbeat_run polls in (echo @ pongs, acks))"

section \<open>Published messages\<close>

text \<open>\<open>Receiving\<close>: the thread polls; \<open>Queued\<close>: it has queued a message and has yet to look at the flag;
  \<open>Signalling\<close>: it found the flag unset and has yet to send. \<open>Looking\<close>, \<open>Cleared\<close>: the waiting thread before
  and after it resets the flag, until it has emptied the socket.\<close>

datatype receiver = Receiving | Queued | Signalling | Ended
datatype waiter = Looking | Cleared

record ClientIopub =
  m_messageQueue :: "pub_message list"
  m_welcomed :: bool
  m_signalled :: bool
  signals :: nat
  at_receiver :: receiver
  at_waiter :: waiter
  popped :: "pub_message list"

definition new_ClientIopub :: ClientIopub where
  "new_ClientIopub = \<lparr>m_messageQueue = [], m_welcomed = False, m_signalled = False, signals = 0, at_receiver = Receiving,
     at_waiter = Looking, popped = []\<rparr>"

text \<open>The message a frame gives, \<open>None\<close> when reading it throws (it is then dropped), with whether it is
  the kernel's welcome.\<close>

definition read_iopub :: "parser \<Rightarrow> (frame \<Rightarrow> frame list \<Rightarrow> bool result) \<Rightarrow> multipart \<Rightarrow> (pub_message \<times> bool) option" where
  "read_iopub parse verify wire_msg =
     (case rbind (deserializeIopub parse verify wire_msg True) (\<lambda>msg.
             rbind (value_string (m_header msg) ''msg_type'' []) (\<lambda>t. Inr (msg, t = ''iopub_welcome''))) of
        Inl _ \<Rightarrow> None
      | Inr r \<Rightarrow> Some r)"

datatype iopub_event = Wire multipart | Test_Flag | Send_Signal | Stop_Message | Clear_Flag | Empty_Socket | Pop

definition popIopubMessage :: "ClientIopub \<Rightarrow> pub_message option \<times> ClientIopub" where
  "popIopubMessage c =
     (case m_messageQueue c of
        [] \<Rightarrow> (None, c)
      | msg # rest \<Rightarrow> (Some msg, c\<lparr>m_messageQueue := rest, popped := popped c @ [msg]\<rparr>))"

fun iopub_step :: "parser \<Rightarrow> (frame \<Rightarrow> frame list \<Rightarrow> bool result) \<Rightarrow> iopub_event \<Rightarrow> ClientIopub \<Rightarrow> ClientIopub" where
  "iopub_step parse verify (Wire w) c =
     (if at_receiver c = Receiving then
        case read_iopub parse verify w of
          None \<Rightarrow> c
        | Some (msg, welcome) \<Rightarrow> c\<lparr>m_welcomed := m_welcomed c \<or> welcome, m_messageQueue := m_messageQueue c @ [msg],
                                  at_receiver := Queued\<rparr>
      else c)"
| "iopub_step parse verify Test_Flag c =
     (if at_receiver c = Queued then c\<lparr>at_receiver := (if m_signalled c then Receiving else Signalling), m_signalled := True\<rparr> else c)"
| "iopub_step parse verify Send_Signal c =
     (if at_receiver c = Signalling then c\<lparr>signals := signals c + 1, at_receiver := Receiving\<rparr> else c)"
| "iopub_step parse verify Stop_Message c = (if at_receiver c = Receiving then c\<lparr>at_receiver := Ended\<rparr> else c)"
| "iopub_step parse verify Clear_Flag c = (if at_waiter c = Looking then c\<lparr>m_signalled := False, at_waiter := Cleared\<rparr> else c)"
| "iopub_step parse verify Empty_Socket c = (if at_waiter c = Cleared then c\<lparr>signals := 0, at_waiter := Looking\<rparr> else c)"
| "iopub_step parse verify Pop c = (if at_waiter c = Looking then snd (popIopubMessage c) else c)"

section \<open>Requests and replies\<close>

text \<open>A dealer socket is what was sent on it and what has arrived.\<close>

record DealerChannel =
  d_sent :: "multipart list"
  d_arrived :: "multipart list"

definition sendOn :: "parser \<Rightarrow> printer \<Rightarrow> (frame list \<Rightarrow> frame) \<Rightarrow> message \<Rightarrow> DealerChannel \<Rightarrow> DealerChannel result" where
  "sendOn parse dump sign msg d =
     rbind (serialize parse dump sign msg) (\<lambda>wire_msg. Inr (d\<lparr>d_sent := d_sent d @ [wire_msg]\<rparr>))"

definition receiveMessage :: "DealerChannel \<Rightarrow> multipart option \<times> DealerChannel" where
  "receiveMessage d = (case d_arrived d of [] \<Rightarrow> (None, d) | w # ws \<Rightarrow> (Some w, d\<lparr>d_arrived := ws\<rparr>))"

text \<open>\<open>receiveOnShell(false)\<close> and its two likes: an unreadable message is taken off the socket and
  throws.\<close>

definition receiveOn ::
  "parser \<Rightarrow> (frame \<Rightarrow> frame list \<Rightarrow> bool result) \<Rightarrow> DealerChannel \<Rightarrow> message option result \<times> DealerChannel" where
  "receiveOn parse verify d =
     (case receiveMessage d of
        (None, d) \<Rightarrow> (Inr None, d)
      | (Some w, d) \<Rightarrow> (rbind (deserialize parse verify w True) (\<lambda>m. Inr (Some m)), d))"

section \<open>When a kernel is reported\<close>

fun unanswered :: "turn_outcome \<Rightarrow> bool" where
  "unanswered (Missed _) = True"
| "unanswered _ = False"

fun stops :: "turn_outcome \<Rightarrow> bool" where
  "stops (Pong _ _ b) = b"
| "stops (Missed b) = b"
| "stops Failed = False"

text \<open>The pings that go unanswered in a row at the end.\<close>

definition misses_at_end :: "turn_outcome list \<Rightarrow> nat" where
  "misses_at_end ts = length (takeWhile unanswered (rev (filter (\<lambda>t. t \<noteq> Failed) ts)))"

lemma misses_at_end_snoc:
  "misses_at_end [] = 0" "misses_at_end (ts @ [Failed]) = misses_at_end ts"
  "misses_at_end (ts @ [Missed b]) = Suc (misses_at_end ts)" "misses_at_end (ts @ [Pong s n b]) = 0"
  by (simp_all add: misses_at_end_def)

definition too_many :: "nat \<Rightarrow> turn_outcome list \<Rightarrow> bool" where
  "too_many k ts \<longleftrightarrow> (\<exists>i\<le>length ts. k < misses_at_end (take i ts))"

lemma too_many_snoc: "too_many k (ts @ [t]) \<longleftrightarrow> too_many k ts \<or> k < misses_at_end (ts @ [t])"
proof
  assume "too_many k (ts @ [t])"
  then obtain i where i: "i \<le> Suc (length ts)" "k < misses_at_end (take i (ts @ [t]))" by (auto simp: too_many_def)
  then show "too_many k ts \<or> k < misses_at_end (ts @ [t])"
    by (cases "i \<le> length ts") (auto simp: too_many_def le_Suc_eq)
next
  assume "too_many k ts \<or> k < misses_at_end (ts @ [t])"
  then show "too_many k (ts @ [t])"
    unfolding too_many_def
  proof
    assume "\<exists>i\<le>length ts. k < misses_at_end (take i ts)"
    then obtain i where "i \<le> length ts" "k < misses_at_end (take i ts)" by blast
    then show "\<exists>i\<le>length (ts @ [t]). k < misses_at_end (take i (ts @ [t]))" by (intro exI [of _ i]) simp
  next
    assume "k < misses_at_end (ts @ [t])"
    then show "\<exists>i\<le>length (ts @ [t]). k < misses_at_end (take i (ts @ [t]))"
      by (intro exI [of _ "length (ts @ [t])"]) simp
  qed
qed

lemma run_turn_cases:
  "\<not> hb_running c \<Longrightarrow> run_turn t c = c" "hb_running c \<Longrightarrow> \<not> m_requestStop c \<Longrightarrow> run_turn t c = heartbeat_turn t c"
  by (simp_all add: run_turn_def)

lemma run_turn_invariant:
  "list_all (\<lambda>t. \<not> stops t) ts \<Longrightarrow>
     (let c = fold run_turn ts (new_ClientHeartbeat k) in
      m_maxRetry c = k \<and> \<not> m_requestStop c
      \<and> (if too_many k ts then \<not> hb_running c \<and> hb_dead c = 1
         else hb_running c \<and> hb_dead c = 0 \<and> retry_count c = misses_at_end ts \<and> m_misses c = misses_at_end ts))"
proof (induction ts rule: rev_induct)
  case Nil
  then show ?case by (simp add: new_ClientHeartbeat_def misses_at_end_def too_many_def Let_def)
next
  case (snoc t ts)
  let ?c = "fold run_turn ts (new_ClientHeartbeat k)"
  have IH: "m_maxRetry ?c = k" "\<not> m_requestStop ?c"
      "if too_many k ts then \<not> hb_running ?c \<and> hb_dead ?c = 1
       else hb_running ?c \<and> hb_dead ?c = 0 \<and> retry_count ?c = misses_at_end ts \<and> m_misses ?c = misses_at_end ts"
    using snoc by (simp_all add: Let_def)
  show ?case
  proof (cases "too_many k ts")
    case True
    then show ?thesis using IH by (simp add: run_turn_cases too_many_snoc Let_def)
  next
    case False
    moreover have "misses_at_end ts \<le> k"
      using False unfolding too_many_def by (metis le_refl not_less take_all_iff)
    ultimately show ?thesis
      using IH snoc.prems
      by (cases t) (auto simp: run_turn_cases too_many_snoc misses_at_end_snoc count_retries_def notifyKernelDead_def Let_def)
  qed
qed

text \<open>Until it is told to stop, the heartbeat reports the kernel dead exactly when more than
  \<open>m_maxRetry\<close> pings in a row have gone unanswered (failures to send apart), and then once: a kernel that
  answers often enough is never reported, and one that stops answering is.\<close>

lemma heartbeat_reports_a_silent_kernel:
  assumes "list_all (\<lambda>t. \<not> stops t) ts"
  shows "hb_dead (fold run_turn ts (new_ClientHeartbeat k))
      = (if \<exists>i\<le>length ts. k < misses_at_end (take i ts) then 1 else 0)
    \<and> (hb_running (fold run_turn ts (new_ClientHeartbeat k)) \<longleftrightarrow> \<not> (\<exists>i\<le>length ts. k < misses_at_end (take i ts)))"
  using run_turn_invariant [OF assms, of k] unfolding too_many_def [symmetric] by (auto simp: Let_def split: if_splits)

lemma heartbeat_reports_a_silent_kernel_witness:
  "hb_dead (fold run_turn [Pong 0 5 False, Missed False, Failed, Missed False] (new_ClientHeartbeat 1)) = 1
   \<and> hb_dead (fold run_turn [Missed False, Pong 0 5 False, Missed False] (new_ClientHeartbeat 1)) = 0"
proof -
  have "\<exists>i\<le>length [Pong 0 5 False, Missed False, Failed, Missed False].
      1 < misses_at_end (take i [Pong 0 5 False, Missed False, Failed, Missed False])"
    by (intro exI [of _ 4]) (simp add: misses_at_end_def)
  moreover have "\<not> (\<exists>i\<le>3. 1 < misses_at_end (take i [Missed False, Pong 0 5 False, Missed False]))"
  proof
    assume "\<exists>i\<le>3. 1 < misses_at_end (take i [Missed False, Pong 0 5 False, Missed False])"
    then obtain i :: nat where i: "i \<le> 3" "1 < misses_at_end (take i [Missed False, Pong 0 5 False, Missed False])" by blast
    then have "i = 0 \<or> i = 1 \<or> i = 2 \<or> i = 3" by linarith
    with i(2) show False by (auto simp: misses_at_end_def)
  qed
  ultimately show ?thesis
    using heartbeat_reports_a_silent_kernel [of "[Pong 0 5 False, Missed False, Failed, Missed False]" 1]
      heartbeat_reports_a_silent_kernel [of "[Missed False, Pong 0 5 False, Missed False]" 1] by simp
qed

section \<open>Published messages are a first-in first-out channel\<close>

text \<open>The specification: a queue and what was taken from it.\<close>

datatype fifo_event = Put pub_message | Get | Stutter

fun fifo_step :: "fifo_event \<Rightarrow> pub_message list \<times> pub_message list \<Rightarrow> pub_message list \<times> pub_message list" where
  "fifo_step (Put m) (q, taken) = (q @ [m], taken)"
| "fifo_step Get (q, taken) = (case q of [] \<Rightarrow> ([], taken) | m # rest \<Rightarrow> (rest, taken @ [m]))"
| "fifo_step Stutter s = s"

definition fifo_of :: "ClientIopub \<Rightarrow> pub_message list \<times> pub_message list" where
  "fifo_of c = (m_messageQueue c, popped c)"

text \<open>What a step of the two threads is for the specification: a message that arrives and can be read is
  put, nothing but the waiter's pop takes one, and the flag and the signals do not matter.\<close>

definition fifo_event :: "parser \<Rightarrow> (frame \<Rightarrow> frame list \<Rightarrow> bool result) \<Rightarrow> iopub_event \<Rightarrow> ClientIopub \<Rightarrow> fifo_event" where
  "fifo_event parse verify e c =
     (case e of
        Wire w \<Rightarrow> if at_receiver c = Receiving then (case read_iopub parse verify w of None \<Rightarrow> Stutter | Some (m, _) \<Rightarrow> Put m) else Stutter
      | Pop \<Rightarrow> if at_waiter c = Looking then Get else Stutter
      | _ \<Rightarrow> Stutter)"

fun fifo_events :: "parser \<Rightarrow> (frame \<Rightarrow> frame list \<Rightarrow> bool result) \<Rightarrow> iopub_event list \<Rightarrow> ClientIopub \<Rightarrow> fifo_event list" where
  "fifo_events parse verify [] c = []"
| "fifo_events parse verify (e # es) c = fifo_event parse verify e c # fifo_events parse verify es (iopub_step parse verify e c)"

lemma iopub_step_simulates: "fifo_of (iopub_step parse verify e c) = fifo_step (fifo_event parse verify e c) (fifo_of c)"
proof (cases e)
  case (Wire w)
  then show ?thesis
    by (cases "read_iopub parse verify w") (auto simp: fifo_of_def fifo_event_def split: prod.splits)
next
  case Pop
  then show ?thesis
    by (cases "m_messageQueue c") (simp_all add: fifo_of_def fifo_event_def popIopubMessage_def)
qed (simp_all add: fifo_of_def fifo_event_def)

fun puts :: "fifo_event list \<Rightarrow> pub_message list" where
  "puts [] = []"
| "puts (Put m # es) = m # puts es"
| "puts (_ # es) = puts es"

lemma fifo_conserves: "snd (fold fifo_step es (q, taken)) @ fst (fold fifo_step es (q, taken)) = taken @ q @ puts es"
proof (induction es arbitrary: q taken)
  case (Cons e es)
  then show ?case by (cases e; cases q) simp_all
qed simp

lemma iopub_run_simulates:
  "fifo_of (fold (iopub_step parse verify) es c) = fold fifo_step (fifo_events parse verify es c) (fifo_of c)"
  by (induction es arbitrary: c) (simp_all add: iopub_step_simulates)


text \<open>The signal, though, can be lost: a message that is queued and signalled while the waiter is between
  resetting the flag and emptying the socket leaves the flag set and the socket empty, and the next message is
  not signalled.\<close>

lemma queued_signal_can_be_lost:
  assumes "read_iopub parse verify w1 = Some (m1, b1)" "read_iopub parse verify w2 = Some (m2, b2)"
  shows "let c = fold (iopub_step parse verify)
      [Clear_Flag, Wire w1, Test_Flag, Send_Signal, Empty_Socket, Pop, Wire w2, Test_Flag] new_ClientIopub
    in m_messageQueue c = [m2] \<and> signals c = 0 \<and> at_receiver c = Receiving \<and> at_waiter c = Looking"
  using assms by (simp add: new_ClientIopub_def popIopubMessage_def Let_def)

end
