(* ===== verification/Client.thy ===== *)
theory Client
  imports Client_Channels
begin

text \<open>
  The client of a kernel as one object (\<^verbatim>\<open>native/src/adrastea/transport/client/client_zmq_impl.cpp\<close>): the three dealer
  channels, the queue of publications and the listeners of a program that waits for messages.

  The channels are those of \<open>Client_Channels\<close>. A listener is registered or not; what a registered one
  does with a message is a parameter, since it may throw. A wait that does not end with what has
  arrived so far is an outcome of its own.

  Shown: \<open>poll\<close> hands out the first message that can be read and is wanted, and drops those before it;
  \<open>waitForMessage\<close> prefers publications, but once it waits only a reply ends it; \<open>waitForActivity\<close> waits only
  when there is nothing to read.
\<close>

section \<open>State and listeners\<close>

datatype notice = Notify_Shell message | Notify_Control message | Notify_Stdin message | Notify_Iopub pub_message

record ClientZmqImpl =
  m_identity :: string
  m_shellClient :: DealerChannel
  m_controlClient :: DealerChannel
  m_stdinClient :: DealerChannel
  m_iopubClient :: ClientIopub
  m_shellListener :: bool
  m_controlListener :: bool
  m_stdinListener :: bool
  m_iopubListener :: bool
  notices :: "notice list"

definition new_ClientZmqImpl :: "string \<Rightarrow> ClientZmqImpl" where
  "new_ClientZmqImpl identity = \<lparr>m_identity = identity, m_shellClient = \<lparr>d_sent = [], d_arrived = []\<rparr>,
     m_controlClient = \<lparr>d_sent = [], d_arrived = []\<rparr>, m_stdinClient = \<lparr>d_sent = [], d_arrived = []\<rparr>,
     m_iopubClient = new_ClientIopub, m_shellListener = False, m_controlListener = False, m_stdinListener = False,
     m_iopubListener = False, notices = []\<rparr>"

definition registerShellListener :: "ClientZmqImpl \<Rightarrow> ClientZmqImpl" where
  "registerShellListener c = c\<lparr>m_shellListener := True\<rparr>"

definition registerControlListener :: "ClientZmqImpl \<Rightarrow> ClientZmqImpl" where
  "registerControlListener c = c\<lparr>m_controlListener := True\<rparr>"

definition registerStdinListener :: "ClientZmqImpl \<Rightarrow> ClientZmqImpl" where
  "registerStdinListener c = c\<lparr>m_stdinListener := True\<rparr>"

definition registerIopubListener :: "ClientZmqImpl \<Rightarrow> ClientZmqImpl" where
  "registerIopubListener c = c\<lparr>m_iopubListener := True\<rparr>"

fun registered :: "ClientZmqImpl \<Rightarrow> notice \<Rightarrow> bool" where
  "registered c (Notify_Shell _) = m_shellListener c"
| "registered c (Notify_Control _) = m_controlListener c"
| "registered c (Notify_Stdin _) = m_stdinListener c"
| "registered c (Notify_Iopub _) = m_iopubListener c"

text \<open>The four \<open>notify\<close> functions: calling an empty function throws \<open>std::bad_function_call\<close>.\<close>

definition notify :: "(notice \<Rightarrow> exn option) \<Rightarrow> notice \<Rightarrow> ClientZmqImpl \<Rightarrow> exn option \<times> ClientZmqImpl" where
  "notify listen n c =
     (if registered c n then (listen n, c\<lparr>notices := notices c @ [n]\<rparr>) else (Some (RuntimeError ''bad_function_call''), c))"

section \<open>Sending and receiving\<close>

definition sendOnShell :: "parser \<Rightarrow> printer \<Rightarrow> (frame list \<Rightarrow> frame) \<Rightarrow> message \<Rightarrow> ClientZmqImpl \<Rightarrow> ClientZmqImpl result" where
  "sendOnShell parse dump sign msg c =
     rbind (sendOn parse dump sign msg (m_shellClient c)) (\<lambda>d. Inr (c\<lparr>m_shellClient := d\<rparr>))"

definition sendOnControl :: "parser \<Rightarrow> printer \<Rightarrow> (frame list \<Rightarrow> frame) \<Rightarrow> message \<Rightarrow> ClientZmqImpl \<Rightarrow> ClientZmqImpl result" where
  "sendOnControl parse dump sign msg c =
     rbind (sendOn parse dump sign msg (m_controlClient c)) (\<lambda>d. Inr (c\<lparr>m_controlClient := d\<rparr>))"

definition sendOnStdin :: "parser \<Rightarrow> printer \<Rightarrow> (frame list \<Rightarrow> frame) \<Rightarrow> message \<Rightarrow> ClientZmqImpl \<Rightarrow> ClientZmqImpl result" where
  "sendOnStdin parse dump sign msg c =
     rbind (sendOn parse dump sign msg (m_stdinClient c)) (\<lambda>d. Inr (c\<lparr>m_stdinClient := d\<rparr>))"

definition receiveOnShell ::
  "parser \<Rightarrow> (frame \<Rightarrow> frame list \<Rightarrow> bool result) \<Rightarrow> ClientZmqImpl \<Rightarrow> message option result \<times> ClientZmqImpl" where
  "receiveOnShell parse verify c = (let (r, d) = receiveOn parse verify (m_shellClient c) in (r, c\<lparr>m_shellClient := d\<rparr>))"

definition receiveOnControl ::
  "parser \<Rightarrow> (frame \<Rightarrow> frame list \<Rightarrow> bool result) \<Rightarrow> ClientZmqImpl \<Rightarrow> message option result \<times> ClientZmqImpl" where
  "receiveOnControl parse verify c = (let (r, d) = receiveOn parse verify (m_controlClient c) in (r, c\<lparr>m_controlClient := d\<rparr>))"

definition receiveOnStdin ::
  "parser \<Rightarrow> (frame \<Rightarrow> frame list \<Rightarrow> bool result) \<Rightarrow> ClientZmqImpl \<Rightarrow> message option result \<times> ClientZmqImpl" where
  "receiveOnStdin parse verify c = (let (r, d) = receiveOn parse verify (m_stdinClient c) in (r, c\<lparr>m_stdinClient := d\<rparr>))"

section \<open>Waiting\<close>

text \<open>One turn of the loop of \<open>poll\<close>: the first of the three sockets with a message, in that order. \<open>None\<close>: nothing has
  arrived; otherwise the exception that was printed, or none and \<open>poll\<close> returns.\<close>

definition hand_out ::
  "parser \<Rightarrow> (frame \<Rightarrow> frame list \<Rightarrow> bool result) \<Rightarrow> (notice \<Rightarrow> exn option) \<Rightarrow> (message \<Rightarrow> notice) \<Rightarrow> multipart \<Rightarrow>
   ClientZmqImpl \<Rightarrow> exn option \<times> ClientZmqImpl" where
  "hand_out parse verify listen kind w c =
     (case deserialize parse verify w True of Inl x \<Rightarrow> (Some x, c) | Inr msg \<Rightarrow> notify listen (kind msg) c)"

definition poll_once ::
  "parser \<Rightarrow> (frame \<Rightarrow> frame list \<Rightarrow> bool result) \<Rightarrow> (notice \<Rightarrow> exn option) \<Rightarrow> ClientZmqImpl \<Rightarrow> (exn option \<times> ClientZmqImpl) option" where
  "poll_once parse verify listen c =
     (case receiveMessage (m_shellClient c) of
        (Some w, d) \<Rightarrow> Some (hand_out parse verify listen Notify_Shell w (c\<lparr>m_shellClient := d\<rparr>))
      | (None, _) \<Rightarrow>
        (case receiveMessage (m_controlClient c) of
           (Some w, d) \<Rightarrow> Some (hand_out parse verify listen Notify_Control w (c\<lparr>m_controlClient := d\<rparr>))
         | (None, _) \<Rightarrow>
           (case receiveMessage (m_stdinClient c) of
              (Some w, d) \<Rightarrow> Some (hand_out parse verify listen Notify_Stdin w (c\<lparr>m_stdinClient := d\<rparr>))
            | (None, _) \<Rightarrow> None)))"

definition arrivals :: "ClientZmqImpl \<Rightarrow> ((message \<Rightarrow> notice) \<times> multipart) list" where
  "arrivals c = map (Pair Notify_Shell) (d_arrived (m_shellClient c)) @ map (Pair Notify_Control) (d_arrived (m_controlClient c))
     @ map (Pair Notify_Stdin) (d_arrived (m_stdinClient c))"

lemma poll_once_smaller:
  "poll_once parse verify listen c = Some (e, c') \<Longrightarrow> length (arrivals c') < length (arrivals c)"
  by (auto simp: poll_once_def receiveMessage_def hand_out_def notify_def arrivals_def split: list.splits sum.splits if_splits)

text \<open>\<open>poll(-1)\<close>: \<open>False\<close> when it has dropped all that arrived and waits for more.\<close>

function poll ::
  "parser \<Rightarrow> (frame \<Rightarrow> frame list \<Rightarrow> bool result) \<Rightarrow> (notice \<Rightarrow> exn option) \<Rightarrow> ClientZmqImpl \<Rightarrow> bool \<times> ClientZmqImpl" where
  "poll parse verify listen c =
     (case poll_once parse verify listen c of
        None \<Rightarrow> (False, c)
      | Some (None, c') \<Rightarrow> (True, c')
      | Some (Some _, c') \<Rightarrow> poll parse verify listen c')"
  by pat_completeness auto
termination
  by (relation "measure (\<lambda>(_, _, _, c). length (arrivals c))") (auto dest: poll_once_smaller)

declare poll.simps [simp del]

datatype wait_outcome = Returned | Waiting | Throws exn

definition waitForMessage ::
  "parser \<Rightarrow> (frame \<Rightarrow> frame list \<Rightarrow> bool result) \<Rightarrow> (notice \<Rightarrow> exn option) \<Rightarrow> ClientZmqImpl \<Rightarrow> wait_outcome \<times> ClientZmqImpl" where
  "waitForMessage parse verify listen c =
     (case popIopubMessage (m_iopubClient c) of
        (Some msg, io) \<Rightarrow>
          (case notify listen (Notify_Iopub msg) (c\<lparr>m_iopubClient := io\<rparr>) of
             (None, c) \<Rightarrow> (Returned, c)
           | (Some x, c) \<Rightarrow> (Throws x, c))
      | (None, _) \<Rightarrow> (let (done, c) = poll parse verify listen c in (if done then Returned else Waiting, c)))"

text \<open>\<open>waitForActivity\<close>: whether it waits at all, and the client after it; a wait that is over, for whatever reason,
  clears the signal.\<close>

definition clearQueuedSignal :: "ClientIopub \<Rightarrow> ClientIopub" where
  "clearQueuedSignal io = io\<lparr>m_signalled := False, signals := 0\<rparr>"

definition hasMessage :: "DealerChannel \<Rightarrow> bool" where
  "hasMessage d \<longleftrightarrow> d_arrived d \<noteq> []"

definition waitForActivity :: "ClientZmqImpl \<Rightarrow> bool \<times> ClientZmqImpl" where
  "waitForActivity c =
     (\<not> (m_messageQueue (m_iopubClient c) \<noteq> [] \<or> hasMessage (m_shellClient c) \<or> hasMessage (m_controlClient c) \<or> hasMessage (m_stdinClient c)),
      c\<lparr>m_iopubClient := clearQueuedSignal (m_iopubClient c)\<rparr>)"

section \<open>What a wait hands out\<close>

text \<open>What becomes of a message that arrived: it cannot be read, nobody listens, the listener throws, or it is taken.\<close>

definition taken :: "parser \<Rightarrow> (frame \<Rightarrow> frame list \<Rightarrow> bool result) \<Rightarrow> (notice \<Rightarrow> exn option) \<Rightarrow> ClientZmqImpl \<Rightarrow> (message \<Rightarrow> notice) \<times> multipart \<Rightarrow> bool" where
  "taken parse verify listen c = (\<lambda>(kind, w).
     case deserialize parse verify w True of Inl _ \<Rightarrow> False | Inr msg \<Rightarrow> registered c (kind msg) \<and> listen (kind msg) = None)"

definition told :: "parser \<Rightarrow> (frame \<Rightarrow> frame list \<Rightarrow> bool result) \<Rightarrow> ClientZmqImpl \<Rightarrow> (message \<Rightarrow> notice) \<times> multipart \<Rightarrow> notice list" where
  "told parse verify c = (\<lambda>(kind, w).
     case deserialize parse verify w True of Inl _ \<Rightarrow> [] | Inr msg \<Rightarrow> if registered c (kind msg) then [kind msg] else [])"

lemma registered_cong:
  "m_shellListener d = m_shellListener c \<Longrightarrow> m_controlListener d = m_controlListener c \<Longrightarrow> m_stdinListener d = m_stdinListener c \<Longrightarrow>
   m_iopubListener d = m_iopubListener c \<Longrightarrow> registered d = registered c"
proof (rule ext)
  fix n
  show "m_shellListener d = m_shellListener c \<Longrightarrow> m_controlListener d = m_controlListener c \<Longrightarrow> m_stdinListener d = m_stdinListener c \<Longrightarrow>
   m_iopubListener d = m_iopubListener c \<Longrightarrow> registered d n = registered c n" by (cases n) simp_all
qed

definition polled :: "parser \<Rightarrow> (frame \<Rightarrow> frame list \<Rightarrow> bool result) \<Rightarrow> (notice \<Rightarrow> exn option) \<Rightarrow> ClientZmqImpl \<Rightarrow> exn option \<Rightarrow> ClientZmqImpl \<Rightarrow> bool" where
  "polled parse verify listen c e c' \<longleftrightarrow> arrivals c \<noteq> [] \<and> arrivals c' = tl (arrivals c) \<and> registered c' = registered c \<and>
     m_iopubClient c' = m_iopubClient c \<and> (e = None \<longleftrightarrow> taken parse verify listen c (hd (arrivals c))) \<and>
     notices c' = notices c @ told parse verify c (hd (arrivals c))"

lemma hand_out_polled:
  assumes "hand_out parse verify listen kind w d = (e, c')"
    and "arrivals c = (kind, w) # arrivals d" "registered d = registered c" "notices d = notices c" "m_iopubClient d = m_iopubClient c"
  shows "polled parse verify listen c e c'"
proof -
  have "arrivals (d\<lparr>notices := ns\<rparr>) = arrivals d" for ns by (simp add: arrivals_def)
  moreover have "registered (d\<lparr>notices := ns\<rparr>) = registered d" for ns by (rule registered_cong) simp_all
  ultimately show ?thesis using assms
    by (auto simp: polled_def hand_out_def notify_def taken_def told_def split: sum.splits if_splits)
qed

lemma poll_once_polled:
  "poll_once parse verify listen c = Some (e, c') \<Longrightarrow> polled parse verify listen c e c'"
  "poll_once parse verify listen c = None \<longleftrightarrow> arrivals c = []"
proof -
  have r: "registered (c\<lparr>m_shellClient := d\<rparr>) = registered c" "registered (c\<lparr>m_controlClient := d\<rparr>) = registered c"
    "registered (c\<lparr>m_stdinClient := d\<rparr>) = registered c" for d
    by (rule registered_cong; simp)+
  show "poll_once parse verify listen c = Some (e, c') \<Longrightarrow> polled parse verify listen c e c'"
    by (auto simp: poll_once_def receiveMessage_def r split: list.splits dest!: hand_out_polled [where c = c])
      (simp_all add: arrivals_def)
  show "poll_once parse verify listen c = None \<longleftrightarrow> arrivals c = []"
    by (simp add: poll_once_def receiveMessage_def arrivals_def split: list.split)
qed

text \<open>A call of \<open>poll\<close> goes through what has arrived, the shell first, then control, then stdin: it returns with the
  first message that is taken, and waits when there is none; everything before it is gone.\<close>

lemma poll_takes_the_first:
  "let as = arrivals c; ok = taken parse verify listen c; (done, c') = poll parse verify listen c
   in (done \<longleftrightarrow> list_ex ok as) \<and> arrivals c' = tl (dropWhile (\<lambda>a. \<not> ok a) as) \<and> m_iopubClient c' = m_iopubClient c \<and>
      notices c' = notices c @ concat (map (told parse verify c) (takeWhile (\<lambda>a. \<not> ok a) as @ take 1 (dropWhile (\<lambda>a. \<not> ok a) as)))"
proof (induction parse verify listen c rule: poll.induct)
  case (1 parse verify listen c)
  show ?case
  proof (cases "poll_once parse verify listen c")
    case None
    then show ?thesis using poll_once_polled(2) [of parse verify listen c] by (simp add: poll.simps [of parse verify listen c])
  next
    case (Some r)
    obtain e c' where r: "r = (e, c')" by (cases r)
    have p: "polled parse verify listen c e c'" using poll_once_polled(1) Some r by blast
    then have reg: "registered c' = registered c" by (simp add: polled_def)
    have t: "taken parse verify listen c' = taken parse verify listen c" "told parse verify c' = told parse verify c"
      unfolding taken_def told_def reg by (rule refl)+
    obtain a as where a: "arrivals c = a # as" "arrivals c' = as" using p by (cases "arrivals c") (auto simp: polled_def)
    show ?thesis
    proof (cases e)
      case None
      then show ?thesis using p a Some r by (simp add: poll.simps [of parse verify listen c] polled_def)
    next
      case (Some x)
      have s: "poll_once parse verify listen c = Some (Some x, c')"
        using \<open>poll_once parse verify listen c = Some r\<close> r Some by simp
      from p a Some have n: "\<not> taken parse verify listen c a" "notices c' = notices c @ told parse verify c a" "m_iopubClient c' = m_iopubClient c"
        by (simp_all add: polled_def)
      from "1.IH" [OF s refl refl] show ?thesis
        unfolding t a by (simp add: poll.simps [of parse verify listen c] s n split_beta Let_def)
    qed
  qed
qed

text \<open>A program that waits for a message while no publication is queued and no reply can be taken waits for a
  reply: publications that arrive from then on do not end the wait.\<close>

lemma waiting_ignores_publications:
  assumes "m_messageQueue (m_iopubClient c) = []" "\<not> list_ex (taken parse verify listen c) (arrivals c)"
  shows "fst (waitForMessage parse verify listen c) = Waiting"
  using assms poll_takes_the_first [of c parse verify listen]
  by (simp add: waitForMessage_def popIopubMessage_def Let_def split_beta)

lemma waitForActivity_waits:
  "fst (waitForActivity c) \<longleftrightarrow> m_messageQueue (m_iopubClient c) = [] \<and> arrivals c = []"
  "arrivals (snd (waitForActivity c)) = arrivals c"
  by (auto simp: waitForActivity_def arrivals_def hasMessage_def)

end
