(* ===== verification/Publisher.thy ===== *)
theory Publisher
  imports Client_Channels "HOL-Library.Sublist"
begin

text \<open>
  The publisher of a kernel (\<^verbatim>\<open>native/src/adrastea/transport/server/publisher.cpp\<close>): the thread between the
  threads that publish and the clients that subscribe.

  A socket is the queue of what has arrived on it. The sockets of the messaging library are modelled by
  what its documentation says of them: a pull socket keeps what was pushed, in order; a publishing socket passes
  a message to the peers whose subscription it begins with, and hands subscriptions to the program as
  one-frame messages. The thread is cut at every socket it looks at, so that publications, subscriptions
  and the request to stop come at any point. An exception that leaves \<open>run\<close> is a state of its own.

  Shown: a client that subscribed misses nothing and is welcomed; what is pushed is forwarded in order; four
  turns forward a publication; a stop leaves what is queued behind the first publication; a message of several
  frames from a client ends the thread.
\<close>

section \<open>State\<close>

text \<open>Where the thread is: at the poll; past it, with the flags of the sockets it has yet to look at; ended by a stop
  message; or ended by an exception nobody catches.\<close>

datatype publisher_at = Polling | At_Listener bool bool bool | At_Controller bool bool | At_Publisher bool | Stopped | Threw exn

record Publisher =
  pub_listener :: "multipart list"
  pub_controller :: "multipart list"
  pub_events :: "multipart list"
  pub_subscriptions :: "(nat \<times> string) list"
  pub_inbox :: "nat \<Rightarrow> multipart list"
  pub_sent :: "multipart list"
  pub_forwarded :: "multipart list"
  pub_acks :: "multipart list"
  pub_at :: publisher_at

definition new_Publisher :: Publisher where
  "new_Publisher = \<lparr>pub_listener = [], pub_controller = [], pub_events = [], pub_subscriptions = [], pub_inbox = (\<lambda>_. []),
     pub_sent = [], pub_forwarded = [], pub_acks = [], pub_at = Polling\<rparr>"

section \<open>The sockets\<close>

text \<open>An XPUB socket gives a message to the peers with a subscription its first frame begins with. A multipart
  message without frames is not sent by any socket.\<close>

definition takes :: "(nat \<times> string) list \<Rightarrow> nat \<Rightarrow> multipart \<Rightarrow> bool" where
  "takes subs c w = (case w of [] \<Rightarrow> False | f # _ \<Rightarrow> list_ex (\<lambda>(c', t). c' = c \<and> starts_with f t) subs)"

definition xpub_send :: "multipart \<Rightarrow> Publisher \<Rightarrow> Publisher" where
  "xpub_send w s =
     (if w = [] then s
      else s\<lparr>pub_sent := pub_sent s @ [w],
        pub_inbox := (\<lambda>c. if takes (pub_subscriptions s) c w then pub_inbox s c @ [w] else pub_inbox s c)\<rparr>)"

text \<open>Subscriptions change when they arrive at the socket, and are then read as events: each
  subscription (\<open>xpub_verbose\<close>), and an end of the last subscription to a topic.\<close>

definition subscribe :: "nat \<Rightarrow> string \<Rightarrow> Publisher \<Rightarrow> Publisher" where
  "subscribe c t s = s\<lparr>pub_subscriptions := List.insert (c, t) (pub_subscriptions s), pub_events := pub_events s @ [[CHR 0x01 # t]]\<rparr>"

definition unsubscribe :: "nat \<Rightarrow> string \<Rightarrow> Publisher \<Rightarrow> Publisher" where
  "unsubscribe c t s =
     (let subs = removeAll (c, t) (pub_subscriptions s)
      in s\<lparr>pub_subscriptions := subs,
           pub_events := pub_events s @ (if t \<in> snd ` set (pub_subscriptions s) \<and> t \<notin> snd ` set subs then [[CHR 0x00 # t]] else [])\<rparr>)"

section \<open>The thread\<close>

definition createPubMessage :: "string \<times> string \<Rightarrow> string \<Rightarrow> pub_message" where
  "createPubMessage fresh topic =
     new_pub_message [] (makeHeader fresh ''iopub_welcome'' [] []) (JObject []) (JObject [])
       (jobj [(''subscription'', JString topic)]) []"

text \<open>A subscription that was read is answered with a welcome, whoever asked.\<close>

definition answer_event ::
  "(pub_message \<Rightarrow> multipart result) option \<Rightarrow> string \<times> string \<Rightarrow> multipart \<Rightarrow> Publisher \<Rightarrow> Publisher" where
  "answer_event cb fresh w s =
     (case w of
        [frame] \<Rightarrow>
          (case frame of
             [] \<Rightarrow> s\<lparr>pub_at := Threw (Undefined ''event of an empty frame'')\<rparr>
           | b # topic \<Rightarrow>
               if b = CHR 0x01 then
                 (case cb of
                    None \<Rightarrow> s\<lparr>pub_at := Threw (RuntimeError ''ERROR: IOPUB serialization callback not set'')\<rparr>
                  | Some f \<Rightarrow>
                      (case f (createPubMessage fresh topic) of
                         Inl x \<Rightarrow> s\<lparr>pub_at := Threw x\<rparr>
                       | Inr welcome \<Rightarrow> xpub_send welcome (s\<lparr>pub_at := Polling\<rparr>)))
               else s\<lparr>pub_at := Polling\<rparr>)
      | _ \<Rightarrow> s\<lparr>pub_at := Threw (RuntimeError ''ERROR: Received message on XPUB is not a single frame'')\<rparr>)"

text \<open>\<open>run\<close>, one socket at a time.\<close>

definition publisher_turn :: "(pub_message \<Rightarrow> multipart result) option \<Rightarrow> string \<times> string \<Rightarrow> Publisher \<Rightarrow> Publisher" where
  "publisher_turn cb fresh s =
     (case pub_at s of
        Polling \<Rightarrow>
          if pub_listener s = [] \<and> pub_controller s = [] \<and> pub_events s = [] then s
          else s\<lparr>pub_at := At_Listener (pub_listener s \<noteq> []) (pub_controller s \<noteq> []) (pub_events s \<noteq> [])\<rparr>
      | At_Listener l c e \<Rightarrow>
          (case pub_listener s of
             w # ws \<Rightarrow>
               if l then xpub_send w (s\<lparr>pub_listener := ws, pub_forwarded := pub_forwarded s @ [w], pub_at := At_Controller c e\<rparr>)
               else s\<lparr>pub_at := At_Controller c e\<rparr>
           | [] \<Rightarrow> s\<lparr>pub_at := At_Controller c e\<rparr>)
      | At_Controller c e \<Rightarrow>
          (case pub_controller s of
             w # ws \<Rightarrow>
               if c then s\<lparr>pub_controller := ws, pub_acks := pub_acks s @ [w], pub_at := Stopped\<rparr>
               else s\<lparr>pub_at := At_Publisher e\<rparr>
           | [] \<Rightarrow> s\<lparr>pub_at := At_Publisher e\<rparr>)
      | At_Publisher e \<Rightarrow>
          (case pub_events s of
             w # ws \<Rightarrow> if e then answer_event cb fresh w (s\<lparr>pub_events := ws\<rparr>) else s\<lparr>pub_at := Polling\<rparr>
           | [] \<Rightarrow> s\<lparr>pub_at := Polling\<rparr>)
      | Stopped \<Rightarrow> s
      | Threw x \<Rightarrow> s)"

text \<open>What happens around it: a thread of the kernel publishes, the kernel asks for the stop, a peer subscribes, ends a
  subscription or sends a message of its own upstream.\<close>

datatype publisher_event =
  Pushed multipart | Ask_Stop multipart | Subscribe nat string | Unsubscribe nat string | Upstream multipart | Turn "string \<times> string"

fun publisher_step :: "(pub_message \<Rightarrow> multipart result) option \<Rightarrow> publisher_event \<Rightarrow> Publisher \<Rightarrow> Publisher" where
  "publisher_step cb (Pushed w) s = (if w = [] then s else s\<lparr>pub_listener := pub_listener s @ [w]\<rparr>)"
| "publisher_step cb (Ask_Stop w) s = (if w = [] then s else s\<lparr>pub_controller := pub_controller s @ [w]\<rparr>)"
| "publisher_step cb (Subscribe c t) s = subscribe c t s"
| "publisher_step cb (Unsubscribe c t) s = unsubscribe c t s"
| "publisher_step cb (Upstream w) s = (if w = [] then s else s\<lparr>pub_events := pub_events s @ [w]\<rparr>)"
| "publisher_step cb (Turn fresh) s = publisher_turn cb fresh s"

definition publisher_run :: "(pub_message \<Rightarrow> multipart result) option \<Rightarrow> publisher_event list \<Rightarrow> Publisher \<Rightarrow> Publisher" where
  "publisher_run cb evs s = fold (publisher_step cb) evs s"

section \<open>Nothing is lost on the way\<close>

fun pushes :: "publisher_event list \<Rightarrow> multipart list" where
  "pushes [] = []"
| "pushes (Pushed w # evs) = (if w = [] then pushes evs else w # pushes evs)"
| "pushes (_ # evs) = pushes evs"

text \<open>One step of the thread: what it sends, and what of it is a publication.\<close>

definition moves :: "Publisher \<Rightarrow> Publisher \<Rightarrow> multipart list \<Rightarrow> multipart list \<Rightarrow> bool" where
  "moves s s' sent fwd \<longleftrightarrow> pub_sent s' = pub_sent s @ sent \<and> pub_forwarded s' = pub_forwarded s @ fwd \<and> subseq fwd sent \<and> [] \<notin> set sent \<and>
     pub_listener s = fwd @ pub_listener s' \<and> pub_subscriptions s' = pub_subscriptions s \<and>
     (\<forall>c. pub_inbox s' c = pub_inbox s c @ filter (takes (pub_subscriptions s) c) sent)"

lemma moves_still: "pub_sent s' = pub_sent s \<Longrightarrow> pub_forwarded s' = pub_forwarded s \<Longrightarrow> pub_listener s' = pub_listener s \<Longrightarrow>
    pub_subscriptions s' = pub_subscriptions s \<Longrightarrow> pub_inbox s' = pub_inbox s \<Longrightarrow> moves s s' [] []"
  by (simp add: moves_def)

lemma send_moves: "pub_listener s = fwd @ pub_listener t \<Longrightarrow> pub_sent t = pub_sent s \<Longrightarrow> pub_forwarded t = pub_forwarded s @ fwd \<Longrightarrow>
    pub_subscriptions t = pub_subscriptions s \<Longrightarrow> pub_inbox t = pub_inbox s \<Longrightarrow> fwd = [] \<or> fwd = [w] \<Longrightarrow> w \<noteq> [] \<Longrightarrow> moves s (xpub_send w t) [w] fwd"
  by (auto simp: moves_def xpub_send_def)

definition no_empty :: "Publisher \<Rightarrow> bool" where
  "no_empty s \<longleftrightarrow> [] \<notin> set (pub_listener s)"

lemma answer_moves: "\<exists>sent. moves s (answer_event cb fresh w s) sent []"
proof -
  have 1: "\<exists>sent. moves s (s\<lparr>pub_at := a\<rparr>) sent []" for a by (rule exI [of _ "[]"], rule moves_still) simp_all
  have 2: "\<exists>sent. moves s (xpub_send v (s\<lparr>pub_at := Polling\<rparr>)) sent []" for v
  proof (cases "v = []")
    case True
    then show ?thesis using 1 by (simp add: xpub_send_def)
  next
    case False
    have "moves s (xpub_send v (s\<lparr>pub_at := Polling\<rparr>)) [v] []" by (rule send_moves) (simp_all add: False)
    then show ?thesis by blast
  qed
  show ?thesis using 1 2 by (simp add: answer_event_def split: list.split option.split sum.split)
qed

lemma turn_moves:
  assumes "no_empty s"
  shows "\<exists>sent fwd. moves s (publisher_turn cb fresh s) sent fwd"
proof -
  have 1: "\<exists>sent fwd. moves s (s\<lparr>pub_at := a\<rparr>) sent fwd" for a by (rule exI [of _ "[]"], rule exI [of _ "[]"], rule moves_still) simp_all
  have 2: "\<exists>sent fwd. moves s (s\<lparr>pub_controller := x, pub_acks := y, pub_at := a\<rparr>) sent fwd" for x y a
    by (rule exI [of _ "[]"], rule exI [of _ "[]"], rule moves_still) simp_all
  have 3: "\<exists>sent fwd. moves s (answer_event cb fresh w (s\<lparr>pub_events := ws\<rparr>)) sent fwd" for w ws
    using answer_moves [of "s\<lparr>pub_events := ws\<rparr>" cb fresh w] by (fastforce simp: moves_def)
  have 4: "\<exists>sent fwd. moves s (xpub_send w (s\<lparr>pub_listener := ws, pub_forwarded := pub_forwarded s @ [w], pub_at := a\<rparr>)) sent fwd"
    if "pub_listener s = w # ws" for w ws a
    by (rule exI [of _ "[w]"], rule exI [of _ "[w]"], rule send_moves) (use that assms in \<open>auto simp: no_empty_def\<close>)
  have 5: "\<exists>sent fwd. moves s s sent fwd" by (rule exI [of _ "[]"], rule exI [of _ "[]"], rule moves_still) simp_all
  show ?thesis
    using 1 2 3 4 5 by (simp add: publisher_turn_def split: publisher_at.split list.split)
qed

text \<open>All along a run: the publications pushed are those forwarded and those still queued, in order.\<close>

lemma step_queue:
  assumes "no_empty s"
  shows "no_empty (publisher_step cb e s) \<and>
    pub_forwarded (publisher_step cb e s) @ pub_listener (publisher_step cb e s) = pub_forwarded s @ pub_listener s @ pushes [e]"
proof (cases e)
  case (Turn fresh)
  obtain sent fwd where "moves s (publisher_turn cb fresh s) sent fwd" using turn_moves [OF assms] by blast
  with assms Turn show ?thesis by (auto simp: no_empty_def moves_def)
qed (use assms in \<open>auto simp: no_empty_def subscribe_def unsubscribe_def Let_def\<close>)

interpretation publisher: event_system "publisher_step cb" "\<lambda>_. True" no_empty for cb
  by unfold_locales (use step_queue in blast)

lemma pushes_Cons: "pushes (e # evs) = pushes [e] @ pushes evs"
  by (cases e) simp_all

lemma run_queue:
  assumes "no_empty s"
  shows "no_empty (publisher_run cb evs s)"
    and "pub_forwarded (publisher_run cb evs s) @ pub_listener (publisher_run cb evs s) = pub_forwarded s @ pub_listener s @ pushes evs"
proof -
  show "no_empty (publisher_run cb evs s)" unfolding publisher_run_def by (rule publisher.schedule_inv [OF _ assms]) (simp add: list_all_iff)
  show "pub_forwarded (publisher_run cb evs s) @ pub_listener (publisher_run cb evs s) = pub_forwarded s @ pub_listener s @ pushes evs"
    using assms
  proof (induction evs arbitrary: s)
    case (Cons e evs)
    have "no_empty (publisher_step cb e s)" using step_queue [OF Cons.prems] by blast
    from Cons.IH [OF this] step_queue [OF Cons.prems, of cb e] pushes_Cons [of e evs] show ?case
      by (simp add: publisher_run_def)
  qed (simp add: publisher_run_def)
qed

section \<open>A subscriber\<close>

definition over :: "Publisher \<Rightarrow> bool" where
  "over s \<longleftrightarrow> (case pub_at s of Stopped \<Rightarrow> True | Threw _ \<Rightarrow> True | _ \<Rightarrow> False)"

definition welcomes :: "(pub_message \<Rightarrow> multipart result) \<Rightarrow> multipart \<Rightarrow> bool" where
  "welcomes f w \<longleftrightarrow> (\<exists>fresh. f (createPubMessage fresh []) = Inr w)"

text \<open>What a client has got since it subscribed to everything: all that was sent, among it the publications
  forwarded, in order; and its welcome, unless its subscription is still to be read or the thread is over.\<close>

definition since :: "(pub_message \<Rightarrow> multipart result) \<Rightarrow> nat \<Rightarrow> Publisher \<Rightarrow> Publisher \<Rightarrow> multipart list \<Rightarrow> multipart list \<Rightarrow> bool" where
  "since f c s0 s new fwd \<longleftrightarrow> no_empty s \<and> (c, []) \<in> set (pub_subscriptions s) \<and>
     pub_sent s = pub_sent s0 @ new \<and> pub_forwarded s = pub_forwarded s0 @ fwd \<and> subseq fwd new \<and> pub_inbox s c = pub_inbox s0 c @ new \<and>
     ([[CHR 0x01]] \<in> set (pub_events s) \<or> (\<exists>w \<in> set new. welcomes f w) \<or> over s)"

lemma takes_all: "(c, []) \<in> set subs \<Longrightarrow> w \<noteq> [] \<Longrightarrow> takes subs c w"
  by (cases w) (force simp: takes_def starts_with_def list_ex_iff)+

lemma turn_events:
  "pub_events (publisher_turn cb fresh s) = pub_events s \<or>
   (\<exists>w ws. pub_events s = w # ws \<and> publisher_turn cb fresh s = answer_event cb fresh w (s\<lparr>pub_events := ws\<rparr>))"
  by (auto simp: publisher_turn_def xpub_send_def split: publisher_at.split list.split)

lemma turn_over: "over s \<Longrightarrow> publisher_turn cb fresh s = s"
  by (auto simp: over_def publisher_turn_def split: publisher_at.splits)

lemma answer_events: "pub_events (answer_event cb fresh w s) = pub_events s"
  by (auto simp: answer_event_def xpub_send_def split: list.split option.split sum.split)

lemma answer_welcome:
  assumes "moves s (answer_event (Some f) fresh [[CHR 0x01]] t) sent fwd" "pub_sent t = pub_sent s" "\<And>m. f m \<noteq> Inr []"
  shows "(\<exists>w \<in> set sent. welcomes f w) \<or> over (answer_event (Some f) fresh [[CHR 0x01]] t)"
proof (cases "f (createPubMessage fresh [])")
  case (Inl x)
  then show ?thesis by (simp add: answer_event_def over_def)
next
  case (Inr w)
  then have "w \<noteq> []" "welcomes f w" using assms(3) unfolding welcomes_def by blast+
  then show ?thesis using assms(1,2) Inr by (auto simp: answer_event_def moves_def xpub_send_def)
qed

lemma over_fields: "over (s\<lparr>pub_listener := a\<rparr>) = over s" "over (s\<lparr>pub_controller := a\<rparr>) = over s" "over (s\<lparr>pub_events := a\<rparr>) = over s"
  "over (s\<lparr>pub_subscriptions := b\<rparr>) = over s"
  by (simp_all add: over_def)

lemma turn_since:
  assumes "since f c s0 s new fwd" "\<And>m. f m \<noteq> Inr []"
  shows "\<exists>new fwd. since f c s0 (publisher_turn (Some f) fresh s) new fwd"
proof -
  let ?s = "publisher_turn (Some f) fresh s"
  have ne: "no_empty s" and sub: "(c, []) \<in> set (pub_subscriptions s)" using assms(1) by (simp_all add: since_def)
  obtain sent fwd' where m: "moves s ?s sent fwd'" using turn_moves [OF ne] by blast
  have all: "filter (takes (pub_subscriptions s) c) sent = sent"
  proof (intro filter_True ballI)
    fix w
    assume "w \<in> set sent"
    then have "w \<noteq> []" using m by (auto simp: moves_def)
    then show "takes (pub_subscriptions s) c w" by (rule takes_all [OF sub])
  qed
  have due: "[[CHR 0x01]] \<in> set (pub_events ?s) \<or> (\<exists>w \<in> set (new @ sent). welcomes f w) \<or> over ?s"
  proof (cases "over s \<or> (\<exists>w \<in> set new. welcomes f w)")
    case True
    then show ?thesis using turn_over [of s "Some f" fresh] by auto
  next
    case False
    then have ev: "[[CHR 0x01]] \<in> set (pub_events s)" using assms(1) by (auto simp: since_def)
    show ?thesis
    proof (cases "pub_events ?s = pub_events s")
      case False
      then obtain w ws where w: "pub_events s = w # ws" "?s = answer_event (Some f) fresh w (s\<lparr>pub_events := ws\<rparr>)"
        using turn_events [of "Some f" fresh s] by blast
      then have "pub_events ?s = ws" by (simp add: answer_events)
      show ?thesis
      proof (cases "w = [[CHR 0x01]]")
        case True
        from m [unfolded w(2) True] have "(\<exists>w \<in> set sent. welcomes f w) \<or> over (answer_event (Some f) fresh [[CHR 0x01]] (s\<lparr>pub_events := ws\<rparr>))"
          by (rule answer_welcome) (simp_all add: assms(2))
        then show ?thesis using w(2) True by auto
      next
        case False
        then show ?thesis using ev w(1) \<open>pub_events ?s = ws\<close> by auto
      qed
    qed (use ev in simp)
  qed
  have "no_empty ?s" using step_queue [OF ne, of "Some f" "Turn fresh"] by simp
  then have "since f c s0 ?s (new @ sent) (fwd @ fwd')"
    using assms(1) m due all by (auto simp: since_def moves_def intro: list_emb_append_mono)
  then show ?thesis by blast
qed

lemma step_since:
  assumes "since f c s0 s new fwd" "\<And>m. f m \<noteq> Inr []" "e \<noteq> Unsubscribe c []"
  shows "\<exists>new fwd. since f c s0 (publisher_step (Some f) e s) new fwd"
proof (cases "\<exists>fresh. e = Turn fresh")
  case True
  then show ?thesis using turn_since [OF assms(1,2)] by auto
next
  case False
  then have "since f c s0 (publisher_step (Some f) e s) new fwd"
    using assms(1,3) by (cases e) (auto simp: since_def no_empty_def subscribe_def unsubscribe_def Let_def over_fields)
  then show ?thesis by blast
qed

lemma run_since:
  assumes "since f c s0 s new fwd" "\<And>m. f m \<noteq> Inr []" "Unsubscribe c [] \<notin> set evs"
  shows "\<exists>new fwd. since f c s0 (publisher_run (Some f) evs s) new fwd"
  using assms(1,3)
proof (induction evs arbitrary: s new fwd)
  case (Cons e evs)
  obtain new' fwd' where "since f c s0 (publisher_step (Some f) e s) new' fwd'"
    using step_since [OF Cons.prems(1) assms(2), of e] Cons.prems(2) by auto
  from Cons.IH [OF this] Cons.prems(2) show ?case by (simp add: publisher_run_def)
qed (auto simp: publisher_run_def)

lemma serializeIopub_nonempty: "serializeIopub parse dump sign m \<noteq> Inr []"
  by (auto simp: serializeIopub_def serializeTopic_def serializeMessageBase_def result_simps Let_def)

text \<open>C39. A client that has subscribed to everything misses nothing. Whatever happened before it subscribed, and
  however the threads of the kernel that publish, the other clients and the turns of the publisher's thread come
  in between afterwards, as long as it does not end its subscription: it receives exactly what the
  publisher sends from then on, in order; among it, in order, every publication that is forwarded; the
  publications handed to the publisher are the ones forwarded, then those that still wait, none lost or
  overtaken; and the client has its welcome, unless its subscription has yet to be read or the
  thread is over.\<close>

theorem subscriber_misses_nothing:
  assumes "s0 = publisher_run (Some (serializeIopub parse dump sign)) before new_Publisher"
    and "s = publisher_run (Some (serializeIopub parse dump sign)) (Subscribe c [] # after) s0"
    and "Unsubscribe c [] \<notin> set after"
  shows "\<exists>new fwd. pub_sent s = pub_sent s0 @ new \<and> pub_inbox s c = pub_inbox s0 c @ new \<and>
    pub_forwarded s = pub_forwarded s0 @ fwd \<and> subseq fwd new \<and>
    pub_forwarded s @ pub_listener s = pushes (before @ Subscribe c [] # after) \<and>
    ([[CHR 0x01]] \<in> set (pub_events s) \<or> over s \<or> (\<exists>w \<in> set new. welcomes (serializeIopub parse dump sign) w))"
proof -
  let ?f = "serializeIopub parse dump sign"
  have new: "no_empty new_Publisher" "pub_forwarded new_Publisher = []" "pub_listener new_Publisher = []"
    by (simp_all add: no_empty_def new_Publisher_def)
  have "no_empty s0" using run_queue(1) [OF new(1)] assms(1) by blast
  then have "since ?f c s0 (subscribe c [] s0) [] []" by (simp add: since_def subscribe_def no_empty_def)
  from run_since [OF this serializeIopub_nonempty assms(3)] obtain n w where "since ?f c s0 s n w"
    by (auto simp: assms(2) publisher_run_def)
  moreover have "s = publisher_run (Some ?f) (before @ Subscribe c [] # after) new_Publisher"
    by (simp add: assms(1,2) publisher_run_def)
  then have "pub_forwarded s @ pub_listener s = pushes (before @ Subscribe c [] # after)"
    using run_queue(2) [OF new(1), of "Some ?f" "before @ Subscribe c [] # after"] new(2,3) by simp
  ultimately show ?thesis unfolding since_def by blast
qed

definition demo_serialize :: "pub_message \<Rightarrow> multipart result" where
  "demo_serialize = serializeIopub tiny_parse (\<lambda>_. Inr ''{}'') (\<lambda>_. [])"

theorem subscriber_misses_nothing_witness:
  "\<exists>s. s = publisher_run (Some demo_serialize) [Subscribe 7 [], Pushed [''out''], Turn ([], []), Turn ([], [])]
       (publisher_run (Some demo_serialize) [Pushed [''early''], Turn ([], []), Turn ([], []), Turn ([], []), Turn ([], [])] new_Publisher) \<and>
     pub_forwarded s @ pub_listener s = [[''early''], [''out'']] \<and> pub_inbox s 7 = [[''out'']]"
proof -
  let ?b = "[Pushed [''early''], Turn ([], []), Turn ([], []), Turn ([], []), Turn ([], [])]" let ?a = "[Pushed [''out''], Turn ([], []), Turn ([], [])]"
  let ?s0 = "publisher_run (Some demo_serialize) ?b new_Publisher" let ?s = "publisher_run (Some demo_serialize) (Subscribe 7 [] # ?a) ?s0"
  have "pub_inbox ?s 7 = [[''out'']]"
    by (simp add: publisher_run_def new_Publisher_def publisher_turn_def xpub_send_def takes_def starts_with_def subscribe_def)
  moreover have "pub_forwarded ?s @ pub_listener ?s = pushes (?b @ Subscribe 7 [] # ?a)"
    using subscriber_misses_nothing [where parse = tiny_parse and dump = "\<lambda>_. Inr ''{}''" and sign = "\<lambda>_. []" and before = ?b
        and after = ?a and c = 7, OF refl refl] unfolding demo_serialize_def by auto
  ultimately show ?thesis by auto
qed

text \<open>The client's thread takes the welcome for what it is.\<close>

lemma welcome_is_recognised:
  assumes "serializeIopub parse dump (signImpl mac a) (createPubMessage fresh []) = Inr w"
    and "printable_message parse dump (createPubMessage fresh [])"
  shows "\<exists>m. read_iopub parse (verifyImpl mac a) w = Some (m, True)"
proof -
  have "m_topic (createPubMessage fresh []) \<noteq> DELIMITER" by (simp add: createPubMessage_def DELIMITER_def)
  from pub_message_round_trip [OF assms(2) this, of mac a True] assms(1)
  obtain m where m: "deserializeIopub parse (verifyImpl mac a) w True = Inr m" "base_view parse m = base_view parse (createPubMessage fresh [])"
    by auto
  then have "m_header m = makeHeader fresh ''iopub_welcome'' [] []" by (simp add: base_view_def createPubMessage_def)
  with m(1) show ?thesis by (simp add: read_iopub_def makeHeader_def json_simps)
qed

section \<open>Progress and its end\<close>

lemma turn_polls:
  "pub_at s = Polling \<Longrightarrow> pub_listener s \<noteq> [] \<Longrightarrow>
     publisher_turn cb fresh s = s\<lparr>pub_at := At_Listener True (pub_controller s \<noteq> []) (pub_events s \<noteq> [])\<rparr>"
  by (simp add: publisher_turn_def)

lemma turn_goes_on:
  "pub_listener s \<noteq> [] \<Longrightarrow> publisher_turn cb fresh (s\<lparr>pub_at := At_Listener True c e\<rparr>) =
     (xpub_send (hd (pub_listener s)) (s\<lparr>pub_listener := tl (pub_listener s), pub_forwarded := pub_forwarded s @ [hd (pub_listener s)]\<rparr>))
       \<lparr>pub_at := At_Controller c e\<rparr>"
  "publisher_turn cb fresh (s\<lparr>pub_at := At_Controller False e\<rparr>) = s\<lparr>pub_at := At_Publisher e\<rparr>"
  "pub_controller s \<noteq> [] \<Longrightarrow> publisher_turn cb fresh (s\<lparr>pub_at := At_Controller True e\<rparr>) =
     s\<lparr>pub_controller := tl (pub_controller s), pub_acks := pub_acks s @ [hd (pub_controller s)], pub_at := Stopped\<rparr>"
  "publisher_turn cb fresh (s\<lparr>pub_at := At_Publisher False\<rparr>) = s\<lparr>pub_at := Polling\<rparr>"
  by (auto simp: publisher_turn_def xpub_send_def split: list.split cong: if_cong)

lemma xpub_send_fields:
  "pub_at (xpub_send w s) = pub_at s" "pub_listener (xpub_send w s) = pub_listener s" "pub_controller (xpub_send w s) = pub_controller s"
  "pub_events (xpub_send w s) = pub_events s" "pub_forwarded (xpub_send w s) = pub_forwarded s"
  by (simp_all add: xpub_send_def)

lemmas turn_simps = turn_polls turn_goes_on xpub_send_fields

text \<open>Left alone, four turns forward a publication.\<close>

lemma turns_forward:
  "pub_at s = Polling \<Longrightarrow> pub_controller s = [] \<Longrightarrow> pub_events s = [] \<Longrightarrow> no_empty s \<Longrightarrow>
   let s' = (publisher_turn cb fresh ^^ (4 * length (pub_listener s))) s
   in pub_listener s' = [] \<and> pub_forwarded s' = pub_forwarded s @ pub_listener s"
proof (induction "pub_listener s" arbitrary: s)
  case (Cons w ws)
  let ?s = "(publisher_turn cb fresh ^^ 4) s"
  note q = Cons.hyps(2) [symmetric]
  have s: "pub_at ?s = Polling" "pub_controller ?s = []" "pub_events ?s = []" "pub_listener ?s = ws" "pub_forwarded ?s = pub_forwarded s @ [w]"
    using Cons.prems(1-3) q by (simp_all add: eval_nat_numeral turn_simps)
  then have "no_empty ?s" using Cons.prems(4) q by (simp add: no_empty_def)
  from Cons.hyps(1) [OF s(4) [symmetric] s(1-3) this] s(4,5)
  have "let s' = (publisher_turn cb fresh ^^ (4 * length ws)) ?s in pub_listener s' = [] \<and> pub_forwarded s' = pub_forwarded s @ w # ws"
    by simp
  moreover have "(publisher_turn cb fresh ^^ (4 * length (pub_listener s))) s = (publisher_turn cb fresh ^^ (4 * length ws)) ?s"
  proof -
    have "4 * length (pub_listener s) = 4 * length ws + 4" by (simp add: q)
    then show ?thesis by (simp only: funpow_add comp_apply)
  qed
  ultimately show ?case unfolding q by metis
qed (simp add: Let_def)

text \<open>A stop message that is there when the thread polls ends it after one publication; those behind stay where they are.\<close>

lemma stop_leaves_the_queue:
  assumes "pub_at s = Polling" "pub_listener s = w # ws" "pub_controller s = [stop]" "w \<noteq> []" "3 \<le> n"
  shows "let s' = (publisher_turn cb fresh ^^ n) s in pub_at s' = Stopped \<and> pub_listener s' = ws \<and> pub_forwarded s' = pub_forwarded s @ [w]"
proof -
  let ?t = "publisher_turn cb fresh"
  have 3: "pub_at ((?t ^^ 3) s) = Stopped" "pub_listener ((?t ^^ 3) s) = ws" "pub_forwarded ((?t ^^ 3) s) = pub_forwarded s @ [w]"
    using assms by (simp_all add: eval_nat_numeral turn_simps)
  have "(?t ^^ k) t = t" if "pub_at t = Stopped" for k t
    using that by (induction k) (simp_all add: publisher_turn_def)
  from this [OF 3(1), of "n - 3"] assms(5) have "(?t ^^ n) s = (?t ^^ 3) s"
    by (metis comp_apply funpow_add le_add_diff_inverse2)
  with 3 show ?thesis by simp
qed

text \<open>A message of its own that a peer sends upstream, in several frames, ends the thread with an exception.\<close>

lemma upstream_message_ends_the_thread:
  assumes "pub_at s = At_Publisher True" "pub_events s = (a # b # c) # ws"
  shows "\<exists>x. pub_at (publisher_turn cb fresh s) = Threw (RuntimeError x)"
  using assms by (simp add: publisher_turn_def answer_event_def)

end
