(* ===== verification/Launch.thy ===== *)
theory Launch
  imports Process Handshake
begin

text \<open>
  The programs of the three kernels (\<^verbatim>\<open>native/src/elara/elara.cpp\<close>, \<^verbatim>\<open>carpo/carpo.cpp\<close>,
  \<^verbatim>\<open>callisto/callisto.cpp\<close>, their \<^verbatim>\<open>bridge/engine.cpp\<close>) and the construction of a kernel
  (\<^verbatim>\<open>adrastea/core/kernel/kernel.cpp\<close>, \<^verbatim>\<open>adrastea/transport/server/server_zmq_impl.cpp\<close>): the command line, the environment
  of the interpreter, the ports, and the report that the kernel is ready.

  What the start of R, Python or Stata, the binding of a socket and the supervisor answer are arguments, in the
  record \<open>boot\<close>. The three programs differ in their options, in the environment they prepare and in the
  variable that tells a kernel that it is supervised; the POSIX build is modelled.

  Shown: the command line the supervisor builds (\<open>Process\<close>) is read back by each of the three; such
  a kernel registers, and the listener (\<open>Handshake\<close>) gets the ports its sockets are bound to; the exit code
  tells whether the kernel was ever ready.
\<close>

section \<open>The command line\<close>

datatype kernel_kind = Elara | Carpo | Callisto

text \<open>\<open>EnvironmentConfig\<close> of each kernel.\<close>

datatype EnvironmentConfig =
    R_Environment string string string string
  | Python_Environment string string string
  | Stata_Environment string string

record CliOptions =
  cli_environment :: EnvironmentConfig
  cli_registrationIp :: string
  cli_registrationPort :: string
  cli_registrationId :: string
  cli_key :: string
  cli_connectionFile :: string

fun parse_pairs :: "string list \<Rightarrow> (string \<rightharpoonup> string) \<Rightarrow> (string \<rightharpoonup> string)" where
  "parse_pairs (flag # v # rest) args =
     parse_pairs rest
       (if flag = ''-f'' then args(''connection-file'' \<mapsto> v)
        else if starts_with flag ''--'' then args(drop 2 flag \<mapsto> v) else args)"
| "parse_pairs _ args = args"

definition parseArgs :: "string list \<Rightarrow> (string \<rightharpoonup> string)" where
  "parseArgs argv = parse_pairs (tl argv) Map.empty"

definition get_arg :: "(string \<rightharpoonup> string) \<Rightarrow> string \<Rightarrow> string" where
  "get_arg args name = (case args name of None \<Rightarrow> [] | Some v \<Rightarrow> v)"

definition elara_options :: "(string \<rightharpoonup> string) \<Rightarrow> EnvironmentConfig" where
  "elara_options args =
     R_Environment (get_arg args ''r-home'') (get_arg args ''r-path'') (get_arg args ''r-libs'') (get_arg args ''pandoc-path'')"

definition carpo_options :: "(string \<rightharpoonup> string) \<Rightarrow> EnvironmentConfig" where
  "carpo_options args =
     Python_Environment (get_arg args ''python-home'') (get_arg args ''python-path'') (get_arg args ''venv-path'')"

definition callisto_options :: "(string \<rightharpoonup> string) \<Rightarrow> EnvironmentConfig" where
  "callisto_options args = Stata_Environment (get_arg args ''stata-home'') (get_arg args ''stata-edition'')"

fun environment_options :: "kernel_kind \<Rightarrow> (string \<rightharpoonup> string) \<Rightarrow> EnvironmentConfig" where
  "environment_options Elara args = elara_options args"
| "environment_options Carpo args = carpo_options args"
| "environment_options Callisto args = callisto_options args"

definition toCliOptions :: "kernel_kind \<Rightarrow> (string \<rightharpoonup> string) \<Rightarrow> CliOptions" where
  "toCliOptions kind args =
     \<lparr>cli_environment = environment_options kind args,
      cli_registrationIp = (let ip = get_arg args ''registration-ip'' in if ip \<noteq> [] then ip else ''127.0.0.1''),
      cli_registrationPort = get_arg args ''registration-port'', cli_registrationId = get_arg args ''registration-id'',
      cli_key = get_arg args ''key'', cli_connectionFile = get_arg args ''connection-file''\<rparr>"

definition makeKernelConfiguration :: "string \<Rightarrow> KernelConfiguration" where
  "makeKernelConfiguration key =
     new_KernelConfiguration\<lparr>c_transport := ''tcp'', c_ip := ''127.0.0.1'', c_signatureScheme := ''hmac-sha256'', c_key := key\<rparr>"

section \<open>The start of a kernel\<close>

record boot =
  b_handshake :: handshake_env
  b_fetched :: bool
  b_allocated :: bool
  b_file :: "string \<Rightarrow> json result"
  b_interpreter :: "kernel_kind \<Rightarrow> environ \<Rightarrow> exn option"
  b_draw :: "nat \<Rightarrow> nat \<Rightarrow> int"
  b_bind :: "nat \<Rightarrow> nat \<Rightarrow> string \<Rightarrow> bool"
  b_why :: string
  b_guid :: string
  b_configure :: "exn option"
  b_engine :: "exn option"
  b_answers :: "string \<Rightarrow> multipart \<Rightarrow> multipart option"

definition set_if :: "string \<Rightarrow> string \<Rightarrow> environ \<Rightarrow> environ" where
  "set_if name v env = (if v \<noteq> [] then env(name \<mapsto> v) else env)"

definition prepend_path :: "string \<Rightarrow> environ \<Rightarrow> environ" where
  "prepend_path dir env =
     (if dir \<noteq> [] then env(''PATH'' \<mapsto> dir @ '':'' @ (case env ''PATH'' of None \<Rightarrow> [] | Some p \<Rightarrow> p)) else env)"

definition elara_environment :: "string \<Rightarrow> string \<Rightarrow> string \<Rightarrow> string \<Rightarrow> environ \<Rightarrow> environ" where
  "elara_environment r_home r_path r_libs pandoc_path env =
     prepend_path pandoc_path (set_if ''RSTUDIO_PANDOC'' pandoc_path
       (set_if ''R_LIBS_USER'' r_libs (set_if ''R_LIBS'' r_libs (prepend_path r_path (set_if ''R_HOME'' r_home env)))))"

definition carpo_environment :: "string \<Rightarrow> string \<Rightarrow> string \<Rightarrow> environ \<Rightarrow> environ" where
  "carpo_environment python_home python_path venv_path env =
     set_if ''CARPO_VENV_PATH'' venv_path (set_if ''PYTHONPATH'' python_path (set_if ''PYTHONHOME'' python_home env))"

definition callisto_environment :: "string \<Rightarrow> string \<Rightarrow> environ \<Rightarrow> environ" where
  "callisto_environment stata_home stata_edition env =
     set_if ''CALLISTO_STATA_EDITION'' stata_edition (set_if ''STATA_HOME'' stata_home env)"

fun setupEnvironment :: "EnvironmentConfig \<Rightarrow> environ \<Rightarrow> environ" where
  "setupEnvironment (R_Environment r_home r_path r_libs pandoc_path) env = elara_environment r_home r_path r_libs pandoc_path env"
| "setupEnvironment (Python_Environment python_home python_path venv_path) env = carpo_environment python_home python_path venv_path env"
| "setupEnvironment (Stata_Environment stata_home stata_edition) env = callisto_environment stata_home stata_edition env"

text \<open>The sockets are bound in the order of the members and of the constructor: publications, heartbeat, shell, control,
  stdin. \<open>n\<close> is the socket.\<close>

definition bound_port :: "boot \<Rightarrow> KernelConfiguration \<Rightarrow> nat \<Rightarrow> string \<Rightarrow> string result" where
  "bound_port B config n port =
     rbind (initSocket (b_draw B n) (b_bind B n) (b_why B) (c_transport config) (c_ip config) port) (\<lambda>ep. Inr (getSocketPort ep))"

definition new_Kernel :: "boot \<Rightarrow> KernelConfiguration \<Rightarrow> KernelConfiguration result" where
  "new_Kernel B config =
     (let config = (if c_key config = [] then config\<lparr>c_key := b_guid B\<rparr> else config);
          m_config = new_KernelConfiguration\<lparr>c_transport := c_transport config, c_ip := c_ip config,
            c_signatureScheme := c_signatureScheme config, c_key := c_key config\<rparr>
      in rbind (makeAuthentication (b_fetched B) (b_allocated B) (c_signatureScheme config) (c_key config)) (\<lambda>_.
         rbind (bound_port B config 0 (c_iopubPort config)) (\<lambda>iopub.
         rbind (bound_port B config 1 (c_hbPort config)) (\<lambda>hb.
         rbind (bound_port B config 2 (c_shellPort config)) (\<lambda>shell.
         rbind (bound_port B config 3 (c_controlPort config)) (\<lambda>control.
         rbind (bound_port B config 4 (c_stdinPort config)) (\<lambda>stdin.
           case b_configure B of
             Some x \<Rightarrow> Inl x
           | None \<Rightarrow> Inr (m_config\<lparr>c_controlPort := control, c_shellPort := shell, c_stdinPort := stdin,
                            c_iopubPort := iopub, c_hbPort := hb\<rparr>))))))))"

text \<open>\<open>Server::start\<close>: the exception it passes on, and the report it made. An exception after the report is logged
  and no more.\<close>

datatype report = Registered string string KernelConfiguration | Ready KernelConfiguration

definition passed_on :: "bool \<Rightarrow> bool \<Rightarrow> exn \<Rightarrow> unit result" where
  "passed_on on_ready_called on_ready_failed x = (if \<not> on_ready_called \<or> on_ready_failed then Inl x else Inr ())"

definition server_start ::
  "boot \<Rightarrow> kernel_kind \<Rightarrow> EnvironmentConfig \<Rightarrow> environ \<Rightarrow> KernelConfiguration \<Rightarrow> (KernelConfiguration \<Rightarrow> report result) \<Rightarrow>
   unit result \<times> report option" where
  "server_start B kind env_config env config on_ready =
     (case b_interpreter B kind (setupEnvironment env_config env) of
        Some x \<Rightarrow> (passed_on False False x, None)
      | None \<Rightarrow>
        (case new_Kernel B config of
           Inl x \<Rightarrow> (passed_on False False x, None)
         | Inr bound \<Rightarrow>
           (case on_ready bound of
              Inl x \<Rightarrow> (passed_on True True x, None)
            | Inr r \<Rightarrow>
              (case b_engine B of
                 Some x \<Rightarrow> (passed_on True False x, Some r)
               | None \<Rightarrow> (Inr (), Some r)))))"

definition register_kernel :: "boot \<Rightarrow> CliOptions \<Rightarrow> KernelConfiguration \<Rightarrow> report result" where
  "register_kernel B opts bound =
     (let end_point = getEndPoint ''tcp'' (cli_registrationIp opts) (cli_registrationPort opts)
      in rbind (makeAuthentication (b_fetched B) (b_allocated B) ''hmac-sha256'' (cli_key opts)) (\<lambda>auth.
         rbind (sendConnectionInfo (b_handshake B) auth (b_answers B end_point) (cli_registrationId opts) bound) (\<lambda>_.
         Inr (Registered end_point (cli_registrationId opts) bound))))"

definition kernel_configuration :: "boot \<Rightarrow> CliOptions \<Rightarrow> KernelConfiguration result" where
  "kernel_configuration B opts =
     (if cli_connectionFile opts \<noteq> [] then
        rbind (loadConfiguration (b_file B (cli_connectionFile opts))) (\<lambda>parsed.
          case parsed of
            Kernel_Config config \<Rightarrow> Inr config
          | Registration_Config _ \<Rightarrow> Inl (RuntimeError (cli_connectionFile opts @ '' is a registration-style connection file'')))
      else Inr (makeKernelConfiguration (cli_key opts)))"

text \<open>\<open>main\<close>: the exit code and the report that was made. Carpo does not say that it is supervised.\<close>

definition kernel_main :: "boot \<Rightarrow> kernel_kind \<Rightarrow> string list \<Rightarrow> environ \<Rightarrow> int \<times> report option" where
  "kernel_main B kind argv env =
     (let opts = toCliOptions kind (parseArgs argv); standalone = cli_connectionFile opts \<noteq> []
      in if \<not> standalone \<and> (cli_registrationPort opts = [] \<or> cli_key opts = []) then (1, None)
         else
           let env = (if \<not> standalone \<and> kind \<noteq> Carpo then env(''JOVIAN_SUPERVISED'' \<mapsto> ''1'') else env)
           in case kernel_configuration B opts of
                Inl _ \<Rightarrow> (1, None)
              | Inr config \<Rightarrow>
                  (case server_start B kind (cli_environment opts) env config
                          (if standalone then (\<lambda>bound. Inr (Ready bound)) else register_kernel B opts) of
                     (Inl _, r) \<Rightarrow> (1, r)
                   | (Inr _, r) \<Rightarrow> (0, r)))"

section \<open>The options arrive\<close>

definition long_flag :: "string \<times> string \<Rightarrow> bool" where
  "long_flag p \<longleftrightarrow> starts_with (fst p) ''--''"

fun kept_args :: "(string \<times> string) list \<Rightarrow> (string \<rightharpoonup> string) \<Rightarrow> (string \<rightharpoonup> string)" where
  "kept_args [] args = args"
| "kept_args ((flag, v) # rest) args = kept_args rest (if v = [] then args else args(drop 2 flag \<mapsto> v))"

lemma parse_arg_pairs: "list_all long_flag ps \<Longrightarrow> parse_pairs (arg_pairs ps) args = kept_args ps args"
  by (induction ps args rule: kept_args.induct) (auto simp: long_flag_def starts_with_def)

lemma toArgPairs_long: "list_all long_flag (toArgPairs popts)"
  by (simp add: toArgPairs_def long_flag_def starts_with_def)

text \<open>The environment a process is started for.\<close>

fun environment_for :: "kernel_kind \<Rightarrow> KernelProcessOptions \<Rightarrow> EnvironmentConfig" where
  "environment_for Elara popts = R_Environment (rHome popts) (rPath popts) (rLibs popts) (pandocPath popts)"
| "environment_for Carpo popts = Python_Environment (pythonHome popts) (pythonPath popts) (venvPath popts)"
| "environment_for Callisto popts = Stata_Environment (stataHome popts) (stataEdition popts)"

definition options_for :: "kernel_kind \<Rightarrow> KernelProcessOptions \<Rightarrow> CliOptions" where
  "options_for kind popts =
     \<lparr>cli_environment = environment_for kind popts,
      cli_registrationIp = (if registrationIp popts \<noteq> [] then registrationIp popts else ''127.0.0.1''),
      cli_registrationPort = registrationPort popts, cli_registrationId = registrationId popts, cli_key = process_key popts,
      cli_connectionFile = []\<rparr>"

lemma command_line_read_back:
  assumes "explicitArgs popts = []"
  shows "toCliOptions kind (parseArgs (exe # commandArguments popts)) = options_for kind popts"
proof -
  let ?args = "kept_args (toArgPairs popts) Map.empty"
  have args: "parseArgs (exe # commandArguments popts) = ?args"
    using assms by (simp add: parseArgs_def commandArguments_def parse_arg_pairs [OF toArgPairs_long])
  have g: "get_arg ?args ''r-home'' = rHome popts" "get_arg ?args ''r-path'' = rPath popts" "get_arg ?args ''r-libs'' = rLibs popts"
    "get_arg ?args ''pandoc-path'' = pandocPath popts" "get_arg ?args ''python-home'' = pythonHome popts"
    "get_arg ?args ''python-path'' = pythonPath popts" "get_arg ?args ''venv-path'' = venvPath popts"
    "get_arg ?args ''stata-home'' = stataHome popts" "get_arg ?args ''stata-edition'' = stataEdition popts"
    "get_arg ?args ''registration-ip'' = registrationIp popts" "get_arg ?args ''registration-port'' = registrationPort popts"
    "get_arg ?args ''registration-id'' = registrationId popts" "get_arg ?args ''key'' = process_key popts"
    "get_arg ?args ''connection-file'' = []"
    by (simp_all add: toArgPairs_def get_arg_def)
  show ?thesis unfolding args by (cases kind) (simp_all add: toCliOptions_def options_for_def elara_options_def carpo_options_def callisto_options_def g)
qed

text \<open>The exit code is 0 exactly when the kernel was reported ready: also when it fails afterwards.\<close>

lemma exit_code_tells_readiness: "fst (kernel_main B kind argv env) = (if snd (kernel_main B kind argv env) = None then 1 else 0)"
  by (auto simp: kernel_main_def server_start_def passed_on_def Let_def split: option.split sum.split)

section \<open>A supervised kernel registers\<close>

lemma new_Kernel_answers: "new_Kernel (B\<lparr>b_answers := f\<rparr>) config = new_Kernel B config"
  by (simp add: new_Kernel_def bound_port_def)

text \<open>The main program of a kernel that the supervisor starts.\<close>

lemma supervised_main:
  assumes "explicitArgs popts = []" "registrationPort popts \<noteq> []" "process_key popts \<noteq> []"
    and "b_interpreter B kind (setupEnvironment (environment_for kind popts)
           (if kind \<noteq> Carpo then env(''JOVIAN_SUPERVISED'' \<mapsto> ''1'') else env)) = None"
    and "new_Kernel B (makeKernelConfiguration (process_key popts)) = Inr bound"
    and "register_kernel B (options_for kind popts) bound = Inr r"
  shows "kernel_main B kind (exe # commandArguments popts) env = (0, Some r)"
proof -
  let ?opts = "options_for kind popts"
  have o: "cli_connectionFile ?opts = []" "cli_registrationPort ?opts \<noteq> []" "cli_key ?opts = process_key popts"
    "cli_environment ?opts = environment_for kind popts"
    using assms(2) by (simp_all add: options_for_def)
  have "kernel_configuration B ?opts = Inr (makeKernelConfiguration (process_key popts))" by (simp add: kernel_configuration_def o)
  moreover have "server_start B kind (environment_for kind popts) (if kind \<noteq> Carpo then env(''JOVIAN_SUPERVISED'' \<mapsto> ''1'') else env)
      (makeKernelConfiguration (process_key popts)) (register_kernel B ?opts) = (Inr (), Some r)"
    using assms(4-6) by (simp add: server_start_def passed_on_def split: option.split)
  ultimately show ?thesis
    using assms(3) o unfolding kernel_main_def command_line_read_back [OF assms(1)] Let_def by simp
qed

text \<open>C38. A kernel that the supervisor starts registers with it. For each of the three kernels, with the command line
  that the supervisor builds of its options, when the interpreter starts in the environment made of those
  options and the sockets are bound: the kernel sends one registration, for the identifier it was started
  with, to the end point it was told; the supervisor's listener, waiting for that identifier with the same
  key, takes it and gets exactly the ports that the kernel's sockets are bound to; and with its answer
  the kernel reports itself registered and goes on to serve, with exit code 0.\<close>

theorem supervised_kernel_registers:
  assumes "explicitArgs popts = []" "registrationIp popts \<noteq> []" "registrationPort popts \<noteq> []" "process_key popts \<noteq> []"
    and "b_interpreter B kind (setupEnvironment (environment_for kind popts)
           (if kind \<noteq> Carpo then env(''JOVIAN_SUPERVISED'' \<mapsto> ''1'') else env)) = None"
    and "new_Kernel B (makeKernelConfiguration (process_key popts)) = Inr bound"
    and "makeAuthentication (b_fetched B) (b_allocated B) ''hmac-sha256'' (process_key popts) = Inr (l_auth h)"
    and "prints_back (e_parse (b_handshake B)) (e_dump (b_handshake B)) (registration_json (registrationId popts) bound)"
    and "rid \<noteq> DELIMITER" "list_all (still_waiting now) quiet"
  shows "\<exists>wire answer config h'.
    registration_message (b_handshake B) (l_auth h) (registrationId popts) bound = Inr wire \<and>
    waitForConfiguration (b_handshake B) (registrationId popts) now (quiet @ [Arrived t (rid # wire)]) h = Some (Inr config, h') \<and>
    l_sent h' = l_sent h @ [rid # answer] \<and>
    config = new_KernelConfiguration\<lparr>c_key := l_key h, c_kernelId := registrationId popts, c_controlPort := c_controlPort bound,
      c_shellPort := c_shellPort bound, c_stdinPort := c_stdinPort bound, c_iopubPort := c_iopubPort bound, c_hbPort := c_hbPort bound\<rparr> \<and>
    kernel_main (B\<lparr>b_answers := \<lambda>ep w. if ep = getEndPoint ''tcp'' (registrationIp popts) (registrationPort popts) \<and> w = wire then Some answer else None\<rparr>)
      kind (kernelExePath popts # commandArguments popts) env
    = (0, Some (Registered (getEndPoint ''tcp'' (registrationIp popts) (registrationPort popts)) (registrationId popts) bound))"
proof -
  let ?E = "b_handshake B" let ?id = "registrationId popts" let ?ep = "getEndPoint ''tcp'' (registrationIp popts) (registrationPort popts)"
  obtain wire where wire: "registration_message ?E (l_auth h) ?id bound = Inr wire"
    using assms(8) by (auto simp: prints_back_def registration_message_def split: sum.splits)
  from registration_round_trip [OF assms(8,9) disjI2 [OF refl] assms(10) wire, of t]
  obtain answer config h' where l: "waitForConfiguration ?E ?id now (quiet @ [Arrived t (rid # wire)]) h = Some (Inr config, h')"
    "l_sent h' = l_sent h @ [rid # answer]"
    "config = new_KernelConfiguration\<lparr>c_key := l_key h, c_kernelId := ?id, c_controlPort := c_controlPort bound,
      c_shellPort := c_shellPort bound, c_stdinPort := c_stdinPort bound, c_iopubPort := c_iopubPort bound, c_hbPort := c_hbPort bound\<rparr>"
    "sendConnectionInfo ?E (l_auth h) (\<lambda>w. if w = wire then Some answer else None) ?id bound = Inr ()"
    by blast
  let ?B = "B\<lparr>b_answers := \<lambda>ep w. if ep = ?ep \<and> w = wire then Some answer else None\<rparr>"
  have "register_kernel ?B (options_for kind popts) bound = Inr (Registered ?ep ?id bound)"
    using assms(2,7) l(4) by (simp add: register_kernel_def options_for_def Let_def)
  from supervised_main [OF assms(1,3,4) _ _ this, of env "kernelExePath popts"] assms(5,6)
  have "kernel_main ?B kind (kernelExePath popts # commandArguments popts) env = (0, Some (Registered ?ep ?id bound))"
    by (simp add: new_Kernel_answers)
  with wire l(1-3) show ?thesis by blast
qed

definition demo_options :: KernelProcessOptions where
  "demo_options = \<lparr>kernelExePath = ''/opt/elara'', rHome = ''/usr/lib/R'', rPath = [], rLibs = [], pandocPath = [], pythonHome = [],
     pythonPath = [], venvPath = [], stataHome = [], stataEdition = [], workingDirectory = [], explicitArgs = [], extraEnv = [],
     interruptBySignal = False, registrationIp = ''127.0.0.1'', registrationPort = ''5000'', registrationId = ''k1'',
     process_key = ''secret''\<rparr>"

definition demo_boot :: boot where
  "demo_boot = \<lparr>b_handshake = plain_handshake, b_fetched = True, b_allocated = True, b_file = (\<lambda>_. Inr JNull),
     b_interpreter = (\<lambda>kind env. if env ''R_HOME'' = Some ''/usr/lib/R'' then None else Some (RuntimeError ''no R'')),
     b_draw = (\<lambda>n _. [4, 5, 2, 1, 3] ! n), b_bind = (\<lambda>_ _ _. True), b_why = [], b_guid = [], b_configure = None, b_engine = None,
     b_answers = (\<lambda>_ _. None)\<rparr>"

lemma demo_ports:
  "new_Kernel demo_boot (makeKernelConfiguration ''secret'') = Inr (plain_kernel\<lparr>c_key := ''secret''\<rparr>)"
  by code_simp

theorem supervised_kernel_registers_witness:
  "\<exists>wire answer. kernel_main
      (demo_boot\<lparr>b_answers := \<lambda>ep w. if ep = ''tcp://127.0.0.1:5000'' \<and> w = wire then Some answer else None\<rparr>)
      Elara (''/opt/elara'' # commandArguments demo_options) Map.empty
    = (0, Some (Registered ''tcp://127.0.0.1:5000'' ''k1'' (plain_kernel\<lparr>c_key := ''secret''\<rparr>)))"
proof -
  have o: "explicitArgs demo_options = []" "registrationIp demo_options \<noteq> []" "registrationPort demo_options \<noteq> []"
    "process_key demo_options \<noteq> []" by (simp_all add: demo_options_def)
  have i: "b_interpreter demo_boot Elara (setupEnvironment (environment_for Elara demo_options)
      (if Elara \<noteq> Carpo then Map.empty(''JOVIAN_SUPERVISED'' \<mapsto> ''1'') else Map.empty)) = None"
    by (simp add: demo_boot_def demo_options_def elara_environment_def set_if_def prepend_path_def)
  have k: "new_Kernel demo_boot (makeKernelConfiguration (process_key demo_options)) = Inr (plain_kernel\<lparr>c_key := ''secret''\<rparr>)"
    using demo_ports by (simp add: demo_options_def)
  have a: "makeAuthentication (b_fetched demo_boot) (b_allocated demo_boot) ''hmac-sha256'' (process_key demo_options) = Inr (l_auth plain_listener)"
    by code_simp
  have p: "prints_back (e_parse (b_handshake demo_boot)) (e_dump (b_handshake demo_boot))
      (registration_json (registrationId demo_options) (plain_kernel\<lparr>c_key := ''secret''\<rparr>))"
    by (simp add: prints_back_def demo_boot_def plain_handshake_def demo_options_def registration_json_def)
  have r: "''z'' \<noteq> DELIMITER" by (simp add: DELIMITER_def)
  have e: "getEndPoint ''tcp'' (registrationIp demo_options) (registrationPort demo_options) = ''tcp://127.0.0.1:5000''"
    "registrationId demo_options = ''k1''" "kernelExePath demo_options = ''/opt/elara''"
    by (simp_all add: getEndPoint_def demo_options_def)
  show ?thesis
    using supervised_kernel_registers [OF o i k a p r, of 0 "[]" 0] unfolding e by auto
qed

end
