(* ===== verification/Stata_Code.thy ===== *)
theory Stata_Code
  imports Prelude
begin

text \<open>
  How the Stata kernel reads Stata code (the first half of
  \<open>native/src/callisto/stata/stata_text.cpp\<close>): trimming and splitting of text, whether a cell is
  complete, what is being completed at the cursor, and whether a cell is a single command.

  Shown: a complete cell leaves nothing behind for what follows it, so that cells may be joined line by
  line; an invalid one stays invalid whatever is appended; the name under the cursor is the longest run of
  name characters around it; completion offers each matching name once, in order.
\<close>

section \<open>Lines and words\<close>

text \<open>\<open>isNameChar\<close>; \<open>isSpace\<close> is \<open>isspace\<close> of the C locale.\<close>

definition isalnum :: "char \<Rightarrow> bool" where
  "isalnum c \<longleftrightarrow> (let n = (of_char c :: nat) in
     48 \<le> n \<and> n \<le> 57 \<or> 65 \<le> n \<and> n \<le> 90 \<or> 97 \<le> n \<and> n \<le> 122)"

definition isNameChar :: "char \<Rightarrow> bool" where
  "isNameChar c \<longleftrightarrow> 0x80 \<le> (of_char c :: nat) \<or> isalnum c \<or> c = CHR ''_''"

text \<open>The lines \<open>std::getline\<close> reads: a last line without a newline counts, an empty one at the
  end does not.\<close>

fun getlines :: "string \<Rightarrow> string list" where
  "getlines [] = []"
| "getlines (c # cs) =
     (if c = CHR 0x0A then [] # getlines cs
      else case getlines cs of [] \<Rightarrow> [[c]] | l # ls \<Rightarrow> (c # l) # ls)"

definition chop_cr :: "string \<Rightarrow> string" where
  "chop_cr line = (if line \<noteq> [] \<and> last line = CHR 0x0D then butlast line else line)"

definition splitLines :: "string \<Rightarrow> string list" where
  "splitLines t = map chop_cr (getlines t)"

definition trim :: "string \<Rightarrow> string" where
  "trim t = rev (dropWhile isspace (rev (dropWhile isspace t)))"

text \<open>\<open>while (stream >> word)\<close>.\<close>

function splitNames :: "string \<Rightarrow> string list" where
  "splitNames t =
     (let s = dropWhile isspace t in
      if s = [] then []
      else takeWhile (\<lambda>c. \<not> isspace c) s # splitNames (dropWhile (\<lambda>c. \<not> isspace c) s))"
  by pat_completeness auto
termination
proof (relation "measure length")
  fix t s :: string
  assume s: "s = dropWhile isspace t" "s \<noteq> []"
  then have "\<not> isspace (hd s)" using hd_dropWhile by blast
  with s(2) obtain c cs where "s = c # cs" "\<not> isspace c" by (cases s) auto
  then have "length (dropWhile (\<lambda>c. \<not> isspace c) s) < length s"
    by (simp add: length_dropWhile_le le_imp_less_Suc)
  also have "\<dots> \<le> length t" by (simp add: s(1) length_dropWhile_le)
  finally show "(dropWhile (\<lambda>c. \<not> isspace c) s, t) \<in> measure length" by simp
qed simp

declare splitNames.simps [simp del]

section \<open>Complete cells\<close>

text \<open>The variables of \<open>isComplete\<close>: the first three live through the cell, the others through one
  line.\<close>

record scan =
  commentDepth :: int
  braces :: int
  continued :: bool
  inString :: bool
  compound :: int
  sawCode :: bool

definition new_scan :: scan where
  "new_scan = \<lparr>commentDepth = 0, braces = 0, continued = False, inString = False, compound = 0, sawCode = False\<rparr>"

definition start_line :: "scan \<Rightarrow> scan" where
  "start_line s = s\<lparr>continued := False, inString := False, compound := 0, sawCode := False\<rparr>"

text \<open>One turn of the loop over a line: the character before the position (none at its start), the
  character there and the rest of the line. It goes on behind one or two characters, or the line ends:
  by a comment, or by the early return \<open>"invalid"\<close> (\<open>None\<close>).\<close>

datatype scan_next = Go char string scan | Stop "scan option"

definition skip1 :: "char \<Rightarrow> string \<Rightarrow> scan \<Rightarrow> scan_next" where
  "skip1 c cs s = Go c cs s"

definition skip2 :: "string \<Rightarrow> scan \<Rightarrow> scan_next" where
  "skip2 cs s = (case cs of [] \<Rightarrow> Stop (Some s) | d # rest \<Rightarrow> Go d rest s)"

definition next_is :: "string \<Rightarrow> char \<Rightarrow> bool" where
  "next_is cs d \<longleftrightarrow> (case cs of [] \<Rightarrow> False | e # _ \<Rightarrow> e = d)"

definition scan_comment :: "char \<Rightarrow> string \<Rightarrow> scan \<Rightarrow> scan_next" where
  "scan_comment c cs s =
     (if c = CHR ''*'' \<and> next_is cs (CHR ''/'') then skip2 cs (s\<lparr>commentDepth := commentDepth s - 1\<rparr>)
      else if c = CHR ''/'' \<and> next_is cs (CHR ''*'') then skip2 cs (s\<lparr>commentDepth := commentDepth s + 1\<rparr>)
      else skip1 c cs s)"

definition scan_compound :: "char \<Rightarrow> string \<Rightarrow> scan \<Rightarrow> scan_next" where
  "scan_compound c cs s =
     (if c = CHR 0x60 \<and> next_is cs (CHR 0x22) then skip2 cs (s\<lparr>compound := compound s + 1\<rparr>)
      else if c = CHR 0x22 \<and> next_is cs (CHR 0x27) then skip2 cs (s\<lparr>compound := compound s - 1\<rparr>)
      else skip1 c cs s)"

definition scan_code :: "char \<Rightarrow> string \<Rightarrow> scan \<Rightarrow> scan_next" where
  "scan_code c cs s =
     (if c = CHR 0x60 \<and> next_is cs (CHR 0x22) then skip2 cs (s\<lparr>compound := 1\<rparr>)
      else if c = CHR 0x22 then skip1 c cs (s\<lparr>inString := True\<rparr>)
      else if c = CHR 0x7B then skip1 c cs (s\<lparr>braces := braces s + 1\<rparr>)
      else if c = CHR 0x7D then
        (if braces s - 1 < 0 then Stop None else skip1 c cs (s\<lparr>braces := braces s - 1\<rparr>))
      else skip1 c cs s)"

definition scan_char :: "char option \<Rightarrow> char \<Rightarrow> string \<Rightarrow> scan \<Rightarrow> scan_next" where
  "scan_char prev c cs s =
     (if commentDepth s > 0 then scan_comment c cs s
      else if inString s then skip1 c cs (if c = CHR 0x22 then s\<lparr>inString := False\<rparr> else s)
      else if compound s > 0 then scan_compound c cs s
      else if isspace c then skip1 c cs s
      else if \<not> sawCode s \<and> c = CHR ''*'' then Stop (Some s)
      else if c = CHR ''/'' \<and> next_is cs (CHR ''*'') then skip2 cs (s\<lparr>commentDepth := commentDepth s + 1\<rparr>)
      else if c = CHR ''/'' \<and> next_is cs (CHR ''/'') \<and> (case prev of None \<Rightarrow> True | Some p \<Rightarrow> isspace p) then
        Stop (Some (if next_is (tl cs) (CHR ''/'') then s\<lparr>continued := True\<rparr> else s))
      else scan_code c cs (s\<lparr>sawCode := True\<rparr>))"

lemmas scan_char_defs = scan_char_def scan_comment_def scan_compound_def scan_code_def skip1_def skip2_def

lemma scan_char_shorter: "scan_char prev c cs s = Go p rest s' \<Longrightarrow> length rest < Suc (length cs)"
  by (auto simp: scan_char_defs split: if_splits list.splits)

function scan_line :: "char option \<Rightarrow> string \<Rightarrow> scan \<Rightarrow> scan option" where
  "scan_line prev [] s = Some s"
| "scan_line prev (c # cs) s =
     (case scan_char prev c cs s of Stop r \<Rightarrow> r | Go p rest s' \<Rightarrow> scan_line (Some p) rest s')"
  by pat_completeness auto
termination
  by (relation "measure (\<lambda>(_, cs, _). length cs)") (auto dest: scan_char_shorter)

fun scan_lines :: "string list \<Rightarrow> scan \<Rightarrow> scan option" where
  "scan_lines [] s = Some s"
| "scan_lines (line # lines) s =
     (if commentDepth s = 0 \<and> trim line = [] then scan_lines lines s
      else case scan_line None line (start_line s) of None \<Rightarrow> None | Some s \<Rightarrow> scan_lines lines s)"

definition isComplete :: "string \<Rightarrow> string" where
  "isComplete code =
     (case scan_lines (splitLines code) new_scan of
        None \<Rightarrow> ''invalid''
      | Some s \<Rightarrow> if commentDepth s > 0 \<or> braces s > 0 \<or> continued s then ''incomplete'' else ''complete'')"

section \<open>Completion\<close>

definition command_prefixes :: "string list" where
  "command_prefixes = [''quietly'', ''qui'', ''quietl'', ''noisily'', ''noi'', ''capture'',
     ''cap'', ''captur'', ''capt'', ''captu'', ''bysort'', ''bys'', ''by'', ''xi'', ''svy'', ''mi'', ''statsby'',
     ''rolling'', ''bootstrap'', ''jackknife'', ''permute'', ''simulate'', ''nestreg'', ''stepwise'', ''eststo'',
     ''version'', ''frame'', ''timer'', ''python'', ''mata'', ''collect'', ''table'']"

definition isCommandPrefix :: "string \<Rightarrow> bool" where
  "isCommandPrefix word \<longleftrightarrow> word \<in> set command_prefixes"

text \<open>The loops that walk back from a position: the part of \<open>before\<close> after the last character that ends
  the walk.\<close>

definition back_while :: "(char \<Rightarrow> bool) \<Rightarrow> string \<Rightarrow> string" where
  "back_while ok before = rev (takeWhile ok (rev before))"

definition startsCommand :: "string \<Rightarrow> nat \<Rightarrow> bool" where
  "startsCommand code start =
     (let before = back_while (\<lambda>c. c \<noteq> CHR 0x0A \<and> c \<noteq> CHR '';'') (take start code);
          before = (case find_last_of {CHR '':''} before of None \<Rightarrow> before | Some colon \<Rightarrow> drop (colon + 1) before)
      in list_all isCommandPrefix (splitNames before))"

datatype CompletionKind = NoCompletion | Variable | Global | Local | Command | Result

record CompletionToken =
  t_kind :: CompletionKind
  t_prefix :: string
  t_start :: nat
  t_resultClass :: char

text \<open>\<open>std::clamp(cursorPos, 0, code.size())\<close>.\<close>

definition clamp_cursor :: "int \<Rightarrow> string \<Rightarrow> nat" where
  "clamp_cursor cursorPos code = nat (min (max cursorPos 0) (int (length code)))"

definition name_start :: "string \<Rightarrow> nat \<Rightarrow> nat" where
  "name_start code pos = pos - length (back_while isNameChar (take pos code))"

text \<open>The characters before the name, a zero where there is none.\<close>

definition char_before :: "string \<Rightarrow> nat \<Rightarrow> nat \<Rightarrow> char" where
  "char_before code start k = (if start > k then code ! (start - k - 1) else CHR 0x00)"

definition completionToken :: "string \<Rightarrow> int \<Rightarrow> CompletionToken" where
  "completionToken code cursorPos =
     (let pos = clamp_cursor cursorPos code;
          start = name_start code pos;
          prefix = substr code start (pos - start);
          before = char_before code start 0;
          beforeThat = char_before code start 1;
          third = char_before code start 2;
          token = \<lparr>t_kind = NoCompletion, t_prefix = prefix, t_start = start, t_resultClass = CHR 0x00\<rparr>
      in if before = CHR 0x60 then token\<lparr>t_kind := Local\<rparr>
         else if before = CHR ''$'' \<or> (before = CHR 0x7B \<and> beforeThat = CHR ''$'') then token\<lparr>t_kind := Global\<rparr>
         else if before = CHR ''('' \<and> (beforeThat = CHR ''r'' \<or> beforeThat = CHR ''e'' \<or> beforeThat = CHR ''s'')
                \<and> \<not> isNameChar third
         then token\<lparr>t_kind := Result, t_resultClass := beforeThat\<rparr>
         else if prefix \<noteq> [] \<and> \<not> isdigit (prefix ! 0)
         then token\<lparr>t_kind := (if startsCommand code start then Command else Variable)\<rparr>
         else token)"

definition tokenAt :: "string \<Rightarrow> int \<Rightarrow> string" where
  "tokenAt code cursorPos =
     (let pos = clamp_cursor cursorPos code;
          start = name_start code pos;
          upto = pos + length (takeWhile isNameChar (drop pos code))
      in substr code start (upto - start))"

text \<open>The loop with its set of names seen.\<close>

fun matching_loop :: "string \<Rightarrow> string set \<Rightarrow> string list \<Rightarrow> string list" where
  "matching_loop prefix seen [] = []"
| "matching_loop prefix seen (name # names) =
     (if starts_with name prefix \<and> name \<notin> seen then name # matching_loop prefix (insert name seen) names
      else matching_loop prefix seen names)"

definition matchingNames :: "string list \<Rightarrow> string \<Rightarrow> string list" where
  "matchingNames candidates prefix = matching_loop prefix {} candidates"

section \<open>Single commands\<close>

text \<open>\<open>s.find(p) != npos\<close>.\<close>

fun contains :: "string \<Rightarrow> string \<Rightarrow> bool" where
  "contains [] p \<longleftrightarrow> p = []"
| "contains (c # s) p \<longleftrightarrow> starts_with (c # s) p \<or> contains s p"

definition isSingleCommand :: "string \<Rightarrow> bool" where
  "isSingleCommand code \<longleftrightarrow>
     (let line = trim code in
      if line = [] \<or> CHR 0x0A \<in> set line \<or> CHR 0x0D \<in> set line then False
      else if isComplete line \<noteq> ''complete'' then False
      else if line ! 0 = CHR ''*'' \<or> line ! 0 = CHR ''#'' \<or> contains line ''//'' \<or> contains line ''/*'' then False
      else case splitNames line of [] \<Rightarrow> [] \<noteq> ''exit'' | first # _ \<Rightarrow> first \<noteq> ''exit'')"

section \<open>Joining cells\<close>

lemma getlines_newline:
  "getlines (a @ CHR 0x0A # b)
     = getlines a @ (if a = [] \<or> last a = CHR 0x0A then [[]] else []) @ getlines b"
proof (induction a)
  case Nil
  then show ?case by simp
next
  case (Cons c a)
  show ?case
  proof (cases "c = CHR 0x0A")
    case True
    with Cons show ?thesis by simp
  next
    case False
    show ?thesis
    proof (cases a)
      case Nil
      with False show ?thesis by simp
    next
      case (Cons d a')
      then have "getlines a \<noteq> []" by (simp split: list.splits)
      then show ?thesis using Cons.IH False Cons by (auto split: list.splits)
    qed
  qed
qed

lemma scan_lines_append:
  "scan_lines (xs @ ys) s = (case scan_lines xs s of None \<Rightarrow> None | Some s \<Rightarrow> scan_lines ys s)"
  by (induction xs arbitrary: s) (auto split: option.splits)

lemma trim_Nil [simp]: "trim [] = []"
  by (simp add: trim_def)

text \<open>What a line leaves never depends on the variables it resets.\<close>

definition scan_ok :: "scan \<Rightarrow> bool" where
  "scan_ok s \<longleftrightarrow> 0 \<le> commentDepth s \<and> 0 \<le> braces s"

lemma scan_char_depth:
  "scan_ok s \<Longrightarrow> case scan_char prev c cs s of Go _ _ s' \<Rightarrow> scan_ok s' | Stop r \<Rightarrow> pred_option scan_ok r"
  by (auto simp: scan_char_defs scan_ok_def split: list.splits)

lemma scan_line_depth: "scan_line prev cs s = Some s' \<Longrightarrow> scan_ok s \<Longrightarrow> scan_ok s'"
proof (induction prev cs s rule: scan_line.induct)
  case (2 prev c cs s)
  then show ?case
    using scan_char_depth [of s prev c cs] by (auto split: scan_next.splits)
qed simp

lemma scan_lines_depth: "scan_lines ls s = Some s' \<Longrightarrow> scan_ok s \<Longrightarrow> scan_ok s'"
proof (induction ls s rule: scan_lines.induct)
  case (2 line lines s)
  have "scan_ok (start_line s)" using 2(4) by (simp add: scan_ok_def start_line_def)
  then show ?case
    using 2 scan_line_depth [of None line "start_line s"] by (auto split: if_splits option.splits)
qed simp

definition carried :: "scan \<Rightarrow> int \<times> int \<times> bool" where
  "carried s = (commentDepth s, braces s, continued s)"

lemma carried_eq_start: "carried s = carried s' \<Longrightarrow> start_line s = start_line s'"
  by (simp add: carried_def start_line_def)

lemma scan_lines_reset:
  "carried s = carried s' \<Longrightarrow> map_option carried (scan_lines ls s) = map_option carried (scan_lines ls s')"
proof (induction ls arbitrary: s s')
  case (Cons l ls)
  have d: "commentDepth s = commentDepth s'" using Cons.prems by (simp add: carried_def)
  show ?case
  proof (cases "commentDepth s' = 0 \<and> trim l = []")
    case True
    then show ?thesis using Cons.IH [OF Cons.prems] d by simp
  next
    case False
    then have "scan_lines (l # ls) s = scan_lines (l # ls) s'"
      using carried_eq_start [OF Cons.prems] d by auto
    then show ?thesis by simp
  qed
qed simp

definition verdict :: "(int \<times> int \<times> bool) option \<Rightarrow> string" where
  "verdict r = (case r of None \<Rightarrow> ''invalid''
     | Some (d, b, k) \<Rightarrow> if d > 0 \<or> b > 0 \<or> k then ''incomplete'' else ''complete'')"

lemma isComplete_verdict: "isComplete code = verdict (map_option carried (scan_lines (splitLines code) new_scan))"
  by (simp add: isComplete_def verdict_def carried_def split: option.splits)

text \<open>A complete cell leaves nothing behind: what follows it on new lines is judged as if it stood
  alone. An invalid cell stays invalid whatever follows.\<close>

lemma cells_compose:
  "(isComplete a = ''complete'' \<longrightarrow> isComplete (a @ CHR 0x0A # b) = isComplete b)
   \<and> (isComplete a = ''invalid'' \<longrightarrow> isComplete (a @ CHR 0x0A # b) = ''invalid'')"
proof (cases "scan_lines (splitLines a) new_scan")
  case None
  then show ?thesis
    by (simp add: isComplete_def splitLines_def getlines_newline scan_lines_append)
next
  case (Some s)
  have "scan_ok s"
    using scan_lines_depth [OF Some] by (simp add: new_scan_def scan_ok_def)
  moreover have "isComplete (a @ CHR 0x0A # b) = isComplete b"
    if "commentDepth s = 0" "braces s = 0" "\<not> continued s"
  proof -
    have "scan_lines (splitLines (a @ CHR 0x0A # b)) new_scan = scan_lines (splitLines b) s"
      using that Some by (simp add: splitLines_def getlines_newline scan_lines_append chop_cr_def)
    then show ?thesis
      using that scan_lines_reset [of s new_scan "splitLines b"] by (simp add: isComplete_verdict carried_def new_scan_def)
  qed
  ultimately show ?thesis using Some by (auto simp: isComplete_def scan_ok_def)
qed

lemma cells_compose_witness:
  "isComplete (''{'' @ CHR 0x0A # ''}'') = ''complete''
   \<and> isComplete ((''{'' @ CHR 0x0A # ''}'') @ CHR 0x0A # ''/* {'') = isComplete ''/* {''
   \<and> isComplete ((''{}'' @ ''}'') @ CHR 0x0A # ''{'') = ''invalid''"
proof -
  have e: "isComplete (''{'' @ CHR 0x0A # ''}'') = ''complete''" "isComplete (''{}'' @ ''}'') = ''invalid''"
    by code_simp+
  then show ?thesis
    using cells_compose [of "''{'' @ CHR 0x0A # ''}''" "''/* {''"] cells_compose [of "''{}'' @ ''}''" "''{''"] by simp
qed

section \<open>Braces outside strings and comments\<close>

text \<open>Stata code as tokens: words, strings, compound strings, comments, braces. A line is its
  tokens, each followed by a blank.\<close>

datatype token = Word string | Quoted string | Compound string | Comment string | Open | Close

definition plain_char :: "char \<Rightarrow> bool" where
  "plain_char c \<longleftrightarrow> \<not> isspace c \<and> c \<notin> {CHR ''*'', CHR ''/'', CHR 0x60, CHR 0x22, CHR 0x7B, CHR 0x7D}"

definition free_of :: "char set \<Rightarrow> string \<Rightarrow> bool" where
  "free_of cs t \<longleftrightarrow> set t \<inter> (cs \<union> {CHR 0x0A}) = {}"

fun token_ok :: "token \<Rightarrow> bool" where
  "token_ok (Word w) \<longleftrightarrow> w \<noteq> [] \<and> list_all plain_char w"
| "token_ok (Quoted t) \<longleftrightarrow> free_of {CHR 0x22} t"
| "token_ok (Compound t) \<longleftrightarrow> free_of {CHR 0x22, CHR 0x60} t"
| "token_ok (Comment t) \<longleftrightarrow> free_of {CHR ''*'', CHR ''/''} t"
| "token_ok _ \<longleftrightarrow> True"

fun show_token :: "token \<Rightarrow> string" where
  "show_token (Word w) = w"
| "show_token (Quoted t) = CHR 0x22 # t @ [CHR 0x22]"
| "show_token (Compound t) = [CHR 0x60, CHR 0x22] @ t @ [CHR 0x22, CHR 0x27]"
| "show_token (Comment t) = ''/*'' @ t @ ''*/''"
| "show_token Open = [CHR 0x7B]"
| "show_token Close = [CHR 0x7D]"

definition show_line :: "token list \<Rightarrow> string" where
  "show_line ts = concat (map (\<lambda>t. show_token t @ '' '') ts)"

definition show_cell :: "token list list \<Rightarrow> string" where
  "show_cell tss = concat (map (\<lambda>ts. show_line ts @ [CHR 0x0A]) tss)"

text \<open>The number of open braces, \<open>None\<close> when one closes nothing.\<close>

fun balance :: "token list \<Rightarrow> int \<Rightarrow> int option" where
  "balance [] b = Some b"
| "balance (Open # ts) b = balance ts (b + 1)"
| "balance (Close # ts) b = (if b \<le> 0 then None else balance ts (b - 1))"
| "balance (_ # ts) b = balance ts b"

definition is_code :: "token \<Rightarrow> bool" where
  "is_code t \<longleftrightarrow> (\<forall>c. t \<noteq> Comment c)"

text \<open>Where a token starts: outside of everything.\<close>

definition outside :: "scan \<Rightarrow> bool" where
  "outside s \<longleftrightarrow> commentDepth s = 0 \<and> \<not> inString s \<and> compound s = 0"

lemma free_of_Cons: "free_of cs (c # t) \<longleftrightarrow> c \<notin> cs \<and> c \<noteq> CHR 0x0A \<and> free_of cs t"
  by (auto simp: free_of_def)

lemma isspace_chars [simp]:
  "isspace CHR '' ''" "\<not> isspace CHR ''*''" "\<not> isspace CHR ''/''" "\<not> isspace CHR 0x60" "\<not> isspace CHR 0x22"
  "\<not> isspace CHR 0x7B" "\<not> isspace CHR 0x7D" "isspace CHR 0x0A" "isspace CHR 0x0D" "\<not> isspace CHR 0x00"
  by (simp_all add: isspace_def)

lemma next_is_simps [simp]: "next_is [] d \<longleftrightarrow> False" "next_is (e # cs) d \<longleftrightarrow> e = d"
  by (simp_all add: next_is_def)

lemma scan_space: "outside s \<Longrightarrow> scan_line prev (CHR '' '' # cs) s = scan_line (Some CHR '' '') cs s"
  by (simp add: scan_char_defs outside_def)

lemma scan_word:
  "outside s \<Longrightarrow> list_all plain_char w \<Longrightarrow> w \<noteq> []
   \<Longrightarrow> scan_line prev (w @ cs) s = scan_line (Some (last w)) cs (s\<lparr>sawCode := True\<rparr>)"
proof (induction w arbitrary: prev s)
  case (Cons c w)
  have "scan_line prev ((c # w) @ cs) s = scan_line (Some c) (w @ cs) (s\<lparr>sawCode := True\<rparr>)"
    using Cons.prems(1,2) by (simp add: scan_char_defs outside_def plain_char_def)
  also have "\<dots> = scan_line (Some (last (c # w))) cs (s\<lparr>sawCode := True\<rparr>)"
    using Cons.IH [of "s\<lparr>sawCode := True\<rparr>" "Some c"] Cons.prems by (auto simp: outside_def)
  finally show ?case .
qed simp

lemma scan_string_body:
  "commentDepth s = 0 \<Longrightarrow> inString s \<Longrightarrow> free_of {CHR 0x22} t
   \<Longrightarrow> scan_line prev (t @ CHR 0x22 # cs) s = scan_line (Some CHR 0x22) cs (s\<lparr>inString := False\<rparr>)"
  by (induction t arbitrary: prev) (simp_all add: scan_char_def skip1_def free_of_Cons)

lemma scan_compound_body:
  "commentDepth s = 0 \<Longrightarrow> \<not> inString s \<Longrightarrow> compound s = 1 \<Longrightarrow> free_of {CHR 0x22, CHR 0x60} t
   \<Longrightarrow> scan_line prev (t @ CHR 0x22 # CHR 0x27 # cs) s = scan_line (Some CHR 0x27) cs (s\<lparr>compound := 0\<rparr>)"
  by (induction t arbitrary: prev) (simp_all add: scan_char_def scan_compound_def skip1_def skip2_def free_of_Cons)

lemma scan_comment_body:
  "commentDepth s = 1 \<Longrightarrow> free_of {CHR ''*'', CHR ''/''} t
   \<Longrightarrow> scan_line prev (t @ CHR ''*'' # CHR ''/'' # cs) s = scan_line (Some CHR ''/'') cs (s\<lparr>commentDepth := 0\<rparr>)"
  by (induction t arbitrary: prev) (simp_all add: scan_char_def scan_comment_def skip1_def skip2_def free_of_Cons)

lemma scan_restored:
  "\<not> inString s \<Longrightarrow> s\<lparr>sawCode := w, inString := False\<rparr> = s\<lparr>sawCode := w\<rparr>"
  "compound s = 0 \<Longrightarrow> s\<lparr>sawCode := w, compound := 0\<rparr> = s\<lparr>sawCode := w\<rparr>"
  "commentDepth s = 0 \<Longrightarrow> s\<lparr>commentDepth := 0\<rparr> = s"
  by (cases s; simp)+

lemma scan_token:
  assumes "outside s" "token_ok t"
  shows "\<exists>p. scan_line prev (show_token t @ cs) s =
     (case balance [t] (braces s) of None \<Rightarrow> None
      | Some b \<Rightarrow> scan_line (Some p) cs (s\<lparr>sawCode := sawCode s \<or> is_code t, braces := b\<rparr>))"
proof (cases t)
  case (Word w)
  then show ?thesis using assms scan_word [of s w prev cs] by (auto simp: is_code_def)
next
  case (Quoted q)
  then show ?thesis
    using assms scan_string_body [of "s\<lparr>sawCode := True, inString := True\<rparr>" q "Some CHR 0x22" cs]
    by (auto simp: outside_def scan_char_def scan_code_def skip1_def is_code_def scan_restored)
next
  case (Compound q)
  then show ?thesis
    using assms scan_compound_body [of "s\<lparr>sawCode := True, compound := 1\<rparr>" q "Some CHR 0x22" cs]
    by (auto simp: outside_def scan_char_def scan_code_def skip2_def is_code_def scan_restored)
next
  case (Comment q)
  then show ?thesis
    using assms scan_comment_body [of "s\<lparr>commentDepth := 1\<rparr>" q "Some CHR ''*''" cs]
    by (auto simp: outside_def scan_char_def skip2_def is_code_def scan_restored)
next
  case Open
  then show ?thesis using assms by (auto simp: outside_def scan_char_def scan_code_def skip1_def is_code_def)
next
  case Close
  then show ?thesis using assms by (auto simp: outside_def scan_char_def scan_code_def skip1_def is_code_def)
qed

lemma balance_append: "balance (ts @ us) b = (case balance ts b of None \<Rightarrow> None | Some b \<Rightarrow> balance us b)"
  by (induction ts b rule: balance.induct) auto

lemma outside_update [simp]: "outside (s\<lparr>sawCode := w, braces := b\<rparr>) \<longleftrightarrow> outside s"
  by (simp add: outside_def)

lemma scan_show_line:
  "outside s \<Longrightarrow> list_all token_ok ts
   \<Longrightarrow> map_option carried (scan_line prev (show_line ts) s)
     = map_option (\<lambda>b. (commentDepth s, b, continued s)) (balance ts (braces s))"
proof (induction ts arbitrary: prev s)
  case Nil
  then show ?case by (simp add: show_line_def carried_def)
next
  case (Cons t ts)
  obtain p where p: "scan_line prev (show_token t @ CHR '' '' # show_line ts) s =
     (case balance [t] (braces s) of None \<Rightarrow> None
      | Some b \<Rightarrow> scan_line (Some p) (CHR '' '' # show_line ts) (s\<lparr>sawCode := sawCode s \<or> is_code t, braces := b\<rparr>))"
    using scan_token [of s t prev] Cons.prems by auto
  show ?case
  proof (cases "balance [t] (braces s)")
    case None
    then show ?thesis
      using p balance_append [of "[t]" ts "braces s"] by (simp add: show_line_def)
  next
    case (Some b)
    let ?s = "s\<lparr>sawCode := sawCode s \<or> is_code t, braces := b\<rparr>"
    have "scan_line prev (show_line (t # ts)) s = scan_line (Some CHR '' '') (show_line ts) ?s"
      using p Some scan_space [of ?s "Some p" "show_line ts"] Cons.prems(1) by (simp add: show_line_def)
    then show ?thesis
      using Cons.IH [of ?s "Some CHR '' ''"] Cons.prems Some balance_append [of "[t]" ts "braces s"] by simp
  qed
qed

lemma getlines_single: "CHR 0x0A \<notin> set a \<Longrightarrow> a \<noteq> [] \<Longrightarrow> getlines a = [a]"
proof (induction a)
  case (Cons c a)
  have c: "c \<noteq> CHR 0x0A" using Cons.prems(1) by auto
  show ?case
  proof (cases "a = []")
    case True
    with c show ?thesis by simp
  next
    case False
    with Cons have "getlines a = [a]" by simp
    with c show ?thesis by simp
  qed
qed simp

lemma getlines_line:
  assumes "CHR 0x0A \<notin> set a"
  shows "getlines (a @ CHR 0x0A # b) = a # getlines b"
proof (cases "a = []")
  case False
  then have "last a \<noteq> CHR 0x0A" using assms last_in_set [of a] by metis
  then show ?thesis using getlines_newline [of a b] getlines_single [OF assms False] False by simp
qed simp

lemma trim_eq_Nil_iff: "trim t = [] \<longleftrightarrow> (\<forall>c \<in> set t. isspace c)"
proof
  assume "trim t = []"
  then have "\<forall>c \<in> set (dropWhile isspace t). isspace c" by (simp add: trim_def)
  then have "dropWhile isspace t = []" using hd_dropWhile [of isspace t] by (metis hd_in_set)
  then show "\<forall>c \<in> set t. isspace c" by simp
next
  assume "\<forall>c \<in> set t. isspace c"
  then have "dropWhile isspace t = []" by simp
  then show "trim t = []" by (simp only: trim_def rev.simps dropWhile.simps)
qed

lemma plain_word: "list_all plain_char w \<Longrightarrow> CHR 0x0A \<notin> set w"
proof -
  have "\<not> plain_char (CHR 0x0A)" by (simp add: plain_char_def)
  then show "list_all plain_char w \<Longrightarrow> CHR 0x0A \<notin> set w" by (auto simp only: list_all_iff)
qed

lemma show_token_chars: "token_ok t \<Longrightarrow> CHR 0x0A \<notin> set (show_token t)"
  by (cases t) (simp_all add: free_of_def plain_word)

lemma show_token_first: "token_ok t \<Longrightarrow> \<exists>c cs. show_token t = c # cs \<and> \<not> isspace c"
proof (cases t)
  case (Word w)
  assume "token_ok t"
  with Word show ?thesis by (cases w) (simp_all add: plain_char_def)
qed simp_all

lemma show_line_chars: "list_all token_ok ts \<Longrightarrow> CHR 0x0A \<notin> set (show_line ts)"
  by (induction ts) (simp_all add: show_line_def show_token_chars)

lemma show_line_blank: "list_all token_ok ts \<Longrightarrow> trim (show_line ts) = [] \<longleftrightarrow> ts = []"
proof (cases ts)
  case (Cons t us)
  assume "list_all token_ok ts"
  then obtain c cs where "show_token t = c # cs" "\<not> isspace c" using show_token_first [of t] Cons by auto
  then show ?thesis using Cons by (auto simp: show_line_def trim_eq_Nil_iff)
qed (simp add: show_line_def)

lemma show_line_no_cr: "chop_cr (show_line ts) = show_line ts"
  by (cases ts rule: rev_cases) (simp_all add: show_line_def chop_cr_def)

lemma show_cell_lines: "list_all (list_all token_ok) tss \<Longrightarrow> splitLines (show_cell tss) = map show_line tss"
  by (induction tss) (simp_all add: show_cell_def splitLines_def getlines_line show_line_chars show_line_no_cr)

lemma scan_show_cell:
  "list_all (list_all token_ok) tss \<Longrightarrow> carried s = (0, b, False)
   \<Longrightarrow> map_option carried (scan_lines (map show_line tss) s) = map_option (\<lambda>b. (0, b, False)) (balance (concat tss) b)"
proof (induction tss arbitrary: s b)
  case (Cons ts tss)
  show ?case
  proof (cases "ts = []")
    case True
    then show ?thesis using Cons by (simp add: show_line_def carried_def)
  next
    case False
    have start: "outside (start_line s)" "braces (start_line s) = b" "carried (start_line s) = (0, b, False)"
      using Cons.prems(2) by (simp_all add: outside_def start_line_def carried_def)
    then have scan: "map_option carried (scan_line None (show_line ts) (start_line s))
        = map_option (\<lambda>b. (0, b, False)) (balance ts b)"
      using scan_show_line [of "start_line s" ts None] Cons.prems(1) by (simp add: carried_def)
    have lines: "scan_lines (map show_line (ts # tss)) s
        = (case scan_line None (show_line ts) (start_line s) of None \<Rightarrow> None | Some s \<Rightarrow> scan_lines (map show_line tss) s)"
      using False Cons.prems show_line_blank [of ts] by simp
    show ?thesis
      using scan lines Cons.IH Cons.prems(1) by (auto simp: balance_append split: option.splits)
  qed
qed (simp add: carried_def)

text \<open>Whether a cell is complete is decided by its braces, and only by those outside strings,
  compound strings and comments: a cell of words, strings, comments and braces is invalid when a brace
  closes nothing, incomplete when one is still open, and complete otherwise.\<close>

lemma braces_count_outside_strings_and_comments:
  assumes "list_all (list_all token_ok) tss"
  shows "isComplete (show_cell tss) =
    (case balance (concat tss) 0 of None \<Rightarrow> ''invalid'' | Some b \<Rightarrow> if b > 0 then ''incomplete'' else ''complete'')"
proof -
  have "isComplete (show_cell tss) = verdict (map_option (\<lambda>b. (0, b, False)) (balance (concat tss) 0))"
    using scan_show_cell [OF assms, of new_scan 0]
    by (simp add: isComplete_verdict show_cell_lines assms carried_def new_scan_def)
  then show ?thesis by (simp add: verdict_def split: option.splits)
qed

lemma braces_count_outside_strings_and_comments_witness:
  "isComplete (show_cell [[Word ''foreach'', Open], [Word ''display'', Quoted ''}'', Comment '' } '']]) = ''incomplete''"
  using braces_count_outside_strings_and_comments
    [of "[[Word ''foreach'', Open], [Word ''display'', Quoted ''}'', Comment '' } '']]"]
  by (simp add: plain_char_def free_of_def isspace_def)

section \<open>Names at the cursor\<close>

lemma back_while_split:
  "\<exists>before. t = before @ back_while ok t \<and> list_all ok (back_while ok t) \<and> (before = [] \<or> \<not> ok (last before))"
proof -
  have "rev t = takeWhile ok (rev t) @ dropWhile ok (rev t)" by simp
  then have t: "t = rev (dropWhile ok (rev t)) @ back_while ok t"
    unfolding back_while_def by (metis rev_append rev_rev_ident)
  moreover have "list_all ok (back_while ok t)"
    by (auto simp: back_while_def list_all_iff dest: set_takeWhileD)
  moreover have "rev (dropWhile ok (rev t)) = [] \<or> \<not> ok (last (rev (dropWhile ok (rev t))))"
    using hd_dropWhile [of ok "rev t"] by (auto simp: last_rev)
  ultimately show ?thesis by blast
qed

lemma clamp_cursor_le: "clamp_cursor cursorPos code \<le> length code"
  by (auto simp: clamp_cursor_def)

lemma name_start_split:
  assumes "pos \<le> length code"
  shows "name_start code pos \<le> pos \<and> list_all isNameChar (take (pos - name_start code pos) (drop (name_start code pos) code))
    \<and> (name_start code pos = 0 \<or> \<not> isNameChar (code ! (name_start code pos - 1)))"
proof -
  obtain before where b: "take pos code = before @ back_while isNameChar (take pos code)"
    "list_all isNameChar (back_while isNameChar (take pos code))" "before = [] \<or> \<not> isNameChar (last before)"
    using back_while_split by blast
  let ?name = "back_while isNameChar (take pos code)"
  have len: "length before + length ?name = pos"
    using arg_cong [OF b(1), of length] assms by simp
  then have start: "name_start code pos = length before" by (simp add: name_start_def)
  have "take (pos - length before) (drop (length before) code) = drop (length before) (take pos code)"
    by (simp add: drop_take)
  also have "\<dots> = ?name" by (subst b(1)) simp
  finally have name: "take (pos - length before) (drop (length before) code) = ?name" .
  have "code ! (length before - 1) = last before" if "before \<noteq> []"
  proof -
    have "code ! (length before - 1) = take pos code ! (length before - 1)"
      using that len by (cases before) simp_all
    also have "\<dots> = last before"
      using that by (subst b(1)) (simp add: nth_append last_conv_nth)
    finally show ?thesis .
  qed
  then show ?thesis using b(2,3) start name len by auto
qed

text \<open>For any cursor position, also one outside the code, completion reports the longest run of name
  characters that ends at the (clamped) cursor, with the position where it starts; the name to inspect
  is that run continued to the right as far as name characters go.\<close>

lemma names_at_the_cursor:
  "\<exists>pos start upto. pos = nat (min (max cursorPos 0) (int (length code))) \<and> start \<le> pos \<and> pos \<le> upto \<and> upto \<le> length code
    \<and> t_start (completionToken code cursorPos) = start
    \<and> t_prefix (completionToken code cursorPos) = take (pos - start) (drop start code)
    \<and> tokenAt code cursorPos = take (upto - start) (drop start code)
    \<and> list_all isNameChar (tokenAt code cursorPos)
    \<and> (start = 0 \<or> \<not> isNameChar (code ! (start - 1))) \<and> (upto = length code \<or> \<not> isNameChar (code ! upto))"
proof -
  let ?pos = "clamp_cursor cursorPos code"
  let ?start = "name_start code ?pos"
  let ?right = "takeWhile isNameChar (drop ?pos code)"
  let ?upto = "?pos + length ?right"
  have le: "?pos \<le> length code" by (rule clamp_cursor_le)
  note ns = name_start_split [OF le]
  have right: "take (length ?right) (drop ?pos code) = ?right" by (simp add: takeWhile_eq_take [symmetric])
  have "take (?upto - ?start) (drop ?start code)
      = take (?pos - ?start) (drop ?start code) @ take (length ?right) (drop (?pos - ?start) (drop ?start code))"
    using ns by (metis Nat.add_diff_assoc2 take_add)
  also have "drop (?pos - ?start) (drop ?start code) = drop ?pos code" using ns by simp
  finally have whole: "take (?upto - ?start) (drop ?start code) = take (?pos - ?start) (drop ?start code) @ ?right"
    using right by simp
  have len: "length ?right \<le> length code - ?pos" using length_takeWhile_le [of isNameChar "drop ?pos code"] by simp
  have stop: "?upto = length code \<or> \<not> isNameChar (code ! ?upto)"
    using nth_length_takeWhile [of isNameChar "drop ?pos code"] len le by (cases "?upto = length code") auto
  have all: "list_all isNameChar ?right" by (auto simp: list_all_iff dest: set_takeWhileD)
  have tok: "tokenAt code cursorPos = take (?upto - ?start) (drop ?start code)"
    by (simp add: tokenAt_def substr_def Let_def)
  have comp: "t_start (completionToken code cursorPos) = ?start"
    "t_prefix (completionToken code cursorPos) = take (?pos - ?start) (drop ?start code)"
    by (simp_all add: completionToken_def substr_def Let_def)
  have names: "list_all isNameChar (tokenAt code cursorPos)" using ns all by (simp add: tok whole del: take_take)
  have pos: "?pos = nat (min (max cursorPos 0) (int (length code)))" by (simp only: clamp_cursor_def)
  have bounds: "?start \<le> ?pos" "?pos \<le> ?upto" "?upto \<le> length code" using ns le len by linarith+
  have left: "?start = 0 \<or> \<not> isNameChar (code ! (?start - 1))" using ns by blast
  show ?thesis
    by (rule exI [of _ ?pos], rule exI [of _ ?start], rule exI [of _ ?upto], intro conjI)
      (fact pos bounds comp tok names left stop)+
qed

text \<open>Completion offers the candidates that begin with the prefix, each once, in the order they
  came.\<close>

lemma remdups_snoc: "remdups (xs @ [x]) = remdups (filter (\<lambda>y. y \<noteq> x) xs) @ [x]"
  by (induction xs) auto

lemma matching_loop_eq:
  "matching_loop prefix seen names = rev (remdups (rev (filter (\<lambda>n. starts_with n prefix \<and> n \<notin> seen) names)))"
proof (induction prefix seen names rule: matching_loop.induct)
  case (2 prefix seen name names)
  show ?case
  proof (cases "starts_with name prefix \<and> name \<notin> seen")
    case True
    have "filter (\<lambda>n. starts_with n prefix \<and> n \<notin> insert name seen) names
        = filter (\<lambda>y. y \<noteq> name) (filter (\<lambda>n. starts_with n prefix \<and> n \<notin> seen) names)"
      by (simp add: conj_commute conj_left_commute)
    then show ?thesis using 2(1) [OF True] True by (simp add: remdups_snoc rev_filter)
  next
    case False
    then show ?thesis using 2(2) by auto
  qed
qed simp

lemma matchingNames_eq: "matchingNames candidates prefix = rev (remdups (rev (filter (\<lambda>n. starts_with n prefix) candidates)))"
  by (simp add: matchingNames_def matching_loop_eq)

end
