(* ===== verification/Stata_Output.thy ===== *)
theory Stata_Output
  imports Stata_Code Utf8
begin

text \<open>
  How the Stata kernel reads what Stata prints (the second half of
  \<open>native/src/callisto/stata/stata_text.cpp\<close>): the decoder that makes valid UTF-8 of it, the filter that
  removes the echo of a do-file, the lines held back for an error message, and the error message
  itself. The three classes work a chunk at a time and keep state in between.

  Shown: the decoder's output is valid UTF-8, is the input where that is valid, and does not depend on
  the cut into chunks; the filter's output does not depend on it either, on lines without a
  carriage return that are empty or have something on them, and is what the commands print; no text is
  lost in the hold; the message of a failed command is found.
\<close>

section \<open>Wrapped lines\<close>

fun unwrap :: "string \<Rightarrow> string" where
  "unwrap (c # d # e # f # t) =
     (if c = CHR 0x0D \<and> d = CHR 0x0A \<and> e = CHR ''>'' \<and> f = CHR '' '' then unwrap t
      else if c = CHR 0x0A \<and> d = CHR ''>'' \<and> e = CHR '' '' then unwrap (f # t)
      else c # unwrap (d # e # f # t))"
| "unwrap [c, d, e] = (if c = CHR 0x0A \<and> d = CHR ''>'' \<and> e = CHR '' '' then [] else [c, d, e])"
| "unwrap t = t"

definition printedLines :: "string \<Rightarrow> string list" where
  "printedLines t = filter (\<lambda>l. l \<noteq> []) (map trim (splitLines (unwrap t)))"

section \<open>The decoder\<close>

definition utf8Length :: "byte \<Rightarrow> nat" where
  "utf8Length lead' =
     (if lead' < 0x80 then 1
      else if lead' \<ge> 0xC2 \<and> lead' \<le> 0xDF then 2
      else if lead' \<ge> 0xE0 \<and> lead' \<le> 0xEF then 3
      else if lead' \<ge> 0xF0 \<and> lead' \<le> 0xF4 then 4
      else 0)"

definition isContinuation :: "byte \<Rightarrow> bool" where
  "isContinuation c \<longleftrightarrow> c AND 0xC0 = 0x80"

definition appendLatin1 :: "byte \<Rightarrow> byte list" where
  "appendLatin1 c = [0xC0 OR drop_bit 6 c, 0x80 OR (c AND 0x3F)]"

text \<open>The checks on the sequence of \<open>n\<close> bytes that starts with \<open>c\<close>, \<open>rest\<close> being what follows \<open>c\<close>.\<close>

definition valid_sequence :: "nat \<Rightarrow> byte \<Rightarrow> byte list \<Rightarrow> bool" where
  "valid_sequence n c rest \<longleftrightarrow>
     n \<le> Suc (length rest) \<and> list_all isContinuation (take (n - 1) rest)
     \<and> (n = 3 \<longrightarrow> \<not> (c = 0xE0 \<and> rest ! 0 < 0xA0) \<and> \<not> (c = 0xED \<and> rest ! 0 \<ge> 0xA0))
     \<and> (n = 4 \<longrightarrow> \<not> (c = 0xF0 \<and> rest ! 0 < 0x90) \<and> \<not> (c = 0xF4 \<and> rest ! 0 \<ge> 0x90))"

text \<open>The loop of \<open>push\<close>: what goes out, and what is kept for the next chunk.\<close>

function decode :: "byte list \<Rightarrow> byte list \<times> byte list" where
  "decode [] = ([], [])"
| "decode (c # rest) =
     (let n = utf8Length c in
      if n = 1 then apfst ((#) c) (decode rest)
      else if n = 0 then apfst ((@) (appendLatin1 c)) (decode rest)
      else if Suc (length rest) < n \<and> list_all isContinuation rest then ([], c # rest)
      else if valid_sequence n c rest then apfst ((@) (c # take (n - 1) rest)) (decode (drop (n - 1) rest))
      else apfst ((@) (appendLatin1 c)) (decode rest))"
  by pat_completeness auto
termination
  by (relation "measure length") auto

declare decode.simps(2) [simp del]

type_synonym Utf8Decoder = "byte list"

definition Utf8Decoder_push :: "byte list \<Rightarrow> Utf8Decoder \<Rightarrow> byte list \<times> Utf8Decoder" where
  "Utf8Decoder_push bytes m_pending = decode (m_pending @ bytes)"

definition Utf8Decoder_finish :: "Utf8Decoder \<Rightarrow> byte list \<times> Utf8Decoder" where
  "Utf8Decoder_finish m_pending = (concat (map appendLatin1 m_pending), [])"

section \<open>Lines held back\<close>

type_synonym TailHold = string

definition kLines :: nat where
  "kLines = 8"

text \<open>The loop from the end of what is held: \<open>back\<close> is the part before the position, reversed.\<close>

fun hold_cut :: "nat \<Rightarrow> string \<Rightarrow> nat option" where
  "hold_cut lines [] = None"
| "hold_cut lines (c # back) =
     (if c = CHR 0x0A then (if lines = kLines then Some (length back + 1) else hold_cut (lines + 1) back)
      else hold_cut lines back)"

definition TailHold_push :: "string \<Rightarrow> TailHold \<Rightarrow> string \<times> TailHold" where
  "TailHold_push t m_held =
     (let m_held = m_held @ t in
      case hold_cut 0 (rev m_held) of
        None \<Rightarrow> ([], m_held)
      | Some k \<Rightarrow> (take k m_held, drop k m_held))"

definition TailHold_release :: "TailHold \<Rightarrow> string \<times> TailHold" where
  "TailHold_release m_held = (m_held, [])"

definition TailHold_finish :: "string \<Rightarrow> TailHold \<Rightarrow> string \<times> TailHold" where
  "TailHold_finish err m_held =
     (let (out, m_held) = TailHold_release m_held in
      if err = [] then (out, m_held)
      else
        let upto = length (rev (dropWhile isspace (rev out))) in
        if length err \<le> upto \<and> substr out (upto - length err) (length err) = err then
          let start = upto - length err in
          if start = 0 \<or> out ! (start - 1) = CHR 0x0A then (take start out, m_held) else (out, m_held)
        else (out, m_held))"

section \<open>The echo of a do-file\<close>

definition isEchoLine :: "string \<Rightarrow> bool" where
  "isEchoLine line \<longleftrightarrow> line = ''.'' \<or> starts_with line ''. ''"

text \<open>The three regular expressions. A dot of the expression matches anything but a line terminator.\<close>

definition no_terminator :: "string \<Rightarrow> bool" where
  "no_terminator t \<longleftrightarrow> CHR 0x0A \<notin> set t \<and> CHR 0x0D \<notin> set t"

definition rest_of_number :: "string \<Rightarrow> bool" where
  "rest_of_number r \<longleftrightarrow> (case r of [] \<Rightarrow> False | c # t \<Rightarrow>
     c = CHR ''.'' \<and> (case t of [] \<Rightarrow> True | d # u \<Rightarrow> d = CHR '' '' \<and> no_terminator u))"

definition isNumberedLine :: "string \<Rightarrow> bool" where
  "isNumberedLine line \<longleftrightarrow> (let s = dropWhile isspace line in
     takeWhile isdigit s \<noteq> [] \<and> rest_of_number (dropWhile isdigit s))"

definition mayBeNumbered :: "string \<Rightarrow> bool" where
  "mayBeNumbered partial \<longleftrightarrow> (let s = dropWhile isspace partial in
     s = [] \<or> takeWhile isdigit s \<noteq> [] \<and> (dropWhile isdigit s = [] \<or> rest_of_number (dropWhile isdigit s)))"

definition isReturnCodeLine :: "string \<Rightarrow> bool" where
  "isReturnCodeLine line \<longleftrightarrow> starts_with line ''r('' \<and>
     takeWhile isdigit (drop 2 line) \<noteq> [] \<and> dropWhile isdigit (drop 2 line) = '');''"

text \<open>\<open>s.find(p)\<close>.\<close>

fun find_sub :: "string \<Rightarrow> string \<Rightarrow> nat option" where
  "find_sub p [] = (if p = [] then Some 0 else None)"
| "find_sub p (c # s) = (if starts_with (c # s) p then Some 0 else map_option Suc (find_sub p s))"

definition opensNumberedLines :: "string \<Rightarrow> bool" where
  "opensNumberedLines command =
     (let trimmed = trim command;
          trimmed = (case find_sub '' //'' trimmed of None \<Rightarrow> trimmed | Some comment \<Rightarrow> trim (take comment trimmed))
      in if trimmed \<noteq> [] \<and> last trimmed = CHR 0x7B then True
         else
           let words = splitNames trimmed;
               first = (case words of [] \<Rightarrow> [] | w # _ \<Rightarrow> w);
               second = (case words of _ # w # _ \<Rightarrow> w | _ \<Rightarrow> [])
           in if length first \<ge> 2 \<and> starts_with ''program'' first
              then second \<noteq> ''drop'' \<and> second \<noteq> ''dir'' \<and> second \<noteq> ''list''
              else False)"

record EchoFilter =
  m_partial :: string
  m_passing :: bool
  m_blankLines :: nat
  m_afterEcho :: bool
  m_numbered :: bool
  m_continuable :: bool
  m_command :: string
  m_lastLine :: string

definition new_EchoFilter :: EchoFilter where
  "new_EchoFilter = \<lparr>m_partial = [], m_passing = False, m_blankLines = 0, m_afterEcho = False, m_numbered = False,
     m_continuable = False, m_command = [], m_lastLine = []\<rparr>"

definition continues_echo :: "EchoFilter \<Rightarrow> bool" where
  "continues_echo f \<longleftrightarrow> m_afterEcho f \<or> m_numbered f \<and> m_continuable f"

definition EchoFilter_mayBeEcho :: "string \<Rightarrow> EchoFilter \<Rightarrow> bool" where
  "EchoFilter_mayBeEcho partial f \<longleftrightarrow>
     (if partial = [] then True
      else if partial ! 0 = CHR ''.'' \<and> (length partial = 1 \<or> partial ! 1 = CHR '' '') then True
      else if continues_echo f \<and> partial ! 0 = CHR ''>'' \<and> (length partial = 1 \<or> partial ! 1 = CHR '' '') then True
      else if m_numbered f \<and> mayBeNumbered partial then True
      else if partial ! 0 = CHR ''r'' \<and> isReturnCodeLine (m_lastLine f) then True
      else False)"

text \<open>The conditions of \<open>line\<close>: a continuation of the echo, a numbered line of a block, the return
  code a second time.\<close>

definition echo_continues :: "EchoFilter \<Rightarrow> string \<Rightarrow> bool" where
  "echo_continues f line \<longleftrightarrow> continues_echo f \<and> starts_with line ''> ''"

definition numbered_echo :: "EchoFilter \<Rightarrow> string \<Rightarrow> bool" where
  "numbered_echo f line \<longleftrightarrow> m_numbered f \<and> isNumberedLine line"

definition repeated_code :: "EchoFilter \<Rightarrow> string \<Rightarrow> bool" where
  "repeated_code f line \<longleftrightarrow> isReturnCodeLine line \<and> line = m_lastLine f \<and> m_blankLines f = 0"

definition EchoFilter_line :: "string \<Rightarrow> EchoFilter \<Rightarrow> string \<times> EchoFilter" where
  "EchoFilter_line t f =
     (let line = chop_cr t in
      if echo_continues f line then
        let command = m_command f @ drop 2 line in
        ([], f\<lparr>m_command := command, m_numbered := opensNumberedLines command\<rparr>)
      else if isEchoLine line then
        let command = (if length line > 2 then drop 2 line else []) in
        ([], f\<lparr>m_blankLines := 0, m_afterEcho := True, m_command := command,
               m_numbered := opensNumberedLines command\<rparr>)
      else
        let f = f\<lparr>m_afterEcho := False\<rparr> in
        if numbered_echo f line then ([], f\<lparr>m_continuable := True\<rparr>)
        else
          let f = f\<lparr>m_continuable := False, m_numbered := False\<rparr> in
          if trim line = [] then ([], f\<lparr>m_blankLines := m_blankLines f + 1\<rparr>)
          else if repeated_code f line then ([], f)
          else (replicate (m_blankLines f) (CHR 0x0A) @ t @ [CHR 0x0A], f\<lparr>m_blankLines := 0, m_lastLine := line\<rparr>))"

text \<open>The end of the line that is in \<open>m_partial\<close>.\<close>

definition end_of_line :: "EchoFilter \<Rightarrow> string \<times> EchoFilter" where
  "end_of_line f =
     (let (out, f) =
        (if m_passing f then
           (m_partial f @ [CHR 0x0A], f\<lparr>m_lastLine := chop_cr (m_lastLine f @ m_partial f), m_passing := False\<rparr>)
         else EchoFilter_line (m_partial f) f)
      in (out, f\<lparr>m_partial := []\<rparr>))"

function push_lines :: "string \<Rightarrow> EchoFilter \<Rightarrow> string \<times> EchoFilter" where
  "push_lines t f =
     (case find_char (CHR 0x0A) t of
        None \<Rightarrow> ([], f\<lparr>m_partial := m_partial f @ t\<rparr>)
      | Some newline \<Rightarrow>
          let (out, f) = end_of_line (f\<lparr>m_partial := m_partial f @ take newline t\<rparr>);
              (out', f) = push_lines (drop (newline + 1) t) f
          in (out @ out', f))"
  by pat_completeness auto
termination
  by (relation "measure (\<lambda>(t, _). length t)") (auto dest: find_char_SomeD)

declare push_lines.simps [simp del]

definition EchoFilter_push :: "string \<Rightarrow> EchoFilter \<Rightarrow> string \<times> EchoFilter" where
  "EchoFilter_push t f =
     (let (out, f) = push_lines t f in
      if m_partial f \<noteq> [] \<and> (m_passing f \<or> \<not> EchoFilter_mayBeEcho (m_partial f) f) then
        let (out, f) =
          (if m_passing f then (out, f)
           else (out @ replicate (m_blankLines f) (CHR 0x0A),
                 f\<lparr>m_blankLines := 0, m_afterEcho := False, m_numbered := False, m_passing := True, m_lastLine := []\<rparr>))
        in (out @ m_partial f, f\<lparr>m_lastLine := m_lastLine f @ m_partial f, m_partial := []\<rparr>)
      else (out, f))"

definition EchoFilter_finish :: "EchoFilter \<Rightarrow> string \<times> EchoFilter" where
  "EchoFilter_finish f =
     (let (out, f) =
        (if m_passing f then (m_partial f, f)
         else if m_partial f \<noteq> [] \<and> \<not> isEchoLine (m_partial f) \<and> m_partial f \<noteq> ''.'' then
           let (out, f) = EchoFilter_line (m_partial f) f
           in (if out \<noteq> [] \<and> last out = CHR 0x0A then butlast out else out, f)
         else ([], f))
      in (out, f\<lparr>m_partial := [], m_passing := False, m_blankLines := 0, m_afterEcho := False, m_numbered := False,
                 m_lastLine := []\<rparr>))"

section \<open>Error messages\<close>

text \<open>The search from the last line on: the lines are given last first, \<open>best\<close> is \<open>markerLine\<close>.\<close>

fun find_marker :: "string \<Rightarrow> nat option \<Rightarrow> string list \<Rightarrow> nat option" where
  "find_marker marker best [] = best"
| "find_marker marker best (l # back) =
     (let line = trim l in
      if line = marker then find_marker marker (Some (length back)) back
      else if line \<noteq> [] \<and> line \<noteq> ''end of do-file'' then best
      else find_marker marker best back)"

definition starts_message :: "string \<Rightarrow> bool" where
  "starts_message line \<longleftrightarrow>
     trim line = [] \<or> starts_with line ''. '' \<or> starts_with line ''> '' \<or> isNumberedLine line"

text \<open>The loop that joins the lines: no newline goes in front of a message that is still empty.\<close>

fun join_message :: "string \<Rightarrow> string list \<Rightarrow> string" where
  "join_message message [] = message"
| "join_message message (l # ls) = join_message ((if message \<noteq> [] then message @ [CHR 0x0A] else message) @ l) ls"

definition errorMessage :: "string \<Rightarrow> int \<Rightarrow> string" where
  "errorMessage output rc =
     (let marker = ''r('' @ show_int rc @ '');'';
          lines = splitLines output
      in case find_marker marker None (rev lines) of
           None \<Rightarrow> []
         | Some markerLine \<Rightarrow>
             let message = rev (takeWhile (\<lambda>l. \<not> starts_message l) (rev (take markerLine lines)))
             in trim (join_message [] message))"

section \<open>The decoder: lemmas and property\<close>

definition run_decoder :: "byte list list \<Rightarrow> byte list" where
  "run_decoder chunks =
     (let (out, d) = fold (\<lambda>chunk (out, d). let (o', d') = Utf8Decoder_push chunk d in (out @ o', d')) chunks ([], [])
      in out @ fst (Utf8Decoder_finish d))"

definition scalar :: "nat \<Rightarrow> bool" where
  "scalar c \<longleftrightarrow> c \<le> 0x10FFFF \<and> \<not> (0xD800 \<le> c \<and> c \<le> 0xDFFF)"

text \<open>Valid UTF-8: the encoding of a sequence of code points.\<close>

definition encodes_text :: "byte list \<Rightarrow> bool" where
  "encodes_text bs \<longleftrightarrow> (\<exists>cs. list_all scalar cs \<and> bs = concat (map utf8_encode cs))"

lemma decode_split:
  "decode (a @ b) = apfst ((@) (fst (decode a))) (decode (snd (decode a) @ b))"
proof (induction a rule: decode.induct)
  case 1
  then show ?case by (cases "decode b") simp
next
  case (2 c rest)
  let ?n = "utf8Length c"
  consider "?n = 1" | "?n = 0" | "?n \<noteq> 0" "?n \<noteq> 1" "Suc (length rest) < ?n" "list_all isContinuation rest"
    | "?n \<noteq> 0" "?n \<noteq> 1" "\<not> (Suc (length rest) < ?n \<and> list_all isContinuation rest)" "valid_sequence ?n c rest"
    | "?n \<noteq> 0" "?n \<noteq> 1" "\<not> (Suc (length rest) < ?n \<and> list_all isContinuation rest)" "\<not> valid_sequence ?n c rest"
    by blast
  then show ?case
  proof cases
    case 1
    then show ?thesis using 2(1) by (simp add: decode.simps(2) apfst_def map_prod_def split_beta)
  next
    case 2
    then show ?thesis using "2.IH"(2) by (simp add: decode.simps(2) apfst_def map_prod_def split_beta)
  next
    case 3
    then have "decode (c # rest) = ([], c # rest)" by (simp add: decode.simps(2))
    then show ?thesis by (cases "decode (c # rest @ b)") simp
  next
    case 4
    then have "valid_sequence ?n c (rest @ b)" "?n - 1 \<le> length rest" "\<not> Suc (length rest) < ?n"
        "\<not> Suc (length rest + length b) < ?n"
      by (auto simp: valid_sequence_def nth_append)
    with 4 show ?thesis using "2.IH"(3) by (simp add: decode.simps(2) Let_def apfst_def map_prod_def split_beta)
  next
    case 5
    have "\<not> valid_sequence ?n c (rest @ b)"
    proof (cases "Suc (length rest) < ?n")
      case True
      with 5 show ?thesis by (auto simp: valid_sequence_def)
    next
      case False
      have "?n = 3 \<or> ?n = 4 \<Longrightarrow> rest \<noteq> []" using False by auto
      with 5 False show ?thesis by (auto simp: valid_sequence_def nth_append)
    qed
    moreover have "\<not> (Suc (length (rest @ b)) < ?n \<and> list_all isContinuation (rest @ b))" using 5 by auto
    ultimately show ?thesis using 5 "2.IH"(4) by (simp add: decode.simps(2) Let_def apfst_def map_prod_def split_beta)
  qed
qed

definition decode_all :: "byte list \<Rightarrow> byte list" where
  "decode_all bs = fst (decode bs) @ concat (map appendLatin1 (snd (decode bs)))"

lemma fold_decoder:
  "fold (\<lambda>chunk (out, d). let (o', d') = Utf8Decoder_push chunk d in (out @ o', d')) chunks (out, d)
     = apfst ((@) out) (decode (d @ concat chunks))"
  if "decode d = ([], d)"
  using that
proof (induction chunks arbitrary: out d)
  case Nil
  then show ?case by simp
next
  case (Cons ch chunks)
  obtain o1 d1 where 1: "decode (d @ ch) = (o1, d1)" by fastforce
  have "decode d1 = ([], d1)"
    using decode_split [of "d @ ch" "[]"] 1 by (cases "decode d1") simp
  then show ?case
    using Cons.IH [of d1 "out @ o1"] 1 decode_split [of "d @ ch" "concat chunks"]
    by (simp add: Utf8Decoder_push_def apfst_def map_prod_def split_beta)
qed

lemma run_decoder_all: "run_decoder chunks = decode_all (concat chunks)"
  unfolding run_decoder_def fold_decoder [OF decode.simps(1)]
  by (simp add: decode_all_def Utf8Decoder_finish_def split_beta)


text \<open>The decoder takes exactly the sequences that encode a code point.\<close>

lemma code2: "x < 32 \<Longrightarrow> y < 64 \<Longrightarrow> code_ok 0x80 (x * 64 + y) \<longleftrightarrow> 2 \<le> x"
  by (auto simp: code_ok_def)

lemma code3:
  assumes "x < 16" "y < 64" "z < 64"
  shows "code_ok 0x800 ((x * 64 + y) * 64 + z) \<longleftrightarrow> \<not> (x = 0 \<and> y < 32) \<and> \<not> (x = 13 \<and> 32 \<le> y)"
proof -
  consider "x = 0" | "1 \<le> x" "x \<le> 12" | "x = 13" | "14 \<le> x" by linarith
  then show ?thesis using assms by cases (auto simp: code_ok_def)
qed

lemma code4:
  assumes "x < 8" "y < 64" "z < 64" "w < 64"
  shows "code_ok 0x10000 (((x * 64 + y) * 64 + z) * 64 + w) \<longleftrightarrow> x \<le> 4 \<and> \<not> (x = 0 \<and> y < 16) \<and> \<not> (x = 4 \<and> 16 \<le> y)"
proof -
  consider "x = 0" | "1 \<le> x" "x \<le> 3" | "x = 4" | "5 \<le> x" by linarith
  then show ?thesis using assms by cases (auto simp: code_ok_def)
qed

lemma utf8Length_nat:
  "utf8Length c = (if unat c < 0x80 then 1 else if 0xC2 \<le> unat c \<and> unat c \<le> 0xDF then 2
     else if 0xE0 \<le> unat c \<and> unat c \<le> 0xEF then 3 else if 0xF0 \<le> unat c \<and> unat c \<le> 0xF4 then 4 else 0)"
  by (simp add: utf8Length_def word_less_nat_alt word_le_nat_alt)

lemma isContinuation_nat: "isContinuation a \<longleftrightarrow> (\<exists>y. unat a = 0x80 + y \<and> y < 64)"
proof -
  have "unat a div 64 = 2 \<longleftrightarrow> 128 \<le> unat a \<and> unat a < 192" by auto
  then show ?thesis by (auto simp: isContinuation_def lead_masks intro: exI [of _ "unat a - 128"])
qed

lemma lead_bytes:
  "c = (0xE0 :: byte) \<longleftrightarrow> unat c = 0xE0" "c = (0xED :: byte) \<longleftrightarrow> unat c = 0xED"
  "c = (0xF0 :: byte) \<longleftrightarrow> unat c = 0xF0" "c = (0xF4 :: byte) \<longleftrightarrow> unat c = 0xF4"
  by (simp_all add: word_unat_eq_iff)

lemma valid2:
  "valid_sequence 2 c rest \<longleftrightarrow> (\<exists>a r. rest = a # r \<and> isContinuation a)"
  by (cases rest) (auto simp: valid_sequence_def)

lemma valid3:
  "valid_sequence 3 c rest \<longleftrightarrow> (\<exists>a b r. rest = a # b # r \<and> isContinuation a \<and> isContinuation b
     \<and> \<not> (unat c = 0xE0 \<and> unat a < 0xA0) \<and> \<not> (unat c = 0xED \<and> 0xA0 \<le> unat a))"
proof (cases rest)
  case (Cons a r)
  then show ?thesis
    by (cases r) (auto simp: valid_sequence_def word_less_nat_alt word_le_nat_alt lead_bytes)
qed (simp add: valid_sequence_def)

lemma valid4:
  "valid_sequence 4 c rest \<longleftrightarrow> (\<exists>a b d r. rest = a # b # d # r \<and> isContinuation a \<and> isContinuation b \<and> isContinuation d
     \<and> \<not> (unat c = 0xF0 \<and> unat a < 0x90) \<and> \<not> (unat c = 0xF4 \<and> 0x90 \<le> unat a))"
proof (cases rest)
  case (Cons a r)
  show ?thesis
  proof (cases r)
    case (Cons b r')
    then show ?thesis using \<open>rest = a # r\<close>
      by (cases r') (auto simp: valid_sequence_def word_less_nat_alt word_le_nat_alt lead_bytes)
  qed (simp add: valid_sequence_def \<open>rest = a # r\<close>)
qed (simp add: valid_sequence_def)

lemma div_range:
  "n div 32 = 6 \<longleftrightarrow> 192 \<le> n \<and> n < (224 :: nat)" "n div 16 = 14 \<longleftrightarrow> 224 \<le> n \<and> n < (240 :: nat)"
  "n div 8 = 30 \<longleftrightarrow> 240 \<le> n \<and> n < (248 :: nat)" "n div 64 = 2 \<longleftrightarrow> 128 \<le> n \<and> n < (192 :: nat)"
  by auto

lemma valid_sequence_scalar:
  assumes "2 \<le> utf8Length c" "valid_sequence (utf8Length c) c rest"
  shows "\<exists>k. scalar_nat (c # rest) = Some (k, drop (utf8Length c - 1) rest)"
proof -
  consider x where "utf8Length c = 2" "unat c = 0xC0 + x" "2 \<le> x" "x < 32"
    | x where "utf8Length c = 3" "unat c = 0xE0 + x" "x < 16"
    | x where "utf8Length c = 4" "unat c = 0xF0 + x" "x \<le> 4"
    using assms(1) that(1) [of "unat c - 0xC0"] that(2) [of "unat c - 0xE0"] that(3) [of "unat c - 0xF0"]
    by (auto simp: utf8Length_nat split: if_splits)
  then show ?thesis
  proof cases
    case (1 x)
    then obtain a r y where "rest = a # r" "unat a = 0x80 + y" "y < 64"
      using assms(2) by (auto simp: valid2 isContinuation_nat)
    with 1 code2 [of x y] show ?thesis by (simp add: byte_digits Let_def)
  next
    case (2 x)
    then obtain a b r y z where "rest = a # b # r" "unat a = 0x80 + y" "y < 64" "unat b = 0x80 + z" "z < 64"
        "\<not> (x = 0 \<and> y < 32)" "\<not> (x = 13 \<and> 32 \<le> y)"
      using assms(2) by (auto simp: valid3 isContinuation_nat)
    with 2 code3 [of x y z] show ?thesis by (simp add: byte_digits div_range Let_def numeral_2_eq_2)
  next
    case (3 x)
    then obtain a b d r y z w where "rest = a # b # d # r" "unat a = 0x80 + y" "y < 64" "unat b = 0x80 + z" "z < 64"
        "unat d = 0x80 + w" "w < 64" "\<not> (x = 0 \<and> y < 16)" "\<not> (x = 4 \<and> 16 \<le> y)"
      using assms(2) by (auto simp: valid4 isContinuation_nat)
    with 3 code4 [of x y z w] show ?thesis by (simp add: byte_digits div_range Let_def numeral_3_eq_3)
  qed
qed

lemma scalar_valid_sequence:
  assumes "scalar_nat (c # rest) = Some (k, r)" "0x80 \<le> k"
  shows "2 \<le> utf8Length c \<and> valid_sequence (utf8Length c) c rest"
  using assms(1)
proof (cases rule: scalar_nat_cases)
  case 1
  with assms(2) show ?thesis by simp
next
  case (2 a)
  define x where "x = unat c - 0xC0"
  define y where "y = unat a - 0x80"
  have xy: "unat c = 0xC0 + x" "x < 32" "unat a = 0x80 + y" "y < 64"
    using 2(1,3) by (auto simp: div_range x_def y_def)
  then have "2 \<le> x" using 2(4,5) code2 [of x y] by (simp add: byte_digits)
  then show ?thesis using xy 2(2) by (simp add: utf8Length_nat valid2 isContinuation_nat)
next
  case (3 a b)
  define x where "x = unat c - 0xE0"
  define y where "y = unat a - 0x80"
  define z where "z = unat b - 0x80"
  have xyz: "unat c = 0xE0 + x" "x < 16" "unat a = 0x80 + y" "y < 64" "unat b = 0x80 + z" "z < 64"
    using 3(1,3,4) by (auto simp: div_range x_def y_def z_def)
  then have "\<not> (x = 0 \<and> y < 32) \<and> \<not> (x = 13 \<and> 32 \<le> y)" using 3(5,6) code3 [of x y z] by (simp add: byte_digits)
  then show ?thesis using xyz 3(2) by (auto simp: utf8Length_nat valid3 isContinuation_nat)
next
  case (4 a b d)
  define x where "x = unat c - 0xF0"
  define y where "y = unat a - 0x80"
  define z where "z = unat b - 0x80"
  define w where "w = unat d - 0x80"
  have xyz: "unat c = 0xF0 + x" "x < 8" "unat a = 0x80 + y" "y < 64" "unat b = 0x80 + z" "z < 64" "unat d = 0x80 + w" "w < 64"
    using 4(1,3,4,5) by (auto simp: div_range x_def y_def z_def w_def)
  then have "x \<le> 4 \<and> \<not> (x = 0 \<and> y < 16) \<and> \<not> (x = 4 \<and> 16 \<le> y)"
    using 4(6,7) code4 [of x y z w] by (simp add: byte_digits)
  then show ?thesis using xyz 4(2) by (auto simp: utf8Length_nat valid4 isContinuation_nat)
qed

text \<open>A valid sequence of several bytes is the encoding of a code point; a byte read as Latin-1 goes out
  as the encoding of its number.\<close>

lemma valid_sequence_encodes:
  assumes "2 \<le> utf8Length c" "valid_sequence (utf8Length c) c rest"
  shows "\<exists>k. scalar k \<and> c # take (utf8Length c - 1) rest = utf8_encode k"
proof -
  obtain k where k: "scalar_nat (c # rest) = Some (k, drop (utf8Length c - 1) rest)"
    using valid_sequence_scalar [OF assms] by blast
  then have "printable_scalar k" "c # rest = utf8_encode k @ drop (utf8Length c - 1) rest"
    using scalar_nat_sound by blast+
  then have "scalar k" "c # take (utf8Length c - 1) rest = utf8_encode k"
    by (simp_all add: scalar_def printable_scalar_def)
      (metis append_Cons append_same_eq append_take_drop_id)
  then show ?thesis by blast
qed

lemma or_high_byte: "m < 64 \<Longrightarrow> (0x80 OR m) = 0x80 + (m :: nat)"
proof -
  assume m: "m < 64"
  have "take_bit 6 (int m) = int m" using m by (simp add: take_bit_eq_mod)
  then have "int m OR push_bit 6 2 = int m + push_bit 6 2"
    using concat_bit_def [of 6 "int m" 2] concat_bit_eq [of 6 "int m" 2] by simp
  then have "int (0x80 OR m) = int (0x80 + m)"
    by (simp add: of_nat_or_eq or.commute push_bit_eq_mult)
  then show ?thesis by (simp only: of_nat_eq_iff)
qed

lemma appendLatin1_encodes:
  assumes "0x80 \<le> unat c"
  shows "appendLatin1 c = utf8_encode (unat c) \<and> scalar (unat c)"
proof -
  have lt: "unat c < 256" by simp
  then have "2 \<le> unat c div 64" "unat c div 64 < 4" using assms by (simp_all add: less_mult_imp_div_less del: unat_byte_less)
  then have q: "unat c div 64 = 2 \<or> unat c div 64 = 3" by linarith
  have "unat (0xC0 OR drop_bit 6 c) = 0xC0 OR (unat c div 64)"
    by (simp add: unsigned_or_eq unat_drop_bit_eq drop_bit_eq_div [where ?'a = nat])
  also have "\<dots> = 0xC0 + unat c div 64" using q by auto
  finally have 1: "unat (0xC0 OR drop_bit 6 c) = 0xC0 + unat c div 64" .
  have "unat (0x80 OR (c AND 0x3F)) = 0x80 OR (unat c mod 64)"
    by (simp add: unsigned_or_eq payload_masks)
  also have "\<dots> = 0x80 + unat c mod 64" by (rule or_high_byte) simp
  finally have 2: "unat (0x80 OR (c AND 0x3F)) = 0x80 + unat c mod 64" .
  have "utf8_encode (unat c) = [word_of_nat (0xC0 + unat c div 64), word_of_nat (0x80 + unat c mod 64)]"
    using assms lt by (simp add: utf8_encode_def del: unat_byte_less)
  moreover have "0xC0 OR drop_bit 6 c = word_of_nat (0xC0 + unat c div 64)" "0x80 OR (c AND 0x3F) = word_of_nat (0x80 + unat c mod 64)"
    by (simp_all only: 1 [symmetric] 2 [symmetric] word_of_nat_unat)
  ultimately show ?thesis using lt by (simp add: appendLatin1_def scalar_def del: unat_byte_less)
qed

lemma encodes_text_Nil [simp]: "encodes_text []"
  unfolding encodes_text_def by (rule exI [of _ "[]"]) simp

lemma encodes_text_append: "encodes_text a \<Longrightarrow> encodes_text b \<Longrightarrow> encodes_text (a @ b)"
  unfolding encodes_text_def by (metis concat_append list_all_append map_append)

lemma encodes_text_encode: "scalar k \<Longrightarrow> encodes_text (utf8_encode k)"
  unfolding encodes_text_def by (rule exI [of _ "[k]"]) simp

lemma encodes_text_latin1: "list_all (\<lambda>c. 0x80 \<le> unat c) bs \<Longrightarrow> encodes_text (concat (map appendLatin1 bs))"
  by (induction bs) (auto intro!: encodes_text_append simp: appendLatin1_encodes encodes_text_encode)

lemma decode_encodes: "encodes_text (fst (decode bs)) \<and> list_all (\<lambda>c. 0x80 \<le> unat c) (snd (decode bs))"
proof (induction bs rule: decode.induct)
  case (2 c rest)
  let ?n = "utf8Length c"
  have high: "0x80 \<le> unat c" if "?n \<noteq> 1" using that by (auto simp: utf8Length_nat split: if_splits)
  consider "?n = 1" | "?n = 0" | "2 \<le> ?n" "Suc (length rest) < ?n \<and> list_all isContinuation rest"
    | "2 \<le> ?n" "\<not> (Suc (length rest) < ?n \<and> list_all isContinuation rest)" "valid_sequence ?n c rest"
    | "2 \<le> ?n" "\<not> (Suc (length rest) < ?n \<and> list_all isContinuation rest)" "\<not> valid_sequence ?n c rest"
    by linarith
  then show ?case
  proof cases
    case 1
    then have "scalar (unat c)" "utf8_encode (unat c) = [c]"
      by (auto simp: utf8Length_nat scalar_def encode1 split: if_splits)
    then show ?thesis
      using 1 "2.IH"(1) encodes_text_append [OF encodes_text_encode, of "unat c"] by (simp add: decode.simps(2))
  next
    case 2
    then show ?thesis
      using "2.IH"(2) high appendLatin1_encodes [of c] encodes_text_append [OF encodes_text_encode, of "unat c"]
      by (simp add: decode.simps(2))
  next
    case 3
    then have "list_all (\<lambda>c. 0x80 \<le> unat c) rest" by (auto simp: list_all_iff isContinuation_nat)
    then show ?thesis using 3 high by (simp add: decode.simps(2))
  next
    case 4
    then obtain k where "scalar k" "c # take (?n - 1) rest = utf8_encode k"
      using valid_sequence_encodes [of c rest] by blast
    moreover have "\<not> Suc (length rest) < ?n" using 4(3) by (simp add: valid_sequence_def)
    ultimately show ?thesis
      using 4 "2.IH"(3) encodes_text_append [OF encodes_text_encode, of k "fst (decode (drop (?n - 1) rest))"]
      by (simp add: decode.simps(2) Let_def)
  next
    case 5
    then show ?thesis
      using "2.IH"(4) [OF refl _ _ 5(2,3)] high appendLatin1_encodes [of c] encodes_text_append [OF encodes_text_encode, of "unat c"]
      by (auto simp add: decode.simps(2) Let_def)
  qed
qed simp

lemma decode_utf8_encode:
  assumes "scalar k"
  shows "decode (utf8_encode k @ rest) = apfst ((@) (utf8_encode k)) (decode rest)"
proof (cases "k < 0x80")
  case True
  then have "utf8_encode k = [word_of_nat k]" "utf8Length (word_of_nat k) = 1"
    by (simp_all add: utf8_encode_def utf8Length_nat unat_byte)
  then show ?thesis by (simp add: decode.simps(2))
next
  case False
  then have "printable_scalar k" using assms by (simp add: scalar_def printable_scalar_def)
  then have s: "scalar_nat (utf8_encode k @ rest) = Some (k, rest)" by (rule scalar_nat_complete)
  obtain c t where ct: "utf8_encode k = c # t" by (cases "utf8_encode k") (auto simp: utf8_encode_def split: if_splits)
  have v: "2 \<le> utf8Length c \<and> valid_sequence (utf8Length c) c (t @ rest)"
    using scalar_valid_sequence [of c "t @ rest" k rest] s ct False by simp
  then have "drop (utf8Length c - 1) (t @ rest) = rest"
    using valid_sequence_scalar [of c "t @ rest"] s ct by auto
  moreover from this have "take (utf8Length c - 1) (t @ rest) = t"
    by (metis append_same_eq append_take_drop_id)
  moreover have "\<not> Suc (length (t @ rest)) < utf8Length c" using v by (auto simp: valid_sequence_def)
  ultimately show ?thesis using v ct by (simp add: decode.simps(2) Let_def)
qed

lemma decode_valid: "list_all scalar cs \<Longrightarrow> decode (concat (map utf8_encode cs)) = (concat (map utf8_encode cs), [])"
  by (induction cs) (simp_all add: decode_utf8_encode)

text \<open>Whatever bytes Stata prints and however they are cut into chunks, the decoder's output is
  valid UTF-8, depends on the bytes only and not on the cut, and is those bytes when they are valid
  UTF-8.\<close>

lemma decoder_output_is_utf8:
  "encodes_text (run_decoder chunks)
   \<and> run_decoder chunks = run_decoder [concat chunks]
   \<and> (encodes_text (concat chunks) \<longrightarrow> run_decoder chunks = concat chunks)"
proof -
  have "encodes_text (decode_all bs)" for bs
    unfolding decode_all_def using decode_encodes [of bs] by (simp add: encodes_text_append encodes_text_latin1)
  moreover have "decode_all bs = bs" if "encodes_text bs" for bs
    using that by (auto simp: encodes_text_def decode_all_def decode_valid)
  ultimately show ?thesis by (simp add: run_decoder_all)
qed

lemma decoder_output_is_utf8_witness:
  "run_decoder [[0x68, 0xC3], [0xA9]] = [0x68, 0xC3, 0xA9] \<and> run_decoder [[0x68, 0xC3], [0x41]] = [0x68, 0xC3, 0x83, 0x41]"
proof -
  have "encodes_text (concat [[0x68, 0xC3], [0xA9]])"
    unfolding encodes_text_def by (rule exI [of _ "[0x68, 0xE9]"]) (simp add: scalar_def utf8_encode_def)
  then have "run_decoder [[0x68, 0xC3], [0xA9]] = [0x68, 0xC3, 0xA9]" using decoder_output_is_utf8 by simp
  moreover have "run_decoder [[0x68, 0xC3], [0x41]] = [0x68, 0xC3, 0x83, 0x41]" by code_simp
  ultimately show ?thesis by blast
qed

section \<open>The hold: lemmas and property\<close>

datatype hold_event = Hold_Push string | Hold_Quiet

fun hold_step :: "hold_event \<Rightarrow> string \<times> TailHold \<Rightarrow> string \<times> TailHold" where
  "hold_step (Hold_Push t) (out, h) = apfst ((@) out) (TailHold_push t h)"
| "hold_step Hold_Quiet (out, h) = apfst ((@) out) (TailHold_release h)"

fun pushed :: "hold_event \<Rightarrow> string" where
  "pushed (Hold_Push t) = t"
| "pushed Hold_Quiet = []"

abbreviation newlines :: "string \<Rightarrow> nat" where
  "newlines t \<equiv> count_list t (CHR 0x0A)"

lemma hold_cut_None: "hold_cut n bs = None \<longleftrightarrow> n + newlines bs \<le> kLines \<or> n > kLines"
  by (induction n bs rule: hold_cut.induct) (auto simp: kLines_def)

lemma hold_cut_Some:
  "hold_cut n bs = Some k \<Longrightarrow> n \<le> kLines \<Longrightarrow> 0 < k \<and> k \<le> length bs
     \<and> bs ! (length bs - k) = CHR 0x0A \<and> n + newlines (take (length bs - k) bs) = kLines"
proof (induction n bs rule: hold_cut.induct)
  case (2 n c bs)
  show ?case
  proof (cases "c = CHR 0x0A \<and> n = kLines")
    case True
    with 2(3) show ?thesis by auto
  next
    case False
    with 2 have "0 < k \<and> k \<le> length bs \<and> bs ! (length bs - k) = CHR 0x0A
        \<and> (if c = CHR 0x0A then n + 1 else n) + newlines (take (length bs - k) bs) = kLines"
      by (auto split: if_splits)
    then show ?thesis by (auto simp: Suc_diff_le)
  qed
qed simp

lemma newlines_rev [simp]: "newlines (rev t) = newlines t"
  by simp

lemma last_take_nth: "0 < k \<Longrightarrow> k \<le> length l \<Longrightarrow> last (take k l) = l ! (k - 1)"
  using last_conv_nth [of "take k l"] by (cases "l = []") simp_all

lemma TailHold_push_spec:
  assumes "TailHold_push t h = (out, h')"
  shows "out @ h' = h @ t \<and> newlines h' \<le> kLines \<and> (out = [] \<or> last out = CHR 0x0A)"
proof (cases "hold_cut 0 (rev (h @ t))")
  case None
  then have "newlines (h @ t) \<le> kLines" using hold_cut_None [of 0 "rev (h @ t)"] by simp
  moreover have "out = [] \<and> h' = h @ t" using assms None by (simp add: TailHold_push_def Let_def)
  ultimately show ?thesis by simp
next
  case (Some k)
  let ?l = "h @ t"
  have out: "out = take k ?l" "h' = drop k ?l" using assms Some by (simp_all add: TailHold_push_def Let_def)
  have k: "0 < k" "k \<le> length ?l" "rev ?l ! (length ?l - k) = CHR 0x0A"
    "newlines (take (length ?l - k) (rev ?l)) = kLines"
    using hold_cut_Some [OF Some] by (simp_all add: add.commute)
  have "take (length ?l - k) (rev ?l) = rev h'" using k(2) out(2) by (metis rev_drop)
  then have "newlines h' = kLines" using k(4) by simp
  moreover have "rev ?l ! (length ?l - k) = ?l ! (length ?l - Suc (length ?l - k))"
    by (rule rev_nth) (use k(1,2) in simp)
  then have "rev ?l ! (length ?l - k) = ?l ! (k - 1)" using k(1,2) by (simp only: Suc_diff_le diff_diff_cancel) simp
  then have "?l ! (k - 1) = CHR 0x0A" using k(3) by simp
  moreover have "last (take k ?l) = ?l ! (k - 1)"
    using k(1,2) by (rule last_take_nth)
  ultimately have "last out = CHR 0x0A" by (simp only: out(1))
  moreover have "out @ h' = ?l" by (simp only: out append_take_drop_id)
  ultimately show ?thesis using \<open>newlines h' = kLines\<close> by simp
qed

lemma hold_step_spec:
  "hold_step e (out, h) = (out', h') \<Longrightarrow> newlines h \<le> kLines
   \<Longrightarrow> out' @ h' = out @ h @ pushed e \<and> newlines h' \<le> kLines"
proof (cases e)
  case (Hold_Push t)
  assume "hold_step e (out, h) = (out', h')"
  then obtain o1 where "TailHold_push t h = (o1, h')" "out' = out @ o1"
    using Hold_Push by (cases "TailHold_push t h") auto
  then show ?thesis using TailHold_push_spec [of t h o1 h'] Hold_Push by simp
qed (simp add: TailHold_release_def)

lemma hold_run:
  "newlines h \<le> kLines \<Longrightarrow>
     fst (fold hold_step es (out, h)) @ snd (fold hold_step es (out, h)) = out @ h @ concat (map pushed es)
     \<and> newlines (snd (fold hold_step es (out, h))) \<le> kLines"
proof (induction es arbitrary: out h)
  case (Cons e es)
  obtain out' h' where "hold_step e (out, h) = (out', h')" by fastforce
  then show ?case using hold_step_spec [of e out h out' h'] Cons.IH [of h' out'] Cons.prems by simp
qed simp

definition removes_error :: "string \<Rightarrow> string \<Rightarrow> string \<Rightarrow> bool" where
  "removes_error err held out \<longleftrightarrow> (\<exists>blanks. held = out @ err @ blanks \<and> list_all isspace blanks)
     \<and> (out = [] \<or> last out = CHR 0x0A)"

lemma TailHold_finish_spec:
  "fst (TailHold_finish err held) = held \<or> err \<noteq> [] \<and> removes_error err held (fst (TailHold_finish err held))"
proof -
  let ?body = "rev (dropWhile isspace (rev held))"
  let ?upto = "length ?body"
  let ?start = "?upto - length err"
  have body: "held = ?body @ rev (takeWhile isspace (rev held))"
    by (metis rev_append rev_rev_ident takeWhile_dropWhile_id)
  show ?thesis
  proof (cases "err \<noteq> [] \<and> length err \<le> ?upto \<and> substr held ?start (length err) = err
      \<and> (?start = 0 \<or> held ! (?start - 1) = CHR 0x0A)")
    case False
    then have "fst (TailHold_finish err held) = held" by (auto simp: TailHold_finish_def TailHold_release_def Let_def)
    then show ?thesis by blast
  next
    case True
    then have out: "fst (TailHold_finish err held) = take ?start held"
      by (simp add: TailHold_finish_def TailHold_release_def Let_def)
    have le: "?upto \<le> length held" using length_dropWhile_le [of isspace "rev held"] by simp
    have "substr held ?start (length err) = drop ?start (take ?upto held)"
      using True by (simp add: substr_def drop_take)
    also have "take ?upto held = ?body" by (subst body) simp
    finally have err: "err = drop ?start ?body" using True by simp
    have "take ?start held = take ?start ?body" by (subst body) simp
    then have "held = take ?start held @ err @ rev (takeWhile isspace (rev held))"
      using body err by (metis append_assoc append_take_drop_id)
    moreover have "list_all isspace (rev (takeWhile isspace (rev held)))"
      by (auto simp: list_all_iff dest: set_takeWhileD)
    moreover have "take ?start held = [] \<or> last (take ?start held) = CHR 0x0A"
    proof (cases "?start = 0")
      case False
      then have "last (take ?start held) = held ! (?start - 1)" using le by (intro last_take_nth) simp_all
      then show ?thesis using True False by simp
    qed simp
    ultimately show ?thesis using True unfolding out removes_error_def by blast
  qed
qed

lemma TailHold_finish_removes:
  assumes "err \<noteq> []" "\<not> isspace (last err)" "removes_error err held out"
  shows "fst (TailHold_finish err held) = out"
proof -
  obtain blanks where b: "held = out @ err @ blanks" "list_all isspace blanks" "out = [] \<or> last out = CHR 0x0A"
    using assms(3) by (auto simp: removes_error_def)
  have "dropWhile isspace (rev held) = dropWhile isspace (rev err @ rev out)"
    using b dropWhile_append2 [of "rev blanks" isspace "rev err @ rev out"] by (simp add: list_all_iff)
  also have "\<dots> = rev err @ rev out"
    using assms(1,2) by (cases err rule: rev_cases) simp_all
  finally have e: "rev (dropWhile isspace (rev held)) = out @ err" by simp
  have "out \<noteq> [] \<Longrightarrow> held ! (length out - 1) = last out" by (simp add: b(1) nth_append last_conv_nth)
  then have c: "length out = 0 \<or> held ! (length out - 1) = CHR 0x0A" using b(3) by (cases "out = []") simp_all
  have s: "substr held (length out) (length err) = err" "take (length out) held = out" by (simp_all add: b(1) substr_def)
  show ?thesis
    using c s assms(1) arg_cong [OF e, of length] by (simp add: TailHold_finish_def TailHold_release_def Let_def)
qed

text \<open>The hold loses and reorders nothing, in any mix of chunks and quiet moments, and never keeps
  more than \<open>kLines\<close> complete lines. At the end it gives out everything that is left, but for the error
  message: that is left out exactly when it stands, on lines of its own, at the end of what is held.\<close>

lemma tail_hold_keeps_the_text:
  fixes es err
  defines "sent \<equiv> fst (fold hold_step es ([], []))" and "held \<equiv> snd (fold hold_step es ([], []))"
  assumes "err \<noteq> []" "\<not> isspace (last err)"
  shows "sent @ held = concat (map pushed es) \<and> count_list held (CHR 0x0A) \<le> kLines
    \<and> (if \<exists>out. removes_error err held out then removes_error err held (fst (TailHold_finish err held))
       else fst (TailHold_finish err held) = held)"
proof -
  have "sent @ held = concat (map pushed es) \<and> count_list held (CHR 0x0A) \<le> kLines"
    using hold_run [of "[]" es "[]"] by (simp add: sent_def held_def)
  then show ?thesis
    using TailHold_finish_spec [of err held] TailHold_finish_removes [OF assms(3,4), of held] by auto
qed

lemma tail_hold_keeps_the_text_witness:
  "fst (fold hold_step [Hold_Push ''a'', Hold_Quiet, Hold_Push (CHR 0x0A # ''no'' @ [CHR 0x0A])] ([], []))
     @ snd (fold hold_step [Hold_Push ''a'', Hold_Quiet, Hold_Push (CHR 0x0A # ''no'' @ [CHR 0x0A])] ([], []))
     = ''a'' @ CHR 0x0A # ''no'' @ [CHR 0x0A]
   \<and> fst (TailHold_finish ''no'' (CHR 0x0A # ''no'' @ [CHR 0x0A])) = [CHR 0x0A]"
proof -
  have "fst (TailHold_finish ''no'' (CHR 0x0A # ''no'' @ [CHR 0x0A])) = [CHR 0x0A]" by code_simp
  then show ?thesis
    using tail_hold_keeps_the_text [of "''no''" "[Hold_Push ''a'', Hold_Quiet, Hold_Push (CHR 0x0A # ''no'' @ [CHR 0x0A])]"]
    by (simp add: isspace_def)
qed

section \<open>The echo filter does not depend on the cut into chunks\<close>

text \<open>A text as its complete lines and the start of the next one.\<close>

fun cut_from :: "string \<Rightarrow> string \<Rightarrow> string list \<times> string" where
  "cut_from q [] = ([], q)"
| "cut_from q (c # t) = (if c = CHR 0x0A then apfst ((#) q) (cut_from [] t) else cut_from (q @ [c]) t)"

fun filter_lines :: "string list \<Rightarrow> EchoFilter \<Rightarrow> string \<times> EchoFilter" where
  "filter_lines [] f = ([], f)"
| "filter_lines (l # ls) f = apfst ((@) (fst (EchoFilter_line l f))) (filter_lines ls (snd (EchoFilter_line l f)))"

text \<open>What should go out for a text: what goes out for its lines one by one, and for the start of a
  line at the end unless it is an echo.\<close>

definition filtered :: "string \<Rightarrow> string" where
  "filtered t =
     (let (ls, q) = cut_from [] t; (out, f) = filter_lines ls new_EchoFilter
      in out @ (if q = [] \<or> isEchoLine q then [] else
           let o' = fst (EchoFilter_line q f) in if o' \<noteq> [] \<and> last o' = CHR 0x0A then butlast o' else o'))"

definition run_filter :: "string list \<Rightarrow> string" where
  "run_filter chunks =
     (let (out, f) = fold (\<lambda>t (out, f). apfst ((@) out) (EchoFilter_push t f)) chunks ([], new_EchoFilter)
      in out @ fst (EchoFilter_finish f))"

definition tidy_line :: "string \<Rightarrow> bool" where
  "tidy_line l \<longleftrightarrow> CHR 0x0D \<notin> set l \<and> (l = [] \<or> trim l \<noteq> [])"

definition tidy :: "string \<Rightarrow> bool" where
  "tidy t \<longleftrightarrow> list_all tidy_line (fst (cut_from [] t)) \<and> tidy_line (snd (cut_from [] t))"

lemma cut_from_append:
  "cut_from q (a @ b) = apfst ((@) (fst (cut_from q a))) (cut_from (snd (cut_from q a)) b)"
  by (induction q a rule: cut_from.induct) (auto simp: apfst_def map_prod_def split_beta)

lemma cut_from_no_newline: "CHR 0x0A \<notin> set t \<Longrightarrow> cut_from q t = ([], q @ t)"
  by (induction t arbitrary: q) auto

lemma filter_lines_append:
  "filter_lines (ls @ ms) f
     = apfst ((@) (fst (filter_lines ls f))) (filter_lines ms (snd (filter_lines ls f)))"
  by (induction ls f rule: filter_lines.induct) (auto simp: apfst_def map_prod_def split_beta)

text \<open>The flag of a numbered line matters only between the lines of a block.\<close>

definition norm :: "EchoFilter \<Rightarrow> EchoFilter" where
  "norm f = f\<lparr>m_continuable := m_continuable f \<and> m_numbered f \<and> \<not> m_afterEcho f\<rparr>"

lemma continues_norm: "continues_echo (norm f) = continues_echo f"
  by (auto simp: continues_echo_def norm_def)

lemma norm_fields [simp]:
  "m_partial (norm f) = m_partial f" "m_passing (norm f) = m_passing f" "m_blankLines (norm f) = m_blankLines f"
  "m_afterEcho (norm f) = m_afterEcho f" "m_numbered (norm f) = m_numbered f" "m_command (norm f) = m_command f"
  "m_lastLine (norm f) = m_lastLine f" "norm (norm f) = norm f"
  by (auto simp: norm_def)

lemma line_conditions [simp]:
  "echo_continues (f\<lparr>m_partial := p\<rparr>) l = echo_continues f l" "echo_continues (norm f) l = echo_continues f l"
  "numbered_echo (f\<lparr>m_partial := p\<rparr>) l = numbered_echo f l" "numbered_echo (f\<lparr>m_afterEcho := b\<rparr>) l = numbered_echo f l"
  "numbered_echo (norm f) l = numbered_echo f l"
  "repeated_code (f\<lparr>m_partial := p\<rparr>) l = repeated_code f l" "repeated_code (f\<lparr>m_afterEcho := b\<rparr>) l = repeated_code f l"
  "repeated_code (f\<lparr>m_numbered := b\<rparr>) l = repeated_code f l" "repeated_code (f\<lparr>m_continuable := b\<rparr>) l = repeated_code f l"
  "repeated_code (norm f) l = repeated_code f l"
  by (simp_all add: echo_continues_def continues_norm numbered_echo_def repeated_code_def) (simp add: continues_echo_def)

lemma line_norm:
  "fst (EchoFilter_line t (norm f)) = fst (EchoFilter_line t f)
   \<and> norm (snd (EchoFilter_line t (norm f))) = norm (snd (EchoFilter_line t f))"
proof (cases "echo_continues f (chop_cr t)")
  case True
  then have "m_afterEcho f \<or> m_numbered f \<and> m_continuable f" by (simp add: echo_continues_def continues_echo_def)
  with True show ?thesis
    by (cases "m_afterEcho f") (simp_all add: EchoFilter_line_def Let_def, simp_all add: norm_def)
next
  case False
  then show ?thesis
    by (simp add: EchoFilter_line_def Let_def) (simp add: norm_def)
qed

lemma line_norm_eq:
  "norm f = norm g \<Longrightarrow> fst (EchoFilter_line t f) = fst (EchoFilter_line t g)
     \<and> norm (snd (EchoFilter_line t f)) = norm (snd (EchoFilter_line t g))"
  using line_norm [of t f] line_norm [of t g] by simp

definition opens_with :: "char \<Rightarrow> string \<Rightarrow> bool" where
  "opens_with c p \<longleftrightarrow> p ! 0 = c \<and> (length p = 1 \<or> p ! 1 = CHR '' '')"

lemma mayBeEcho_iff:
  "EchoFilter_mayBeEcho p f \<longleftrightarrow> p = [] \<or> opens_with (CHR ''.'') p \<or> continues_echo f \<and> opens_with (CHR ''>'') p
     \<or> m_numbered f \<and> mayBeNumbered p \<or> p ! 0 = CHR ''r'' \<and> isReturnCodeLine (m_lastLine f)"
  unfolding EchoFilter_mayBeEcho_def opens_with_def by argo

lemma mayBe_norm: "EchoFilter_mayBeEcho p (norm f) = EchoFilter_mayBeEcho p f"
  by (simp add: mayBeEcho_iff continues_norm)

lemma line_partial:
  "EchoFilter_line t (f\<lparr>m_partial := p\<rparr>)
     = (fst (EchoFilter_line t f), (snd (EchoFilter_line t f))\<lparr>m_partial := p\<rparr>)"
  by (simp add: EchoFilter_line_def Let_def)

lemma line_keeps [simp]:
  "m_partial (snd (EchoFilter_line t f)) = m_partial f" "m_passing (snd (EchoFilter_line t f)) = m_passing f"
  by (simp_all add: EchoFilter_line_def Let_def)

lemma filter_lines_keeps [simp]:
  "m_partial (snd (filter_lines ls f)) = m_partial f" "m_passing (snd (filter_lines ls f)) = m_passing f"
  by (induction ls f rule: filter_lines.induct) simp_all

lemma rest_of_number_prefix: "rest_of_number (p @ u) \<Longrightarrow> p = [] \<or> rest_of_number p"
proof (cases p)
  case (Cons c t)
  assume "rest_of_number (p @ u)"
  then show ?thesis using Cons by (cases t) (auto simp: rest_of_number_def no_terminator_def)
qed simp

lemma numbered_prefix:
  assumes "isNumberedLine (p @ u)"
  shows "mayBeNumbered p"
proof (cases "dropWhile isspace p = []")
  case True
  then show ?thesis by (simp add: mayBeNumbered_def)
next
  case False
  let ?s = "dropWhile isspace p"
  have s: "dropWhile isspace (p @ u) = ?s @ u" using False by (auto simp: dropWhile_append)
  then have 1: "takeWhile isdigit (?s @ u) \<noteq> []" "rest_of_number (dropWhile isdigit (?s @ u))"
    using assms by (simp_all add: isNumberedLine_def Let_def)
  then have "takeWhile isdigit ?s \<noteq> []" using False by (cases ?s) (auto split: if_splits)
  moreover have "dropWhile isdigit ?s = [] \<or> rest_of_number (dropWhile isdigit ?s)"
    using 1(2) rest_of_number_prefix [of "dropWhile isdigit ?s" u] by (auto simp: dropWhile_append split: if_splits)
  ultimately show ?thesis by (simp add: mayBeNumbered_def Let_def)
qed

lemma starts_with_two:
  assumes "starts_with (p @ u) [a, b]" "p \<noteq> []"
  shows "p ! 0 = a" "b = CHR '' '' \<Longrightarrow> opens_with a p"
proof -
  obtain c t where p: "p = c # t" using assms(2) by (cases p) auto
  then show "p ! 0 = a" "b = CHR '' '' \<Longrightarrow> opens_with a p"
    using assms(1) by (cases t; simp add: starts_with_def opens_with_def)+
qed

text \<open>A line whose start cannot be echo goes out.\<close>

lemma passes_line:
  assumes "p \<noteq> []" "\<not> EchoFilter_mayBeEcho p f" "tidy_line (p @ u)"
  shows "EchoFilter_line (p @ u) f =
      (replicate (m_blankLines f) (CHR 0x0A) @ (p @ u) @ [CHR 0x0A],
       f\<lparr>m_afterEcho := False, m_continuable := False, m_numbered := False, m_blankLines := 0, m_lastLine := p @ u\<rparr>)"
    and "\<not> isEchoLine (p @ u)"
proof -
  have cr: "chop_cr (p @ u) = p @ u" using assms(3) last_in_set [of "p @ u"] by (auto simp: chop_cr_def tidy_line_def)
  have cont: "\<not> echo_continues f (p @ u)"
    using assms(1,2) starts_with_two(2) [of p u] by (auto simp: mayBeEcho_iff echo_continues_def)
  show echo: "\<not> isEchoLine (p @ u)"
  proof
    assume "isEchoLine (p @ u)"
    then have "opens_with (CHR ''.'') p"
      using assms(1) starts_with_two(2) [of p u] by (cases p) (auto simp: isEchoLine_def opens_with_def)
    then show False using assms(1,2) by (simp add: mayBeEcho_iff)
  qed
  have num: "\<not> numbered_echo (f\<lparr>m_afterEcho := False\<rparr>) (p @ u)"
    using assms(1,2) numbered_prefix [of p u] by (auto simp: mayBeEcho_iff numbered_echo_def)
  have ret: "\<not> (isReturnCodeLine (p @ u) \<and> p @ u = m_lastLine f)"
  proof
    assume r: "isReturnCodeLine (p @ u) \<and> p @ u = m_lastLine f"
    then have "p ! 0 = CHR ''r''" using assms(1) starts_with_two(1) [of p u] by (auto simp: isReturnCodeLine_def)
    then show False using r assms(1,2) by (auto simp: mayBeEcho_iff)
  qed
  have "trim (p @ u) \<noteq> []" using assms(1,3) by (auto simp: tidy_line_def)
  then show "EchoFilter_line (p @ u) f =
      (replicate (m_blankLines f) (CHR 0x0A) @ (p @ u) @ [CHR 0x0A],
       f\<lparr>m_afterEcho := False, m_continuable := False, m_numbered := False, m_blankLines := 0, m_lastLine := p @ u\<rparr>)"
    using cr cont echo num ret by (auto simp: EchoFilter_line_def repeated_code_def Let_def)
qed

text \<open>How the filter's state after some chunks relates to the text so far: either the start of the line is
  still held and the state is that after the complete lines, or it is being passed on, having begun with
  something that cannot be echo.\<close>

definition held_state :: "string \<Rightarrow> EchoFilter \<Rightarrow> EchoFilter \<Rightarrow> bool" where
  "held_state q r f \<longleftrightarrow> norm f = norm (r\<lparr>m_partial := q\<rparr>)"

definition passing_state :: "string \<Rightarrow> string \<Rightarrow> EchoFilter \<Rightarrow> EchoFilter \<Rightarrow> bool" where
  "passing_state sent rest r f \<longleftrightarrow>
     norm f = norm (r\<lparr>m_blankLines := 0, m_afterEcho := False, m_numbered := False, m_passing := True,
                     m_lastLine := sent, m_partial := rest\<rparr>)
     \<and> (\<exists>p u. sent = p @ u \<and> p \<noteq> [] \<and> \<not> EchoFilter_mayBeEcho p r)"

definition filter_rel :: "string \<Rightarrow> EchoFilter \<Rightarrow> string \<Rightarrow> bool" where
  "filter_rel t f out \<longleftrightarrow>
     (let q = snd (cut_from [] t); (o', r) = filter_lines (fst (cut_from [] t)) new_EchoFilter
      in (\<not> m_passing f \<and> held_state q r f \<and> out = o')
       \<or> (m_passing f \<and> (\<exists>sent. q = sent @ m_partial f \<and> passing_state sent (m_partial f) r f
             \<and> out = o' @ replicate (m_blankLines r) (CHR 0x0A) @ sent)))"

lemma filter_rel_cases:
  assumes "filter_rel t f out"
  obtains q ls o' r where "cut_from [] t = (ls, q)" "filter_lines ls new_EchoFilter = (o', r)"
      "m_partial r = []" "\<not> m_passing r" "\<not> m_passing f" "held_state q r f" "out = o'"
  | q ls o' r sent where "cut_from [] t = (ls, q)" "filter_lines ls new_EchoFilter = (o', r)"
      "m_partial r = []" "\<not> m_passing r" "m_passing f" "q = sent @ m_partial f" "passing_state sent (m_partial f) r f"
      "out = o' @ replicate (m_blankLines r) (CHR 0x0A) @ sent"
proof -
  obtain ls q where c: "cut_from [] t = (ls, q)" by fastforce
  obtain o' r where l: "filter_lines ls new_EchoFilter = (o', r)" by fastforce
  have r: "m_partial r = []" "\<not> m_passing r"
    using filter_lines_keeps [of ls new_EchoFilter, unfolded l] by (simp_all add: new_EchoFilter_def)
  show ?thesis
    using assms c l r that by (auto simp: filter_rel_def)
qed

lemma held_relI:
  "cut_from [] t = (ls, q) \<Longrightarrow> filter_lines ls new_EchoFilter = (o', r) \<Longrightarrow> \<not> m_passing f \<Longrightarrow> held_state q r f
   \<Longrightarrow> filter_rel t f o'"
  by (simp add: filter_rel_def)

lemma passing_relI:
  "cut_from [] t = (ls, sent @ m_partial f) \<Longrightarrow> filter_lines ls new_EchoFilter = (o', r) \<Longrightarrow> m_passing f
   \<Longrightarrow> passing_state sent (m_partial f) r f
   \<Longrightarrow> filter_rel t f (o' @ replicate (m_blankLines r) (CHR 0x0A) @ sent)"
  by (simp add: filter_rel_def)

lemma norm_eq_fields:
  "norm f = norm g \<Longrightarrow> m_partial f = m_partial g \<and> m_passing f = m_passing g \<and> m_blankLines f = m_blankLines g
     \<and> m_lastLine f = m_lastLine g"
  by (metis norm_fields(1,2,3,7))

lemma norm_update: "norm (f\<lparr>m_partial := p\<rparr>) = (norm f)\<lparr>m_partial := p\<rparr>"
  "norm (f\<lparr>m_lastLine := l, m_passing := b, m_partial := p\<rparr>) = (norm f)\<lparr>m_lastLine := l, m_passing := b, m_partial := p\<rparr>"
  by (cases f, simp add: norm_def)+

lemma norm_partial: "norm f = norm g \<Longrightarrow> norm (f\<lparr>m_partial := p\<rparr>) = norm (g\<lparr>m_partial := p\<rparr>)"
  by (simp only: norm_update)

lemma filter_lines_snoc:
  "filter_lines ls f = (o', r) \<Longrightarrow> filter_lines (ls @ [q]) f = (o' @ fst (EchoFilter_line q r), snd (EchoFilter_line q r))"
  by (cases "EchoFilter_line q r") (simp add: filter_lines_append)

lemma filter_rel_text:
  assumes "filter_rel t f out" "CHR 0x0A \<notin> set u"
  shows "filter_rel (t @ u) (f\<lparr>m_partial := m_partial f @ u\<rparr>) out"
  using assms(1)
proof (cases rule: filter_rel_cases)
  case (1 q ls o' r)
  have "m_partial f = q" using norm_eq_fields [of f "r\<lparr>m_partial := q\<rparr>"] 1(6) by (simp add: held_state_def)
  moreover have "cut_from [] (t @ u) = (ls, q @ u)"
    using 1(1) assms(2) by (simp add: cut_from_append cut_from_no_newline)
  ultimately show ?thesis
    using 1 held_relI [of "t @ u" ls "q @ u" o' r "f\<lparr>m_partial := m_partial f @ u\<rparr>"]
      norm_partial [of f "r\<lparr>m_partial := q\<rparr>" "q @ u"] by (simp add: held_state_def)
next
  case (2 q ls o' r sent)
  let ?f = "f\<lparr>m_partial := m_partial f @ u\<rparr>"
  have "cut_from [] (t @ u) = (ls, sent @ m_partial ?f)"
    using 2(1,6) assms(2) by (simp add: cut_from_append cut_from_no_newline)
  moreover have "passing_state sent (m_partial ?f) r ?f"
    using 2(7) norm_partial [of f _ "m_partial f @ u"] by (auto simp: passing_state_def)
  ultimately show ?thesis
    using 2(2,5,8) passing_relI [of "t @ u" ls sent ?f o' r] by simp
qed

lemma end_of_line_held:
  "\<not> m_passing f \<Longrightarrow> end_of_line f = (fst (EchoFilter_line (m_partial f) f), (snd (EchoFilter_line (m_partial f) f))\<lparr>m_partial := []\<rparr>)"
  by (simp add: end_of_line_def split_beta)

lemma tidy_chop: "tidy_line q \<Longrightarrow> chop_cr q = q"
  unfolding chop_cr_def tidy_line_def by (metis last_in_set)

lemma held_NilI: "norm f = norm r \<Longrightarrow> m_partial r = [] \<Longrightarrow> held_state [] r f"
  by (cases r) (simp add: held_state_def)

lemma filter_rel_newline:
  assumes "filter_rel t f out" "tidy_line (snd (cut_from [] t))"
  shows "filter_rel (t @ [CHR 0x0A]) (snd (end_of_line f)) (out @ fst (end_of_line f))"
  using assms(1)
proof (cases rule: filter_rel_cases)
  case (1 q ls o' r)
  have part: "m_partial f = q" using norm_eq_fields [of f "r\<lparr>m_partial := q\<rparr>"] 1(6) by (simp add: held_state_def)
  have cut': "cut_from [] (t @ [CHR 0x0A]) = (ls @ [q], [])" using 1(1) by (simp add: cut_from_append)
  have lines: "filter_lines (ls @ [q]) new_EchoFilter = (o' @ fst (EchoFilter_line q r), snd (EchoFilter_line q r))"
    using 1(2) by (rule filter_lines_snoc)
  have step: "fst (EchoFilter_line q f) = fst (EchoFilter_line q r)"
      "norm (snd (EchoFilter_line q f)) = norm ((snd (EchoFilter_line q r))\<lparr>m_partial := q\<rparr>)"
    using line_norm_eq [of f "r\<lparr>m_partial := q\<rparr>" q] 1(6) by (simp_all add: held_state_def line_partial)
  have "held_state [] (snd (EchoFilter_line q r)) ((snd (EchoFilter_line q f))\<lparr>m_partial := []\<rparr>)"
    using norm_partial [OF step(2), of "[]"] by (simp add: held_state_def)
  then show ?thesis
    using held_relI [OF cut' lines, of "(snd (EchoFilter_line q f))\<lparr>m_partial := []\<rparr>"] 1(5,7) step(1) part
    by (simp add: end_of_line_held)
next
  case (2 q ls o' r sent)
  have cut': "cut_from [] (t @ [CHR 0x0A]) = (ls @ [q], [])" using 2(1) by (simp add: cut_from_append)
  obtain p u where pu: "sent = p @ u" "p \<noteq> []" "\<not> EchoFilter_mayBeEcho p r"
      "norm f = norm (r\<lparr>m_blankLines := 0, m_afterEcho := False, m_numbered := False, m_passing := True,
                       m_lastLine := sent, m_partial := m_partial f\<rparr>)"
    using 2(7) by (auto simp: passing_state_def)
  have tidy: "tidy_line q" using assms(2) 2(1) by simp
  then have cr: "chop_cr q = q" by (rule tidy_chop)
  have line: "EchoFilter_line q r = (replicate (m_blankLines r) (CHR 0x0A) @ q @ [CHR 0x0A],
       r\<lparr>m_afterEcho := False, m_continuable := False, m_numbered := False, m_blankLines := 0, m_lastLine := q\<rparr>)"
    using passes_line(1) [of p r "u @ m_partial f"] pu tidy 2(6) by simp
  have lines: "filter_lines (ls @ [q]) new_EchoFilter = (o' @ fst (EchoFilter_line q r), snd (EchoFilter_line q r))"
    using 2(2) by (rule filter_lines_snoc)
  have last: "m_lastLine f @ m_partial f = q" using norm_eq_fields [OF pu(4)] 2(6) by simp
  have "norm (f\<lparr>m_lastLine := q, m_passing := False, m_partial := []\<rparr>)
      = (norm f)\<lparr>m_lastLine := q, m_passing := False, m_partial := []\<rparr>" by (rule norm_update(2))
  also have "\<dots> = norm (snd (EchoFilter_line q r))"
    using 2(3,4) by (simp add: pu(4) line) (simp add: norm_def)
  finally have "held_state [] (snd (EchoFilter_line q r)) (f\<lparr>m_lastLine := q, m_passing := False, m_partial := []\<rparr>)"
    using 2(3) by (intro held_NilI) simp_all
  then have "held_state [] (snd (EchoFilter_line q r)) (snd (end_of_line f))"
    using 2(5) last cr by (simp add: end_of_line_def)
  moreover have "\<not> m_passing (snd (end_of_line f))" using 2(5) by (simp add: end_of_line_def)
  moreover have "out @ fst (end_of_line f) = o' @ fst (EchoFilter_line q r)"
    by (simp add: line end_of_line_def 2(5,8)) (simp add: 2(6))
  ultimately show ?thesis
    using held_relI [OF cut' lines, of "snd (end_of_line f)"] by simp
qed


lemma filter_rel_lines:
  "filter_rel t f out \<Longrightarrow> list_all tidy_line (fst (cut_from [] (t @ u)))
   \<Longrightarrow> filter_rel (t @ u) (snd (push_lines u f)) (out @ fst (push_lines u f))"
proof (induction u f arbitrary: t out rule: push_lines.induct)
  case (1 u f)
  show ?case
  proof (cases "find_char (CHR 0x0A) u")
    case None
    then have "push_lines u f = ([], f\<lparr>m_partial := m_partial f @ u\<rparr>)" by (simp add: push_lines.simps)
    then show ?thesis
      using filter_rel_text [OF "1.prems"(1), of u] None by (simp add: find_char_None_iff)
  next
    case (Some k)
    let ?a = "take k u" and ?b = "drop (k + 1) u"
    let ?f = "f\<lparr>m_partial := m_partial f @ ?a\<rparr>"
    have a: "CHR 0x0A \<notin> set ?a" "u = ?a @ CHR 0x0A # ?b"
      using find_char_SomeD [OF Some] find_char_take_drop [OF Some] by simp_all
    have whole: "t @ u = ((t @ ?a) @ [CHR 0x0A]) @ ?b" using a(2) by simp
    have rel: "filter_rel (t @ ?a) ?f out" by (rule filter_rel_text [OF "1.prems"(1) a(1)])
    have "fst (cut_from [] (t @ u)) = fst (cut_from [] (t @ ?a)) @ snd (cut_from [] (t @ ?a)) # fst (cut_from [] ?b)"
      unfolding whole by (simp add: cut_from_append [of _ "t @ ?a"] cut_from_append [of _ "(t @ ?a) @ [CHR 0x0A]"] del: append_assoc)
    then have "tidy_line (snd (cut_from [] (t @ ?a)))" using "1.prems"(2) by simp
    from filter_rel_newline [OF rel this]
    have "filter_rel ((t @ ?a) @ [CHR 0x0A]) (snd (end_of_line ?f)) (out @ fst (end_of_line ?f))" .
    moreover have "list_all tidy_line (fst (cut_from [] (((t @ ?a) @ [CHR 0x0A]) @ ?b)))" using "1.prems"(2) whole by simp
    ultimately have "filter_rel (t @ u) (snd (push_lines ?b (snd (end_of_line ?f))))
        ((out @ fst (end_of_line ?f)) @ fst (push_lines ?b (snd (end_of_line ?f))))"
      unfolding whole by (intro "1.IH" [OF Some refl prod.collapse])
    moreover have "push_lines u f = (fst (end_of_line ?f) @ fst (push_lines ?b (snd (end_of_line ?f))),
        snd (push_lines ?b (snd (end_of_line ?f))))"
      by (subst push_lines.simps) (simp add: Some split_beta Let_def)
    ultimately show ?thesis by simp
  qed
qed

lemma filter_rel_push:
  assumes "filter_rel t f out" "list_all tidy_line (fst (cut_from [] (t @ u)))"
  shows "filter_rel (t @ u) (snd (EchoFilter_push u f)) (out @ fst (EchoFilter_push u f))"
proof -
  obtain o1 f1 where p: "push_lines u f = (o1, f1)" by fastforce
  have rel: "filter_rel (t @ u) f1 (out @ o1)" using filter_rel_lines [OF assms] p by simp
  show ?thesis
  proof (cases "m_partial f1 \<noteq> [] \<and> (m_passing f1 \<or> \<not> EchoFilter_mayBeEcho (m_partial f1) f1)")
    case False
    then have "EchoFilter_push u f = (o1, f1)" by (auto simp: EchoFilter_push_def p)
    then show ?thesis using rel by simp
  next
    case True
    from rel show ?thesis
    proof (cases rule: filter_rel_cases)
      case (1 q ls o' r)
      have q: "m_partial f1 = q" "m_blankLines f1 = m_blankLines r"
        using norm_eq_fields [of f1 "r\<lparr>m_partial := q\<rparr>"] 1(6) by (simp_all add: held_state_def)
      let ?f = "f1\<lparr>m_blankLines := 0, m_afterEcho := False, m_numbered := False, m_passing := True, m_lastLine := q, m_partial := []\<rparr>"
      have push: "EchoFilter_push u f = (o1 @ replicate (m_blankLines r) (CHR 0x0A) @ q, ?f)"
        using True 1(5) q by (simp add: EchoFilter_push_def p)
      have "EchoFilter_mayBeEcho q (r\<lparr>m_partial := q\<rparr>) = EchoFilter_mayBeEcho q f1"
        using 1(6) mayBe_norm by (metis held_state_def)
      then have not: "\<not> EchoFilter_mayBeEcho q r" using True 1(5) q by (simp add: mayBeEcho_iff continues_echo_def)
      have "norm ?f = (norm f1)\<lparr>m_blankLines := 0, m_afterEcho := False, m_numbered := False, m_continuable := False,
          m_passing := True, m_lastLine := q, m_partial := []\<rparr>" by (simp add: norm_def)
      also have "\<dots> = norm (r\<lparr>m_blankLines := 0, m_afterEcho := False, m_numbered := False, m_passing := True,
          m_lastLine := q, m_partial := []\<rparr>)"
        using 1(6) by (simp add: held_state_def) (simp add: norm_def)
      finally have "passing_state q [] r ?f"
        using not True q by (auto simp: passing_state_def)
      then show ?thesis
        using passing_relI [of "t @ u" ls q ?f o' r] 1(1,2) 1(7) [symmetric] push by simp
    next
      case (2 q ls o' r sent)
      let ?f = "f1\<lparr>m_lastLine := m_lastLine f1 @ m_partial f1, m_partial := []\<rparr>"
      have push: "EchoFilter_push u f = (o1 @ m_partial f1, ?f)" using True 2(5) by (simp add: EchoFilter_push_def p)
      have n: "norm f1 = norm (r\<lparr>m_blankLines := 0, m_afterEcho := False, m_numbered := False, m_passing := True,
                       m_lastLine := sent, m_partial := m_partial f1\<rparr>)"
        using 2(7) by (auto simp: passing_state_def)
      have "(out @ o1) @ m_partial f1 = o' @ replicate (m_blankLines r) (CHR 0x0A) @ q"
        unfolding 2(8) by (simp add: 2(6))
      then have out: "out @ o1 @ m_partial f1 = o' @ replicate (m_blankLines r) (CHR 0x0A) @ q" by simp
      have l: "m_lastLine f1 = sent" using norm_eq_fields [OF n] by simp
      have "norm ?f = (norm f1)\<lparr>m_lastLine := q, m_partial := []\<rparr>" using l 2(6) by (simp add: norm_def)
      also have "\<dots> = norm (r\<lparr>m_blankLines := 0, m_afterEcho := False, m_numbered := False, m_passing := True,
          m_lastLine := q, m_partial := []\<rparr>)"
        by (simp add: n) (simp add: norm_def)
      finally have "passing_state q [] r ?f"
        using 2(6,7) unfolding passing_state_def by (metis append_assoc)
      then show ?thesis
        using passing_relI [of "t @ u" ls q ?f o' r] 2(1,2,5) push out by simp
    qed
  qed
qed

lemma filter_rel_finish:
  assumes "filter_rel t f out" "tidy t"
  shows "out @ fst (EchoFilter_finish f) = filtered t"
  using assms(1)
proof (cases rule: filter_rel_cases)
  case (1 q ls o' r)
  have q: "m_partial f = q" using norm_eq_fields [of f "r\<lparr>m_partial := q\<rparr>"] 1(6) by (simp add: held_state_def)
  have "fst (EchoFilter_line q f) = fst (EchoFilter_line q r)"
    using line_norm_eq [of f "r\<lparr>m_partial := q\<rparr>" q] 1(6) by (simp add: held_state_def line_partial)
  then show ?thesis
    using 1(1,2,5,7) q by (auto simp: filtered_def EchoFilter_finish_def isEchoLine_def split_beta Let_def)
next
  case (2 q ls o' r sent)
  obtain p u where pu: "sent = p @ u" "p \<noteq> []" "\<not> EchoFilter_mayBeEcho p r"
    using 2(7) by (auto simp: passing_state_def)
  have "tidy_line q" using assms(2) 2(1) by (simp add: tidy_def)
  then have "fst (EchoFilter_line q r) = replicate (m_blankLines r) (CHR 0x0A) @ q @ [CHR 0x0A]" "\<not> isEchoLine q" "q \<noteq> []"
    using passes_line [of p r "u @ m_partial f"] pu 2(6) by simp_all
  then show ?thesis
    using 2(1,2,5,6,8) by (auto simp add: filtered_def EchoFilter_finish_def butlast_append)
qed

lemma filter_rel_run:
  "filter_rel t f out \<Longrightarrow> list_all tidy_line (fst (cut_from [] (t @ concat chunks)))
   \<Longrightarrow> (case fold (\<lambda>t (out, f). apfst ((@) out) (EchoFilter_push t f)) chunks (out, f) of
         (out', f') \<Rightarrow> filter_rel (t @ concat chunks) f' out')"
proof (induction chunks arbitrary: t f out)
  case (Cons u chunks)
  have "list_all tidy_line (fst (cut_from [] (t @ u)))"
    using Cons.prems(2) cut_from_append [of "[]" "t @ u" "concat chunks"] by simp
  then have "filter_rel (t @ u) (snd (EchoFilter_push u f)) (out @ fst (EchoFilter_push u f))"
    by (rule filter_rel_push [OF Cons.prems(1)])
  from Cons.IH [OF this] Cons.prems(2) show ?case
    by (cases "EchoFilter_push u f") simp
qed simp

lemma run_filter_filtered: "tidy (concat chunks) \<Longrightarrow> run_filter chunks = filtered (concat chunks)"
proof -
  assume tidy: "tidy (concat chunks)"
  have "filter_rel [] new_EchoFilter []" by (simp add: filter_rel_def held_state_def new_EchoFilter_def)
  from filter_rel_run [OF this, of chunks] tidy show ?thesis
    by (auto simp: run_filter_def tidy_def split_beta filter_rel_finish)
qed

text \<open>What the filter lets through does not depend on how Stata's output is cut into chunks, when
  its lines have no carriage return and those that are not empty have something on them.\<close>

lemma echo_filter_ignores_the_cut:
  assumes "tidy (concat chunks)"
  shows "run_filter chunks = filtered (concat chunks)"
  using assms by (rule run_filter_filtered)

lemma echo_filter_ignores_the_cut_witness:
  "run_filter [''. di 4'', [CHR 0x0A], ''4'', CHR 0x0A # ''.'', '' '']
     = filtered (concat [''. di 4'', [CHR 0x0A], ''4'', CHR 0x0A # ''.'', '' ''])"
  by (rule echo_filter_ignores_the_cut) (simp add: tidy_def tidy_line_def trim_def isspace_def)

text \<open>What Stata prints for a do-file: for a command a blank line, its echo, the echo's continuations
  and, for a block, numbered lines; then what the command prints.\<close>

datatype item = Echoed string "string list" "string list" | Printed string

definition wrapped :: "string \<Rightarrow> string" where
  "wrapped d = ''> '' @ d"

fun item_lines :: "item \<Rightarrow> string list" where
  "item_lines (Echoed c conts nums) = [] # (''. '' @ c) # map wrapped conts @ nums"
| "item_lines (Printed l) = [l]"

fun item_output :: "item \<Rightarrow> string" where
  "item_output (Echoed c conts nums) = []"
| "item_output (Printed l) = l @ [CHR 0x0A]"

fun item_ok :: "item \<Rightarrow> bool" where
  "item_ok (Echoed c conts nums) \<longleftrightarrow> no_terminator c \<and> list_all no_terminator conts \<and> list_all no_terminator nums
     \<and> (nums \<noteq> [] \<longrightarrow> opensNumberedLines (c @ concat conts) \<and> list_all isNumberedLine nums)"
| "item_ok (Printed l) \<longleftrightarrow> no_terminator l \<and> trim l \<noteq> [] \<and> \<not> isEchoLine l \<and> \<not> starts_with l ''> ''
     \<and> \<not> isReturnCodeLine l \<and> \<not> isNumberedLine l"

definition transcript :: "item list \<Rightarrow> string" where
  "transcript items = concat (map (\<lambda>l. l @ [CHR 0x0A]) (concat (map item_lines items)))"

lemma numbered_not_echo:
  assumes "isNumberedLine l"
  shows "\<not> isEchoLine l" "\<not> starts_with l ''> ''" "trim l \<noteq> []"
proof -
  obtain d ds where s: "dropWhile isspace l = d # ds" "isdigit d"
    using assms by (cases "dropWhile isspace l") (auto simp: isNumberedLine_def Let_def split: if_splits)
  have d: "\<not> isspace d" "d \<noteq> CHR ''.''" "d \<noteq> CHR ''>''" using s(2) by (auto simp: isdigit_def isspace_def Let_def)
  have first: "l = c # cs \<Longrightarrow> isspace c \<or> c = d" for c cs using s(1) by (auto split: if_splits)
  have "\<not> isspace CHR ''.''" "\<not> isspace CHR ''>''" by (simp_all add: isspace_def)
  with first d show "\<not> isEchoLine l" "\<not> starts_with l ''> ''"
    by (auto simp: isEchoLine_def starts_with_iff_append)
  have "d \<in> set l" using s(1) set_dropWhileD [of d isspace l] by simp
  with d(1) show "trim l \<noteq> []" by (auto simp: trim_eq_Nil_iff)
qed

lemma no_terminator_chop: "no_terminator l \<Longrightarrow> chop_cr l = l"
  unfolding chop_cr_def no_terminator_def by (metis last_in_set)

lemma filter_continuations:
  "m_afterEcho f \<Longrightarrow> list_all no_terminator conts \<Longrightarrow> m_numbered f = opensNumberedLines (m_command f) \<Longrightarrow>
   filter_lines (map wrapped conts) f
     = ([], f\<lparr>m_command := m_command f @ concat conts, m_numbered := opensNumberedLines (m_command f @ concat conts)\<rparr>)"
proof (induction conts arbitrary: f)
  case (Cons d conts)
  let ?f = "f\<lparr>m_command := m_command f @ d, m_numbered := opensNumberedLines (m_command f @ d)\<rparr>"
  have "no_terminator (wrapped d)" using Cons.prems(2) by (simp add: no_terminator_def wrapped_def)
  then have "EchoFilter_line (wrapped d) f = ([], ?f)"
    using Cons.prems(1) by (simp add: wrapped_def EchoFilter_line_def no_terminator_chop echo_continues_def continues_echo_def starts_with_def Let_def)
  then show ?case using Cons.IH [of ?f] Cons.prems by simp
qed (auto)

lemma filter_numbered:
  "m_numbered f \<Longrightarrow> list_all no_terminator nums \<Longrightarrow> list_all isNumberedLine nums \<Longrightarrow>
   fst (filter_lines nums f) = [] \<and> m_blankLines (snd (filter_lines nums f)) = m_blankLines f"
proof (induction nums arbitrary: f)
  case (Cons l nums)
  have "EchoFilter_line l f = ([], f\<lparr>m_afterEcho := False, m_continuable := True\<rparr>)"
    using Cons.prems numbered_not_echo [of l]
    by (simp add: EchoFilter_line_def no_terminator_chop echo_continues_def numbered_echo_def Let_def)
  then show ?case using Cons.IH [of "f\<lparr>m_afterEcho := False, m_continuable := True\<rparr>"] Cons.prems by simp
qed simp

lemma filter_item:
  assumes "item_ok i" "m_blankLines f = 0"
  shows "fst (filter_lines (item_lines i) f) = item_output i \<and> m_blankLines (snd (filter_lines (item_lines i) f)) = 0"
proof (cases i)
  case (Printed l)
  then show ?thesis
    using assms by (simp add: EchoFilter_line_def no_terminator_chop echo_continues_def numbered_echo_def repeated_code_def Let_def)
next
  case (Echoed c conts nums)
  obtain f1 where blank: "EchoFilter_line [] f = ([], f1)"
    by (simp add: EchoFilter_line_def chop_cr_def echo_continues_def starts_with_def isEchoLine_def numbered_echo_def
        isNumberedLine_def Let_def)
  let ?f = "f1\<lparr>m_blankLines := 0, m_afterEcho := True, m_command := c, m_numbered := opensNumberedLines c\<rparr>"
  have "no_terminator (''. '' @ c)" using assms(1) Echoed by (simp add: no_terminator_def)
  then have echo: "EchoFilter_line (''. '' @ c) f1 = ([], ?f)"
    by (simp add: EchoFilter_line_def no_terminator_chop echo_continues_def starts_with_def isEchoLine_def Let_def)
  let ?g = "?f\<lparr>m_command := c @ concat conts, m_numbered := opensNumberedLines (c @ concat conts)\<rparr>"
  have conts: "filter_lines (map wrapped conts) ?f = ([], ?g)"
    using filter_continuations [of ?f conts] assms(1) Echoed by simp
  have nums: "fst (filter_lines nums ?g) = [] \<and> m_blankLines (snd (filter_lines nums ?g)) = 0"
    using filter_numbered [of ?g nums] assms(1) Echoed by (cases "nums = []") simp_all
  show ?thesis
    using nums echo conts blank by (simp add: Echoed filter_lines_append)
qed

lemma filter_items:
  "list_all item_ok items \<Longrightarrow> m_blankLines f = 0
   \<Longrightarrow> fst (filter_lines (concat (map item_lines items)) f) = concat (map item_output items)"
proof (induction items arbitrary: f)
  case (Cons i items)
  then show ?case using filter_item [of i f] by (simp add: filter_lines_append)
qed simp

lemma item_lines_plain: "item_ok i \<Longrightarrow> l \<in> set (item_lines i) \<Longrightarrow> no_terminator l \<and> tidy_line l"
proof (cases i)
  case (Echoed c conts nums)
  assume ok: "item_ok i" and "l \<in> set (item_lines i)"
  then consider "l = []" | "l = ''. '' @ c" | d where "l = wrapped d" "d \<in> set conts" | "l \<in> set nums"
    using Echoed by auto
  then show ?thesis
  proof cases
    case 4
    then have "isNumberedLine l" "no_terminator l" using ok Echoed by (auto simp: list_all_iff)
    then show ?thesis using numbered_not_echo(3) by (simp add: tidy_line_def no_terminator_def)
  qed (use ok Echoed in \<open>auto simp: list_all_iff tidy_line_def no_terminator_def trim_eq_Nil_iff isspace_def wrapped_def\<close>)
qed (simp add: tidy_line_def no_terminator_def)

lemma cut_lines_concat:
  "list_all no_terminator ls \<Longrightarrow> cut_from [] (concat (map (\<lambda>l. l @ [CHR 0x0A]) ls)) = (ls, [])"
proof (induction ls)
  case (Cons l ls)
  then show ?case
    by (simp add: cut_from_append [of _ l] cut_from_no_newline no_terminator_def)
qed simp

text \<open>Of a do-file's output, in whatever chunks it comes, exactly what the commands print goes
  out: the echo of each command, its continuations, the numbered lines of a block and the blank line
  before it are removed.\<close>

lemma do_file_shows_what_is_printed:
  assumes "list_all item_ok items" "concat chunks = transcript items"
  shows "run_filter chunks = concat (map item_output items)"
proof -
  let ?ls = "concat (map item_lines items)"
  have "list_all no_terminator ?ls" "list_all tidy_line ?ls"
    using assms(1) item_lines_plain by (fastforce simp: list_all_iff)+
  then have c: "cut_from [] (transcript items) = (?ls, [])" "tidy (transcript items)"
    by (simp_all add: transcript_def cut_lines_concat tidy_def tidy_line_def)
  then have "run_filter chunks = filtered (transcript items)" using run_filter_filtered assms(2) by metis
  also have "\<dots> = fst (filter_lines ?ls new_EchoFilter)" by (simp add: filtered_def c(1) split_beta)
  also have "\<dots> = concat (map item_output items)"
    using filter_items [OF assms(1), of new_EchoFilter] by (simp add: new_EchoFilter_def)
  finally show ?thesis .
qed

lemma do_file_shows_what_is_printed_witness:
  "run_filter [CHR 0x0A # ''. fo'', ''r {'' @ CHR 0x0A # ''  2. x'', CHR 0x0A # ''hi'' @ [CHR 0x0A]] = ''hi'' @ [CHR 0x0A]"
  using do_file_shows_what_is_printed
    [of "[Echoed ''for {'' [] [''  2. x''], Printed ''hi'']" "[CHR 0x0A # ''. fo'', ''r {'' @ CHR 0x0A # ''  2. x'', CHR 0x0A # ''hi'' @ [CHR 0x0A]]"]
  by (simp add: transcript_def no_terminator_def opensNumberedLines_def isNumberedLine_def rest_of_number_def isdigit_def
      isspace_def trim_def starts_with_def isEchoLine_def isReturnCodeLine_def)

text \<open>On other lines the cut matters: a line of blanks goes out when its blanks come before its
  newline, and is held back as a blank line when they come together.\<close>

lemma cut_matters_for_lines_of_blanks:
  "run_filter ['' '', [CHR 0x0A]] = '' '' @ [CHR 0x0A]" "run_filter ['' '' @ [CHR 0x0A]] = []"
  by code_simp+

section \<open>Error messages: lemmas and property\<close>

text \<open>The lines of a message, joined.\<close>

fun joined :: "string list \<Rightarrow> string" where
  "joined [] = []"
| "joined [l] = l"
| "joined (l # m # ls) = l @ CHR 0x0A # joined (m # ls)"

lemma join_message_acc:
  "list_all (\<lambda>l. l \<noteq> []) ls \<Longrightarrow> ls \<noteq> [] \<Longrightarrow>
     join_message acc ls = (if acc = [] then joined ls else acc @ CHR 0x0A # joined ls)"
proof (induction ls arbitrary: acc rule: joined.induct)
  case (3 l m ls)
  then show ?case using "3.IH" [of l] "3.IH" [of "acc @ CHR 0x0A # l"] by auto
qed auto

definition marker :: "int \<Rightarrow> string" where
  "marker rc = ''r('' @ show_int rc @ '');''"

definition after_error :: "int \<Rightarrow> string \<Rightarrow> bool" where
  "after_error rc l \<longleftrightarrow> trim l = marker rc \<or> trim l = [] \<or> trim l = ''end of do-file''"

lemma marker_nonempty [simp]: "marker rc \<noteq> []"
  by (simp add: marker_def)

lemma find_marker_run:
  assumes "list_all (after_error rc) run" "trim m = marker rc" "\<not> after_error rc l"
  shows "find_marker (marker rc) best (run @ m # l # rest) = Some (length (l # rest))"
  using assms(1)
proof (induction run arbitrary: best)
  case Nil
  then show ?case using assms(2,3) by (auto simp: after_error_def Let_def)
next
  case (Cons x run)
  then show ?case by (auto simp: after_error_def Let_def)
qed

text \<open>The message of a failed command is found: of output that ends in lines of a message, the line
  with the return code and possibly its repetition after the end of the do-file, the message is the run
  of lines that follows the last echoed or blank line, joined and trimmed.\<close>

lemma error_message_is_found:
  assumes "splitLines output = pre @ msgs @ m # tail'" "pre = [] \<or> starts_message (last pre)"
    and "msgs \<noteq> []" "list_all (\<lambda>l. \<not> starts_message l) msgs" "\<not> after_error rc (last msgs)"
    and "trim m = marker rc" "list_all (after_error rc) tail'"
  shows "errorMessage output rc = trim (joined msgs)"
proof -
  have "rev (splitLines output) = rev tail' @ m # last msgs # rev (butlast msgs) @ rev pre"
    using assms(1,3) by (simp add: append_butlast_last_id [symmetric] del: append_butlast_last_id)
  then have "find_marker (marker rc) None (rev (splitLines output)) = Some (length msgs + length pre)"
    using find_marker_run [of rc "rev tail'" m "last msgs" None "rev (butlast msgs) @ rev pre"] assms(3,5,6,7) by simp
  moreover have "take (length msgs + length pre) (splitLines output) = pre @ msgs" using assms(1) by simp
  moreover have "takeWhile (\<lambda>l. \<not> starts_message l) (rev (pre @ msgs)) = rev msgs"
  proof (cases pre rule: rev_cases)
    case Nil
    then show ?thesis using assms(4) by (simp add: list_all_iff)
  next
    case (snoc p b)
    then show ?thesis using assms(2,4) by (simp add: takeWhile_append list_all_iff)
  qed
  moreover have "list_all (\<lambda>l. l \<noteq> []) msgs"
    using assms(4) by (auto simp: list_all_iff starts_message_def)
  then have "join_message [] msgs = joined msgs" using join_message_acc [of msgs "[]"] assms(3) by simp
  ultimately show ?thesis by (simp add: errorMessage_def marker_def Let_def)
qed

lemma error_message_is_found_witness:
  "errorMessage (''. su x'' @ CHR 0x0A # ''variable x not found'' @ CHR 0x0A # ''r(111);'' @ CHR 0x0A # CHR 0x0A #
      ''end of do-file'' @ CHR 0x0A # CHR 0x0A # ''r(111);'') 111 = ''variable x not found''"
proof -
  have lines: "splitLines (''. su x'' @ CHR 0x0A # ''variable x not found'' @ CHR 0x0A # ''r(111);'' @ CHR 0x0A # CHR 0x0A #
      ''end of do-file'' @ CHR 0x0A # CHR 0x0A # ''r(111);'')
      = [''. su x''] @ [''variable x not found''] @ ''r(111);'' # [[], ''end of do-file'', [], ''r(111);'']"
    by code_simp
  have m: "marker 111 = ''r(111);''" by code_simp
  have t: "trim ''r(111);'' = ''r(111);''" "trim ''end of do-file'' = ''end of do-file''"
      "trim ''variable x not found'' = ''variable x not found''" "trim [] = []" by code_simp+
  have s: "starts_message ''. su x''" "\<not> starts_message ''variable x not found''" by code_simp+
  show ?thesis
    using error_message_is_found [OF lines, of 111] by (simp add: m t s after_error_def)
qed

end
