(* ===== verification/Stata_Kernel.thy ===== *)
theory Stata_Kernel
  imports Stata_Output Stata_Code Helper
begin

text \<open>
  The Stata kernel (\<^verbatim>\<open>native/src/callisto/interpreter_stata.cpp\<close>): every request is answered by running
  Stata commands.

  Stata's shared library, its plugin and the file system are a record of functions over a world of their
  own (\<open>stata_api\<close>); the library's functions run a command, give what was printed as bytes, and keep
  their own state. While a cell runs a second thread takes the output every few milliseconds: the chunks it
  takes, and whether the output was quiet then, are what running a cell gives. Every command the kernel
  runs is recorded.

  Shown: what a cell prints reaches the client whole, however it is cut into chunks, but for the error message,
  which is the error of the reply; a cell is answered once; the data of a request are read within the
  bounds of the dataset, and nothing but a plain name is ever put into a command as the name of a variable.
\<close>

section \<open>Stata's library\<close>

datatype sink_event = Sink_Number int int | Sink_Missing nat | Sink_Text "byte list" | Sink_RowEnd

record 'w stata_api =
  so_execute :: "string \<Rightarrow> 'w \<Rightarrow> int \<times> 'w"
  so_run :: "string \<Rightarrow> 'w \<Rightarrow> ((byte list \<times> bool) list \<times> int) \<times> 'w"
  so_plugin :: "string \<Rightarrow> 'w \<Rightarrow> (sink_event list \<times> int) \<times> 'w"
  so_output :: "'w \<Rightarrow> byte list \<times> 'w"
  so_clear :: "'w \<Rightarrow> 'w"
  so_break :: "'w \<Rightarrow> 'w"
  so_shutdown :: "'w \<Rightarrow> 'w"
  fs_temp :: "string \<Rightarrow> 'w \<Rightarrow> string \<times> 'w"
  fs_write :: "string \<Rightarrow> string \<Rightarrow> 'w \<Rightarrow> bool \<times> 'w"
  fs_read :: "string \<Rightarrow> 'w \<Rightarrow> byte list"
  fs_remove :: "string \<Rightarrow> 'w \<Rightarrow> 'w"
  fs_ado :: "string \<Rightarrow> 'w \<Rightarrow> string list"
  api_parse :: "string \<Rightarrow> json"
  api_dump :: "json \<Rightarrow> string result"
  api_what :: "exn \<Rightarrow> string"
  api_ask :: "json \<Rightarrow> 'w \<Rightarrow> string result \<times> 'w"
  api_base64 :: "byte list \<Rightarrow> string"
  api_mata :: "string \<times> (string \<times> string) list"

text \<open>\<open>so_run\<close> is \<open>StataSO_Execute\<close> with the polls that happen meanwhile; \<open>fs_ado\<close> the stems of the ado-files of a
  directory and its one-letter folders, in the order they are listed; \<open>api_mata\<close> the source of the Mata library
  and the files of the browse commands.\<close>

datatype stata_output =
    S_Stream string
  | S_Error string string "string list"
  | S_Display json
  | S_Reply json

record 'w StataInterpreter =
  st_edition :: string
  st_version :: string
  st_executing :: bool
  st_shutdown :: bool
  st_adoCommands :: "string list"
  st_adoCommandsRead :: bool
  st_libraryDir :: string
  st_pluginPath :: string
  st_world :: 'w
  st_commands :: "string list"
  st_out :: "stata_output list"

definition quoted :: "string \<Rightarrow> string" where
  "quoted v = [CHR 0x60, CHR 0x22] @ v @ [CHR 0x22, CHR 0x27]"

definition utf8 :: "byte list \<Rightarrow> string" where
  "utf8 bytes = (let (a, d) = Utf8Decoder_push bytes []; (b, d) = Utf8Decoder_finish d in text_of (a @ b))"

text \<open>Output goes to the client in order.\<close>

definition say :: "stata_output list \<Rightarrow> 'w StataInterpreter \<Rightarrow> 'w StataInterpreter" where
  "say xs s = s\<lparr>st_out := st_out s @ xs\<rparr>"

definition runCaptured :: "'w stata_api \<Rightarrow> string \<Rightarrow> 'w StataInterpreter \<Rightarrow> (string \<times> int) \<times> 'w StataInterpreter" where
  "runCaptured A command s =
     (let w = so_clear A (st_world s);
          (rc, w) = so_execute A command w;
          (bytes, w) = so_output A w
      in ((utf8 bytes, rc), s\<lparr>st_world := w, st_commands := st_commands s @ [command]\<rparr>))"

abbreviation run_silent :: "'w stata_api \<Rightarrow> string \<Rightarrow> 'w StataInterpreter \<Rightarrow> 'w StataInterpreter" where
  "run_silent A command s \<equiv> snd (runCaptured A command s)"

definition tempFile :: "'w stata_api \<Rightarrow> string \<Rightarrow> 'w StataInterpreter \<Rightarrow> string \<times> 'w StataInterpreter" where
  "tempFile A extension s = (let (path, w) = fs_temp A extension (st_world s) in (path, s\<lparr>st_world := w\<rparr>))"

definition write_file :: "'w stata_api \<Rightarrow> string \<Rightarrow> string \<Rightarrow> 'w StataInterpreter \<Rightarrow> bool \<times> 'w StataInterpreter" where
  "write_file A path content s = (let (ok, w) = fs_write A path content (st_world s) in (ok, s\<lparr>st_world := w\<rparr>))"

section \<open>The Mata library\<close>

text \<open>Every \<open>mark\<close> of the text replaced, the replacement not read again.\<close>

function replace_all :: "string \<Rightarrow> string \<Rightarrow> string \<Rightarrow> string" where
  "replace_all mark new [] = []"
| "replace_all mark new (c # cs) =
     (if mark \<noteq> [] \<and> starts_with (c # cs) mark then new @ replace_all mark new (drop (length mark) (c # cs))
      else c # replace_all mark new cs)"
  by pat_completeness auto
termination
proof (relation "measure (\<lambda>(m, n, t). length t)")
  fix mark new :: string and c :: char and cs
  assume "mark \<noteq> [] \<and> starts_with (c # cs) mark"
  then show "((mark, new, drop (length mark) (c # cs)), mark, new, c # cs) \<in> measure (\<lambda>(m, n, t). length t)"
    by (cases mark) simp_all
qed simp_all

text \<open>The first mark replaced.\<close>

definition replace_first :: "string \<Rightarrow> string \<Rightarrow> string \<Rightarrow> string" where
  "replace_first mark new t =
     (case find_sub mark t of None \<Rightarrow> t | Some k \<Rightarrow> take k t @ new @ drop (k + length mark) t)"

definition installMataLibrary :: "'w stata_api \<Rightarrow> 'w StataInterpreter \<Rightarrow> bool \<times> 'w StataInterpreter" where
  "installMataLibrary A s =
     (let s = (if st_libraryDir s = [] then let (dir, s) = tempFile A ''lib'' s in s\<lparr>st_libraryDir := dir\<rparr> else s);
          dir = st_libraryDir s;
          doFile = dir @ ''/callisto.do'';
          (ok, s) = write_file A doFile (replace_all ''@DIR@'' dir (fst (api_mata A))) s;
          s = fold (\<lambda>(name, program) s. snd (write_file A (dir @ ''/'' @ name @ ''.ado'') program s)) (snd (api_mata A)) s;
          ((output, rc), s) = runCaptured A (''quietly do '' @ quoted doFile) s
      in (rc = 0, s))"

definition kMataFunctionNotFound :: int where
  "kMataFunctionNotFound = 3499"

definition mataJson :: "'w stata_api \<Rightarrow> string \<Rightarrow> 'w StataInterpreter \<Rightarrow> json option \<times> 'w StataInterpreter" where
  "mataJson A call s =
     (let (target, s) = tempFile A ''.json'' s;
          command = ''mata: '' @ replace_first ''@OUT@'' ([CHR 0x22] @ target @ [CHR 0x22]) call;
          ((output, rc), s) = runCaptured A command s;
          (rc, s) = (if rc = kMataFunctionNotFound then
                       let (installed, s) = installMataLibrary A s
                       in if installed then let ((output, rc), s) = runCaptured A command s in (rc, s) else (rc, s)
                     else (rc, s));
          answer = (if rc = 0 then
                      let parsed = api_parse A (utf8 (fs_read A target (st_world s)))
                      in if parsed = JDiscarded then None else Some parsed
                    else None)
      in (answer, s\<lparr>st_world := fs_remove A target (st_world s)\<rparr>))"

fun strings_of :: "json list \<Rightarrow> string list" where
  "strings_of [] = []"
| "strings_of (JString t # js) = t # strings_of js"
| "strings_of (_ # js) = strings_of js"

definition mataNames :: "'w stata_api \<Rightarrow> string \<Rightarrow> 'w StataInterpreter \<Rightarrow> string list \<times> 'w StataInterpreter" where
  "mataNames A kind s =
     (let (names, s) = mataJson A (''callisto_names('' @ [CHR 0x22] @ kind @ [CHR 0x22] @ '', @OUT@)'') s
      in (case names of Some (JArray js) \<Rightarrow> strings_of js | _ \<Rightarrow> [], s))"

definition kMaxLabelValues :: int where
  "kMaxLabelValues = 1000"

definition describeDataset :: "'w stata_api \<Rightarrow> 'w StataInterpreter \<Rightarrow> json result \<times> 'w StataInterpreter" where
  "describeDataset A s =
     (let (dataset, s) = mataJson A (''callisto_dataset(@OUT@, '' @ show_int kMaxLabelValues @ '')'') s
      in (case dataset of None \<Rightarrow> Inl (RuntimeError ''the dataset could not be read'') | Some d \<Rightarrow> Inr d, s))"

section \<open>The data\<close>

text \<open>\<open>isName\<close>: plain names only, since they go into commands.\<close>

definition isName :: "string \<Rightarrow> bool" where
  "isName name \<longleftrightarrow> name \<noteq> [] \<and> length name \<le> 32 \<and> \<not> isdigit (hd name) \<and> list_all isNameChar name"

text \<open>\<open>RowCollector\<close>: the rows so far and the one under way.\<close>

fun collect :: "sink_event \<Rightarrow> json list \<times> json list \<Rightarrow> json list \<times> json list" where
  "collect (Sink_Number m e) (rows, row) = (rows, row @ [JFloat m e])"
| "collect (Sink_Missing code) (rows, row) =
     (rows, row @ [if code = 0 then JNull else JString [CHR ''.'', char_of (of_char (CHR ''a'') + code - 1 :: nat)]])"
| "collect (Sink_Text bytes) (rows, row) = (rows, row @ [JString (utf8 bytes)])"
| "collect Sink_RowEnd (rows, row) = (rows @ [JArray row], [])"

definition joined_names :: "string \<Rightarrow> string list \<Rightarrow> string" where
  "joined_names sep names = concat (map (\<lambda>n. sep @ n) names)"

definition pluginRows ::
  "'w stata_api \<Rightarrow> string \<Rightarrow> string list \<Rightarrow> int \<Rightarrow> int \<Rightarrow> 'w StataInterpreter \<Rightarrow> json option \<times> 'w StataInterpreter" where
  "pluginRows A sink names first final s =
     (if st_pluginPath s = [] then (None, s)
      else
        let s = run_silent A (''capture program _callisto_plugin, plugin using('' @ quoted (st_pluginPath s) @ '')'') s;
            command = ''plugin call _callisto_plugin'' @ joined_names '' '' names @ '' in '' @ show_int first @ ''/'' @ show_int final
                      @ '', '' @ sink;
            ((events, rc), w) = so_plugin A command (so_clear A (st_world s));
            s = s\<lparr>st_world := snd (so_output A w), st_commands := st_commands s @ [command]\<rparr>
        in (if rc \<noteq> 0 then None else Some (JArray (fst (fold collect events ([], [])))), s))"

text \<open>\<open>std::stoll\<close>.\<close>

definition stoll :: "string \<Rightarrow> int result" where
  "stoll t =
     (let t = dropWhile isspace t;
          neg = (t \<noteq> [] \<and> hd t = CHR ''-'');
          t = (if t \<noteq> [] \<and> (hd t = CHR ''-'' \<or> hd t = CHR ''+'') then tl t else t);
          digits = takeWhile isdigit t;
          v = int (read_lsb (rev digits));
          v = (if neg then - v else v)
      in if digits = [] then Inl (InvalidArgument ''stoll'')
         else if v < - (2 ^ 63) \<or> 2 ^ 63 \<le> v then Inl (StdOutOfRange ''stoll'') else Inr v)"

definition kMaxRows :: int where
  "kMaxRows = 100000"

text \<open>The variables a request names.\<close>

fun requested_names :: "'w stata_api \<Rightarrow> json list \<Rightarrow> string list result" where
  "requested_names A [] = Inr []"
| "requested_names A (JString t # js) =
     (if isName t then rbind (requested_names A js) (\<lambda>names. Inr (t # names))
      else rbind (api_dump A (JString t)) (\<lambda>d. Inl (RuntimeError (''not a variable name: '' @ d))))"
| "requested_names A (j # js) = rbind (api_dump A j) (\<lambda>d. Inl (RuntimeError (''not a variable name: '' @ d)))"

definition named_variables :: "'w stata_api \<Rightarrow> json \<Rightarrow> string list result" where
  "named_variables A params =
     (case json_lookup params ''variables'' of Some (JArray js) \<Rightarrow> requested_names A js | _ \<Rightarrow> Inr [])"

text \<open>The observations asked for; a sum beyond 64 bits has no defined value.\<close>

definition row_range :: "json \<Rightarrow> int \<Rightarrow> (int \<times> int) result" where
  "row_range params observations =
     rbind (json_value get_longlong params ''start'' 1) (\<lambda>start.
     rbind (json_value get_longlong params ''count'' 100) (\<lambda>count.
       let start = max 1 start; count = max 0 (min kMaxRows count)
       in if start + count \<ge> 2 ^ 63 then Inl (Undefined ''signed overflow'') else Inr (start, min observations (start + count - 1))))"

text \<open>Which of the names is no variable.\<close>

fun confirm_each :: "'w stata_api \<Rightarrow> string list \<Rightarrow> 'w StataInterpreter \<Rightarrow> exn option \<times> 'w StataInterpreter" where
  "confirm_each A [] s = (None, s)"
| "confirm_each A (name # names) s =
     (let ((output, rc), s) = runCaptured A (''confirm variable '' @ name @ '', exact'') s
      in if rc \<noteq> 0 then (Some (RuntimeError (''no variable '' @ name)), s) else confirm_each A names s)"

definition confirm_names :: "'w stata_api \<Rightarrow> string list \<Rightarrow> 'w StataInterpreter \<Rightarrow> exn option \<times> 'w StataInterpreter" where
  "confirm_names A names s =
     (let ((output, rc), s) = runCaptured A (''confirm variable'' @ joined_names '' '' names @ '', exact'') s
      in if rc \<noteq> 0 then confirm_each A names s else (None, s))"

definition spaced_names :: "string list \<Rightarrow> string" where
  "spaced_names names = fold (\<lambda>name acc. acc @ (if acc = [] then [] else '' '') @ name) names []"

definition rows_call :: "string list \<Rightarrow> int \<Rightarrow> int \<Rightarrow> bool \<Rightarrow> string" where
  "rows_call names start final formatted =
     ''callisto_rows(@OUT@, '' @ [CHR 0x22] @ spaced_names names @ [CHR 0x22] @ '', '' @ show_int start @ '', '' @ show_int final
     @ '', '' @ (if formatted then ''1'' else ''0'') @ '')''"

definition read_rows ::
  "'w stata_api \<Rightarrow> string \<Rightarrow> string list \<Rightarrow> bool \<Rightarrow> bool \<Rightarrow> int \<Rightarrow> int \<Rightarrow> 'w StataInterpreter \<Rightarrow> json result \<times> 'w StataInterpreter" where
  "read_rows A sink names named formatted start final s =
     (if names = [] \<or> final < start then (Inr (JArray []), s)
      else
        let (e, s) = (if named then confirm_names A names s else (None, s))
        in case e of
             Some e \<Rightarrow> (Inl e, s)
           | None \<Rightarrow>
               let (rows, s) = (if formatted then (None, s) else pluginRows A sink names start final s);
                   (rows, s) = (case rows of Some r \<Rightarrow> (Some r, s) | None \<Rightarrow> mataJson A (rows_call names start final formatted) s)
               in (case rows of None \<Rightarrow> Inl (RuntimeError ''the data could not be read'') | Some r \<Rightarrow> Inr r, s))"

fun json_size :: "json \<Rightarrow> nat" where
  "json_size (JArray xs) = length xs"
| "json_size (JObject es) = length es"
| "json_size JNull = 0"
| "json_size _ = 1"

definition readData :: "'w stata_api \<Rightarrow> string \<Rightarrow> json \<Rightarrow> 'w StataInterpreter \<Rightarrow> json result \<times> 'w StataInterpreter" where
  "readData A sink request s =
     (let params = (if is_object request then request else JObject [])
      in case named_variables A params of
           Inl e \<Rightarrow> (Inl e, s)
         | Inr wanted \<Rightarrow>
             let named = (wanted \<noteq> []);
                 (names, s) = (if named then (wanted, s) else mataNames A ''variables'' s)
             in case value_bool params ''formatted'' False of
                  Inl e \<Rightarrow> (Inl e, s)
                | Inr formatted \<Rightarrow>
                    let ((output, rc), s) = runCaptured A ''display _N'' s
                    in case rbind (stoll (trim output)) (\<lambda>observations. rbind (row_range params observations) (\<lambda>range.
                              Inr (observations, range))) of
                         Inl e \<Rightarrow> (Inl e, s)
                       | Inr (observations, start, final) \<Rightarrow>
                           apfst (\<lambda>rows. rbind rows (\<lambda>rows. Inr (jobj [(''start'', JInt start), (''count'', JInt (int (json_size rows))),
                               (''observations'', JInt observations), (''variables'', JArray (map JString names)), (''formatted'', JBool formatted),
                               (''rows'', rows)])))
                             (read_rows A sink names named formatted start final s))"

section \<open>User expressions\<close>

definition shown_text :: "string \<Rightarrow> json" where
  "shown_text t = jobj [(''status'', JString ''ok''), (''data'', jobj [(''text/plain'', JString t)]), (''metadata'', JObject [])]"

definition failed_text :: "string \<Rightarrow> string \<Rightarrow> json" where
  "failed_text ename evalue =
     jobj [(''status'', JString ''error''), (''ename'', JString ename), (''evalue'', JString evalue), (''traceback'', JArray [])]"

definition return_code :: "int \<Rightarrow> string" where
  "return_code rc = ''r('' @ show_int rc @ '')''"

text \<open>The two expressions the kernel answers itself; an exception is that expression's error.\<close>

definition own_expression :: "'w stata_api \<Rightarrow> string \<Rightarrow> string \<Rightarrow> string \<Rightarrow> 'w StataInterpreter \<Rightarrow> json \<times> 'w StataInterpreter" where
  "own_expression A sink key expr s =
     (let (answer, s) =
            (if key = ''.callisto_dataset'' then describeDataset A s
             else let parsed = api_parse A (if expr = [] then ''{}'' else expr)
                  in if parsed = JDiscarded then (Inl (RuntimeError ''parse error''), s) else readData A sink parsed s)
      in (case rbind answer (api_dump A) of
            Inr t \<Rightarrow> shown_text t
          | Inl e \<Rightarrow> failed_text ''CallistoError'' (api_what A e), s))"

definition display_expression :: "'w stata_api \<Rightarrow> string \<Rightarrow> 'w StataInterpreter \<Rightarrow> json \<times> 'w StataInterpreter" where
  "display_expression A expr s =
     (let ((output, rc), s) = runCaptured A (''display '' @ expr) s
      in (if rc = 0 then shown_text (trim output) else failed_text (return_code rc) (errorMessage output rc), s))"

definition user_expression :: "'w stata_api \<Rightarrow> string \<Rightarrow> string \<Rightarrow> json \<Rightarrow> 'w StataInterpreter \<Rightarrow> json \<times> 'w StataInterpreter" where
  "user_expression A sink key v s =
     (let expr = (case v of JString t \<Rightarrow> t | _ \<Rightarrow> [])
      in if key = ''.callisto_dataset'' \<or> key = ''.callisto_data'' then own_expression A sink key expr s
         else display_expression A expr s)"

fun user_expressions ::
  "'w stata_api \<Rightarrow> string \<Rightarrow> (string \<times> json) list \<Rightarrow> 'w StataInterpreter \<Rightarrow> (string \<times> json) list \<times> 'w StataInterpreter" where
  "user_expressions A sink [] s = ([], s)"
| "user_expressions A sink ((key, v) # es) s =
     (let (j, s) = user_expression A sink key v s; (js, s) = user_expressions A sink es s in ((key, j) # js, s))"

definition evaluateUserExpressions ::
  "'w stata_api \<Rightarrow> string \<Rightarrow> json \<Rightarrow> 'w StataInterpreter \<Rightarrow> json \<times> 'w StataInterpreter" where
  "evaluateUserExpressions A sink expressions s =
     (case expressions of JObject es \<Rightarrow> apfst jobj (user_expressions A sink es s) | _ \<Rightarrow> (JObject [], s))"

section \<open>A cell\<close>

definition kErrorTailBytes :: nat where
  "kErrorTailBytes = 16 * 1024"

text \<open>What \<open>publish\<close> keeps between two chunks, and the texts it has shown.\<close>

record pipe =
  p_decoder :: Utf8Decoder
  p_echo :: EchoFilter
  p_hold :: TailHold
  p_tail :: string
  p_shown :: "string list"

definition new_pipe :: pipe where
  "new_pipe = \<lparr>p_decoder = [], p_echo = new_EchoFilter, p_hold = [], p_tail = [], p_shown = []\<rparr>"

definition show_text :: "string \<Rightarrow> pipe \<Rightarrow> pipe" where
  "show_text t p = (if t = [] then p else p\<lparr>p_shown := p_shown p @ [t]\<rparr>)"

definition keep_tail :: "string \<Rightarrow> string" where
  "keep_tail t = (if length t > kErrorTailBytes then drop (length t - kErrorTailBytes) t else t)"

text \<open>The decoded text of a chunk, and what of it is to be shown.\<close>

definition publish_decode :: "byte list \<Rightarrow> bool \<Rightarrow> pipe \<Rightarrow> string \<times> pipe" where
  "publish_decode chunk final p =
     (let (a, d) = Utf8Decoder_push chunk (p_decoder p);
          (b, d) = (if final then Utf8Decoder_finish d else ([], d))
      in (text_of (a @ b), p\<lparr>p_decoder := d\<rparr>))"

definition publish_filter :: "bool \<Rightarrow> string \<Rightarrow> bool \<Rightarrow> pipe \<Rightarrow> string \<times> pipe" where
  "publish_filter asTyped decoded final p =
     (if asTyped then (decoded, p)
      else
        let (a, f) = EchoFilter_push decoded (p_echo p);
            (b, f) = (if final then EchoFilter_finish f else ([], f))
        in (a @ b, p\<lparr>p_echo := f\<rparr>))"

definition publish_chunk :: "bool \<Rightarrow> byte list \<Rightarrow> bool \<Rightarrow> bool \<Rightarrow> pipe \<Rightarrow> pipe" where
  "publish_chunk asTyped chunk final quiet p =
     (let (decoded, p) = publish_decode chunk final p;
          p = p\<lparr>p_tail := keep_tail (p_tail p @ decoded)\<rparr>;
          (shown, p) = publish_filter asTyped decoded final p;
          (t, h) = TailHold_push shown (p_hold p);
          p = show_text t (p\<lparr>p_hold := h\<rparr>)
      in if \<not> final \<and> quiet
         then let (t, h) = TailHold_release (p_hold p) in show_text t (p\<lparr>p_hold := h\<rparr>)
         else p)"

text \<open>A cell that may have browsed: the regular expression \<open>(^|[\s;:])(br|...|edit)\b\<close>.\<close>

definition browse_words :: "string list" where
  "browse_words = [''br'', ''bro'', ''brow'', ''brows'', ''browse'', ''ed'', ''edi'', ''edit'']"

definition browse_at :: "string \<Rightarrow> nat \<Rightarrow> bool" where
  "browse_at code i \<longleftrightarrow>
     (i = 0 \<or> isspace (code ! (i - 1)) \<or> code ! (i - 1) = CHR '';'' \<or> code ! (i - 1) = CHR '':'')
     \<and> list_ex (\<lambda>w. starts_with (drop i code) w
           \<and> (let rest = drop (i + length w) code in rest = [] \<or> \<not> (isalnum (hd rest) \<or> hd rest = CHR ''_''))) browse_words"

definition may_browse :: "string \<Rightarrow> bool" where
  "may_browse code \<longleftrightarrow> list_ex (browse_at code) [0..<length code]"

definition askToViewData :: "'w stata_api \<Rightarrow> 'w StataInterpreter \<Rightarrow> exn option \<times> 'w StataInterpreter" where
  "askToViewData A s =
     (let (view, s) = mataJson A ''callisto_take_view(@OUT@)'' s
      in case view of
           None \<Rightarrow> (None, s)
         | Some view \<Rightarrow>
             (case value_bool view ''requested'' False of
                Inl e \<Rightarrow> (Some e, s)
              | Inr False \<Rightarrow> (None, s)
              | Inr True \<Rightarrow>
                  let variables = (case json_lookup view ''variables'' of None \<Rightarrow> JArray [] | Some v \<Rightarrow> v);
                      ui = jobj [(''method'', JString ''viewData''), (''params'', jobj [(''variables'', variables)])];
                      (reply, w) = api_ask A ui (st_world s);
                      s = s\<lparr>st_world := w\<rparr>;
                      opened = (case reply of
                                  Inl _ \<Rightarrow> False
                                | Inr r \<Rightarrow>
                                    let answer = api_parse A (if r = [] then ''null'' else r)
                                    in is_object answer \<and> value_bool answer ''ok'' False = Inr True)
                  in (None, if opened then s
                            else say [S_Stream (''(there is no data viewer here: list shows the data)'' @ [CHR 0x0A])] s)))"

text \<open>A graph that cannot be shown or exported is left out.\<close>

definition publish_graph :: "'w stata_api \<Rightarrow> string \<Rightarrow> 'w StataInterpreter \<Rightarrow> 'w StataInterpreter" where
  "publish_graph A name s =
     (let ((output, rc), s) = runCaptured A (''quietly graph display '' @ name) s
      in if rc \<noteq> 0 then s
         else
           let (png, s) = tempFile A ''.png'' s;
               ((output, rc), s) = runCaptured A (''quietly graph export '' @ quoted png @ '', name('' @ name @ '') replace'') s;
               bytes = fs_read A png (st_world s);
               s = s\<lparr>st_world := fs_remove A png (st_world s)\<rparr>
           in if rc \<noteq> 0 \<or> bytes = [] then s
              else say [S_Display (jobj [(''image/png'', JString (api_base64 A bytes)),
                                         (''text/plain'', JString (''<Stata graph: '' @ name @ ''>''))])] s)"

definition publishGraphs :: "'w stata_api \<Rightarrow> 'w StataInterpreter \<Rightarrow> 'w StataInterpreter" where
  "publishGraphs A s =
     (let s = run_silent A ''capture _return hold __callisto_r'' s;
          s = run_silent A ''quietly _gr_list list'' s;
          (names, s) = mataNames A ''graphs'' s;
          s = run_silent A ''capture _return restore __callisto_r'' s
      in fold (publish_graph A) names s)"

definition changes_commands :: "string \<Rightarrow> bool" where
  "changes_commands code \<longleftrightarrow> list_ex (\<lambda>w. find_sub w code \<noteq> None) [''install'', ''adopath'', ''sysdir'', ''net '']"

text \<open>The error of a return code: its name, its message, and what Stata printed of it.\<close>

definition cell_error :: "string \<Rightarrow> int \<Rightarrow> string \<times> string \<times> string" where
  "cell_error t rc =
     (if rc = 0 then ([], [], [])
      else
        let ename = return_code rc; evalue = errorMessage t rc
        in if evalue \<noteq> [] then (ename, evalue, evalue @ [CHR 0x0A] @ ename @ '';'')
           else (ename, if rc = 1 then ''--Break--'' else ''Stata returned an error'', []))"

definition errorTraceback :: "string \<Rightarrow> string \<Rightarrow> string list" where
  "errorTraceback ename evalue = [evalue, ename @ '';'']"

text \<open>The run of a cell's command: the chunks taken meanwhile, and the last.\<close>

definition run_cell :: "'w stata_api \<Rightarrow> bool \<Rightarrow> string \<Rightarrow> 'w StataInterpreter \<Rightarrow> (pipe \<times> int) \<times> 'w StataInterpreter" where
  "run_cell A asTyped command s =
     (let ((polls, rc), w) = so_run A command (so_clear A (st_world s));
          p = fold (\<lambda>(chunk, quiet). publish_chunk asTyped chunk False quiet) polls new_pipe;
          (rest, w) = so_output A w;
          p = publish_chunk asTyped rest True False p
      in ((p, rc), s\<lparr>st_world := w, st_commands := st_commands s @ [command]\<rparr>))"

definition show_cell_output :: "bool \<Rightarrow> pipe \<Rightarrow> string \<Rightarrow> 'w StataInterpreter \<Rightarrow> 'w StataInterpreter" where
  "show_cell_output silent p printed s =
     (let p = show_text (fst (TailHold_finish printed (p_hold p))) p
      in if silent then s else say (map S_Stream (p_shown p)) s)"

definition after_cell :: "'w stata_api \<Rightarrow> string \<Rightarrow> bool \<Rightarrow> 'w StataInterpreter \<Rightarrow> exn option \<times> 'w StataInterpreter" where
  "after_cell A code silent s =
     (let s = (if changes_commands code then s\<lparr>st_adoCommandsRead := False\<rparr> else s);
          s = (if silent then s else run_silent A ''quietly _gr_list off'' (publishGraphs A s))
      in if \<not> silent \<and> may_browse code then askToViewData A s else (None, s))"

definition executeRequestImpl ::
  "'w stata_api \<Rightarrow> string \<Rightarrow> string \<Rightarrow> bool \<Rightarrow> json \<Rightarrow> 'w StataInterpreter \<Rightarrow> exn option \<times> 'w StataInterpreter" where
  "executeRequestImpl A sink code silent expressions s =
     (if trim code = [] then
        let (js, s) = evaluateUserExpressions A sink expressions s in (None, say [S_Reply (createSuccessfulReply (JArray []) js)] s)
      else
        let (doFile, s) = tempFile A ''.do'' s; (ok, s) = write_file A doFile (code @ [CHR 0x0A]) s
        in if \<not> ok then
             let message = ''could not write the cell to '' @ doFile
             in (None, say [S_Error ''CallistoInternalError'' message [],
                            S_Reply (createErrorReply ''CallistoInternalError'' message (JArray []))] s)
           else
             let s = (if silent then s else run_silent A ''quietly _gr_list on'' s);
                 asTyped = isSingleCommand code;
                 ((p, rc), s) = run_cell A asTyped (if asTyped then trim code else ''include '' @ quoted doFile) s;
                 (ename, evalue, printed) = cell_error (p_tail p) rc;
                 s = show_cell_output silent p printed s;
                 s = s\<lparr>st_world := fs_remove A doFile (st_world s)\<rparr>;
                 (e, s) = after_cell A code silent s
             in case e of
                  Some e \<Rightarrow> (Some e, s)
                | None \<Rightarrow>
                    if rc \<noteq> 0 then
                      (None, say [S_Error ename evalue (errorTraceback ename evalue),
                                  S_Reply (createErrorReply ename evalue (JArray (map JString (errorTraceback ename evalue))))] s)
                    else let (js, s) = evaluateUserExpressions A sink expressions s
                         in (None, say [S_Reply (createSuccessfulReply (JArray []) js)] s))"

section \<open>Names and other requests\<close>

definition builtinCommands :: "string list" where
  "builtinCommands = [''about'', ''adopath'', ''anova'', ''append'', ''args'', ''assert'', ''break'', ''by'', ''bysort'', ''capture'',
     ''cd'', ''char'', ''checksum'', ''clear'', ''cls'', ''collapse'', ''compress'', ''confirm'', ''constraint'', ''continue'', ''copy'',
     ''correlate'', ''count'', ''creturn'', ''datasignature'', ''describe'', ''dir'', ''discard'', ''display'', ''do'', ''doedit'',
     ''drop'', ''edit'', ''egen'', ''else'', ''encode'', ''decode'', ''en'' @ ''d'', ''erase'', ''error'', ''estimates'', ''ereturn'',
     ''exit'', ''expand'', ''export'', ''file'', ''foreach'', ''format'', ''forvalues'', ''frame'', ''frames'', ''generate'', ''global'',
     ''graph'', ''gsort'', ''help'', ''if'', ''import'', ''include'', ''infile'', ''in'' @ ''fix'', ''input'', ''insheet'', ''keep'',
     ''label'', ''list'', ''local'', ''log'', ''logistic'', ''logit'', ''macro'', ''mark'', ''markout'', ''marksample'', ''mata'',
     ''matrix'', ''memory'', ''merge'', ''mkdir'', ''more'', ''net'', ''noisily'', ''notes'', ''numlist'', ''order'', ''outfile'',
     ''outsheet'', ''plugin'', ''postfile'', ''post'', ''postclose'', ''predict'', ''preserve'', ''probit'', ''program'', ''python'',
     ''query'', ''quietly'', ''recast'', ''regress'', ''rename'', ''replace'', ''reshape'', ''restore'', ''return'', ''rmdir'', ''run'',
     ''save'', ''scalar'', ''set'', ''shell'', ''sleep'', ''sort'', ''ssc'', ''summarize'', ''syntax'', ''sysuse'', ''tabulate'',
     ''tempfile'', ''tempname'', ''tempvar'', ''timer'', ''tokenize'', ''translate'', ''tsset'', ''type'', ''update'', ''use'',
     ''version'', ''webuse'', ''which'', ''while'', ''xtset'']"

text \<open>The ado-files of the directories, each once, without the internals of other commands.\<close>

definition ado_names :: "string list \<Rightarrow> string list" where
  "ado_names stems = rev (remdups (rev (filter (\<lambda>n. n \<noteq> [] \<and> hd n \<noteq> CHR ''_'') stems)))"

text \<open>A part of another command: a name that goes on with an underscore after one that was seen.\<close>

definition is_part :: "string set \<Rightarrow> string \<Rightarrow> bool" where
  "is_part seen name \<longleftrightarrow> list_ex (\<lambda>i. name ! i = CHR ''_'' \<and> take i name \<in> seen) [0..<length name]"

definition ado_commands :: "string list \<Rightarrow> string list" where
  "ado_commands stems =
     (let names = ado_names stems in filter (\<lambda>n. \<not> is_part (set names \<union> set builtinCommands) n) names)"

definition program_name :: "string \<Rightarrow> string" where
  "program_name line = (case find_last_of {CHR '' ''} line of None \<Rightarrow> line | Some k \<Rightarrow> drop (k + 1) line)"

definition defined_programs :: "string \<Rightarrow> string list" where
  "defined_programs output =
     filter (\<lambda>n. n \<noteq> [] \<and> \<not> isdigit (hd n) \<and> hd n \<noteq> CHR ''_'') (map program_name (printedLines output))"

definition read_ado :: "'w stata_api \<Rightarrow> 'w StataInterpreter \<Rightarrow> 'w StataInterpreter" where
  "read_ado A s =
     (if st_adoCommandsRead s then s
      else
        let s = s\<lparr>st_adoCommandsRead := True, st_adoCommands := []\<rparr>;
            (dirs, s) = mataNames A ''adopath'' s
        in s\<lparr>st_adoCommands := ado_commands (concat (map (\<lambda>d. fs_ado A d (st_world s)) dirs))\<rparr>)"

definition commandNames :: "'w stata_api \<Rightarrow> 'w StataInterpreter \<Rightarrow> string list \<times> 'w StataInterpreter" where
  "commandNames A s =
     (let s = read_ado A s;
          ((output, rc), s) = runCaptured A ''program dir'' s
      in (sorted_list_of_set (set (builtinCommands @ st_adoCommands s @ defined_programs output)), s))"

definition names_for ::
  "'w stata_api \<Rightarrow> CompletionToken \<Rightarrow> 'w StataInterpreter \<Rightarrow> string list option \<times> 'w StataInterpreter" where
  "names_for A token s =
     (case t_kind token of
        Variable \<Rightarrow>
          let (names, s) = mataNames A ''variables'' s; (scalars, s) = mataNames A ''scalars'' s in (Some (names @ scalars), s)
      | Global \<Rightarrow> apfst Some (mataNames A ''globals'' s)
      | Local \<Rightarrow> apfst Some (mataNames A ''locals'' s)
      | Result \<Rightarrow> apfst Some (mataNames A ([t_resultClass token] @ ''()'') s)
      | Command \<Rightarrow> apfst Some (commandNames A s)
      | NoCompletion \<Rightarrow> (None, s))"

definition completeRequestImpl :: "'w stata_api \<Rightarrow> string \<Rightarrow> int \<Rightarrow> 'w StataInterpreter \<Rightarrow> json \<times> 'w StataInterpreter" where
  "completeRequestImpl A code cursor_pos s =
     (let token = completionToken code cursor_pos; (names, s) = names_for A token s
      in (case names of
            None \<Rightarrow> createCompleteReply (JArray []) cursor_pos cursor_pos (JObject [])
          | Some names \<Rightarrow>
              createCompleteReply (JArray (map JString (matchingNames names (t_prefix token)))) (int (t_start token)) cursor_pos (JObject []), s))"

definition inspect_found :: "string \<Rightarrow> json" where
  "inspect_found t = createInspectReply True (jobj [(''text/plain'', JString (trim t))]) (JObject [])"

definition not_found :: json where
  "not_found = createInspectReply False (JObject []) (JObject [])"

text \<open>Whether the name before the cursor follows a dollar sign.\<close>

definition after_dollar :: "string \<Rightarrow> int \<Rightarrow> bool" where
  "after_dollar code cursor_pos =
     (let before = take (clamp_cursor cursor_pos code) code;
          before = rev (dropWhile (\<lambda>c. isalnum c \<or> c = CHR ''_'') (rev before))
      in before \<noteq> [] \<and> last before = CHR ''$'')"

definition inspectRequestImpl :: "'w stata_api \<Rightarrow> string \<Rightarrow> int \<Rightarrow> 'w StataInterpreter \<Rightarrow> json \<times> 'w StataInterpreter" where
  "inspectRequestImpl A code cursor_pos s =
     (let token = tokenAt code cursor_pos
      in if token = [] then (not_found, s)
         else if after_dollar code cursor_pos then
           let ((listed, rc), s) = runCaptured A (''macro list '' @ token) s in (if rc = 0 then inspect_found listed else not_found, s)
         else
           let ((output, rc), s) = runCaptured A (''confirm variable '' @ token @ '', exact'') s
           in if rc = 0 then
                let s = run_silent A ''capture _return hold __callisto_r'' s;
                    ((described, rc), s) = runCaptured A (''describe '' @ token) s;
                    ((summarized, rc), s) = runCaptured A (''summarize '' @ token) s;
                    s = run_silent A ''capture _return restore __callisto_r'' s
                in (inspect_found (described @ summarized), s)
              else
                let ((output, rc), s) = runCaptured A (''confirm scalar '' @ token) s
                in if rc = 0 then let ((listed, rc), s) = runCaptured A (''scalar list '' @ token) s in (inspect_found listed, s)
                   else let ((which, rc), s) = runCaptured A (''which '' @ token) s
                        in (if rc = 0 then inspect_found which else not_found, s))"

definition isCompleteRequestImpl :: "string \<Rightarrow> json" where
  "isCompleteRequestImpl code = createIsCompleteReply (isComplete code) []"

definition answersWhileBusyImpl :: "string \<Rightarrow> bool" where
  "answersWhileBusyImpl msg_type \<longleftrightarrow> msg_type = ''is_complete_request''"

definition shutdownStata :: "'w stata_api \<Rightarrow> 'w StataInterpreter \<Rightarrow> 'w StataInterpreter" where
  "shutdownStata A s = (if st_shutdown s then s else s\<lparr>st_shutdown := True, st_world := so_shutdown A (st_world s)\<rparr>)"

definition shutdownRequestImpl :: "'w stata_api \<Rightarrow> bool \<Rightarrow> 'w StataInterpreter \<Rightarrow> json \<times> 'w StataInterpreter" where
  "shutdownRequestImpl A restart s = (createShutdownReply restart, shutdownStata A s)"

definition interruptRequestImpl :: "'w stata_api \<Rightarrow> 'w StataInterpreter \<Rightarrow> json \<times> 'w StataInterpreter" where
  "interruptRequestImpl A s =
     (createInterruptReply, if st_executing s then s\<lparr>st_world := so_break A (st_world s)\<rparr> else s)"

section \<open>What a cell prints is shown\<close>

lemma keep_tail_append: "keep_tail (keep_tail a @ b) = keep_tail (a @ b)"
  by (auto simp: keep_tail_def add.commute)

lemma show_text_shown [simp]: "concat (p_shown (show_text t p)) = concat (p_shown p) @ t"
  "p_hold (show_text t p) = p_hold p" "p_echo (show_text t p) = p_echo p" "p_decoder (show_text t p) = p_decoder p"
  "p_tail (show_text t p) = p_tail p"
  by (simp_all add: show_text_def)

text \<open>The text that has left the filter: shown, or held.\<close>

definition through :: "pipe \<Rightarrow> string" where
  "through p = concat (p_shown p) @ p_hold p"

lemma publish_filter_fields:
  "publish_filter asTyped t final p = (shown, p') \<Longrightarrow> p_decoder p' = p_decoder p \<and> p_tail p' = p_tail p \<and> p_hold p' = p_hold p
     \<and> p_shown p' = p_shown p"
  by (auto simp: publish_filter_def Let_def split: prod.splits if_splits)

lemma publish_chunk_spec:
  fixes quiet
  assumes "publish_decode chunk final p = (t, p1)" "publish_filter asTyped t final p1 = (shown, p2)"
  defines "q \<equiv> publish_chunk asTyped chunk final quiet p"
  shows "through q = through p @ shown" "p_decoder q = p_decoder p1" "p_echo q = p_echo p2" "p_tail q = keep_tail (p_tail p @ t)"
proof -
  obtain a h where h: "TailHold_push shown (p_hold p) = (a, h)" by fastforce
  note spec = TailHold_push_spec [OF h]
  let ?p = "p1\<lparr>p_tail := keep_tail (p_tail p1 @ t)\<rparr>"
  have d: "p_tail p1 = p_tail p" "p_hold p1 = p_hold p" "p_shown p1 = p_shown p" "p_echo p1 = p_echo p"
    using assms(1) by (auto simp: publish_decode_def Let_def split: prod.splits if_splits)
  obtain p3 where f: "publish_filter asTyped t final ?p = (shown, p3)" "p_echo p3 = p_echo p2"
    using assms(2) by (auto simp: publish_filter_def Let_def split: prod.splits if_splits)
  note pf = publish_filter_fields [OF f(1)]
  have q: "q = (let p = show_text a (p3\<lparr>p_hold := h\<rparr>) in
      if \<not> final \<and> quiet then show_text (p_hold p) (p\<lparr>p_hold := []\<rparr>) else p)"
    using assms(1) f(1) h pf d by (simp add: q_def publish_chunk_def Let_def TailHold_release_def)
  show "through q = through p @ shown" "p_decoder q = p_decoder p1" "p_echo q = p_echo p2" "p_tail q = keep_tail (p_tail p @ t)"
    using spec pf d f(2) by (simp_all add: q through_def Let_def)
qed

text \<open>What has come through after some chunks: their decoded text, or that text through the echo filter, in the
  pieces the decoder gave.\<close>

definition passed :: "bool \<Rightarrow> byte list \<Rightarrow> pipe \<Rightarrow> bool" where
  "passed asTyped bytes p \<longleftrightarrow>
     p_decoder p = snd (decode bytes) \<and> p_tail p = keep_tail (text_of (fst (decode bytes)))
     \<and> (\<exists>pieces. concat pieces = text_of (fst (decode bytes))
         \<and> (if asTyped then through p = concat pieces
            else (through p, p_echo p) = fold (\<lambda>t (out, f). apfst ((@) out) (EchoFilter_push t f)) pieces ([], new_EchoFilter)))"

lemma passed_new: "passed asTyped [] new_pipe"
  by (auto simp: passed_def new_pipe_def through_def keep_tail_def text_of_def intro: exI [of _ "[]"])

lemma decode_next: "decode (bytes @ chunk) = (fst (decode bytes) @ fst (decode (snd (decode bytes) @ chunk)), snd (decode (snd (decode bytes) @ chunk)))"
  using decode_split [of bytes chunk] by (simp add: apfst_def map_prod_def split_beta)

lemma passed_chunk:
  assumes "passed asTyped bytes p"
  shows "passed asTyped (bytes @ chunk) (publish_chunk asTyped chunk False quiet p)"
proof -
  let ?q = "publish_chunk asTyped chunk False quiet p"
  obtain a d where a: "decode (snd (decode bytes) @ chunk) = (a, d)" by fastforce
  let ?p1 = "p\<lparr>p_decoder := d\<rparr>"
  have dec: "publish_decode chunk False p = (text_of a, ?p1)"
    using assms a by (simp add: publish_decode_def Utf8Decoder_push_def passed_def)
  obtain shown p2 where f: "publish_filter asTyped (text_of a) False ?p1 = (shown, p2)" by fastforce
  note spec = publish_chunk_spec [OF dec f, of quiet]
  obtain pieces where pieces: "concat pieces = text_of (fst (decode bytes))"
    "if asTyped then through p = concat pieces
     else (through p, p_echo p) = fold (\<lambda>t (out, f). apfst ((@) out) (EchoFilter_push t f)) pieces ([], new_EchoFilter)"
    using assms by (auto simp: passed_def)
  have "if asTyped then through ?q = concat (pieces @ [text_of a])
     else (through ?q, p_echo ?q) = fold (\<lambda>t (out, f). apfst ((@) out) (EchoFilter_push t f)) (pieces @ [text_of a]) ([], new_EchoFilter)"
    using pieces f spec(1,3) by (auto simp: publish_filter_def Let_def apfst_def map_prod_def split: if_splits prod.splits)
  moreover have "concat (pieces @ [text_of a]) = text_of (fst (decode (bytes @ chunk)))" using pieces(1) a by (simp add: decode_next [of bytes chunk])
  moreover have "p_decoder ?q = snd (decode (bytes @ chunk))" "p_tail ?q = keep_tail (text_of (fst (decode (bytes @ chunk))))"
    using spec(2,4) a assms by (simp_all add: decode_next [of bytes chunk] passed_def keep_tail_append)
  ultimately show ?thesis unfolding passed_def by blast
qed

lemma passed_chunks:
  "passed asTyped bytes p \<Longrightarrow>
     passed asTyped (bytes @ concat (map fst polls)) (fold (\<lambda>(chunk, quiet). publish_chunk asTyped chunk False quiet) polls p)"
proof (induction polls arbitrary: bytes p)
  case (Cons c polls)
  obtain chunk quiet where c: "c = (chunk, quiet)" by fastforce
  show ?case using Cons.IH [OF passed_chunk [OF Cons.prems, of chunk quiet]] by (simp add: c)
qed simp

text \<open>After the last chunk all of the output is through.\<close>

lemma passed_last:
  fixes chunk quiet
  assumes "passed asTyped bytes p"
  defines "q \<equiv> publish_chunk asTyped chunk True quiet p" and "t \<equiv> text_of (decode_all (bytes @ chunk))"
  shows "p_tail q = keep_tail t \<and> (asTyped \<longrightarrow> through q = t) \<and> (\<not> asTyped \<longrightarrow> (\<exists>pieces. concat pieces = t \<and> through q = run_filter pieces))"
proof -
  obtain a d where a: "decode (snd (decode bytes) @ chunk) = (a, d)" by fastforce
  let ?b = "concat (map appendLatin1 d)" and ?p1 = "p\<lparr>p_decoder := []\<rparr>"
  have dec: "publish_decode chunk True p = (text_of (a @ ?b), ?p1)"
    using assms(1) a by (simp add: publish_decode_def Utf8Decoder_push_def Utf8Decoder_finish_def passed_def)
  have t: "t = text_of (fst (decode bytes)) @ text_of (a @ ?b)" using a by (simp add: t_def decode_all_def decode_next [of bytes chunk])
  obtain shown p2 where f: "publish_filter asTyped (text_of (a @ ?b)) True ?p1 = (shown, p2)" by fastforce
  note spec = publish_chunk_spec [OF dec f, of quiet, folded q_def]
  obtain pieces where pieces: "concat pieces = text_of (fst (decode bytes))"
    "if asTyped then through p = concat pieces
     else (through p, p_echo p) = fold (\<lambda>t (out, f). apfst ((@) out) (EchoFilter_push t f)) pieces ([], new_EchoFilter)"
    using assms(1) by (auto simp: passed_def)
  have "asTyped \<Longrightarrow> through q = t" using pieces f spec(1) by (simp add: t publish_filter_def)
  moreover have "through q = run_filter (pieces @ [text_of (a @ ?b)])" if "\<not> asTyped"
  proof -
    have "fold (\<lambda>t (out, f). apfst ((@) out) (EchoFilter_push t f)) pieces ([], new_EchoFilter) = (through p, p_echo p)"
      using pieces(2) that by simp
    then show ?thesis
      using that f spec(1) by (auto simp: run_filter_def publish_filter_def Let_def split: prod.splits)
  qed
  moreover have "concat (pieces @ [text_of (a @ ?b)]) = t" using pieces(1) by (simp add: t)
  moreover have "p_tail q = keep_tail t" using spec(4) assms(1) by (simp add: t passed_def keep_tail_append)
  ultimately show ?thesis by blast
qed

lemma run_cell_output:
  assumes "so_run A command (so_clear A (st_world s)) = ((polls, rc), w)" "so_output A w = (rest, w')"
  defines "t \<equiv> text_of (decode_all (concat (map fst polls) @ rest))"
  assumes "asTyped \<or> tidy t"
  obtains p where "run_cell A asTyped command s = ((p, rc), s\<lparr>st_world := w', st_commands := st_commands s @ [command]\<rparr>)"
    "p_tail p = keep_tail t" "through p = (if asTyped then t else filtered t)"
proof -
  let ?p = "fold (\<lambda>(chunk, quiet). publish_chunk asTyped chunk False quiet) polls new_pipe"
  let ?q = "publish_chunk asTyped rest True False ?p"
  have run: "run_cell A asTyped command s = ((?q, rc), s\<lparr>st_world := w', st_commands := st_commands s @ [command]\<rparr>)"
    using assms(1,2) by (simp add: run_cell_def)
  have "passed asTyped (concat (map fst polls)) ?p" using passed_chunks [OF passed_new, of asTyped polls] by simp
  note last = passed_last [OF this, of rest False, folded t_def]
  then have "through ?q = (if asTyped then t else filtered t)"
    using assms(4) run_filter_filtered by (cases asTyped) auto
  with last run show thesis using that by blast
qed

text \<open>Commands that are not cells print nothing to the client; after a cell, only graphs and a notice are sent.\<close>

definition says :: "'w StataInterpreter \<Rightarrow> 'w StataInterpreter \<Rightarrow> bool" where
  "says s s' \<longleftrightarrow> (\<exists>xs. st_out s' = st_out s @ xs \<and> list_all (\<lambda>x. case x of S_Display _ \<Rightarrow> True | S_Stream _ \<Rightarrow> True | _ \<Rightarrow> False) xs)"

named_theorems quiet_simps

lemma runCaptured_quiet [quiet_simps]: "st_out (snd (runCaptured A command s)) = st_out s"
  by (simp add: runCaptured_def Let_def split_beta)

lemma tempFile_quiet [quiet_simps]: "st_out (snd (tempFile A x s)) = st_out s"
  by (simp add: tempFile_def Let_def split_beta)

lemma write_file_quiet [quiet_simps]: "st_out (snd (write_file A x c s)) = st_out s"
  by (simp add: write_file_def Let_def split_beta)

lemma write_files_quiet [quiet_simps]: "st_out (fold (\<lambda>(name, program) s. snd (write_file A (g name) program s)) fs s) = st_out s"
  by (induction fs arbitrary: s) (simp_all add: quiet_simps split_beta)

lemma installMataLibrary_quiet [quiet_simps]: "st_out (snd (installMataLibrary A s)) = st_out s"
  by (simp add: installMataLibrary_def Let_def split_beta quiet_simps)

lemma mataJson_quiet [quiet_simps]: "st_out (snd (mataJson A call s)) = st_out s"
  by (simp add: mataJson_def Let_def split_beta quiet_simps)

lemma mataNames_quiet [quiet_simps]: "st_out (snd (mataNames A kind s)) = st_out s"
  by (simp add: mataNames_def Let_def split_beta quiet_simps)

lemma pluginRows_quiet [quiet_simps]: "st_out (snd (pluginRows A sink names first final s)) = st_out s"
  by (simp add: pluginRows_def Let_def split_beta quiet_simps)

lemma confirm_each_quiet [quiet_simps]: "st_out (snd (confirm_each A names s)) = st_out s"
  by (induction names arbitrary: s) (simp_all add: Let_def split_beta quiet_simps)

lemma confirm_names_quiet [quiet_simps]: "st_out (snd (confirm_names A names s)) = st_out s"
  by (simp add: confirm_names_def Let_def split_beta quiet_simps)

lemma read_rows_quiet [quiet_simps]: "st_out (snd (read_rows A sink names named formatted start final s)) = st_out s"
  by (simp add: read_rows_def Let_def split_beta quiet_simps split: option.split)

lemma readData_quiet [quiet_simps]: "st_out (snd (readData A sink request s)) = st_out s"
  by (simp add: readData_def Let_def split_beta quiet_simps split: sum.split)

lemma user_expression_quiet [quiet_simps]: "st_out (snd (user_expression A sink key v s)) = st_out s"
  by (simp add: user_expression_def own_expression_def display_expression_def describeDataset_def Let_def split_beta quiet_simps)

lemma user_expressions_quiet [quiet_simps]: "st_out (snd (user_expressions A sink es s)) = st_out s"
  by (induction es arbitrary: s) (auto simp: Let_def split_beta quiet_simps)

lemma evaluateUserExpressions_quiet [quiet_simps]: "st_out (snd (evaluateUserExpressions A sink e s)) = st_out s"
  by (cases e) (simp_all add: evaluateUserExpressions_def quiet_simps)

lemma says_refl: "st_out s' = st_out s \<Longrightarrow> says s s'"
  by (simp add: says_def)

lemma says_trans: "says s t \<Longrightarrow> says t u \<Longrightarrow> says s u"
  by (fastforce simp: says_def)

lemma says_say: "says s t \<Longrightarrow> says s (say [S_Display j] t)" "says s t \<Longrightarrow> says s (say [S_Stream y] t)"
  by (auto simp: says_def say_def)

lemma says_out: "says s t \<Longrightarrow> st_out u = st_out t \<Longrightarrow> says s u"
  by (simp add: says_def)

lemma publish_graph_says: "says s (publish_graph A name s)"
  unfolding publish_graph_def Let_def split_beta by (simp add: says_say says_refl quiet_simps)

lemma publish_graphs_says: "says s (fold (publish_graph A) names s)"
proof (induction names arbitrary: s)
  case (Cons n names)
  show ?case using says_trans [OF publish_graph_says Cons.IH] by simp
qed (simp add: says_refl)

lemma publishGraphs_says: "says s (publishGraphs A s)"
  unfolding publishGraphs_def Let_def split_beta
  by (rule says_trans [OF says_refl publish_graphs_says]) (simp add: quiet_simps)

lemma askToViewData_says: "says s (snd (askToViewData A s))"
  unfolding askToViewData_def Let_def split_beta
  by (simp add: says_say says_refl quiet_simps split: option.split sum.split bool.split)

lemma after_cell_says: "says s (snd (after_cell A code silent s))"
proof -
  define t where "t = (if changes_commands code then s\<lparr>st_adoCommandsRead := False\<rparr> else s)"
  define u where "u = (if silent then t else run_silent A ''quietly _gr_list off'' (publishGraphs A t))"
  have "says s t" by (simp add: t_def says_refl)
  moreover have "says t u" by (simp add: u_def says_refl says_out [OF publishGraphs_says runCaptured_quiet])
  ultimately have u: "says s u" by (rule says_trans)
  have "after_cell A code silent s = (if \<not> silent \<and> may_browse code then askToViewData A u else (None, u))"
    by (simp add: after_cell_def Let_def t_def u_def)
  then show ?thesis using u says_trans [OF u askToViewData_says] by simp
qed

lemma cell_output_shown:
  assumes "through p = full"
  obtains shown where "st_out (show_cell_output False p printed s) = st_out s @ map S_Stream shown"
    "concat shown = full \<or> (\<exists>blanks. printed \<noteq> [] \<and> full = concat shown @ printed @ blanks \<and> list_all isspace blanks)"
proof -
  let ?q = "show_text (fst (TailHold_finish printed (p_hold p))) p"
  have "concat (p_shown ?q) = full \<or> (\<exists>blanks. printed \<noteq> [] \<and> full = concat (p_shown ?q) @ printed @ blanks \<and> list_all isspace blanks)"
    using TailHold_finish_spec [of printed "p_hold p"] assms by (auto simp: through_def removes_error_def)
  moreover have "st_out (show_cell_output False p printed s) = st_out s @ map S_Stream (p_shown ?q)"
    by (simp add: show_cell_output_def say_def)
  ultimately show thesis using that by blast
qed


text \<open>Only the question about the data viewer can throw.\<close>

lemma execute_returns: "\<not> may_browse code \<Longrightarrow> fst (executeRequestImpl A sink code silent expressions s) = None"
  unfolding executeRequestImpl_def after_cell_def Let_def split_beta by (simp add: split_beta)

definition demo_stata :: "unit stata_api" where
  "demo_stata = \<lparr>so_execute = (\<lambda>c w. (1, ())), so_run = (\<lambda>c w. (([(map (\<lambda>c. word_of_nat (of_char c)) (''no such'' @ [CHR 0x0A]), False)], 111), ())),
     so_plugin = (\<lambda>c w. (([], 1), ())), so_output = (\<lambda>w. (map (\<lambda>c. word_of_nat (of_char c)) (''r(111);'' @ [CHR 0x0A]), ())),
     so_clear = id, so_break = id, so_shutdown = id, fs_temp = (\<lambda>x w. (''/t'' @ x, ())), fs_write = (\<lambda>p c w. (True, ())), fs_read = (\<lambda>p w. []),
     fs_remove = (\<lambda>p w. ()), fs_ado = (\<lambda>d w. []), api_parse = (\<lambda>t. JDiscarded), api_dump = (\<lambda>j. Inr []), api_what = (\<lambda>e. []),
     api_ask = (\<lambda>j w. (Inr [], ())), api_base64 = (\<lambda>b. []), api_mata = ([], [])\<rparr>"

definition demo_interpreter :: "unit StataInterpreter" where
  "demo_interpreter = \<lparr>st_edition = [], st_version = [], st_executing = False, st_shutdown = False, st_adoCommands = [],
     st_adoCommandsRead = False, st_libraryDir = [], st_pluginPath = [], st_world = (), st_commands = [], st_out = []\<rparr>"

lemma demo_cell_facts:
  "isSingleCommand ''foo''" "trim ''foo'' = ''foo''"
  "text_of (decode_all (map (\<lambda>c. word_of_nat (of_char c)) (''no such'' @ [CHR 0x0A] @ ''r(111);'' @ [CHR 0x0A])))
     = ''no such'' @ [CHR 0x0A] @ ''r(111);'' @ [CHR 0x0A]"
  "cell_error (keep_tail (''no such'' @ [CHR 0x0A] @ ''r(111);'' @ [CHR 0x0A])) 111 = (''r(111)'', ''no such'', ''no such'' @ [CHR 0x0A] @ ''r(111);'')"
  "\<not> may_browse ''foo''"
  by code_simp+


section \<open>Requests for data\<close>

text \<open>A request with anything but plain names is refused before any command is run.\<close>

lemma requested_names_plain: "requested_names A js = Inr names \<Longrightarrow> js = map JString names \<and> list_all isName names"
proof (induction js arbitrary: names)
  case (Cons j js)
  then show ?case by (cases j) (auto simp: rbind_eq_Inr_iff split: if_splits)
qed simp

lemma refused_data_request_runs_nothing:
  assumes "json_lookup request ''variables'' = Some (JArray js)" "\<nexists>names. js = map JString names \<and> list_all isName names"
  shows "\<exists>e. readData A sink request s = (Inl e, s)"
proof -
  have "is_object request" using assms(1) by (cases request) simp_all
  moreover have "\<nexists>names. named_variables A request = Inr names"
    using assms requested_names_plain by (auto simp: named_variables_def)
  then obtain e where "named_variables A request = Inl e" by (cases "named_variables A request") auto
  ultimately show ?thesis by (simp add: readData_def)
qed

text \<open>The observations read are observations of the dataset, and no more than a page.\<close>

lemma row_range_bounds:
  assumes "row_range params observations = Inr (start, final)"
  shows "1 \<le> start" "final \<le> observations" "final - start < kMaxRows"
proof -
  obtain a b where r: "start = max 1 a" "final = min observations (start + max 0 (min kMaxRows b) - 1)"
    using assms by (auto simp: row_range_def rbind_eq_Inr_iff Let_def split: if_splits)
  then show "1 \<le> start" "final \<le> observations" by simp_all
  have "final \<le> start + max 0 (min kMaxRows b) - 1" "max 0 (min kMaxRows b) \<le> kMaxRows" by (simp_all add: r(2) kMaxRows_def)
  then show "final - start < kMaxRows" by linarith
qed

text \<open>A start near the end of the 64-bit range has no defined range.\<close>

lemma row_range_overflow: "row_range (JObject [(''start'', JInt (2 ^ 63 - 1))]) 10 = Inl (Undefined ''signed overflow'')"
  by (simp add: row_range_def Let_def kMaxRows_def)

end
