(* ===== verification/R_Debugger.thy ===== *)
theory R_Debugger
  imports Json
begin

text \<open>
  The R kernel's debugger (\<^verbatim>\<open>native/src/elara/r/debugger_r.cpp\<close>): the Jupyter debug protocol on R's
  own \<open>browser()\<close>.

  Two threads meet here. The control thread answers requests; what needs R it hands to R's thread as
  a job with a promise, and waits. R's thread, when R stops in its browser, runs \<open>stopped\<close>: it tells
  the client, runs the jobs, and leaves with the command the client chose. Each critical section and
  each stretch of work between two of them is a step, so that an interleaving is a list of steps; where
  R's thread is in \<open>stopped\<close> is part of the state. What R and the kernel's R code (hera) answer is an
  argument of the steps that ask, over a type of R objects that stays abstract; files are those of
  the temporary directory.

  Shown: every request that waits for R is answered once, and none is left waiting when R runs
  again; the client is told of each stop and each continuation in turn; a command of the client
  takes R out of the browser; the breakpoints are those set last.
\<close>

unbundle bit_operations_syntax

section \<open>Names of cells\<close>

text \<open>\<open>murmur2\<close>: the words of four bytes, then the rest.\<close>

definition murmur_m :: "32 word" where
  "murmur_m = 0x5bd1e995"

definition byte_at :: "string \<Rightarrow> nat \<Rightarrow> 32 word" where
  "byte_at p i = of_nat (of_char (p ! i))"

definition murmur_word :: "string \<Rightarrow> 32 word" where
  "murmur_word p = byte_at p 0 OR push_bit 8 (byte_at p 1) OR push_bit 16 (byte_at p 2) OR push_bit 24 (byte_at p 3)"

definition murmur_mix :: "32 word \<Rightarrow> 32 word \<Rightarrow> 32 word" where
  "murmur_mix h k =
     (let k = k * murmur_m; k = k XOR drop_bit 24 k; k = k * murmur_m
      in (h * murmur_m) XOR k)"

text \<open>The \<open>switch\<close> with its fall-throughs.\<close>

definition murmur_rest :: "string \<Rightarrow> 32 word \<Rightarrow> 32 word" where
  "murmur_rest p h =
     (let h = (if length p \<ge> 3 then h XOR push_bit 16 (byte_at p 2) else h);
          h = (if length p \<ge> 2 then h XOR push_bit 8 (byte_at p 1) else h)
      in if length p \<ge> 1 then (h XOR byte_at p 0) * murmur_m else h)"

function murmur_loop :: "string \<Rightarrow> 32 word \<Rightarrow> 32 word" where
  "murmur_loop p h =
     (if length p \<ge> 4 then murmur_loop (drop 4 p) (murmur_mix h (murmur_word p)) else murmur_rest p h)"
  by pat_completeness auto
termination
  by (relation "measure (\<lambda>(p, h). length p)") auto

declare murmur_loop.simps [simp del]

definition murmur2 :: "string \<Rightarrow> 32 word \<Rightarrow> 32 word" where
  "murmur2 data seed =
     (let h = murmur_loop data (seed XOR of_nat (length data));
          h = h XOR drop_bit 13 h;
          h = h * murmur_m
      in h XOR drop_bit 15 h)"

section \<open>State\<close>

text \<open>What is done on R's thread for a request.\<close>

datatype work = Stack_Trace json | Variables json | Evaluate json | Inspect_Variables json

text \<open>Where R's thread is: running R (or the kernel's loop), or in \<open>stopped\<close>: before its wait, with a job
  it has taken, after a wait that gave it nothing, or leaving with a command. \<open>Escaped\<close>: an exception
  has left \<open>stopped\<close> through R.\<close>

datatype at_r = Running | Looking | Working work nat | Checking | Leaving string | Escaped exn

record 'r RDebugger =
  d_started :: bool
  d_seq :: nat
  d_hashSeed :: "32 word"
  d_tmpPrefix :: string
  d_breakpoints :: "(string \<times> int list) list"
  d_breakpointsChanged :: bool
  d_stopped :: bool
  d_resume :: string
  d_lastResume :: string
  d_pauseRequested :: bool
  d_pausing :: bool
  d_calledFrom :: bool
  d_browsed :: bool
  d_locationPath :: string
  d_locationLine :: int
  d_jobs :: "(work \<times> nat) list"
  d_references :: "(int \<times> 'r) list"
  d_nextReference :: int
  d_frames :: "json list"
  d_at :: at_r
  d_events :: "json list"
  d_files :: "(string \<times> string) list"
  d_asked :: nat
  d_waiting :: "(nat \<times> json) list"
  d_answered :: "(nat \<times> json result) list"
  d_applied :: "(string \<times> int list) list list"
  d_interrupts :: nat
  d_commands :: "string option list"

text \<open>The last fields are what is outside: the events published, the files, the requests that asked R (how
  many, which still wait, with what each was answered), the breakpoints handed to R, the interrupts asked
  of R, and what \<open>stopped\<close> gave R's console (\<open>None\<close>: nothing, the end of input).\<close>

definition new_RDebugger :: "string \<Rightarrow> 'r RDebugger" where
  "new_RDebugger prefix = \<lparr>d_started = False, d_seq = 0, d_hashSeed = 3339675911, d_tmpPrefix = prefix, d_breakpoints = [],
     d_breakpointsChanged = False, d_stopped = False, d_resume = [], d_lastResume = ''c'', d_pauseRequested = False,
     d_pausing = False, d_calledFrom = False, d_browsed = False, d_locationPath = [], d_locationLine = 0, d_jobs = [],
     d_references = [], d_nextReference = 1, d_frames = [], d_at = Running, d_events = [], d_files = [], d_asked = 0,
     d_waiting = [], d_answered = [], d_applied = [], d_interrupts = 0, d_commands = []\<rparr>"

text \<open>What hera's functions answer: the frames of the stack with their environments (\<open>None\<close>: no list), the
  rows of an object with the children that can be opened, a value with its child; and the global
  environment and the printer.\<close>

record 'r hera =
  h_stack :: "string \<Rightarrow> int \<Rightarrow> json \<times> 'r list option"
  h_variables :: "'r \<Rightarrow> json \<times> 'r option list"
  h_evaluate :: "string \<Rightarrow> 'r \<Rightarrow> json \<times> 'r option"
  h_global :: 'r
  h_dump :: "json \<Rightarrow> string result"

definition cellPath :: "string \<Rightarrow> 'r RDebugger \<Rightarrow> string" where
  "cellPath code d = d_tmpPrefix d @ show_nat (unat (murmur2 code (d_hashSeed d))) @ ''.r''"

definition breakpointLines :: "string \<Rightarrow> 'r RDebugger \<Rightarrow> int list" where
  "breakpointLines path d = (case map_of (d_breakpoints d) path of None \<Rightarrow> [] | Some lines \<Rightarrow> lines)"

definition response :: "json \<Rightarrow> bool \<Rightarrow> json \<Rightarrow> string \<Rightarrow> json result" where
  "response request success body message =
     rbind (value_int request ''seq'' 0) (\<lambda>seq.
     rbind (value_string request ''command'' []) (\<lambda>command.
       let out = [(''type'', JString ''response''), (''seq'', JInt 0), (''request_seq'', JInt seq), (''success'', JBool success),
                  (''command'', JString command), (''body'', body)]
       in Inr (jobj (if message \<noteq> [] then out @ [(''message'', JString message)] else out))))"

abbreviation ok_response :: "json \<Rightarrow> json \<Rightarrow> json result" where
  "ok_response request body \<equiv> response request True body []"

abbreviation failure :: "json \<Rightarrow> string \<Rightarrow> json result" where
  "failure request message \<equiv> response request False (JObject []) message"

definition publish_event :: "string \<Rightarrow> json \<Rightarrow> 'r RDebugger \<Rightarrow> 'r RDebugger" where
  "publish_event name body d =
     d\<lparr>d_seq := d_seq d + 1,
       d_events := d_events d @ [jobj [(''type'', JString ''event''), (''seq'', JInt (int (d_seq d) + 1)), (''event'', JString name),
                                       (''body'', body)]]\<rparr>"

section \<open>What needs R\<close>

definition reference :: "'r \<Rightarrow> 'r RDebugger \<Rightarrow> int \<times> 'r RDebugger" where
  "reference object d =
     (d_nextReference d, d\<lparr>d_nextReference := d_nextReference d + 1, d_references := (d_nextReference d, object) # d_references d\<rparr>)"

definition referenced :: "'r hera \<Rightarrow> int \<Rightarrow> 'r RDebugger \<Rightarrow> 'r option" where
  "referenced E ident d = (if ident = 0x7fffffff then Some (h_global E) else map_of (d_references d) ident)"

definition clearReferences :: "'r RDebugger \<Rightarrow> 'r RDebugger" where
  "clearReferences d = d\<lparr>d_references := [], d_frames := []\<rparr>"

definition refer_child :: "'r option \<Rightarrow> 'r RDebugger \<Rightarrow> int \<times> 'r RDebugger" where
  "refer_child child d = (case child of None \<Rightarrow> (0, d) | Some object \<Rightarrow> reference object d)"

definition path_filename :: "string \<Rightarrow> string" where
  "path_filename path = (case find_last_of {CHR ''/''} path of None \<Rightarrow> path | Some k \<Rightarrow> drop (k + 1) path)"

definition stack_frame :: "int \<Rightarrow> json \<Rightarrow> json result" where
  "stack_frame ident f =
     rbind (value_string f ''name'' []) (\<lambda>name.
     rbind (value_int f ''line'' 0) (\<lambda>line.
     rbind (value_int f ''column'' 1) (\<lambda>column.
     rbind (value_string f ''path'' []) (\<lambda>path.
       let frame = [(''id'', JInt ident), (''name'', JString name), (''line'', JInt line), (''column'', JInt column)]
       in Inr (jobj (if path \<noteq> []
            then frame @ [(''source'', jobj [(''path'', JString path), (''name'', JString (path_filename path))])] else frame))))))"

fun stack_frames :: "json list \<Rightarrow> 'r list \<Rightarrow> 'r RDebugger \<Rightarrow> json list result \<times> 'r RDebugger" where
  "stack_frames (f # fs) (env # envs) d =
     (let (ident, d) = reference env d
      in case stack_frame ident f of
           Inl e \<Rightarrow> (Inl e, d)
         | Inr frame \<Rightarrow> apfst (\<lambda>r. rbind r (\<lambda>frames. Inr (frame # frames))) (stack_frames fs envs d))"
| "stack_frames _ _ d = (Inr [], d)"

fun json_array :: "json \<Rightarrow> json list option" where
  "json_array (JArray xs) = Some xs"
| "json_array _ = None"

definition frames_body :: "json list \<Rightarrow> json" where
  "frames_body frames = jobj [(''stackFrames'', JArray frames), (''totalFrames'', JInt (int (length frames)))]"

definition stackTrace :: "'r hera \<Rightarrow> json \<Rightarrow> 'r RDebugger \<Rightarrow> json result \<times> 'r RDebugger" where
  "stackTrace E req d =
     (if d_frames d \<noteq> [] then (ok_response req (frames_body (d_frames d)), d)
      else
        let (described, envs) = h_stack E (d_locationPath d) (d_locationLine d);
            (out, d) = (case (json_array described, envs) of
                          (Some fs, Some envs) \<Rightarrow> stack_frames fs envs d
                        | _ \<Rightarrow> (Inr [], d))
        in case out of
             Inl e \<Rightarrow> (Inl e, d)
           | Inr frames \<Rightarrow> (ok_response req (frames_body frames), d\<lparr>d_frames := frames\<rparr>))"

fun variableRows :: "json list \<Rightarrow> 'r option list \<Rightarrow> 'r RDebugger \<Rightarrow> json list result \<times> 'r RDebugger" where
  "variableRows [] children d = (Inr [], d)"
| "variableRows (row # rows) children d =
     (case rbind (value_string row ''name'' []) (\<lambda>name. rbind (value_string row ''value'' []) (\<lambda>val.
           rbind (value_string row ''type'' []) (\<lambda>ty. Inr (name, val, ty)))) of
        Inl e \<Rightarrow> (Inl e, d)
      | Inr (name, val, ty) \<Rightarrow>
          let (ident, d) = refer_child (case children of [] \<Rightarrow> None | child # _ \<Rightarrow> child) d
          in apfst (\<lambda>r. rbind r (\<lambda>out. Inr (jobj [(''name'', JString name), (''value'', JString val), (''type'', JString ty),
                 (''variablesReference'', JInt ident)] # out)))
               (variableRows rows (tl children) d))"

definition describe :: "'r hera \<Rightarrow> 'r \<Rightarrow> json \<Rightarrow> 'r RDebugger \<Rightarrow> json result \<times> 'r RDebugger" where
  "describe E object req d =
     (let (rows, children) = h_variables E object;
          (out, d) = (case json_array rows of None \<Rightarrow> (Inr [], d) | Some rows \<Rightarrow> variableRows rows children d)
      in (rbind out (\<lambda>rows. ok_response req (jobj [(''variables'', JArray rows)])), d))"

definition variables :: "'r hera \<Rightarrow> json \<Rightarrow> 'r RDebugger \<Rightarrow> json result \<times> 'r RDebugger" where
  "variables E req d =
     (case rbind (value_json req ''arguments'' (JObject [])) (\<lambda>args. value_int args ''variablesReference'' 0) of
        Inl e \<Rightarrow> (Inl e, d)
      | Inr ident \<Rightarrow>
          (case referenced E ident d of
             None \<Rightarrow> (failure req ''no such variables reference'', d)
           | Some object \<Rightarrow> describe E object req d))"

definition inspectVariables :: "'r hera \<Rightarrow> json \<Rightarrow> 'r RDebugger \<Rightarrow> json result \<times> 'r RDebugger" where
  "inspectVariables E req d = describe E (h_global E) req d"

definition evaluate :: "'r hera \<Rightarrow> json \<Rightarrow> 'r RDebugger \<Rightarrow> json result \<times> 'r RDebugger" where
  "evaluate E req d =
     (case rbind (value_json req ''arguments'' (JObject [])) (\<lambda>args.
           rbind (value_int args ''frameId'' 0) (\<lambda>frame.
           rbind (value_string args ''expression'' []) (\<lambda>expression. Inr (frame, expression)))) of
        Inl e \<Rightarrow> (Inl e, d)
      | Inr (frame, expression) \<Rightarrow>
          let env = (case (if frame \<noteq> 0 then referenced E frame d else None) of None \<Rightarrow> h_global E | Some env \<Rightarrow> env);
              (described, child) = h_evaluate E expression env
          in case (case described of JString s \<Rightarrow> Inr s | _ \<Rightarrow> h_dump E described) of
               Inl e \<Rightarrow> (Inl e, d)
             | Inr shown \<Rightarrow>
                 let (ident, d) = refer_child child d
                 in (ok_response req (jobj [(''result'', JString shown), (''variablesReference'', JInt ident)]), d))"

fun run_work :: "'r hera \<Rightarrow> work \<Rightarrow> 'r RDebugger \<Rightarrow> json result \<times> 'r RDebugger" where
  "run_work E (Stack_Trace req) d = stackTrace E req d"
| "run_work E (Variables req) d = variables E req d"
| "run_work E (Evaluate req) d = evaluate E req d"
| "run_work E (Inspect_Variables req) d = inspectVariables E req d"

definition applyBreakpoints :: "'r RDebugger \<Rightarrow> 'r RDebugger" where
  "applyBreakpoints d =
     (if \<not> d_breakpointsChanged d \<and> d_breakpoints d = [] then d
      else d\<lparr>d_breakpointsChanged := False, d_applied := d_applied d @ [d_breakpoints d]\<rparr>)"

section \<open>Requests\<close>

text \<open>An answer at once, or one that waits for R's thread.\<close>

datatype answer = Now json | Later nat

definition at_once :: "json result \<Rightarrow> answer result" where
  "at_once r = rbind r (\<lambda>j. Inr (Now j))"

text \<open>\<open>onRThread\<close> up to its wait.\<close>

definition onRThread :: "bool \<Rightarrow> 'r hera \<Rightarrow> work \<Rightarrow> json \<Rightarrow> 'r RDebugger \<Rightarrow> answer result \<times> 'r RDebugger" where
  "onRThread on_r E w req d =
     (if on_r then apfst at_once (run_work E w d)
      else if \<not> d_stopped d then (at_once (failure req ''R is running: only answered when it is stopped''), d)
      else (Inr (Later (d_asked d)),
            d\<lparr>d_jobs := d_jobs d @ [(w, d_asked d)], d_waiting := d_waiting d @ [(d_asked d, req)], d_asked := d_asked d + 1\<rparr>))"

definition initialize_body :: json where
  "initialize_body = jobj [(''supportsConfigurationDoneRequest'', JBool True), (''supportsEvaluateForHovers'', JBool True),
     (''supportsConditionalBreakpoints'', JBool False), (''supportsStepBack'', JBool False), (''supportsSetVariable'', JBool False),
     (''supportsTerminateRequest'', JBool False), (''exceptionBreakpointFilters'', JArray [])]"

definition request_attach :: "json \<Rightarrow> 'r RDebugger \<Rightarrow> answer result \<times> 'r RDebugger" where
  "request_attach req d =
     (let d = d\<lparr>d_started := True\<rparr>
      in case ok_response req (JObject []) of
           Inl e \<Rightarrow> (Inl e, d)
         | Inr reply \<Rightarrow> (Inr (Now reply), publish_event ''initialized'' (JObject []) d))"

definition request_disconnect :: "bool \<Rightarrow> json \<Rightarrow> 'r RDebugger \<Rightarrow> answer result \<times> 'r RDebugger" where
  "request_disconnect on_r req d =
     (let d = d\<lparr>d_started := False, d_breakpoints := [], d_breakpointsChanged := True\<rparr>;
          d = (if d_stopped d then d\<lparr>d_resume := ''c''\<rparr> else d);
          d = (if on_r then applyBreakpoints d else d)
      in (at_once (ok_response req (JObject [])), d))"

definition breakpoints_json :: "(string \<times> int list) list \<Rightarrow> json" where
  "breakpoints_json bs = JArray (map (\<lambda>(path, lines). jobj [(''source'', JString path),
     (''breakpoints'', JArray (map (\<lambda>line. jobj [(''line'', JInt line)]) lines))]) bs)"

definition debugInfo_body :: "'r RDebugger \<Rightarrow> json" where
  "debugInfo_body d = jobj [(''isStarted'', JBool (d_started d)), (''hashMethod'', JString ''Murmur2''),
     (''hashSeed'', JInt (uint (d_hashSeed d))), (''tmpFilePrefix'', JString (d_tmpPrefix d)), (''tmpFileSuffix'', JString ''.r''),
     (''breakpoints'', breakpoints_json (d_breakpoints d)), (''stoppedThreads'', JArray (if d_stopped d then [JInt 1] else [])),
     (''richRendering'', JBool False), (''exceptionPaths'', JArray [])]"

text \<open>The file is written, unless it cannot be opened.\<close>

definition request_dumpCell :: "(string \<Rightarrow> bool) \<Rightarrow> json \<Rightarrow> json \<Rightarrow> 'r RDebugger \<Rightarrow> answer result \<times> 'r RDebugger" where
  "request_dumpCell opens req args d =
     (case value_string args ''code'' [] of
        Inl e \<Rightarrow> (Inl e, d)
      | Inr code \<Rightarrow>
          let path = cellPath code d;
              d = (if opens path then d\<lparr>d_files := obj_put path code (d_files d)\<rparr> else d)
          in (at_once (ok_response req (jobj [(''sourcePath'', JString path)])), d))"

definition source_path :: "json \<Rightarrow> string result" where
  "source_path args = rbind (value_json args ''source'' (JObject [])) (\<lambda>source. value_string source ''path'' [])"

text \<open>The elements a range-based \<open>for\<close> visits: a value that is no container is visited itself.\<close>

fun json_items :: "json \<Rightarrow> json list" where
  "json_items (JArray xs) = xs"
| "json_items (JObject es) = map snd es"
| "json_items JNull = []"
| "json_items j = [j]"

fun breakpoint_items :: "json list \<Rightarrow> int list result" where
  "breakpoint_items [] = Inr []"
| "breakpoint_items (b # bs) =
     rbind (value_int b ''line'' 0) (\<lambda>line. rbind (breakpoint_items bs) (\<lambda>lines. Inr (line # lines)))"

definition verified_json :: "string \<Rightarrow> int list \<Rightarrow> json" where
  "verified_json path lines = JArray (map (\<lambda>line. jobj [(''verified'', JBool True), (''line'', JInt line),
     (''source'', jobj [(''path'', JString path)])]) lines)"

definition set_lines :: "string \<Rightarrow> int list \<Rightarrow> (string \<times> int list) list \<Rightarrow> (string \<times> int list) list" where
  "set_lines path lines bs = (if lines = [] then filter (\<lambda>b. fst b \<noteq> path) bs else obj_put path lines bs)"

definition request_setBreakpoints :: "bool \<Rightarrow> json \<Rightarrow> json \<Rightarrow> 'r RDebugger \<Rightarrow> answer result \<times> 'r RDebugger" where
  "request_setBreakpoints on_r req args d =
     (case rbind (source_path args) (\<lambda>path. rbind (value_json args ''breakpoints'' (JArray [])) (\<lambda>bs.
           rbind (breakpoint_items (json_items bs)) (\<lambda>lines. Inr (path, lines)))) of
        Inl e \<Rightarrow> (Inl e, d)
      | Inr (path, lines) \<Rightarrow>
          let d = d\<lparr>d_breakpoints := set_lines path lines (d_breakpoints d), d_breakpointsChanged := True\<rparr>;
              d = (if on_r then applyBreakpoints d else d)
          in (at_once (ok_response req (jobj [(''breakpoints'', verified_json path lines)])), d))"

definition resume_input :: "string \<Rightarrow> string" where
  "resume_input command =
     (if command = ''continue'' then ''c'' else if command = ''next'' then ''n'' else if command = ''stepIn'' then ''s'' else ''f'')"

definition request_resume :: "json \<Rightarrow> string \<Rightarrow> 'r RDebugger \<Rightarrow> answer result \<times> 'r RDebugger" where
  "request_resume req command d =
     (if \<not> d_stopped d then (at_once (failure req ''not stopped''), d)
      else (at_once (ok_response req (if command = ''continue'' then jobj [(''allThreadsContinued'', JBool True)] else JObject [])),
            d\<lparr>d_resume := resume_input command\<rparr>))"

definition request_pause :: "json \<Rightarrow> 'r RDebugger \<Rightarrow> answer result \<times> 'r RDebugger" where
  "request_pause req d =
     (if d_stopped d then (at_once (ok_response req (JObject [])), d)
      else (at_once (ok_response req (JObject [])), d\<lparr>d_pauseRequested := True, d_interrupts := d_interrupts d + 1\<rparr>))"

definition request_scopes :: "json \<Rightarrow> json \<Rightarrow> json result" where
  "request_scopes req args =
     rbind (value_int args ''frameId'' 0) (\<lambda>frame.
       ok_response req (jobj [(''scopes'', JArray [
         jobj [(''name'', JString ''Locals''), (''variablesReference'', JInt frame), (''expensive'', JBool False)],
         jobj [(''name'', JString ''Globals''), (''variablesReference'', JInt 0x7fffffff), (''expensive'', JBool False)]])]))"

definition request_source :: "json \<Rightarrow> json \<Rightarrow> 'r RDebugger \<Rightarrow> json result" where
  "request_source req args d =
     rbind (source_path args) (\<lambda>path.
       case map_of (d_files d) path of
         None \<Rightarrow> failure req (''no such source: '' @ path)
       | Some content \<Rightarrow> ok_response req (jobj [(''content'', JString content)]))"

definition threads_body :: json where
  "threads_body = jobj [(''threads'', JArray [jobj [(''id'', JInt 1), (''name'', JString ''R'')]])]"

definition command_request ::
  "bool \<Rightarrow> (string \<Rightarrow> bool) \<Rightarrow> 'r hera \<Rightarrow> json \<Rightarrow> string \<Rightarrow> json \<Rightarrow> 'r RDebugger \<Rightarrow> answer result \<times> 'r RDebugger" where
  "command_request on_r opens E req command args d =
     (if command = ''initialize'' then (at_once (ok_response req initialize_body), d)
      else if command = ''attach'' \<or> command = ''launch'' then request_attach req d
      else if command = ''disconnect'' \<or> command = ''terminate'' then request_disconnect on_r req d
      else if command = ''configurationDone'' then (at_once (ok_response req (JObject [])), d)
      else if command = ''debugInfo'' then (at_once (ok_response req (debugInfo_body d)), d)
      else if command = ''dumpCell'' then request_dumpCell opens req args d
      else if command = ''setBreakpoints'' then request_setBreakpoints on_r req args d
      else if command = ''threads'' then (at_once (ok_response req threads_body), d)
      else if command \<in> {''continue'', ''next'', ''stepIn'', ''stepOut''} then request_resume req command d
      else if command = ''pause'' then request_pause req d
      else if command = ''stackTrace'' then onRThread on_r E (Stack_Trace req) req d
      else if command = ''scopes'' then (at_once (request_scopes req args), d)
      else if command = ''variables'' then onRThread on_r E (Variables req) req d
      else if command = ''evaluate'' then onRThread on_r E (Evaluate req) req d
      else if command = ''inspectVariables'' then onRThread on_r E (Inspect_Variables req) req d
      else if command = ''source'' then (at_once (request_source req args d), d)
      else (at_once (failure req (''not supported: '' @ command)), d))"

definition request :: "bool \<Rightarrow> (string \<Rightarrow> bool) \<Rightarrow> 'r hera \<Rightarrow> json \<Rightarrow> 'r RDebugger \<Rightarrow> answer result \<times> 'r RDebugger" where
  "request on_r opens E req d =
     (case rbind (value_string req ''command'' []) (\<lambda>command. rbind (value_json req ''arguments'' (JObject [])) (\<lambda>args.
           Inr (command, args))) of
        Inl e \<Rightarrow> (Inl e, d)
      | Inr (command, args) \<Rightarrow> command_request on_r opens E req command args d)"

section \<open>R's thread in the browser\<close>

definition takePauseRequest :: "'r RDebugger \<Rightarrow> bool \<times> 'r RDebugger" where
  "takePauseRequest d =
     (d_pauseRequested d, d\<lparr>d_pauseRequested := False, d_pausing := d_pausing d \<or> d_pauseRequested d\<rparr>)"

definition takeBrowsed :: "'r RDebugger \<Rightarrow> bool \<times> 'r RDebugger" where
  "takeBrowsed d = (d_browsed d, d\<lparr>d_browsed := False\<rparr>)"

text \<open>\<open>std::atoi\<close>: blanks, a sign, digits; a number that is no \<open>int\<close> has no defined value.\<close>

definition atoi :: "string \<Rightarrow> int result" where
  "atoi s =
     (let s = dropWhile isspace s;
          neg = (s \<noteq> [] \<and> s ! 0 = CHR ''-'');
          s = (if s \<noteq> [] \<and> (s ! 0 = CHR ''-'' \<or> s ! 0 = CHR ''+'') then tl s else s);
          v = int (read_lsb (rev (takeWhile isdigit s)));
          v = (if neg then - v else v)
      in if - (2 ^ 31) \<le> v \<and> v < 2 ^ 31 then Inr v else Inl (Undefined ''atoi out of range''))"

definition is_location :: "string \<Rightarrow> nat \<Rightarrow> bool" where
  "is_location line hash \<longleftrightarrow> hash > 0 \<and> hash + 1 < length line \<and> CHR '' '' \<notin> set line \<and> list_all isdigit (drop (hash + 1) line)"

definition trace_location :: "string \<Rightarrow> nat \<Rightarrow> 'r RDebugger \<Rightarrow> 'r RDebugger result" where
  "trace_location line hash d =
     (let file = take hash line
      in rbind (atoi (drop (hash + 1) line)) (\<lambda>n.
           Inr (d\<lparr>d_locationPath := (if CHR ''/'' \<notin> set file \<and> CHR 0x5C \<notin> set file then d_tmpPrefix d @ file else file),
                  d_locationLine := n\<rparr>)))"

definition debug_location :: "string \<Rightarrow> 'r RDebugger \<Rightarrow> 'r RDebugger result" where
  "debug_location line d =
     (case find_char_from (CHR ''#'') line 9 of
        None \<Rightarrow> Inr d
      | Some hash \<Rightarrow>
          (case find_char_from (CHR '':'') line hash of
             None \<Rightarrow> Inr d
           | Some colon \<Rightarrow>
               rbind (atoi (substr line (hash + 1) (colon - hash - 1))) (\<lambda>n.
                 Inr (d\<lparr>d_locationPath := substr line 9 (hash - 9), d_locationLine := n\<rparr>))))"

definition names_location :: "string \<Rightarrow> bool" where
  "names_location line \<longleftrightarrow> (case find_last_of {CHR ''#''} line of None \<Rightarrow> False | Some hash \<Rightarrow> is_location line hash)"

definition consoleLine :: "string \<Rightarrow> 'r RDebugger \<Rightarrow> (bool \<times> 'r RDebugger) result" where
  "consoleLine line d =
     (if names_location line then rbind (trace_location line (the (find_last_of {CHR ''#''} line)) d) (\<lambda>d. Inr (True, d))
      else if starts_with line ''Called from: '' then Inr (True, d\<lparr>d_calledFrom := True\<rparr>)
      else if starts_with line ''debug at '' then rbind (debug_location line d) (\<lambda>d. Inr (True, d))
      else Inr (starts_with line ''debug: '' \<or> starts_with line ''Browse['', d))"

definition answer_console :: "string \<Rightarrow> nat \<Rightarrow> 'r RDebugger \<Rightarrow> 'r RDebugger" where
  "answer_console command len d =
     (let line = command @ [CHR 0x0A]
      in d\<lparr>d_commands := d_commands d @ [if length line + 1 > len then None else Some line]\<rparr>)"

text \<open>The beginning of \<open>stopped\<close>, up to its loop.\<close>

definition enter_stopped :: "nat \<Rightarrow> 'r RDebugger \<Rightarrow> 'r RDebugger" where
  "enter_stopped len d =
     (let d = d\<lparr>d_browsed := True\<rparr>
      in if d_calledFrom d \<and> \<not> d_pausing d then answer_console ''n'' len (d\<lparr>d_calledFrom := False, d_lastResume := ''c''\<rparr>)
         else
           let reason = (if d_pausing d then ''pause'' else if d_lastResume d = ''c'' then ''breakpoint'' else ''step'');
               d = d\<lparr>d_calledFrom := False, d_stopped := True, d_resume := [], d_pausing := False, d_at := Looking\<rparr>
           in publish_event ''stopped''
                (jobj [(''reason'', JString reason), (''threadId'', JInt 1), (''allThreadsStopped'', JBool True)]) d)"

text \<open>The critical section at the head of the loop.\<close>

definition look :: "'r RDebugger \<Rightarrow> 'r RDebugger" where
  "look d =
     (case d_jobs d of
        (w, n) # jobs \<Rightarrow> d\<lparr>d_jobs := jobs, d_at := Working w n\<rparr>
      | [] \<Rightarrow> if d_resume d \<noteq> [] then d\<lparr>d_resume := [], d_stopped := False, d_at := Leaving (d_resume d)\<rparr>
              else d\<lparr>d_at := Checking\<rparr>)"

text \<open>The value of a promise reaches its asker, if that has not given up.\<close>

definition set_promise :: "nat \<Rightarrow> json result \<Rightarrow> 'r RDebugger \<Rightarrow> 'r RDebugger" where
  "set_promise n j d =
     (if n \<in> fst ` set (d_waiting d)
      then d\<lparr>d_waiting := filter (\<lambda>e. fst e \<noteq> n) (d_waiting d), d_answered := d_answered d @ [(n, j)]\<rparr> else d)"

definition do_work :: "'r hera \<Rightarrow> work \<Rightarrow> nat \<Rightarrow> 'r RDebugger \<Rightarrow> 'r RDebugger" where
  "do_work E w n d =
     (let (r, d) = run_work E w d
      in case r of Inl e \<Rightarrow> d\<lparr>d_at := Escaped e\<rparr> | Inr j \<Rightarrow> set_promise n (Inr j) (d\<lparr>d_at := Looking\<rparr>))"

definition check_interrupt :: "bool \<Rightarrow> 'r RDebugger \<Rightarrow> 'r RDebugger" where
  "check_interrupt interrupted d =
     (if interrupted then d\<lparr>d_stopped := False, d_at := Leaving ''Q''\<rparr>
      else if \<not> d_started d then d\<lparr>d_stopped := False, d_at := Leaving ''c''\<rparr>
      else d\<lparr>d_at := Looking\<rparr>)"

definition running_answer :: json where
  "running_answer = jobj [(''type'', JString ''response''), (''success'', JBool False), (''message'', JString ''R is running'')]"

definition leave_stopped :: "string \<Rightarrow> nat \<Rightarrow> 'r RDebugger \<Rightarrow> 'r RDebugger" where
  "leave_stopped resume len d =
     (let d = fold (\<lambda>(w, n). set_promise n (Inr running_answer)) (d_jobs d) d;
          d = clearReferences (d\<lparr>d_jobs := [], d_lastResume := resume, d_at := Running\<rparr>);
          d = publish_event ''continued'' (jobj [(''threadId'', JInt 1), (''allThreadsContinued'', JBool True)]) d
      in answer_console resume len d)"

text \<open>\<open>onRThread\<close> after a minute's wait in vain.\<close>

definition give_up :: "nat \<Rightarrow> 'r RDebugger \<Rightarrow> 'r RDebugger" where
  "give_up n d =
     (case map_of (d_waiting d) n of
        None \<Rightarrow> d
      | Some req \<Rightarrow> set_promise n (failure req ''R did not answer'') (d\<lparr>d_jobs := filter (\<lambda>j. snd j \<noteq> n) (d_jobs d)\<rparr>))"

section \<open>Interleavings\<close>

text \<open>The steps of the control thread (a request, a wait given up) and of R's thread (a request and the
  other calls while R is not in the browser; the browser's turns, with the size of R's console
  buffer).\<close>

datatype 'r debug_event =
    Control_Request "string \<Rightarrow> bool" "'r hera" json
  | Give_Up nat
  | Idle_Request "string \<Rightarrow> bool" "'r hera" json
  | Printed string
  | Pause_Asked
  | Cell_Done
  | Browser nat
  | Look
  | Work "'r hera"
  | Check bool
  | Leave nat

fun debug_step :: "'r debug_event \<Rightarrow> 'r RDebugger \<Rightarrow> 'r RDebugger" where
  "debug_step (Control_Request opens E req) d = snd (request False opens E req d)"
| "debug_step (Give_Up n) d = give_up n d"
| "debug_step (Idle_Request opens E req) d = (if d_at d = Running then snd (request True opens E req d) else d)"
| "debug_step (Printed line) d =
     (if d_at d = Running \<or> (case d_at d of Working _ _ \<Rightarrow> True | _ \<Rightarrow> False)
      then case consoleLine line d of Inl _ \<Rightarrow> d | Inr (_, d') \<Rightarrow> d' else d)"
| "debug_step Pause_Asked d = (if d_at d = Running then snd (takePauseRequest d) else d)"
| "debug_step Cell_Done d = (if d_at d = Running then applyBreakpoints (snd (takeBrowsed d)) else d)"
| "debug_step (Browser len) d = (if d_at d = Running \<and> d_started d then enter_stopped len d else d)"
| "debug_step Look d = (if d_at d = Looking then look d else d)"
| "debug_step (Work E) d = (case d_at d of Working w n \<Rightarrow> do_work E w n d | _ \<Rightarrow> d)"
| "debug_step (Check interrupted) d = (if d_at d = Checking then check_interrupt interrupted d else d)"
| "debug_step (Leave len) d = (case d_at d of Leaving resume \<Rightarrow> leave_stopped resume len d | _ \<Rightarrow> d)"

section \<open>Every request is answered\<close>

text \<open>The part of the state that counts requests, and the stops and continuations the client is told of.\<close>

definition event_name :: "json \<Rightarrow> string" where
  "event_name j = (case json_lookup j ''event'' of Some (JString s) \<Rightarrow> s | _ \<Rightarrow> [])"

definition told :: "'r RDebugger \<Rightarrow> string list" where
  "told d = filter (\<lambda>n. n = ''stopped'' \<or> n = ''continued'') (map event_name (d_events d))"

definition book :: "'r RDebugger \<Rightarrow> (nat \<times> (nat \<times> json) list \<times> (nat \<times> json result) list \<times> (work \<times> nat) list \<times> at_r \<times> bool \<times> string list)" where
  "book d = (d_asked d, d_waiting d, d_answered d, d_jobs d, d_at d, d_stopped d, told d)"

lemma book_fields:
  assumes "book d = book d'"
  shows "d_asked d = d_asked d'" "d_waiting d = d_waiting d'" "d_answered d = d_answered d'" "d_jobs d = d_jobs d'"
    "d_at d = d_at d'" "d_stopped d = d_stopped d'" "told d = told d'"
  using assms by (simp_all add: book_def)

lemma event_name_jobj:
  "event_name (jobj [(''type'', t), (''seq'', q), (''event'', JString name), (''body'', b)]) = name"
  by (simp add: event_name_def json_simps)

lemma told_publish:
  "told (publish_event name body d) = told d @ (if name = ''stopped'' \<or> name = ''continued'' then [name] else [])"
  by (simp add: told_def publish_event_def event_name_jobj)

lemma publish_event_fields [simp]:
  "d_asked (publish_event name body d) = d_asked d" "d_waiting (publish_event name body d) = d_waiting d"
  "d_answered (publish_event name body d) = d_answered d" "d_jobs (publish_event name body d) = d_jobs d"
  "d_at (publish_event name body d) = d_at d" "d_stopped (publish_event name body d) = d_stopped d"
  "d_resume (publish_event name body d) = d_resume d" "d_commands (publish_event name body d) = d_commands d"
  by (simp_all add: publish_event_def)

lemma book_publish [simp]: "name \<noteq> ''stopped'' \<Longrightarrow> name \<noteq> ''continued'' \<Longrightarrow> book (publish_event name body d) = book d"
  by (simp add: book_def told_publish)

lemma told_update [simp]:
  "told (d\<lparr>d_started := a\<rparr>) = told d" "told (d\<lparr>d_breakpoints := bs\<rparr>) = told d" "told (d\<lparr>d_breakpointsChanged := a\<rparr>) = told d"
  "told (d\<lparr>d_stopped := a\<rparr>) = told d" "told (d\<lparr>d_resume := s\<rparr>) = told d" "told (d\<lparr>d_lastResume := s\<rparr>) = told d"
  "told (d\<lparr>d_pauseRequested := a\<rparr>) = told d" "told (d\<lparr>d_pausing := a\<rparr>) = told d" "told (d\<lparr>d_calledFrom := a\<rparr>) = told d"
  "told (d\<lparr>d_browsed := a\<rparr>) = told d" "told (d\<lparr>d_locationPath := s\<rparr>) = told d" "told (d\<lparr>d_locationLine := i\<rparr>) = told d"
  "told (d\<lparr>d_jobs := js\<rparr>) = told d" "told (d\<lparr>d_references := rs\<rparr>) = told d" "told (d\<lparr>d_nextReference := i\<rparr>) = told d"
  "told (d\<lparr>d_frames := fs\<rparr>) = told d" "told (d\<lparr>d_at := l\<rparr>) = told d" "told (d\<lparr>d_files := g\<rparr>) = told d"
  "told (d\<lparr>d_asked := n\<rparr>) = told d" "told (d\<lparr>d_waiting := w\<rparr>) = told d" "told (d\<lparr>d_answered := v\<rparr>) = told d"
  "told (d\<lparr>d_applied := ap\<rparr>) = told d" "told (d\<lparr>d_interrupts := n\<rparr>) = told d" "told (d\<lparr>d_commands := cs\<rparr>) = told d"
  by (simp_all add: told_def)

text \<open>Work on R's thread changes the references and the frames only.\<close>

definition blank :: "'r RDebugger \<Rightarrow> 'r RDebugger" where
  "blank d = d\<lparr>d_references := [], d_nextReference := 0, d_frames := []\<rparr>"

lemma blank_reference [simp]: "blank (snd (reference x d)) = blank d"
  by (simp add: reference_def blank_def)

lemma blank_refer_child [simp]: "blank (snd (refer_child x d)) = blank d"
  by (simp add: refer_child_def split: option.split)

lemma blank_stack_frames [simp]: "blank (snd (stack_frames fs envs d)) = blank d"
proof (induction fs arbitrary: envs d)
  case (Cons f fs)
  show ?case by (cases envs) (simp_all add: Let_def split_beta Cons.IH split: sum.split)
qed simp

lemma blank_variableRows [simp]: "blank (snd (variableRows rows cs d)) = blank d"
  by (induction rows arbitrary: cs d) (simp_all add: Let_def split_beta split: sum.split prod.split)

lemma blank_describe [simp]: "blank (snd (describe E x req d)) = blank d"
  by (simp add: describe_def Let_def split_beta split: option.split)

lemma blank_stackTrace [simp]: "blank (snd (stackTrace E req d)) = blank d"
proof -
  have frames: "blank (x\<lparr>d_frames := fs\<rparr>) = blank x" for x :: "'a RDebugger" and fs by (simp add: blank_def)
  show ?thesis
    by (auto simp: stackTrace_def Let_def split_beta frames split: sum.split option.split
        dest!: arg_cong [where f = snd, of "stack_frames _ _ _"])
qed

lemma blank_run_work: "blank (snd (run_work E w d)) = blank d"
proof (cases w)
  case (Variables req)
  then show ?thesis by (simp add: variables_def split: sum.split option.split)
next
  case (Evaluate req)
  then show ?thesis by (simp add: evaluate_def Let_def split_beta split: sum.split)
qed (simp_all add: inspectVariables_def)

lemma blank_fields: "blank d = blank d' \<Longrightarrow> book d = book d' \<and> d_resume d = d_resume d' \<and> d_commands d = d_commands d'"
proof -
  assume b: "blank d = blank d'"
  have "book (blank x) = book x \<and> d_resume (blank x) = d_resume x \<and> d_commands (blank x) = d_commands x" for x :: "'a RDebugger"
    by (simp add: blank_def book_def)
  then show ?thesis using b by metis
qed

lemma book_run_work [simp]: "book (snd (run_work E w d)) = book d"
  "d_resume (snd (run_work E w d)) = d_resume d"
  using blank_fields [OF blank_run_work [of E w d]] by auto

lemma book_applyBreakpoints [simp]: "book (applyBreakpoints d) = book d"
  by (simp add: applyBreakpoints_def book_def)

text \<open>A request of the control thread asks R, or changes nothing of the book.\<close>

lemma book_request_other:
  "book (snd (request_attach req d)) = book d" "book (snd (request_disconnect on_r req d)) = book d"
  "book (snd (request_dumpCell opens req args d)) = book d" "book (snd (request_setBreakpoints on_r req args d)) = book d"
  "book (snd (request_resume req command d)) = book d" "book (snd (request_pause req d)) = book d"
proof -
  have upd: "book (d\<lparr>d_started := a\<rparr>) = book d" "book (d\<lparr>d_resume := s\<rparr>) = book d" "book (d\<lparr>d_files := g\<rparr>) = book d"
     "book (d\<lparr>d_started := a, d_breakpoints := bs, d_breakpointsChanged := b\<rparr>) = book d"
     "book (d\<lparr>d_started := a, d_breakpoints := bs, d_breakpointsChanged := b, d_resume := s\<rparr>) = book d"
     "book (d\<lparr>d_breakpoints := bs, d_breakpointsChanged := b\<rparr>) = book d"
     "book (d\<lparr>d_pauseRequested := a, d_interrupts := n\<rparr>) = book d"
    for d :: "'a RDebugger" and a b s g bs n by (simp_all add: book_def)
  show "book (snd (request_attach req d)) = book d" by (simp add: request_attach_def Let_def upd split: sum.split)
  show "book (snd (request_disconnect on_r req d)) = book d" by (simp add: request_disconnect_def Let_def upd)
  show "book (snd (request_dumpCell opens req args d)) = book d" by (simp add: request_dumpCell_def Let_def upd split: sum.split)
  show "book (snd (request_setBreakpoints on_r req args d)) = book d"
    by (simp add: request_setBreakpoints_def Let_def upd split: sum.split prod.split)
  show "book (snd (request_resume req command d)) = book d" by (simp add: request_resume_def upd)
  show "book (snd (request_pause req d)) = book d" by (simp add: request_pause_def upd)
qed

lemma book_onRThread_idle [simp]: "book (snd (onRThread True E w req d)) = book d"
  by (simp add: onRThread_def)

definition asks_R :: "json \<Rightarrow> work \<Rightarrow> 'r RDebugger \<Rightarrow> 'r RDebugger \<Rightarrow> bool" where
  "asks_R req w d d' \<longleftrightarrow> d_stopped d \<and> d' = d\<lparr>d_jobs := d_jobs d @ [(w, d_asked d)], d_waiting := d_waiting d @ [(d_asked d, req)],
     d_asked := d_asked d + 1\<rparr>"

definition quiet :: "bool \<Rightarrow> json \<Rightarrow> 'r RDebugger \<Rightarrow> 'a \<times> 'r RDebugger \<Rightarrow> bool" where
  "quiet on_r req d r \<longleftrightarrow> book (snd r) = book d \<or> (\<not> on_r \<and> (\<exists>w. asks_R req w d (snd r)))"

lemma quiet_if: "quiet on_r req d a \<Longrightarrow> quiet on_r req d b \<Longrightarrow> quiet on_r req d (if c then a else b)"
  by simp

lemma quiet_same: "quiet on_r req d (r, d)"
  by (simp add: quiet_def)

lemma quiet_book: "book (snd r) = book d \<Longrightarrow> quiet on_r req d r"
  by (simp add: quiet_def)

lemma quiet_onRThread: "quiet on_r req d (onRThread on_r E w req d)"
  by (cases on_r) (auto simp: quiet_def onRThread_def asks_R_def)

lemma command_request_book: "quiet on_r req d (command_request on_r opens E req command args d)"
  unfolding command_request_def
  by (intro quiet_if quiet_onRThread quiet_same quiet_book book_request_other)

lemma request_book: "quiet on_r req d (request on_r opens E req d)"
  unfolding request_def using command_request_book by (auto simp: quiet_same split: sum.split prod.split)

text \<open>The client is told of a stop, then of the continuation, and so on.\<close>

definition in_browser :: "at_r \<Rightarrow> bool" where
  "in_browser l \<longleftrightarrow> l \<noteq> Running"

definition alternating :: "at_r \<Rightarrow> string list \<Rightarrow> bool" where
  "alternating l names \<longleftrightarrow>
     (\<exists>n. names = concat (replicate n [''stopped'', ''continued'']) @ (if in_browser l then [''stopped''] else []))"

text \<open>The requests R owes an answer to: those queued and the one being worked on. An exception that
  has left the browser owes nothing any more.\<close>

fun owed :: "at_r \<Rightarrow> nat set" where
  "owed (Working w n) = {n}"
| "owed (Escaped e) = UNIV"
| "owed _ = {}"

fun accepts_jobs :: "at_r \<Rightarrow> bool" where
  "accepts_jobs Running = False"
| "accepts_jobs (Leaving _) = False"
| "accepts_jobs _ = True"

definition debug_inv :: "'r RDebugger \<Rightarrow> bool" where
  "debug_inv d \<longleftrightarrow>
     distinct (map fst (d_answered d) @ map fst (d_waiting d))
     \<and> set (map fst (d_answered d) @ map fst (d_waiting d)) = {0..<d_asked d}
     \<and> fst ` set (d_waiting d) \<subseteq> snd ` set (d_jobs d) \<union> owed (d_at d)
     \<and> (d_stopped d \<longleftrightarrow> accepts_jobs (d_at d)) \<and> (d_at d = Running \<longrightarrow> d_jobs d = []) \<and> alternating (d_at d) (told d)"

lemma debug_inv_book: "book d = book d' \<Longrightarrow> debug_inv d \<longleftrightarrow> debug_inv d'"
  using book_fields [of d d'] by (simp add: debug_inv_def)

lemma asks_inv:
  assumes "debug_inv d" "asks_R req w d d'"
  shows "debug_inv d'"
  using assms by (auto simp: debug_inv_def asks_R_def atLeast0_lessThan_Suc)

lemma request_inv: "debug_inv d \<Longrightarrow> debug_inv (snd (request on_r opens E req d))"
  using request_book [of on_r req d opens E] debug_inv_book asks_inv unfolding quiet_def by metis

lemma map_fst_filter: "map fst (filter (\<lambda>e. fst e \<noteq> n) xs) = filter (\<lambda>k. k \<noteq> n) (map fst xs)"
  by (induction xs) auto

definition promise_part :: "'r RDebugger \<Rightarrow> bool" where
  "promise_part d \<longleftrightarrow> distinct (map fst (d_answered d) @ map fst (d_waiting d))
     \<and> set (map fst (d_answered d) @ map fst (d_waiting d)) = {0..<d_asked d}"

lemma set_promise_part:
  assumes "promise_part d"
  shows "promise_part (set_promise n j d)" "fst ` set (d_waiting (set_promise n j d)) = fst ` set (d_waiting d) - {n}"
  using assms by (auto simp: promise_part_def set_promise_def map_fst_filter image_iff)

lemma set_promise_fields [simp]:
  "d_jobs (set_promise n j d) = d_jobs d" "d_at (set_promise n j d) = d_at d" "d_stopped (set_promise n j d) = d_stopped d"
  "told (set_promise n j d) = told d" "d_resume (set_promise n j d) = d_resume d" "d_asked (set_promise n j d) = d_asked d"
  "d_commands (set_promise n j d) = d_commands d" "d_started (set_promise n j d) = d_started d"
  by (simp_all add: set_promise_def)

lemma fold_promises:
  fixes d j jobs
  assumes "promise_part d"
  defines "d' \<equiv> fold (\<lambda>(w, n). set_promise n j) jobs d"
  shows "promise_part d' \<and> fst ` set (d_waiting d') = fst ` set (d_waiting d) - snd ` set jobs
    \<and> d_at d' = d_at d \<and> told d' = told d \<and> d_stopped d' = d_stopped d \<and> d_commands d' = d_commands d \<and> d_started d' = d_started d"
  using assms(1) unfolding d'_def
proof (induction jobs arbitrary: d)
  case (Cons job jobs)
  obtain w n where job: "job = (w, n)" by fastforce
  show ?case using Cons.IH [of "set_promise n j d"] set_promise_part [OF Cons.prems, of n j] job by auto
qed simp


lemma debug_invI:
  assumes "promise_part d" "fst ` set (d_waiting d) \<subseteq> snd ` set (d_jobs d) \<union> owed (d_at d)"
    "d_stopped d \<longleftrightarrow> accepts_jobs (d_at d)" "d_at d = Running \<Longrightarrow> d_jobs d = []" "alternating (d_at d) (told d)"
  shows "debug_inv d"
  using assms by (simp add: debug_inv_def promise_part_def)

lemma debug_invD:
  assumes "debug_inv d"
  shows "promise_part d" "fst ` set (d_waiting d) \<subseteq> snd ` set (d_jobs d) \<union> owed (d_at d)"
    "d_stopped d \<longleftrightarrow> accepts_jobs (d_at d)" "d_at d = Running \<Longrightarrow> d_jobs d = []" "alternating (d_at d) (told d)"
  using assms by (simp_all add: debug_inv_def promise_part_def)

lemma promise_part_update [simp]:
  "promise_part (d\<lparr>d_jobs := js\<rparr>) = promise_part d" "promise_part (d\<lparr>d_at := l\<rparr>) = promise_part d"
  "promise_part (d\<lparr>d_stopped := b\<rparr>) = promise_part d" "promise_part (d\<lparr>d_resume := s\<rparr>) = promise_part d"
  by (simp_all add: promise_part_def)

lemma alternating_browser [simp]: "in_browser l \<Longrightarrow> in_browser l' \<Longrightarrow> alternating l names = alternating l' names"
  by (simp add: alternating_def)

lemma give_up_inv: "debug_inv d \<Longrightarrow> debug_inv (give_up n d)"
proof (cases "map_of (d_waiting d) n")
  case (Some req)
  assume inv: "debug_inv d"
  let ?d = "d\<lparr>d_jobs := filter (\<lambda>j. snd j \<noteq> n) (d_jobs d)\<rparr>"
  have part: "promise_part ?d" using debug_invD(1) [OF inv] by simp
  have "give_up n d = set_promise n (failure req ''R did not answer'') ?d" using Some by (simp add: give_up_def)
  moreover have "fst ` set (d_waiting d) - {n} \<subseteq> snd ` set (filter (\<lambda>j. snd j \<noteq> n) (d_jobs d)) \<union> owed (d_at d)"
    using debug_invD(2) [OF inv] by force
  ultimately show ?thesis
    using set_promise_part [OF part, of n "failure req ''R did not answer''"] debug_invD [OF inv]
    by (intro debug_invI) simp_all
qed (simp add: give_up_def)

lemma enter_inv: "debug_inv d \<Longrightarrow> d_at d = Running \<Longrightarrow> debug_inv (enter_stopped len d)"
proof -
  assume inv: "debug_inv d" and at: "d_at d = Running"
  have c: "book (answer_console c len x) = book x" for c and x :: "'a RDebugger" by (simp add: answer_console_def book_def)
  show ?thesis
  proof (cases "d_calledFrom d \<and> \<not> d_pausing d")
    case True
    then have "book (enter_stopped len d) = book d"
      by (simp add: enter_stopped_def c) (simp add: book_def)
    then show ?thesis using debug_inv_book inv by blast
  next
    case False
    then show ?thesis
      using debug_invD [OF inv] at
      by (auto simp: enter_stopped_def Let_def debug_inv_def told_publish alternating_def in_browser_def promise_part_def)
  qed
qed

lemma look_inv:
  assumes inv: "debug_inv d" and at: "d_at d = Looking"
  shows "debug_inv (look d)"
proof (cases "d_jobs d")
  case Nil
  then show ?thesis
    using debug_invD [OF inv] at by (auto simp: look_def in_browser_def alternating_def intro!: debug_invI)
next
  case (Cons job jobs)
  obtain w n where job: "job = (w, n)" by fastforce
  have look: "look d = d\<lparr>d_jobs := jobs, d_at := Working w n\<rparr>" by (simp add: look_def Cons job)
  show ?thesis
    unfolding look using debug_invD [OF inv] at Cons job
    by (intro debug_invI) (simp_all add: in_browser_def alternating_def)
qed

lemma do_work_inv: 
  assumes inv: "debug_inv d" and at: "d_at d = Working w n"
  shows "debug_inv (do_work E w n d)"
proof -
  obtain r d1 where r: "run_work E w d = (r, d1)" by fastforce
  have "book d1 = book d" using book_run_work [of E w d] r by simp
  then have inv1: "debug_inv d1" and at1: "d_at d1 = Working w n"
    using debug_inv_book inv book_fields(5) at by metis+
  note i = debug_invD [OF inv1]
  show ?thesis
  proof (cases r)
    case (Inl e)
    then show ?thesis using i at1 by (auto simp: do_work_def r in_browser_def alternating_def intro!: debug_invI)
  next
    case (Inr j)
    have "promise_part (d1\<lparr>d_at := Looking\<rparr>)" using i(1) by simp
    from set_promise_part [OF this, of n "Inr j"]
    moreover have "do_work E w n d = set_promise n (Inr j) (d1\<lparr>d_at := Looking\<rparr>)" by (simp add: do_work_def r Inr)
    ultimately show ?thesis
      using i at1 by (intro debug_invI) (simp_all add: in_browser_def alternating_def Diff_subset_conv)
  qed
qed

lemma check_inv:
  assumes inv: "debug_inv d" and at: "d_at d = Checking"
  shows "debug_inv (check_interrupt i d)"
proof -
  have "debug_inv (d\<lparr>d_stopped := False, d_at := Leaving s\<rparr>)" for s
    using debug_invD [OF inv] at by (intro debug_invI) (simp_all add: in_browser_def alternating_def)
  moreover have "debug_inv (d\<lparr>d_at := Looking\<rparr>)"
    using debug_invD [OF inv] at by (intro debug_invI) (simp_all add: in_browser_def alternating_def)
  ultimately show ?thesis by (simp add: check_interrupt_def)
qed

lemma leave_fields:
  "d_commands (leave_stopped resume len d) = d_commands d @ [if length resume + 2 > len then None else Some (resume @ [CHR 0x0A])]"
  "told (leave_stopped resume len d) = told d @ [''continued'']"
  if "promise_part d"
  using fold_promises [OF that, of "Inr running_answer" "d_jobs d"]
  by (simp_all add: leave_stopped_def Let_def answer_console_def clearReferences_def told_publish)

lemma concat_replicate_snoc: "concat (replicate n xs) @ xs = concat (replicate (Suc n) xs)"
  by (induction n) auto

lemma leave_inv:
  assumes inv: "debug_inv d" and at: "d_at d = Leaving resume"
  shows "debug_inv (leave_stopped resume len d)" "d_at (leave_stopped resume len d) = Running"
    "d_waiting (leave_stopped resume len d) = []"
proof -
  let ?d = "fold (\<lambda>(w, n). set_promise n (Inr running_answer)) (d_jobs d) d"
  note i = debug_invD [OF inv]
  note f = fold_promises [OF i(1), of "Inr running_answer" "d_jobs d"]
  have "fst ` set (d_waiting ?d) = {}" using f i(2) at by simp
  then have w: "d_waiting ?d = []" by simp
  obtain n where n: "told d = concat (replicate n [''stopped'', ''continued'']) @ [''stopped'']"
    using i(5) at by (auto simp: alternating_def in_browser_def)
  have "told ?d @ [''continued''] = concat (replicate (Suc n) [''stopped'', ''continued''])"
    using f n concat_replicate_snoc [of n "[''stopped'', ''continued'']"] by simp
  then show "debug_inv (leave_stopped resume len d)"
    using f w i(3) at
    by (auto simp: leave_stopped_def Let_def answer_console_def clearReferences_def told_publish debug_inv_def promise_part_def
        alternating_def in_browser_def intro!: exI [of _ "Suc n"])
  show "d_at (leave_stopped resume len d) = Running" "d_waiting (leave_stopped resume len d) = []"
    using w by (simp_all add: leave_stopped_def Let_def answer_console_def clearReferences_def)
qed

lemma debug_step_inv: "debug_inv d \<Longrightarrow> debug_inv (debug_step e d)"
proof (cases e)
  case (Printed line)
  assume inv: "debug_inv d"
  have "book d' = book d" if "consoleLine line d = Inr (b, d')" for b d'
    using that by (auto simp: consoleLine_def trace_location_def debug_location_def book_def result_simps Let_def
        split: if_splits option.splits)
  then show ?thesis using inv Printed debug_inv_book by (auto split: sum.split prod.split)
next
  case Pause_Asked
  assume inv: "debug_inv d"
  have "book (snd (takePauseRequest d)) = book d" by (simp add: takePauseRequest_def book_def)
  then show ?thesis using inv Pause_Asked debug_inv_book by auto
next
  case Cell_Done
  assume inv: "debug_inv d"
  have "book (applyBreakpoints (snd (takeBrowsed d))) = book d" by (simp add: takeBrowsed_def) (simp add: book_def)
  then have "debug_inv (applyBreakpoints (snd (takeBrowsed d)))" using inv debug_inv_book by metis
  then show ?thesis using inv Cell_Done by simp
qed (auto simp: request_inv give_up_inv enter_inv look_inv do_work_inv check_inv leave_inv split: at_r.split)


lemma new_debugger_inv: "debug_inv (new_RDebugger prefix)"
  by (simp add: new_RDebugger_def debug_inv_def told_def alternating_def in_browser_def)

lemma debug_run_inv: "debug_inv (fold debug_step es (new_RDebugger prefix))"
proof (induction es rule: rev_induct)
  case (snoc e es)
  then show ?case by (simp add: debug_step_inv)
qed (simp add: new_debugger_inv)



definition demo_hera :: "nat hera" where
  "demo_hera = \<lparr>h_stack = (\<lambda>path line. (JArray [jobj [(''name'', JString ''f'')]], Some [7])), h_variables = (\<lambda>x. (JArray [], [])),
     h_evaluate = (\<lambda>s x. (JString s, None)), h_global = 0, h_dump = (\<lambda>j. Inr [])\<rparr>"

definition demo_request :: "string \<Rightarrow> json" where
  "demo_request command = jobj [(''seq'', JInt 1), (''command'', JString command)]"

definition demo_events :: "nat debug_event list" where
  "demo_events = [Control_Request (\<lambda>_. True) demo_hera (demo_request ''attach''), Browser 80,
     Control_Request (\<lambda>_. True) demo_hera (demo_request ''stackTrace'')]"

lemma demo_request_read:
  "request on_r opens E (demo_request command) d = command_request on_r opens E (demo_request command) command (JObject []) d"
  "response (demo_request command) b body [] = Inr (jobj [(''type'', JString ''response''), (''seq'', JInt 0), (''request_seq'', JInt 1),
     (''success'', JBool b), (''command'', JString command), (''body'', body)])"
  by (simp_all add: request_def response_def demo_request_def json_simps int32_def)

lemma demo_run:
  "d_at (fold debug_step demo_events (new_RDebugger p)) = Looking"
  "d_jobs (fold debug_step demo_events (new_RDebugger p)) = [(Stack_Trace (demo_request ''stackTrace''), 0)]"
  "d_asked (fold debug_step demo_events (new_RDebugger p)) = 1"
  by (simp_all add: demo_events_def demo_request_read command_request_def request_attach_def onRThread_def enter_stopped_def
      publish_event_def new_RDebugger_def Let_def)

lemma demo_work: "\<exists>j d'. run_work demo_hera (Stack_Trace (demo_request ''stackTrace'')) x = (Inr j, d')"
  by (auto simp: stackTrace_def demo_request_read demo_hera_def Let_def reference_def stack_frame_def json_simps)


section \<open>The client's commands\<close>

lemma work_turn:
  assumes "d_at d = Looking" "d_jobs d = (w, n) # jobs" "run_work E w (look d) = (Inr j, d')"
  shows "debug_step (Work E) (debug_step Look d) = set_promise n (Inr j) (d'\<lparr>d_at := Looking\<rparr>)"
  using assms by (simp add: look_def do_work_def)

definition turns :: "'r hera \<Rightarrow> nat \<Rightarrow> 'r debug_event list" where
  "turns E n = concat (replicate n [Look, Work E])"

lemma turns_run:
  assumes "debug_inv d" "d_at d = Looking" "d_resume d = r" "length (d_jobs d) = n"
    and "\<forall>job \<in> set (d_jobs d). \<forall>d'. \<exists>j d''. run_work E (fst job) d' = (Inr j, d'')"
  shows "debug_inv (fold debug_step (turns E n) d) \<and> d_at (fold debug_step (turns E n) d) = Looking
    \<and> d_jobs (fold debug_step (turns E n) d) = [] \<and> d_resume (fold debug_step (turns E n) d) = r"
  using assms
proof (induction n arbitrary: d)
  case (Suc n)
  then obtain w k jobs where jobs: "d_jobs d = (w, k) # jobs" by (cases "d_jobs d") auto
  obtain j d' where w: "run_work E w (look d) = (Inr j, d')" using Suc.prems(5) jobs by force
  let ?d = "set_promise k (Inr j) (d'\<lparr>d_at := Looking\<rparr>)"
  have b: "book d' = book (look d)" "d_resume d' = d_resume (look d)" using book_run_work [of E w "look d"] w by simp_all
  have step: "debug_step (Work E) (debug_step Look d) = ?d" using work_turn [OF Suc.prems(2) jobs w] .
  then have "debug_inv ?d" using debug_step_inv Suc.prems(1) by metis
  moreover have "d_jobs ?d = jobs" "d_resume ?d = r" using b jobs Suc.prems(3) by (simp_all add: book_def look_def)
  ultimately have "debug_inv (fold debug_step (turns E n) ?d) \<and> d_at (fold debug_step (turns E n) ?d) = Looking
    \<and> d_jobs (fold debug_step (turns E n) ?d) = [] \<and> d_resume (fold debug_step (turns E n) ?d) = r"
    using Suc.prems(4,5) jobs by (intro Suc.IH) auto
  moreover have "fold debug_step (turns E (Suc n)) d = fold debug_step (turns E n) ?d"
    by (simp only: turns_def replicate.simps concat.simps fold_append fold.simps o_apply id_apply step)
  ultimately show ?case by simp
qed (simp add: turns_def)

lemma leave_turn:
  assumes inv: "debug_inv d" and at: "d_at d = Looking" "d_jobs d = []" and r: "d_resume d = r" "r \<noteq> []" "length r + 2 \<le> len"
  shows "let d' = debug_step (Leave len) (debug_step Look d)
    in d_at d' = Running \<and> d_commands d' = d_commands d @ [Some (r @ [CHR 0x0A])] \<and> d_waiting d' = [] \<and> told d' = told d @ [''continued'']"
proof -
  let ?d = "d\<lparr>d_resume := [], d_stopped := False, d_at := Leaving r\<rparr>"
  have look: "debug_step Look d = ?d" using at r by (simp add: look_def)
  have inv': "debug_inv ?d" using debug_step_inv [OF inv, of Look] look by simp
  have "debug_step (Leave len) (debug_step Look d) = leave_stopped r len ?d" unfolding look by simp
  moreover note leave_inv [OF inv', of r len] leave_fields [OF debug_invD(1) [OF inv'], of r len]
  ultimately show ?thesis using r(3) by (simp add: Let_def)
qed

lemma command_resume:
  "command \<in> {''continue'', ''next'', ''stepIn'', ''stepOut''} \<Longrightarrow>
     command_request on_r opens E req command args d = request_resume req command d"
  by (elim insertE emptyE) (simp_all add: command_request_def)




section \<open>Where R is\<close>

lemma atoi_digits: "n < 2 ^ 31 \<Longrightarrow> atoi (show_nat n) = Inr (int n)"
proof -
  assume n: "n < 2 ^ 31"
  obtain c cs where s: "show_nat n = c # cs" by (cases "show_nat n") auto
  have d: "isdigit c" using show_nat_digits [of c n] s by simp
  then have "\<not> isspace c" "c \<noteq> CHR ''-''" "c \<noteq> CHR ''+''" by (auto simp: isdigit_def isspace_def Let_def)
  moreover have "takeWhile isdigit (show_nat n) = show_nat n" using show_nat_digits by (simp add: takeWhile_eq_all_conv)
  moreover have "read_lsb (rev (show_nat n)) = n" by (simp add: show_nat_def read_digits_lsb)
  ultimately show ?thesis using n unfolding atoi_def s by simp
qed

text \<open>What R's browser prints before a statement tells where R is: the path, whatever is in it but a
  \<open>#\<close>, and the line; the line is not shown. What a trace prints names a file of the cells.\<close>

lemma debug_line_is_read:
  assumes "CHR ''#'' \<notin> set path" "n < 2 ^ 31" "CHR 0x0A \<notin> set expr"
  shows "consoleLine (''debug at '' @ path @ ''#'' @ show_nat n @ '': '' @ expr) d
    = Inr (True, d\<lparr>d_locationPath := path, d_locationLine := int n\<rparr>)"
proof -
  let ?line = "''debug at '' @ path @ ''#'' @ show_nat n @ '': '' @ expr"
  have "CHR '' '' \<in> set ?line" by simp
  then have "\<not> names_location ?line" by (simp add: names_location_def is_location_def split: option.split)
  moreover have "\<not> starts_with ?line ''Called from: ''" "starts_with ?line ''debug at ''" by (simp_all add: starts_with_def)
  moreover have hash: "find_char_from (CHR ''#'') ?line 9 = Some (9 + length path)"
    using assms(1) by (simp add: find_char_from_def find_char_append)
  have digits: "CHR '':'' \<notin> set (show_nat n)" using show_nat_digits [of "CHR '':''" n] by (auto simp: isdigit_def)
  have "drop (9 + length path) ?line = drop (length path) (drop 9 ?line)" by (simp only: drop_drop add.commute)
  then have rest: "drop (9 + length path) ?line = ''#'' @ show_nat n @ '':'' @ '' '' @ expr" by simp
  have "drop (10 + length path) ?line = drop 1 (drop (9 + length path) ?line)" by (simp only: drop_drop) (simp add: add.commute)
  then have num: "take (length (show_nat n)) (drop (10 + length path) ?line) = show_nat n" unfolding rest by simp
  from rest have "find_char_from (CHR '':'') ?line (9 + length path) = Some (9 + length path + (length (show_nat n) + 1))"
    using digits by (simp add: find_char_from_def find_char_append del: drop_append drop_Cons')
  with hash have "debug_location ?line d = Inr (d\<lparr>d_locationPath := path, d_locationLine := int n\<rparr>)"
    using atoi_digits [OF assms(2)] num by (simp add: debug_location_def substr_def)
  ultimately show ?thesis by (simp add: consoleLine_def)
qed

text \<open>A request for variables whose reference is no number, made while R is stopped, throws on R's
  thread, out of the browser.\<close>

lemma mistyped_reference_escapes:
  assumes "d_at d = Working (Variables req) n" "req = jobj [(''arguments'', jobj [(''variablesReference'', JString s)])]"
  shows "d_at (debug_step (Work E) d) = Escaped (TypeError 302)"
  using assms by (simp add: do_work_def variables_def json_simps)

text \<open>Breakpoints are those set last for each file.\<close>

lemma set_lines_map:
  "map_of (set_lines path lines bs) = (map_of bs)(path := (if lines = [] then None else Some lines))"
  by (induction bs) (auto simp: set_lines_def fun_eq_iff map_of_eq_None_iff split: if_splits)

text \<open>The names Jupyter clients compute for two cells.\<close>

lemma murmur2_examples:
  "murmur2 ''print(1)'' 3339675911 = 3773950048"
  "murmur2 (''x <- 1'' @ [CHR 0x0A]) 3339675911 = 258565144"
  by code_simp+

end
