(* ===== verification/R_Console.thy ===== *)
theory R_Console
  imports R_Debugger Helper
begin

text \<open>
  The R kernel's interpreter (\<^verbatim>\<open>native/src/elara/r/interpreter_r.cpp\<close>): R's own console loop owns the
  thread, and the kernel lives in the callbacks R makes: \<open>readConsole\<close> when R wants a line,
  \<open>writeConsole\<close> when it prints.

  A cell is evaluated one expression per turn of that loop, and an expression that fails jumps out of
  the evaluation, past \<open>readConsole\<close>. So the model is a machine: where R's thread is, is part of the
  state, and what R does next (asks for a line, prints, returns from an evaluation or jumps out of it,
  records an error) is an event with its data. The debugger is the one of \<open>R_Debugger\<close>, with its own
  turns as events of this machine.

  Shown: in every run each cell is answered once, and none while another is; what a cell's
  expressions print is published in order, the value R prints for the last one is the result and an
  error ends the cell there; every line handed to R fits its buffer and is terminated; the prompts of R
  must not be used by the code of a cell.
\<close>

section \<open>Text\<close>

text \<open>\<open>withLineFeeds\<close>: every end of line as a line feed.\<close>

fun line_feeds :: "string \<Rightarrow> string" where
  "line_feeds [] = []"
| "line_feeds (c # cs) =
     (if c \<noteq> CHR 0x0D then c # line_feeds cs
      else if cs = [] \<or> hd cs \<noteq> CHR 0x0A then CHR 0x0A # line_feeds cs
      else line_feeds cs)"

definition withLineFeeds :: "string \<Rightarrow> string" where
  "withLineFeeds code = (if find_char (CHR 0x0D) code = None then code else line_feeds code)"

section \<open>State\<close>

text \<open>The expressions of a cell, each with its place in the source if the parser kept it.\<close>

record 'r r_cell =
  c_reply :: nat
  c_executionCount :: int
  c_silent :: bool
  c_userExpressions :: json
  c_exprs :: "('r \<times> 'r option) list"
  c_next :: nat
  c_checkGraphics :: bool
  c_failed :: bool
  c_errorRecorded :: bool
  c_evalue :: string
  c_traceback :: "string list"
  c_valueText :: string

text \<open>What the kernel sends, and the functions of its R package it calls on the way, in order.\<close>

datatype r_output =
    R_Stream string string
  | R_Error string string "string list"
  | R_Result int json
  | R_Reply nat json
  | Hera string "bool list"

text \<open>Where R's thread is: in R's console (which prints, and asks for the next line), in the evaluation of an
  expression of a cell, waiting for requests, at the end of its input; or in a second turn of the console
  loop inside an evaluation, which is not followed further.\<close>

datatype console_at = At_Console | Evaluating nat | Polling nat | Ended | Reentered

record 'r RInterpreter =
  i_server :: bool
  i_debugger :: "'r RDebugger option"
  i_cell :: "'r r_cell option"
  i_evaluating :: bool
  i_loopStarted :: bool
  i_topPrompt :: string
  i_continuePrompt :: string
  i_debugOutput :: string
  i_pendingLine :: string
  i_pendingTail :: bool
  i_pendingCapture :: bool
  i_inTail :: bool
  i_captureValue :: bool
  i_idleExpression :: bool
  i_rEnded :: bool
  i_executing :: bool
  i_interruptRequested :: bool
  i_at :: console_at
  i_out :: "r_output list"
  i_given :: "(nat \<times> string option) list"
  i_evaluated :: "'r list"
  i_srcref :: "'r option"
  i_last_value :: "'r option"
  i_signals :: nat

text \<open>The last fields are what is outside: the output, the buffers \<open>readConsole\<close> filled (with their sizes;
  \<open>None\<close>: the end of input), the expressions evaluated, the bindings R's code reads, the interrupts sent
  to R.\<close>

definition new_RInterpreter :: "'r RInterpreter" where
  "new_RInterpreter = \<lparr>i_server = False, i_debugger = None, i_cell = None, i_evaluating = False, i_loopStarted = False,
     i_topPrompt = ''> '', i_continuePrompt = ''+ '', i_debugOutput = [], i_pendingLine = [], i_pendingTail = False,
     i_pendingCapture = False, i_inTail = False, i_captureValue = False, i_idleExpression = False, i_rEnded = False,
     i_executing = False, i_interruptRequested = False, i_at = At_Console, i_out = [], i_given = [], i_evaluated = [],
     i_srcref = None, i_last_value = None, i_signals = 0\<rparr>"

definition attachServer :: "string \<Rightarrow> 'r RInterpreter \<Rightarrow> 'r RInterpreter" where
  "attachServer prefix s =
     s\<lparr>i_server := True,
       i_debugger := (case i_debugger s of None \<Rightarrow> Some (new_RDebugger prefix) | Some d \<Rightarrow> Some d)\<rparr>"

definition out :: "r_output \<Rightarrow> 'r RInterpreter \<Rightarrow> 'r RInterpreter" where
  "out x s = s\<lparr>i_out := i_out s @ [x]\<rparr>"

definition give :: "nat \<Rightarrow> string option \<Rightarrow> 'r RInterpreter \<Rightarrow> 'r RInterpreter" where
  "give len b s = s\<lparr>i_given := i_given s @ [(len, b)]\<rparr>"

definition debugging :: "'r RInterpreter \<Rightarrow> bool" where
  "debugging s \<longleftrightarrow> (case i_debugger s of None \<Rightarrow> False | Some d \<Rightarrow> d_started d)"

text \<open>A line as R wants it in its buffer: with the terminator.\<close>

definition c_str :: "string \<Rightarrow> string" where
  "c_str line = line @ [CHR 0x00]"

section \<open>A cell arrives\<close>

datatype 'r parsed = Parse_Throws string | Parse_Failed string | Parsed "('r \<times> 'r option) list"

text \<open>What R and its package answer when a cell starts: the parsed cell (for its text and execution
  count, or its text, its file and the lines with breakpoints), and the two prompts.\<close>

record 'r r_start =
  p_parse :: "string \<Rightarrow> int \<Rightarrow> 'r parsed"
  p_debug_parse :: "string \<Rightarrow> string \<Rightarrow> int list \<Rightarrow> 'r parsed"
  p_prompt :: "string option"
  p_continue :: "string option"

definition parse_cell :: "'r r_start \<Rightarrow> int \<Rightarrow> string \<Rightarrow> 'r RInterpreter \<Rightarrow> 'r parsed" where
  "parse_cell P n code s =
     (case i_debugger s of
        Some d \<Rightarrow> if d_started d
                  then p_debug_parse P (withLineFeeds code) (cellPath code d) (breakpointLines (cellPath code d) d)
                  else p_parse P (withLineFeeds code) n
      | None \<Rightarrow> p_parse P (withLineFeeds code) n)"

definition new_cell :: "nat \<Rightarrow> int \<Rightarrow> bool \<Rightarrow> json \<Rightarrow> ('r \<times> 'r option) list \<Rightarrow> 'r r_cell" where
  "new_cell reply n silent user_expressions exprs =
     \<lparr>c_reply = reply, c_executionCount = n, c_silent = silent, c_userExpressions = user_expressions, c_exprs = exprs,
      c_next = 0, c_checkGraphics = False, c_failed = False, c_errorRecorded = False, c_evalue = [], c_traceback = [],
      c_valueText = []\<rparr>"

definition executeRequestImpl ::
  "'r r_start \<Rightarrow> nat \<Rightarrow> int \<Rightarrow> string \<Rightarrow> bool \<Rightarrow> json \<Rightarrow> 'r RInterpreter \<Rightarrow> 'r RInterpreter" where
  "executeRequestImpl P reply n code silent user_expressions s =
     (let s = s\<lparr>i_interruptRequested := False\<rparr>
      in case parse_cell P n code s of
           Parse_Throws what \<Rightarrow> out (R_Reply reply (createErrorReply ''InternalError'' what JNull)) s
         | Parse_Failed message \<Rightarrow>
             out (R_Reply reply (createErrorReply ''PARSE ERROR'' message JNull))
               (if silent then s else out (R_Error ''PARSE ERROR'' message []) s)
         | Parsed exprs \<Rightarrow>
             let s = out (Hera ''.jv.repl.cell_start'' [silent]) s
             in s\<lparr>i_topPrompt := (case p_prompt P of Some p \<Rightarrow> p | None \<Rightarrow> i_topPrompt s),
                  i_continuePrompt := (case p_continue P of Some p \<Rightarrow> p | None \<Rightarrow> i_continuePrompt s),
                  i_executing := True,
                  i_cell := Some (new_cell reply n silent user_expressions exprs)\<rparr>)"

section \<open>A cell ends\<close>

text \<open>What R answers to the user expressions: the strings an expression gives (\<open>None\<close>: an error, or no
  strings), and the session's names.\<close>

record r_session =
  u_eval :: "string \<Rightarrow> string list option"
  u_search :: "string list option"
  u_globals :: "string list option"
  u_loaded :: "string list option"
  u_dump :: "json \<Rightarrow> string"

definition kSessionStateKey :: string where
  "kSessionStateKey = ''.jovian_state''"

definition shown_value :: "string \<Rightarrow> json" where
  "shown_value text = jobj [(''status'', JString ''ok''), (''data'', jobj [(''text/plain'', JString text)]), (''metadata'', JObject [])]"

definition state_strings :: "string list option \<Rightarrow> json" where
  "state_strings names = JArray (map JString (case names of None \<Rightarrow> [] | Some xs \<Rightarrow> xs))"

definition sessionState :: "r_session \<Rightarrow> json" where
  "sessionState U =
     shown_value (u_dump U (jobj [(''search'', state_strings (u_search U)),
                                  (''globals'', state_strings (map_option (take 5000) (u_globals U))),
                                  (''loaded'', state_strings (u_loaded U))]))"

definition failed_value :: "string \<Rightarrow> string \<Rightarrow> json" where
  "failed_value ename evalue =
     jobj [(''status'', JString ''error''), (''ename'', JString ename), (''evalue'', JString evalue), (''traceback'', JArray [])]"

definition evalUserExpression :: "r_session \<Rightarrow> string \<Rightarrow> json" where
  "evalUserExpression U expr =
     (case u_eval U expr of
        Some (status # text # message # _) \<Rightarrow>
          if status = ''ok'' then shown_value text else failed_value text message
      | _ \<Rightarrow> failed_value ''EvaluationError'' ''could not evaluate expression'')"

fun evalUserExpressions :: "r_session \<Rightarrow> json \<Rightarrow> json" where
  "evalUserExpressions U (JObject es) =
     jobj (map (\<lambda>(key, v). (key, if key = kSessionStateKey then sessionState U
                                  else evalUserExpression U (case v of JString s \<Rightarrow> s | _ \<Rightarrow> []))) es)"
| "evalUserExpressions U _ = JObject []"

text \<open>The end of line of the printed value is not part of the result.\<close>

definition result_text :: "string \<Rightarrow> string" where
  "result_text text = (if last text = CHR 0x0A then butlast text else text)"

definition cell_outcome :: "r_session \<Rightarrow> bool \<Rightarrow> 'r r_cell \<Rightarrow> r_output list" where
  "cell_outcome U interrupted c =
     (if interrupted then
        (if c_silent c then [] else [R_Error ''KeyboardInterrupt'' [] []])
        @ [R_Reply (c_reply c) (createErrorReply ''KeyboardInterrupt'' [] JNull)]
      else if c_failed c \<and> \<not> c_silent c then
        [R_Error ''ERROR'' (c_evalue c) (c_traceback c),
         R_Reply (c_reply c) (createErrorReply ''ERROR'' (c_evalue c) (JArray (map JString (c_traceback c))))]
      else
        (if \<not> c_silent c \<and> \<not> c_failed c \<and> c_valueText c \<noteq> []
         then [R_Result (c_executionCount c) (jobj [(''text/plain'', JString (result_text (c_valueText c)))])] else [])
        @ [R_Reply (c_reply c)
             (createSuccessfulReply (JArray []) (if c_failed c then JObject [] else evalUserExpressions U (c_userExpressions c)))])"

text \<open>\<open>takeBrowsed\<close>, and \<open>applyBreakpoints\<close> while debugging.\<close>

definition debugger_after_cell :: "'r RDebugger option \<Rightarrow> 'r RDebugger option" where
  "debugger_after_cell = map_option (\<lambda>d. let d = snd (takeBrowsed d) in if d_started d then applyBreakpoints d else d)"

definition finishCell :: "r_session \<Rightarrow> 'r r_cell \<Rightarrow> 'r RInterpreter \<Rightarrow> 'r RInterpreter" where
  "finishCell U c s =
     (let interrupted = i_interruptRequested s;
          held = (if i_debugOutput s \<noteq> [] \<and> \<not> c_silent c then [R_Stream ''stdout'' (i_debugOutput s)] else [])
      in s\<lparr>i_cell := None, i_inTail := False, i_captureValue := False, i_debugOutput := [],
           i_debugger := debugger_after_cell (i_debugger s), i_interruptRequested := False, i_executing := False,
           i_out := i_out s @ held @ [Hera ''.jv.repl.cell_done'' [c_silent c, c_failed c \<or> interrupted]]
                    @ cell_outcome U interrupted c\<rparr>)"

section \<open>R's console asks\<close>

text \<open>The first half of \<open>evaluateNext\<close>: the next expression is handed to R's evaluator.\<close>

definition begin_evaluation :: "nat \<Rightarrow> 'r r_cell \<Rightarrow> 'r RInterpreter \<Rightarrow> 'r RInterpreter" where
  "begin_evaluation len c s =
     (let (expr, srcref) = c_exprs c ! c_next c
      in s\<lparr>i_srcref := srcref, i_evaluated := i_evaluated s @ [expr], i_cell := Some (c\<lparr>c_next := c_next c + 1\<rparr>),
           i_evaluating := True, i_at := Evaluating len\<rparr>)"

text \<open>The plot an expression may have drawn.\<close>

definition check_graphics :: "'r r_cell \<Rightarrow> 'r RInterpreter \<Rightarrow> 'r r_cell \<times> 'r RInterpreter" where
  "check_graphics c s =
     (if c_checkGraphics c
      then (c\<lparr>c_checkGraphics := False\<rparr>, if c_silent c then s else out (Hera ''.jv.graphics.after_expression'' []) s)
      else (c, s))"

text \<open>A turn of the loop of \<open>readConsole\<close>: the next expression of the cell, the end of the cell, or the
  server's turn.\<close>

definition console_loop :: "r_session \<Rightarrow> nat \<Rightarrow> 'r RInterpreter \<Rightarrow> 'r RInterpreter" where
  "console_loop U len s =
     (case i_cell s of
        None \<Rightarrow> s\<lparr>i_at := Polling len\<rparr>
      | Some c \<Rightarrow>
          let (c, s) = check_graphics c s
          in if \<not> c_failed c \<and> \<not> i_interruptRequested s \<and> c_next c < length (c_exprs c)
             then begin_evaluation len c s
             else (finishCell U c s)\<lparr>i_at := Polling len\<rparr>)"

definition stdinInput :: "string result \<Rightarrow> (exn \<Rightarrow> string) \<Rightarrow> nat \<Rightarrow> 'r RInterpreter \<Rightarrow> 'r RInterpreter" where
  "stdinInput answer what len s =
     (case answer of
        Inl e \<Rightarrow> give len None (out (R_Stream ''stderr'' (''input: '' @ what e @ [CHR 0x0A])) s)
      | Inr res \<Rightarrow>
          if len < 2 then give len None s
          else give len (Some (c_str (take (len - 2) res @ [CHR 0x0A]))) s)"

definition install_line :: string where
  "install_line = ''base::invisible(base::as.environment('' @ [CHR 0x22] @ ''tools:jovian'' @ [CHR 0x22] @ '')$.jv.errors.install())'' @ [CHR 0x0A]"

definition recover_line :: string where
  "recover_line = ''base::invisible(base::.Last.value)'' @ [CHR 0x0A]"

text \<open>R's own message, without the blanks at its end.\<close>

definition trim_message :: "string \<Rightarrow> string" where
  "trim_message message = rev (dropWhile (\<lambda>c. c = CHR 0x0A \<or> c = CHR '' '') (rev message))"

definition mark_failed :: "string \<Rightarrow> bool \<Rightarrow> 'r r_cell \<Rightarrow> 'r r_cell" where
  "mark_failed error_text interrupted c =
     (let c = c\<lparr>c_failed := True\<rparr>
      in if \<not> c_errorRecorded c \<and> \<not> interrupted then c\<lparr>c_evalue := trim_message error_text\<rparr> else c)"

text \<open>The turns of \<open>readConsole\<close> at R's top level, from the last to the first. The loop is R's only when it is
  not inside an evaluation.\<close>

definition enter_loop :: "r_session \<Rightarrow> nat \<Rightarrow> 'r RInterpreter \<Rightarrow> 'r RInterpreter" where
  "enter_loop U len s = (if i_at s = At_Console then console_loop U len s else s\<lparr>i_at := Reentered\<rparr>)"

definition read_recover :: "r_session \<Rightarrow> string \<Rightarrow> nat \<Rightarrow> 'r RInterpreter \<Rightarrow> 'r RInterpreter" where
  "read_recover U error_text len s =
     (if i_evaluating s then
        let s = s\<lparr>i_evaluating := False, i_cell := map_option (mark_failed error_text (i_interruptRequested s)) (i_cell s)\<rparr>
        in if length (c_str recover_line) \<le> len then give len (Some (c_str recover_line)) (s\<lparr>i_inTail := True\<rparr>)
           else enter_loop U len s
      else enter_loop U len s)"

definition read_install :: "r_session \<Rightarrow> string \<Rightarrow> nat \<Rightarrow> 'r RInterpreter \<Rightarrow> 'r RInterpreter" where
  "read_install U error_text len s =
     (if \<not> i_loopStarted s then
        let s = s\<lparr>i_loopStarted := True\<rparr>
        in if length (c_str install_line) \<le> len then give len (Some (c_str install_line)) (s\<lparr>i_inTail := True\<rparr>)
           else read_recover U error_text len s
      else read_recover U error_text len s)"

definition read_top :: "r_session \<Rightarrow> string \<Rightarrow> nat \<Rightarrow> 'r RInterpreter \<Rightarrow> 'r RInterpreter" where
  "read_top U error_text len s =
     (let s = s\<lparr>i_inTail := False, i_captureValue := False\<rparr>
      in if i_pendingLine s \<noteq> [] \<and> length (c_str (i_pendingLine s)) \<le> len
         then give len (Some (c_str (i_pendingLine s)))
                (s\<lparr>i_pendingLine := [], i_inTail := i_pendingTail s, i_captureValue := i_pendingCapture s\<rparr>)
         else read_install U error_text len s)"

definition topLevel :: "string option \<Rightarrow> 'r RInterpreter \<Rightarrow> bool" where
  "topLevel prompt s \<longleftrightarrow> (case prompt of None \<Rightarrow> False | Some p \<Rightarrow> i_topPrompt s = p \<or> i_continuePrompt s = p)"

definition browser_prompt :: "string option \<Rightarrow> bool" where
  "browser_prompt prompt \<longleftrightarrow> (case prompt of None \<Rightarrow> False | Some p \<Rightarrow> starts_with p ''Browse['')"

text \<open>What is outside when R asks: the answer of the front end and the text of its failure, R's last error, the
  session.\<close>

record asked =
  a_answer :: "string result"
  a_what :: "exn \<Rightarrow> string"
  a_error :: string
  a_session :: r_session

definition readConsole :: "asked \<Rightarrow> string option \<Rightarrow> nat \<Rightarrow> 'r RInterpreter \<Rightarrow> 'r RInterpreter" where
  "readConsole A prompt len s =
     (if i_server s \<and> \<not> topLevel prompt s \<and> debugging s \<and> browser_prompt prompt
      then s\<lparr>i_debugger := map_option (debug_step (Browser len)) (i_debugger s)\<rparr>
      else if \<not> i_server s \<or> \<not> topLevel prompt s then stdinInput (a_answer A) (a_what A) len s
      else read_top (a_session A) (a_error A) len s)"

text \<open>The second half of \<open>evaluateNext\<close>: the value is there, and R is handed the line that makes its console do
  what it does after an expression.\<close>

definition value_line :: "bool \<Rightarrow> string" where
  "value_line visible =
     (if visible then ''base::.jv_last_value'' else ''base::invisible(base::.jv_last_value)'') @ [CHR 0x0A]"

definition reset_line :: string where
  "reset_line = '' '' @ [CHR 0x0A]"

definition end_evaluation :: "r_session \<Rightarrow> 'r \<Rightarrow> bool \<Rightarrow> nat \<Rightarrow> 'r r_cell \<Rightarrow> 'r RInterpreter \<Rightarrow> 'r RInterpreter" where
  "end_evaluation U v visible len c s =
     (let s = s\<lparr>i_evaluating := False, i_last_value := Some v, i_at := At_Console\<rparr>;
          line = value_line visible;
          final = (c_next c = length (c_exprs c))
      in if length line + 1 > len then console_loop U len s
         else
           let s = s\<lparr>i_cell := Some (c\<lparr>c_checkGraphics := True\<rparr>)\<rparr>;
               browsed = (case i_debugger s of None \<Rightarrow> False | Some d \<Rightarrow> fst (takeBrowsed d));
               s = s\<lparr>i_debugger := map_option (\<lambda>d. snd (takeBrowsed d)) (i_debugger s)\<rparr>
           in if browsed
              then give len (Some (c_str reset_line))
                     (s\<lparr>i_pendingLine := line, i_pendingTail := True, i_pendingCapture := final \<and> \<not> c_silent c\<rparr>)
              else give len (Some (c_str line)) (s\<lparr>i_inTail := True, i_captureValue := final \<and> \<not> c_silent c\<rparr>))"

section \<open>R prints\<close>

text \<open>A line of which R's manual says nothing (a number too large) is taken as the debugger's own.\<close>

definition console_line :: "string \<Rightarrow> 'r RDebugger \<Rightarrow> bool \<times> 'r RDebugger" where
  "console_line line d = (case consoleLine line d of Inl _ \<Rightarrow> (True, d) | Inr r \<Rightarrow> r)"

function (sequential) debug_lines :: "string \<Rightarrow> 'r RDebugger \<Rightarrow> (string list \<times> string) \<times> 'r RDebugger" where
  "debug_lines text d =
     (case find_char (CHR 0x0A) text of
        None \<Rightarrow> (([], text), d)
      | Some k \<Rightarrow>
          let (own, d) = console_line (take k text) d;
              ((lines, rest), d) = debug_lines (drop (k + 1) text) d
          in ((if own then lines else take (k + 1) text # lines, rest), d))"
  by pat_completeness auto
termination
proof (relation "measure (\<lambda>(buf, d). length buf)")
  fix buf :: string and d d' :: "'r RDebugger" and k :: nat
  assume "find_char (CHR 0x0A) buf = Some k"
  then have "buf \<noteq> []" by auto
  then show "((drop (k + 1) buf, d'), buf, d) \<in> measure (\<lambda>(buf, d). length buf)" by simp
qed simp

declare debug_lines.simps [simp del]

definition writeConsole :: "string \<Rightarrow> int \<Rightarrow> 'r RInterpreter \<Rightarrow> 'r RInterpreter" where
  "writeConsole buf otype s =
     (if (case i_cell s of None \<Rightarrow> False | Some c \<Rightarrow> c_silent c) then s
      else if otype = 0 \<and> debugging s \<and> \<not> (i_inTail s \<and> i_captureValue s) then
        let ((lines, rest), d) = debug_lines (i_debugOutput s @ buf) (the (i_debugger s))
        in s\<lparr>i_debugOutput := rest, i_debugger := Some d, i_out := i_out s @ map (R_Stream ''stdout'') lines\<rparr>
      else if otype = 0 \<and> i_inTail s then
        (case i_cell s of
           Some c \<Rightarrow> if i_captureValue s then s\<lparr>i_cell := Some (c\<lparr>c_valueText := c_valueText c @ buf\<rparr>)\<rparr> else s
         | None \<Rightarrow> s)
      else out (R_Stream (if otype = 1 then ''stderr'' else ''stdout'') buf) s)"

definition wantsCellError :: "'r RInterpreter \<Rightarrow> bool" where
  "wantsCellError s \<longleftrightarrow>
     (case i_cell s of None \<Rightarrow> False | Some c \<Rightarrow> \<not> c_errorRecorded c \<and> (i_evaluating s \<or> i_inTail s))"

definition recordCellError :: "string \<Rightarrow> string list \<Rightarrow> 'r RInterpreter \<Rightarrow> 'r RInterpreter" where
  "recordCellError evalue trace_back s =
     (if \<not> wantsCellError s then s
      else s\<lparr>i_cell := map_option (\<lambda>c. c\<lparr>c_errorRecorded := True, c_failed := True, c_evalue := evalue, c_traceback := trace_back\<rparr>)
                         (i_cell s)\<rparr>)"

section \<open>Other requests\<close>

datatype parse_status = PARSE_OK | PARSE_INCOMPLETE | PARSE_ERROR | PARSE_EOF | PARSE_NULL

text \<open>\<open>None\<close>: R's parser failed with an error of its own.\<close>

definition isCompleteRequestImpl :: "(string \<Rightarrow> parse_status option) \<Rightarrow> string \<Rightarrow> json" where
  "isCompleteRequestImpl parse code =
     createIsCompleteReply
       (case parse (withLineFeeds code) of
          Some PARSE_INCOMPLETE \<Rightarrow> ''incomplete''
        | Some PARSE_ERROR \<Rightarrow> ''invalid''
        | None \<Rightarrow> ''invalid''
        | _ \<Rightarrow> ''complete'') []"

definition completeRequestImpl :: "(string \<Rightarrow> int \<Rightarrow> (string list \<times> int \<times> int) result) \<Rightarrow> string \<Rightarrow> int \<Rightarrow> json result" where
  "completeRequestImpl complete code cursor_pos =
     rbind (complete code cursor_pos) (\<lambda>(matches, cursor_start, cursor_stop).
       Inr (createCompleteReply (JArray (map JString matches)) cursor_start cursor_stop (JObject [])))"

definition inspectRequestImpl :: "(string \<Rightarrow> int \<Rightarrow> json option result) \<Rightarrow> string \<Rightarrow> int \<Rightarrow> json result" where
  "inspectRequestImpl inspect code cursor_pos =
     rbind (inspect code cursor_pos) (\<lambda>found.
       Inr (case found of
              None \<Rightarrow> createInspectReply False (JObject []) (JObject [])
            | Some data \<Rightarrow> createInspectReply True data (JObject [])))"

definition shutdownRequestImpl :: "bool \<Rightarrow> 'r RInterpreter \<Rightarrow> json \<times> 'r RInterpreter" where
  "shutdownRequestImpl restart s = (createShutdownReply restart, s\<lparr>i_rEnded := True\<rparr>)"

definition interruptRequestImpl :: "'r RInterpreter \<Rightarrow> json \<times> 'r RInterpreter" where
  "interruptRequestImpl s =
     (createInterruptReply,
      if i_executing s then s\<lparr>i_interruptRequested := True, i_signals := i_signals s + 1\<rparr> else s)"

text \<open>\<open>idleImpl\<close>: R's own events, then what is due of the \<open>later\<close> package, with an expression parsed at first
  need.\<close>

definition idleImpl :: "bool \<Rightarrow> 'r RInterpreter \<Rightarrow> 'r RInterpreter" where
  "idleImpl parses s =
     (let s = (if \<not> i_rEnded s \<and> i_server s then out (Hera ''events'' []) s else s)
      in if i_rEnded s then s
         else if \<not> i_idleExpression s \<and> \<not> parses then s\<lparr>i_rEnded := True\<rparr>
         else out (Hera ''later'' []) (s\<lparr>i_idleExpression := True\<rparr>))"

section \<open>Runs\<close>

text \<open>R's thread is the console's unless it is in the debugger; there only work for the debugger prints.\<close>

definition free :: "'r RInterpreter \<Rightarrow> bool" where
  "free s \<longleftrightarrow> i_at s \<noteq> Ended \<and> i_at s \<noteq> Reentered \<and> (case i_debugger s of None \<Rightarrow> True | Some d \<Rightarrow> d_at d = Running)"

definition may_print :: "'r RInterpreter \<Rightarrow> bool" where
  "may_print s \<longleftrightarrow> i_at s \<noteq> Ended \<and> i_at s \<noteq> Reentered
     \<and> (case i_debugger s of None \<Rightarrow> True | Some d \<Rightarrow> (case d_at d of Running \<Rightarrow> True | Working _ _ \<Rightarrow> True | _ \<Rightarrow> False))"

text \<open>The turns of the debugger: its view of the interrupt is the interpreter's, and requests on R's thread
  come while the kernel waits.\<close>

fun debugger_turn :: "'r debug_event \<Rightarrow> 'r RInterpreter \<Rightarrow> 'r debug_event option" where
  "debugger_turn (Control_Request opens E req) s = Some (Control_Request opens E req)"
| "debugger_turn (Give_Up n) s = Some (Give_Up n)"
| "debugger_turn (Idle_Request opens E req) s = (case i_at s of Polling _ \<Rightarrow> Some (Idle_Request opens E req) | _ \<Rightarrow> None)"
| "debugger_turn Look s = Some Look"
| "debugger_turn (Work E) s = Some (Work E)"
| "debugger_turn (Check _) s = Some (Check (i_interruptRequested s))"
| "debugger_turn (Leave len) s = Some (Leave len)"
| "debugger_turn _ s = None"

datatype 'r r_event =
    Execute "'r r_start" r_session nat int string bool json
  | Server_Stopped
  | Idle bool
  | Shutdown bool
  | Ask asked "string option" nat
  | Write string int
  | Record string "string list"
  | Returns r_session 'r bool
  | Jumps
  | Interrupt
  | Pause_Taken
  | Debug "'r debug_event"

fun r_step :: "'r r_event \<Rightarrow> 'r RInterpreter \<Rightarrow> 'r RInterpreter" where
  "r_step (Execute P U reply n code silent user_expressions) s =
     (case i_at s of
        Polling len \<Rightarrow> if free s then console_loop U len (executeRequestImpl P reply n code silent user_expressions s) else s
      | _ \<Rightarrow> s)"
| "r_step Server_Stopped s = (case i_at s of Polling len \<Rightarrow> if free s then give len None (s\<lparr>i_at := Ended\<rparr>) else s | _ \<Rightarrow> s)"
| "r_step (Idle parses) s = (case i_at s of Polling _ \<Rightarrow> if free s then idleImpl parses s else s | _ \<Rightarrow> s)"
| "r_step (Shutdown restart) s =
     (case i_at s of Polling _ \<Rightarrow> if free s then snd (shutdownRequestImpl restart s) else s | _ \<Rightarrow> s)"
| "r_step (Ask A prompt len) s = (if free s then readConsole A prompt len s else s)"
| "r_step (Write buf otype) s = (if may_print s then writeConsole buf otype s else s)"
| "r_step (Record evalue trace_back) s = (if free s then recordCellError evalue trace_back s else s)"
| "r_step (Returns U v visible) s =
     (case (i_at s, i_cell s) of
        (Evaluating len, Some c) \<Rightarrow> if free s then end_evaluation U v visible len c s else s
      | _ \<Rightarrow> s)"
| "r_step Jumps s = (case i_at s of Evaluating _ \<Rightarrow> if free s then s\<lparr>i_at := At_Console\<rparr> else s | _ \<Rightarrow> s)"
| "r_step Interrupt s = snd (interruptRequestImpl s)"
| "r_step Pause_Taken s = (if free s then s\<lparr>i_debugger := map_option (\<lambda>d. snd (takePauseRequest d)) (i_debugger s)\<rparr> else s)"
| "r_step (Debug e) s =
     (case debugger_turn e s of
        None \<Rightarrow> s
      | Some e \<Rightarrow> s\<lparr>i_debugger := map_option (debug_step e) (i_debugger s)\<rparr>)"

text \<open>The cells taken, and those answered.\<close>

fun accepted :: "'r r_event \<Rightarrow> 'r RInterpreter \<Rightarrow> nat list" where
  "accepted (Execute P U reply n code silent user_expressions) s =
     (case i_at s of Polling _ \<Rightarrow> if free s then [reply] else [] | _ \<Rightarrow> [])"
| "accepted _ s = []"

fun taken :: "'r r_event list \<Rightarrow> 'r RInterpreter \<Rightarrow> nat list" where
  "taken [] s = []"
| "taken (e # es) s = accepted e s @ taken es (r_step e s)"

fun reply_of :: "r_output \<Rightarrow> nat list" where
  "reply_of (R_Reply n j) = [n]"
| "reply_of _ = []"

definition replied :: "'r RInterpreter \<Rightarrow> nat list" where
  "replied s = concat (map reply_of (i_out s))"

definition current :: "'r RInterpreter \<Rightarrow> nat list" where
  "current s = (case i_cell s of None \<Rightarrow> [] | Some c \<Rightarrow> [c_reply c])"

text \<open>A buffer filled for R: a line with its end and the terminator, no larger than R's.\<close>

definition fits :: "nat \<times> string option \<Rightarrow> bool" where
  "fits g \<longleftrightarrow> (case snd g of None \<Rightarrow> True | Some b \<Rightarrow> length b \<le> fst g \<and> (\<exists>line. b = line @ [CHR 0x0A, CHR 0x00]))"

fun cell_here :: "console_at \<Rightarrow> bool \<Rightarrow> bool" where
  "cell_here (Polling _) running = (\<not> running)"
| "cell_here Ended running = (\<not> running)"
| "cell_here (Evaluating _) running = running"
| "cell_here _ running = True"

definition console_inv :: "'r RInterpreter \<Rightarrow> bool" where
  "console_inv s \<longleftrightarrow>
     cell_here (i_at s) (i_cell s \<noteq> None)
     \<and> i_executing s = (i_cell s \<noteq> None)
     \<and> (case i_cell s of None \<Rightarrow> True | Some c \<Rightarrow> c_next c \<le> length (c_exprs c))
     \<and> list_all fits (i_given s)
     \<and> (i_pendingLine s = [] \<or> (\<exists>line. i_pendingLine s = line @ [CHR 0x0A]))"

section \<open>Every cell is answered once\<close>

definition ledger :: "'r RInterpreter \<Rightarrow> nat list" where
  "ledger s = replied s @ current s"

text \<open>Steps that keep the invariant and the ledger.\<close>

definition sound :: "'r RInterpreter \<Rightarrow> 'r RInterpreter \<Rightarrow> bool" where
  "sound s s' \<longleftrightarrow> console_inv s' \<and> ledger s' = ledger s"

lemmas ledger_defs = ledger_def replied_def current_def

lemma fits_c_str: "length line + 2 \<le> len \<Longrightarrow> fits (len, Some (c_str (line @ [CHR 0x0A])))"
  by (simp add: fits_def c_str_def)

lemma fits_None: "fits (len, None)"
  by (simp add: fits_def)

lemma console_inv_give:
  "console_inv s \<Longrightarrow> fits (len, b) \<Longrightarrow> console_inv (give len b s)"
  by (simp add: console_inv_def give_def)

lemma ledger_give [simp]: "ledger (give len b s) = ledger s"
  by (simp add: ledger_defs give_def)

lemma sound_give: "sound s s' \<Longrightarrow> fits (len, b) \<Longrightarrow> sound s (give len b s')"
  by (simp add: sound_def console_inv_give)

lemma sound_out: "sound s s' \<Longrightarrow> reply_of x = [] \<Longrightarrow> sound s (out x s')"
  by (simp add: sound_def console_inv_def ledger_defs out_def)

lemma sound_refl: "console_inv s \<Longrightarrow> sound s s"
  by (simp add: sound_def)

lemma sound_trans: "sound s t \<Longrightarrow> sound t u \<Longrightarrow> sound s u"
  by (simp add: sound_def)

text \<open>Fields neither the invariant nor the ledger reads.\<close>

lemma sound_update [simp]:
  "sound s (t\<lparr>i_debugger := a\<rparr>) = sound s t" "sound s (t\<lparr>i_evaluating := b\<rparr>) = sound s t"
  "sound s (t\<lparr>i_loopStarted := b\<rparr>) = sound s t" "sound s (t\<lparr>i_inTail := b\<rparr>) = sound s t"
  "sound s (t\<lparr>i_captureValue := b\<rparr>) = sound s t" "sound s (t\<lparr>i_pendingTail := b\<rparr>) = sound s t"
  "sound s (t\<lparr>i_pendingCapture := b\<rparr>) = sound s t" "sound s (t\<lparr>i_debugOutput := x\<rparr>) = sound s t"
  "sound s (t\<lparr>i_interruptRequested := b\<rparr>) = sound s t" "sound s (t\<lparr>i_last_value := v\<rparr>) = sound s t"
  "sound s (t\<lparr>i_rEnded := b\<rparr>) = sound s t" "sound s (t\<lparr>i_idleExpression := b\<rparr>) = sound s t"
  "sound s (t\<lparr>i_signals := n\<rparr>) = sound s t"
  by (simp_all add: sound_def console_inv_def ledger_defs)

lemma sound_cell:
  assumes "sound s t" "i_cell t = Some c" "c_reply c' = c_reply c" "c_next c' \<le> length (c_exprs c')"
  shows "sound s (t\<lparr>i_cell := Some c'\<rparr>)"
  using assms by (auto simp: sound_def console_inv_def ledger_defs split: console_at.splits)

lemma sound_at_console: "sound s t \<Longrightarrow> sound s (t\<lparr>i_at := At_Console\<rparr>)"
  by (simp add: sound_def console_inv_def ledger_defs)

lemma sound_reentered: "sound s t \<Longrightarrow> sound s (t\<lparr>i_at := Reentered\<rparr>)"
  by (simp add: sound_def console_inv_def ledger_defs)

lemma cell_bound: "console_inv s \<Longrightarrow> i_cell s = Some c \<Longrightarrow> c_next c \<le> length (c_exprs c)"
  by (simp add: console_inv_def)

lemma outcome_replies: "concat (map reply_of (cell_outcome U b c)) = [c_reply c]"
  by (simp add: cell_outcome_def)

lemma finishCell_sound:
  assumes "console_inv s" "i_cell s = Some c'" "c_reply c' = c_reply c"
  shows "sound s ((finishCell U c s)\<lparr>i_at := Polling len\<rparr>)"
  using assms by (simp add: sound_def console_inv_def ledger_defs finishCell_def Let_def outcome_replies)

lemma begin_evaluation_sound:
  assumes "console_inv s" "i_cell s = Some c'" "c_reply c' = c_reply c" "c_next c < length (c_exprs c)"
  shows "sound s (begin_evaluation len c s)"
  using assms by (simp add: sound_def console_inv_def ledger_defs begin_evaluation_def Let_def split: prod.split)

lemma check_graphics_keeps:
  "check_graphics c s = (c', t) \<Longrightarrow> console_inv s \<Longrightarrow>
     console_inv t \<and> ledger t = ledger s \<and> i_cell t = i_cell s \<and> c_reply c' = c_reply c \<and> c_next c' = c_next c \<and> c_exprs c' = c_exprs c"
  by (auto simp: check_graphics_def console_inv_def ledger_defs out_def split: if_splits)

lemma console_loop_sound:
  assumes "console_inv s"
  shows "sound s (console_loop U len s)"
proof (cases "i_cell s")
  case None
  then show ?thesis using assms by (simp add: console_loop_def sound_def console_inv_def ledger_defs)
next
  case (Some c)
  obtain c' t where g: "check_graphics c s = (c', t)" by fastforce
  note k = check_graphics_keeps [OF g assms]
  have "sound t (console_loop U len s)"
    using k Some g by (simp add: console_loop_def begin_evaluation_sound [where c' = c] finishCell_sound [where c' = c])
  then show ?thesis using k by (simp add: sound_def)
qed

lemma enter_loop_sound: "sound s t \<Longrightarrow> sound s (enter_loop U len t)"
  using console_loop_sound [of t U len]
  by (auto simp: enter_loop_def sound_def intro: sound_reentered [unfolded sound_def, THEN conjunct1]
      sound_reentered [unfolded sound_def, THEN conjunct2])

lemma mark_failed_fields [simp]:
  "c_reply (mark_failed m b c) = c_reply c" "c_next (mark_failed m b c) = c_next c" "c_exprs (mark_failed m b c) = c_exprs c"
  by (simp_all add: mark_failed_def Let_def)

lemma sound_mark: "sound s t \<Longrightarrow> sound s (t\<lparr>i_cell := map_option (mark_failed m b) (i_cell t)\<rparr>)"
  by (cases "i_cell t") (auto simp: sound_def console_inv_def ledger_defs split: console_at.splits)

lemma fits_line: "\<exists>l. line = l @ [CHR 0x0A] \<Longrightarrow> length line < len \<Longrightarrow> fits (len, Some (c_str line))"
  by (auto simp: fits_def c_str_def)

lemma length_c_str [simp]: "length (c_str line) = Suc (length line)"
  by (simp add: c_str_def)

lemma console_lines:
  "\<exists>l. recover_line = l @ [CHR 0x0A]" "\<exists>l. install_line = l @ [CHR 0x0A]" "\<exists>l. value_line visible = l @ [CHR 0x0A]"
  "\<exists>l. reset_line = l @ [CHR 0x0A]" "2 \<le> length (value_line visible)" "length reset_line = 2"
proof -
  show "\<exists>l. recover_line = l @ [CHR 0x0A]" unfolding recover_line_def by blast
  show "\<exists>l. install_line = l @ [CHR 0x0A]" unfolding install_line_def by (simp only: append.assoc [symmetric]) blast
  show "\<exists>l. value_line visible = l @ [CHR 0x0A]" unfolding value_line_def by blast
  show "\<exists>l. reset_line = l @ [CHR 0x0A]" unfolding reset_line_def by blast
  show "2 \<le> length (value_line visible)" "length reset_line = 2" by (simp_all add: value_line_def reset_line_def)
qed

lemma sound_pending: "sound s t \<Longrightarrow> \<exists>l. line = l @ [CHR 0x0A] \<Longrightarrow> sound s (t\<lparr>i_pendingLine := line\<rparr>)"
  by (simp add: sound_def console_inv_def ledger_defs)

lemma read_recover_sound:
  assumes "sound s t"
  shows "sound s (read_recover U m len t)"
proof -
  have "sound s (t\<lparr>i_evaluating := False, i_cell := map_option (mark_failed m (i_interruptRequested t)) (i_cell t)\<rparr>)" (is "sound s ?t")
    using sound_mark [of s "t\<lparr>i_evaluating := False\<rparr>" m "i_interruptRequested t"] assms by simp
  then show ?thesis
    using assms by (simp add: read_recover_def Let_def enter_loop_sound sound_give fits_line console_lines Suc_le_eq)
qed

lemma read_install_sound: "sound s t \<Longrightarrow> sound s (read_install U m len t)"
  by (simp add: read_install_def Let_def read_recover_sound sound_give fits_line console_lines Suc_le_eq)

lemma read_top_sound:
  assumes "console_inv s"
  shows "sound s (read_top U m len s)"
proof -
  have "sound s (s\<lparr>i_pendingLine := []\<rparr>)" using assms by (simp add: sound_def console_inv_def ledger_defs)
  moreover have "i_pendingLine s \<noteq> [] \<Longrightarrow> length (i_pendingLine s) < len \<Longrightarrow> fits (len, Some (c_str (i_pendingLine s)))"
    using assms fits_line unfolding console_inv_def by metis
  ultimately show ?thesis using assms by (simp add: read_top_def Let_def read_install_sound sound_give sound_refl Suc_le_eq)
qed

lemma stdinInput_sound:
  assumes "console_inv s"
  shows "sound s (stdinInput a w len s)"
  using assms by (auto simp: stdinInput_def sound_give sound_out sound_refl fits_None intro!: fits_c_str sound_give split: sum.split)

lemma readConsole_sound: "console_inv s \<Longrightarrow> sound s (readConsole A prompt len s)"
  by (simp add: readConsole_def stdinInput_sound read_top_sound sound_refl)

lemma end_evaluation_sound:
  assumes "console_inv s" "i_cell s = Some c"
  shows "sound s (end_evaluation U v visible len c s)"
proof -
  let ?t = "s\<lparr>i_evaluating := False, i_last_value := Some v, i_at := At_Console\<rparr>"
  have t: "sound s ?t" using assms sound_at_console sound_refl by (metis sound_update(2,10))
  moreover have "console_inv ?t" using t by (simp add: sound_def)
  ultimately have loop: "sound s (console_loop U len ?t)" using console_loop_sound sound_trans by metis
  have c: "sound s (?t\<lparr>i_cell := Some (c\<lparr>c_checkGraphics := True\<rparr>)\<rparr>)" (is "sound s ?u")
    using t assms cell_bound [OF assms] by (intro sound_cell [where c = c]) simp_all
  moreover have "\<not> len < Suc (length (value_line visible)) \<Longrightarrow> fits (len, Some (c_str reset_line))"
    by (rule fits_line [OF console_lines(4)]) (use console_lines(5) [of visible] in \<open>simp add: console_lines(6)\<close>)
  ultimately show ?thesis
    using loop by (simp add: end_evaluation_def Let_def sound_give sound_pending fits_line console_lines(3))
qed

lemma lines_sound: "console_inv s \<Longrightarrow> sound s (s\<lparr>i_out := i_out s @ map (R_Stream n) lines\<rparr>)"
proof -
  have "concat (map (reply_of \<circ> R_Stream n) lines) = []" by (induction lines) simp_all
  then show "console_inv s \<Longrightarrow> ?thesis" by (simp add: sound_def console_inv_def ledger_defs)
qed

lemma writeConsole_sound:
  assumes "console_inv s"
  shows "sound s (writeConsole buf otype s)"
proof -
  have "i_cell s = Some c \<Longrightarrow> sound s (s\<lparr>i_cell := Some (c\<lparr>c_valueText := t\<rparr>)\<rparr>)" for c t
    using assms cell_bound by (intro sound_cell [where c = c]) (auto simp: sound_refl)
  moreover have "sound s (s\<lparr>i_debugOutput := a, i_debugger := b, i_out := i_out s @ map (R_Stream n) lines\<rparr>)" for a b n lines
    using lines_sound [OF assms, of n lines] by (simp add: sound_def console_inv_def ledger_defs)
  ultimately show ?thesis
    using assms by (simp add: writeConsole_def sound_refl sound_out split: option.split prod.split)
qed

lemma recordCellError_sound:
  assumes "console_inv s"
  shows "sound s (recordCellError e t s)"
proof (cases "i_cell s")
  case None
  then show ?thesis using assms by (simp add: recordCellError_def wantsCellError_def sound_refl)
next
  case (Some c)
  then show ?thesis
    using assms cell_bound [OF assms Some]
    by (simp add: recordCellError_def sound_refl) (intro impI sound_cell [where c = c], simp_all add: sound_refl)
qed

lemma idleImpl_sound: "console_inv s \<Longrightarrow> sound s (idleImpl parses s)"
  by (simp add: idleImpl_def Let_def sound_out sound_refl)

lemma executeRequestImpl_polls:
  fixes P reply n code silent ue and s :: "'r RInterpreter"
  assumes "console_inv s" "i_cell s = None"
  defines "t \<equiv> executeRequestImpl P reply n code silent ue s"
  shows "ledger t = ledger s @ [reply]" "i_cell t \<noteq> None \<or> console_inv t"
    "i_executing t = (i_cell t \<noteq> None)" "case i_cell t of None \<Rightarrow> True | Some c \<Rightarrow> c_next c = 0"
    "i_given t = i_given s" "i_pendingLine t = i_pendingLine s" "i_at t = i_at s"
  using assms(1,2) unfolding t_def
  by (auto simp: executeRequestImpl_def Let_def out_def ledger_defs console_inv_def new_cell_def split: parsed.split)

lemma execute_sound:
  fixes U len P reply n code silent ue and s :: "'r RInterpreter"
  assumes "console_inv s" "i_at s = Polling len"
  defines "t \<equiv> console_loop U len (executeRequestImpl P reply n code silent ue s)"
  shows "console_inv t \<and> ledger t = ledger s @ [reply]"
proof -
  let ?e = "executeRequestImpl P reply n code silent ue s"
  have none: "i_cell s = None" using assms(1,2) by (simp add: console_inv_def)
  note e = executeRequestImpl_polls [OF assms(1) none, of P reply n code silent ue]
  text \<open>The loop does not look at where it was.\<close>
  have at: "console_loop U len (?e\<lparr>i_at := At_Console\<rparr>) = console_loop U len ?e"
    by (simp add: console_loop_def check_graphics_def begin_evaluation_def finishCell_def out_def Let_def split: option.split prod.split)
  have "console_inv (?e\<lparr>i_at := At_Console\<rparr>)"
    using e(2-6) assms(1) by (cases "i_cell ?e") (auto simp: console_inv_def)
  from console_loop_sound [OF this, of U len] have "sound (?e\<lparr>i_at := At_Console\<rparr>) t" unfolding t_def at .
  then show ?thesis using e(1) by (simp add: sound_def ledger_defs)
qed

lemma r_step_inv: "console_inv s \<Longrightarrow> console_inv (r_step e s) \<and> ledger (r_step e s) = ledger s @ accepted e s"
proof (cases e)
  case (Execute P U reply n code silent ue)
  assume inv: "console_inv s"
  then show ?thesis using execute_sound [OF inv] unfolding Execute by (cases "i_at s") simp_all
next
  case Server_Stopped
  assume inv: "console_inv s"
  then show ?thesis unfolding Server_Stopped
    by (cases "i_at s") (auto simp: console_inv_def ledger_defs give_def fits_def)
next
  case (Returns U v visible)
  assume inv: "console_inv s"
  then show ?thesis using end_evaluation_sound [OF inv] unfolding Returns
    by (auto simp: sound_def split: console_at.split option.split)
next
  case Jumps
  assume inv: "console_inv s"
  then show ?thesis using sound_at_console [OF sound_refl [OF inv]] unfolding Jumps
    by (auto simp: sound_def split: console_at.split)
next
  case (Debug d)
  assume inv: "console_inv s"
  then show ?thesis unfolding Debug
    by (cases "debugger_turn d s") (simp_all add: console_inv_def ledger_defs)
next
  case (Shutdown restart)
  assume "console_inv s"
  then show ?thesis unfolding Shutdown
    by (cases "i_at s") (simp_all add: shutdownRequestImpl_def console_inv_def ledger_defs)
next
  case (Idle parses)
  assume "console_inv s"
  then show ?thesis using idleImpl_sound [of s parses] unfolding Idle by (cases "i_at s") (simp_all add: sound_def)
next
  case Interrupt
  assume "console_inv s"
  then show ?thesis unfolding Interrupt by (auto simp: interruptRequestImpl_def console_inv_def ledger_defs)
next
  case Pause_Taken
  assume "console_inv s"
  then show ?thesis unfolding Pause_Taken by (simp add: console_inv_def ledger_defs)
qed (simp_all add: readConsole_sound [unfolded sound_def] writeConsole_sound [unfolded sound_def]
    recordCellError_sound [unfolded sound_def])

interpretation console: event_system r_step "\<lambda>_. True" console_inv
  by unfold_locales (simp add: r_step_inv)

lemma ledger_run: "console_inv s \<Longrightarrow> ledger (fold r_step es s) = ledger s @ taken es s"
  by (induction es arbitrary: s) (simp_all add: r_step_inv)

lemma new_RInterpreter_inv: "console_inv (attachServer prefix new_RInterpreter)"
  by (simp add: console_inv_def attachServer_def new_RInterpreter_def)

text \<open>C31. Every cell is answered, once, and in turn. In every run of the kernel, whatever R does (evaluations
  that return or jump, errors recorded or not, prints, prompts, interrupts, the debugger's turns): the
  replies sent, followed by the cell under way, are exactly the cells taken, in the order they were taken;
  an interrupt is looked at only while there is a cell; when the kernel waits for requests, or R has ended,
  no cell is left without its reply; and every line handed to R fits the buffer R gave and is
  terminated as R expects.\<close>

theorem cells_are_answered_in_turn:
  fixes es :: "'r r_event list" and prefix
  defines "s0 \<equiv> attachServer prefix new_RInterpreter"
  defines "s \<equiv> fold r_step es s0"
  shows "replied s @ current s = taken es s0
    \<and> i_executing s = (i_cell s \<noteq> None)
    \<and> (i_at s = Ended \<or> (\<exists>len. i_at s = Polling len) \<longrightarrow> replied s = taken es s0)
    \<and> list_all fits (i_given s)"
proof -
  have inv: "console_inv s0" unfolding s0_def by (rule new_RInterpreter_inv)
  have inv': "console_inv s" unfolding s_def by (rule console.schedule_inv [OF _ inv]) (simp add: list_all_iff)
  have "ledger s0 = []" by (simp add: s0_def ledger_defs attachServer_def new_RInterpreter_def)
  then have led: "replied s @ current s = taken es s0"
    using ledger_run [OF inv, of es] by (simp add: s_def ledger_def)
  moreover have "i_at s = Ended \<or> (\<exists>len. i_at s = Polling len) \<Longrightarrow> current s = []"
    using inv' by (auto simp: console_inv_def current_def)
  ultimately show ?thesis using inv' by (auto simp: console_inv_def)
qed

definition demo_session :: r_session where
  "demo_session = \<lparr>u_eval = (\<lambda>_. None), u_search = None, u_globals = None, u_loaded = None, u_dump = (\<lambda>_. [])\<rparr>"

definition demo_start :: "nat r_start" where
  "demo_start = \<lparr>p_parse = (\<lambda>code n. Parsed [(7, None)]), p_debug_parse = (\<lambda>code path lines. Parsed []), p_prompt = None, p_continue = None\<rparr>"

definition demo_asked :: asked where
  "demo_asked = \<lparr>a_answer = Inr [], a_what = (\<lambda>_. []), a_error = [], a_session = demo_session\<rparr>"

definition demo_cell :: "nat r_event list" where
  "demo_cell = [Ask demo_asked (Some ''> '') 4096, Ask demo_asked (Some ''> '') 4096, Execute demo_start demo_session 3 1 ''x'' False JNull,
     Returns demo_session 9 True, Write ''[1] 9'' 0, Ask demo_asked (Some ''> '') 4096]"

lemmas console_run_defs = attachServer_def new_RInterpreter_def new_RDebugger_def free_def may_print_def readConsole_def read_top_def
  read_install_def read_recover_def enter_loop_def console_loop_def topLevel_def debugging_def give_def out_def executeRequestImpl_def
  parse_cell_def new_cell_def begin_evaluation_def check_graphics_def end_evaluation_def writeConsole_def takeBrowsed_def finishCell_def
  debugger_after_cell_def cell_outcome_def console_lines

lemma console_line_lengths: "length install_line = 75" "length (value_line True) = 21" "length (value_line False) = 38" "length recover_line = 35"
  by (simp_all add: install_line_def value_line_def recover_line_def)

lemma demo_cell_run:
  "i_at (fold r_step demo_cell (attachServer p new_RInterpreter)) = Polling 4096"
  "taken demo_cell (attachServer p new_RInterpreter) = [3]"
  by (simp_all add: demo_cell_def demo_start_def demo_asked_def demo_session_def console_run_defs console_line_lengths Let_def)

theorem cells_are_answered_in_turn_witness:
  "replied (fold r_step demo_cell (attachServer ''/t/'' new_RInterpreter)) = [3]"
  using cells_are_answered_in_turn [of demo_cell "''/t/''"] demo_cell_run [of "''/t/''"] by simp

section \<open>What a cell shows\<close>

text \<open>An expression that ends well, as R sees it: what it prints, its value and whether it is visible, and what
  R's console prints afterwards. And one that fails: what it prints, and the error R's package records.\<close>

record 'r turn =
  t_prints :: "(string \<times> int) list"
  t_value :: 'r
  t_visible :: bool
  t_tail :: "(string \<times> int) list"

definition writes :: "(string \<times> int) list \<Rightarrow> 'r r_event list" where
  "writes ps = map (\<lambda>(buf, otype). Write buf otype) ps"

definition turn_events :: "asked \<Rightarrow> string \<Rightarrow> nat \<Rightarrow> 'r turn \<Rightarrow> 'r r_event list" where
  "turn_events A prompt len t =
     writes (t_prints t) @ [Returns (a_session A) (t_value t) (t_visible t)] @ writes (t_tail t) @ [Ask A (Some prompt) len]"

definition failure_events :: "asked \<Rightarrow> string \<Rightarrow> nat \<Rightarrow> (string \<times> int) list \<times> string \<times> string list \<Rightarrow> 'r r_event list" where
  "failure_events A prompt len f =
     (case f of (ps, evalue, trace_back) \<Rightarrow>
        writes ps @ [Record evalue trace_back, Jumps, Ask A (Some prompt) len, Ask A (Some prompt) len])"

definition shown :: "string \<times> int \<Rightarrow> r_output" where
  "shown p = R_Stream (if snd p = 1 then ''stderr'' else ''stdout'') (fst p)"

text \<open>Of what R's console prints after an expression only the warnings are shown; the rest is the value.\<close>

definition turn_shown :: "'r turn \<Rightarrow> r_output list" where
  "turn_shown t = map shown (t_prints t) @ map shown (filter (\<lambda>p. snd p \<noteq> 0) (t_tail t)) @ [Hera ''.jv.graphics.after_expression'' []]"

definition value_text :: "(string \<times> int) list \<Rightarrow> string" where
  "value_text ps = concat (map fst (filter (\<lambda>p. snd p = 0) ps))"

text \<open>A kernel that is not being debugged.\<close>

definition undebugged :: "'r RDebugger option \<Rightarrow> bool" where
  "undebugged b \<longleftrightarrow> (case b of None \<Rightarrow> True | Some d \<Rightarrow> \<not> d_started d \<and> \<not> d_browsed d \<and> d_at d = Running)"

definition calm :: "'r RInterpreter \<Rightarrow> bool" where
  "calm s \<longleftrightarrow> i_server s \<and> undebugged (i_debugger s) \<and> i_pendingLine s = [] \<and> i_loopStarted s \<and> \<not> i_interruptRequested s \<and> i_debugOutput s = []"

lemma calm_debugger:
  assumes "calm s"
  shows "\<not> debugging s" "i_at s \<noteq> Ended \<Longrightarrow> i_at s \<noteq> Reentered \<Longrightarrow> free s" "i_at s \<noteq> Ended \<Longrightarrow> i_at s \<noteq> Reentered \<Longrightarrow> may_print s"
    "(case i_debugger s of None \<Rightarrow> False | Some d \<Rightarrow> fst (takeBrowsed d)) = False"
    "map_option (\<lambda>d. snd (takeBrowsed d)) (i_debugger s) = i_debugger s"
    "debugger_after_cell (i_debugger s) = i_debugger s"
  using assms by (auto simp: calm_def undebugged_def debugging_def free_def may_print_def takeBrowsed_def debugger_after_cell_def
      split: option.splits)

lemma calm_update [simp]:
  "calm (s\<lparr>i_out := a\<rparr>) = calm s" "calm (s\<lparr>i_cell := c\<rparr>) = calm s" "calm (s\<lparr>i_at := l\<rparr>) = calm s"
  "calm (s\<lparr>i_evaluating := b\<rparr>) = calm s" "calm (s\<lparr>i_inTail := b\<rparr>) = calm s" "calm (s\<lparr>i_captureValue := b\<rparr>) = calm s"
  "calm (s\<lparr>i_last_value := v\<rparr>) = calm s" "calm (s\<lparr>i_given := g\<rparr>) = calm s" "calm (s\<lparr>i_evaluated := x\<rparr>) = calm s"
  "calm (s\<lparr>i_srcref := r\<rparr>) = calm s" "calm (s\<lparr>i_executing := b\<rparr>) = calm s"
  by (simp_all add: calm_def)

lemma debugging_update [simp]: "debugging (s\<lparr>i_out := a\<rparr>) = debugging s" "debugging (s\<lparr>i_cell := c\<rparr>) = debugging s"
  by (simp_all add: debugging_def)

text \<open>Prints while an expression is evaluated, and while R's console prints after one.\<close>

lemma writes_evaluating:
  assumes "calm s" "i_at s = Evaluating len" "i_cell s = Some c" "\<not> c_silent c" "\<not> i_inTail s"
  shows "fold r_step (writes ps) s = s\<lparr>i_out := i_out s @ map shown ps\<rparr>"
  using assms
proof (induction ps arbitrary: s)
  case (Cons p ps)
  obtain buf otype where p: "p = (buf, otype)" by fastforce
  have "r_step (Write buf otype) s = s\<lparr>i_out := i_out s @ [shown p]\<rparr>"
    using Cons.prems calm_debugger [OF Cons.prems(1)] by (simp add: writeConsole_def out_def shown_def p)
  then show ?case using Cons.IH [of "s\<lparr>i_out := i_out s @ [shown p]\<rparr>"] Cons.prems by (simp add: writes_def p)
qed (simp add: writes_def)

lemma writes_tail:
  assumes "calm s" "i_at s = At_Console" "i_cell s = Some c" "\<not> c_silent c" "i_inTail s"
  shows "fold r_step (writes ps) s =
    s\<lparr>i_out := i_out s @ map shown (filter (\<lambda>p. snd p \<noteq> 0) ps),
      i_cell := Some (c\<lparr>c_valueText := c_valueText c @ (if i_captureValue s then value_text ps else [])\<rparr>)\<rparr>"
  using assms
proof (induction ps arbitrary: s c)
  case (Cons p ps)
  obtain buf otype where p: "p = (buf, otype)" by fastforce
  let ?t = "s\<lparr>i_out := i_out s @ (if otype \<noteq> 0 then [shown p] else []),
     i_cell := Some (c\<lparr>c_valueText := c_valueText c @ (if i_captureValue s \<and> otype = 0 then buf else [])\<rparr>)\<rparr>"
  have "r_step (Write buf otype) s = ?t"
    using Cons.prems calm_debugger [OF Cons.prems(1)] by (simp add: writeConsole_def out_def shown_def p)
  then show ?case using Cons.IH [of ?t] Cons.prems by (simp add: writes_def p value_text_def)
qed (simp add: writes_def value_text_def)

text \<open>An expression is under way.\<close>

definition running :: "'r RInterpreter \<Rightarrow> 'r r_cell \<Rightarrow> bool" where
  "running s c \<longleftrightarrow> calm s \<and> (\<exists>len \<ge> 39. i_at s = Evaluating len) \<and> i_cell s = Some c \<and> \<not> c_silent c \<and> \<not> c_failed c
     \<and> \<not> c_errorRecorded c \<and> \<not> c_checkGraphics c \<and> \<not> i_inTail s \<and> i_evaluating s"

lemma returns_to_console:
  assumes "running s c"
  shows "\<exists>g. r_step (Returns U v visible) s =
    s\<lparr>i_evaluating := False, i_last_value := Some v, i_at := At_Console, i_cell := Some (c\<lparr>c_checkGraphics := True\<rparr>),
      i_inTail := True, i_captureValue := (c_next c = length (c_exprs c)), i_given := g\<rparr>"
proof -
  obtain len where len: "39 \<le> len" "i_at s = Evaluating len" using assms by (auto simp: running_def)
  have calm: "calm s" and c: "i_cell s = Some c" "\<not> c_silent c" using assms by (auto simp: running_def)
  have "length (value_line visible) + 1 \<le> len" using console_line_lengths len(1) by (cases visible) simp_all
  then show ?thesis
    using len(2) c calm_debugger [OF calm] by (auto simp: end_evaluation_def Let_def give_def)
qed

text \<open>The console asks at the end of a turn.\<close>

lemma ask_at_top:
  assumes "calm s" "i_at s = At_Console" "i_topPrompt s = prompt" "\<not> i_evaluating s"
  shows "r_step (Ask A (Some prompt) len) s = console_loop (a_session A) len (s\<lparr>i_inTail := False, i_captureValue := False\<rparr>)"
  using assms calm_debugger [OF assms(1)]
  by (simp add: readConsole_def topLevel_def read_top_def read_install_def read_recover_def enter_loop_def Let_def calm_def)

text \<open>A turn up to the console's question.\<close>

definition turn_result :: "string \<Rightarrow> 'r turn \<Rightarrow> 'r r_cell \<Rightarrow> 'r r_cell" where
  "turn_result old t c = c\<lparr>c_checkGraphics := True, c_valueText := old @ (if c_next c = length (c_exprs c) then value_text (t_tail t) else [])\<rparr>"

lemma turn_to_question:
  assumes "running s c" "i_topPrompt s = prompt"
  shows "\<exists>g. fold r_step (turn_events A prompt len t) s = console_loop (a_session A) len
    (s\<lparr>i_evaluating := False, i_last_value := Some (t_value t), i_at := At_Console, i_cell := Some (turn_result (c_valueText c) t c),
       i_inTail := False, i_captureValue := False, i_given := g,
       i_out := i_out s @ map shown (t_prints t) @ map shown (filter (\<lambda>p. snd p \<noteq> 0) (t_tail t))\<rparr>)"
proof -
  have calm: "calm s" and c: "i_cell s = Some c" "\<not> c_silent c" "\<not> i_inTail s" using assms(1) by (auto simp: running_def)
  obtain l where at: "i_at s = Evaluating l" using assms(1) by (auto simp: running_def)
  let ?s1 = "s\<lparr>i_out := i_out s @ map shown (t_prints t)\<rparr>"
  have s1: "fold r_step (writes (t_prints t)) s = ?s1" by (rule writes_evaluating [OF calm at c])
  have "running ?s1 c" using assms(1) by (simp add: running_def)
  then obtain g where s2: "r_step (Returns (a_session A) (t_value t) (t_visible t)) ?s1 =
    ?s1\<lparr>i_evaluating := False, i_last_value := Some (t_value t), i_at := At_Console, i_cell := Some (c\<lparr>c_checkGraphics := True\<rparr>),
      i_inTail := True, i_captureValue := (c_next c = length (c_exprs c)), i_given := g\<rparr>" (is "_ = ?s2")
    using exE [OF returns_to_console [of ?s1 c "a_session A" "t_value t" "t_visible t"]] by metis
  have s3: "fold r_step (writes (t_tail t)) ?s2 = ?s2\<lparr>i_out := i_out ?s2 @ map shown (filter (\<lambda>p. snd p \<noteq> 0) (t_tail t)),
      i_cell := Some (turn_result (c_valueText c) t c)\<rparr>" (is "_ = ?s3")
    by (subst writes_tail [of ?s2 "c\<lparr>c_checkGraphics := True\<rparr>"]) (use calm c in \<open>simp_all add: turn_result_def\<close>)
  have "calm ?s3" "i_at ?s3 = At_Console" "i_topPrompt ?s3 = prompt" "\<not> i_evaluating ?s3" using calm assms(2) by simp_all
  note ask = ask_at_top [OF this, of A len]
  have "?s3\<lparr>i_inTail := False, i_captureValue := False\<rparr> =
    s\<lparr>i_evaluating := False, i_last_value := Some (t_value t), i_at := At_Console, i_cell := Some (turn_result (c_valueText c) t c),
       i_inTail := False, i_captureValue := False, i_given := g,
       i_out := i_out s @ map shown (t_prints t) @ map shown (filter (\<lambda>p. snd p \<noteq> 0) (t_tail t))\<rparr>"
    by (rule RInterpreter.equality) simp_all
  then show ?thesis
    unfolding turn_events_def fold_append o_apply s1 fold.simps s2 s3 id_apply ask by (intro exI [of _ g]) (simp only:)
qed

lemma good_turn:
  fixes A len and t :: "'r turn"
  assumes "running s c" "i_topPrompt s = prompt" "c_next c < length (c_exprs c)" "39 \<le> len"
  defines "s' \<equiv> fold r_step (turn_events A prompt len t) s"
  shows "running s' (c\<lparr>c_next := Suc (c_next c)\<rparr>) \<and> i_topPrompt s' = prompt \<and> i_out s' = i_out s @ turn_shown t
    \<and> i_evaluated s' = i_evaluated s @ [fst (c_exprs c ! c_next c)]"
proof -
  obtain g where "s' = console_loop (a_session A) len
    (s\<lparr>i_evaluating := False, i_last_value := Some (t_value t), i_at := At_Console, i_cell := Some (turn_result (c_valueText c) t c),
       i_inTail := False, i_captureValue := False, i_given := g,
       i_out := i_out s @ map shown (t_prints t) @ map shown (filter (\<lambda>p. snd p \<noteq> 0) (t_tail t))\<rparr>)"
    unfolding s'_def using turn_to_question [OF assms(1,2)] by blast
  then show ?thesis
    using assms(1-4)
    by (auto simp: console_loop_def check_graphics_def turn_result_def out_def begin_evaluation_def running_def turn_shown_def
        calm_def split: prod.split)
qed

lemma last_turn:
  fixes A len and t :: "'r turn"
  assumes "running s c" "i_topPrompt s = prompt" "c_next c = length (c_exprs c)" "c_valueText c = []"
  defines "s' \<equiv> fold r_step (turn_events A prompt len t) s"
  shows "i_at s' = Polling len \<and> i_evaluated s' = i_evaluated s \<and>
    i_out s' = i_out s @ turn_shown t @ [Hera ''.jv.repl.cell_done'' [False, False]]
      @ (if value_text (t_tail t) = [] then []
         else [R_Result (c_executionCount c) (jobj [(''text/plain'', JString (result_text (value_text (t_tail t))))])])
      @ [R_Reply (c_reply c) (createSuccessfulReply (JArray []) (evalUserExpressions (a_session A) (c_userExpressions c)))]"
proof -
  obtain g where "s' = console_loop (a_session A) len
    (s\<lparr>i_evaluating := False, i_last_value := Some (t_value t), i_at := At_Console, i_cell := Some (turn_result (c_valueText c) t c),
       i_inTail := False, i_captureValue := False, i_given := g,
       i_out := i_out s @ map shown (t_prints t) @ map shown (filter (\<lambda>p. snd p \<noteq> 0) (t_tail t))\<rparr>)"
    unfolding s'_def using turn_to_question [OF assms(1,2)] by blast
  then show ?thesis
    using assms(1-4)
    by (simp add: console_loop_def check_graphics_def turn_result_def out_def running_def turn_shown_def calm_def finishCell_def
        cell_outcome_def)
qed

lemma failing_turn:
  fixes A len ps ev tb and s :: "'r RInterpreter"
  assumes "running s c" "i_topPrompt s = prompt" "39 \<le> len"
  defines "s' \<equiv> fold r_step (failure_events A prompt len (ps, ev, tb)) s"
  shows "i_at s' = Polling len \<and> i_evaluated s' = i_evaluated s \<and>
    i_out s' = i_out s @ map shown ps @ [Hera ''.jv.repl.cell_done'' [False, True], R_Error ''ERROR'' ev tb,
      R_Reply (c_reply c) (createErrorReply ''ERROR'' ev (JArray (map JString tb)))]"
proof -
  have calm: "calm s" and c: "i_cell s = Some c" "\<not> c_silent c" "\<not> i_inTail s" using assms(1) by (auto simp: running_def)
  obtain l where at: "i_at s = Evaluating l" using assms(1) by (auto simp: running_def)
  let ?s1 = "s\<lparr>i_out := i_out s @ map shown ps\<rparr>"
  have s1: "fold r_step (writes ps) s = ?s1" by (rule writes_evaluating [OF calm at c])
  let ?c = "c\<lparr>c_errorRecorded := True, c_failed := True, c_evalue := ev, c_traceback := tb\<rparr>"
  have calm1: "calm ?s1" using calm by simp
  have free: "free ?s1" using calm_debugger(2) [OF calm1] at by simp
  have s2: "r_step (Record ev tb) ?s1 = ?s1\<lparr>i_cell := Some ?c\<rparr>" (is "_ = ?s2")
    using free assms(1) c by (simp add: recordCellError_def wantsCellError_def running_def)
  have s3: "r_step Jumps ?s2 = ?s2\<lparr>i_at := At_Console\<rparr>" (is "_ = ?s3")
    using calm_debugger(2) [of ?s2] calm at by simp
  have free3: "free ?s3" using calm_debugger(2) [of ?s3] calm by simp
  have mark: "mark_failed m b ?c = ?c" for m b
    by (rule r_cell.equality) (simp_all add: mark_failed_def Let_def)
  define g where "g = i_given s @ [(len, Some (c_str recover_line))]"
  have s4: "r_step (Ask A (Some prompt) len) ?s3 =
      ?s3\<lparr>i_inTail := True, i_captureValue := False, i_evaluating := False, i_given := g\<rparr>" (is "_ = ?s4")
    by (rule RInterpreter.equality)
      (use free3 calm assms(1-3) calm_debugger(1) [of ?s3] console_line_lengths(4) in
        \<open>simp_all add: readConsole_def topLevel_def read_top_def read_install_def read_recover_def Let_def calm_def running_def
           give_def mark g_def\<close>)
  have "calm ?s4" "i_at ?s4 = At_Console" "i_topPrompt ?s4 = prompt" "\<not> i_evaluating ?s4" using calm assms(2) by simp_all
  from ask_at_top [OF this, of A len] have "s' = console_loop (a_session A) len (?s4\<lparr>i_inTail := False, i_captureValue := False\<rparr>)"
    unfolding s'_def failure_events_def fold_append o_apply fold.simps id_apply prod.case s1 s2 s3 s4 .
  then show ?thesis
    using calm c assms(1) by (simp add: console_loop_def check_graphics_def finishCell_def cell_outcome_def calm_def running_def)
qed

lemma good_turns:
  fixes A len and ts :: "'r turn list" and s :: "'r RInterpreter"
  assumes "running s c" "i_topPrompt s = prompt" "c_next c + length ts \<le> length (c_exprs c)" "39 \<le> len"
  defines "s' \<equiv> fold r_step (concat (map (turn_events A prompt len) ts)) s"
  shows "running s' (c\<lparr>c_next := c_next c + length ts\<rparr>) \<and> i_topPrompt s' = prompt \<and> i_out s' = i_out s @ concat (map turn_shown ts)
    \<and> i_evaluated s' = i_evaluated s @ map fst (take (length ts) (drop (c_next c) (c_exprs c)))"
  using assms(1-3) unfolding s'_def
proof (induction ts arbitrary: s c)
  case (Cons t ts)
  let ?s = "fold r_step (turn_events A prompt len t) s" and ?c = "c\<lparr>c_next := Suc (c_next c)\<rparr>"
  have lt: "c_next c < length (c_exprs c)" using Cons.prems(3) by simp
  note g = good_turn [OF Cons.prems(1,2) lt assms(4), of A t]
  have "running ?s ?c" "i_topPrompt ?s = prompt" using g by simp_all
  from Cons.IH [OF this] Cons.prems(3) g show ?case by (simp add: Cons_nth_drop_Suc [OF lt, symmetric])
qed simp

lemma cell_starts:
  fixes U P reply n code ue len and s :: "'r RInterpreter"
  assumes "calm s" "i_at s = Polling len" "39 \<le> len" "\<not> i_inTail s"
    and "p_parse P (withLineFeeds code) n = Parsed exprs" "exprs \<noteq> []"
  defines "s' \<equiv> r_step (Execute P U reply n code False ue) s"
  shows "running s' ((new_cell reply n False ue exprs)\<lparr>c_next := 1\<rparr>)
    \<and> i_topPrompt s' = (case p_prompt P of Some p \<Rightarrow> p | None \<Rightarrow> i_topPrompt s)
    \<and> i_out s' = i_out s @ [Hera ''.jv.repl.cell_start'' [False]] \<and> i_evaluated s' = i_evaluated s @ [fst (exprs ! 0)]"
proof -
  have free: "free s" using calm_debugger(2) [OF assms(1)] assms(2) by simp
  have "parse_cell P n code (s\<lparr>i_interruptRequested := False\<rparr>) = Parsed exprs"
    using assms(1,5) by (auto simp: parse_cell_def calm_def undebugged_def split: option.split)
  then show ?thesis
    using assms(1-4,6) free
    by (auto simp: s'_def executeRequestImpl_def Let_def console_loop_def check_graphics_def begin_evaluation_def new_cell_def out_def
        running_def calm_def split: prod.split option.split)
qed

text \<open>C32. A cell shows what it prints, and its last value. In a kernel that is not being debugged, a cell of any
  number of expressions is run like this: the expressions are evaluated in order; what each prints is
  published as it is printed; of what R's console prints after an expression, only the warnings are; when
  the last expression has ended well, what R's console printed for its value is the result (none if it
  printed nothing) and the reply is a success with the user expressions; when an expression
  fails, the later ones are not evaluated, and the error recorded for it is published and is the reply.\<close>

theorem cell_shows_what_it_prints:
  fixes s :: "'r RInterpreter" and ts :: "'r turn list" and fin :: "'r turn + (string \<times> int) list \<times> string \<times> string list"
    and U P reply n code ue A
  assumes "calm s" "\<not> i_inTail s" "i_at s = Polling len0" "39 \<le> len0" "39 \<le> len"
    and "p_parse P (withLineFeeds code) n = Parsed exprs"
    and "case fin of Inl _ \<Rightarrow> length exprs = Suc (length ts) | Inr _ \<Rightarrow> length ts < length exprs"
  defines "prompt \<equiv> (case p_prompt P of Some p \<Rightarrow> p | None \<Rightarrow> i_topPrompt s)"
  defines "s' \<equiv> fold r_step (Execute P U reply n code False ue # concat (map (turn_events A prompt len) ts)
                 @ (case fin of Inl t \<Rightarrow> turn_events A prompt len t | Inr f \<Rightarrow> failure_events A prompt len f)) s"
  shows "i_at s' = Polling len \<and> i_evaluated s' = i_evaluated s @ map fst (take (Suc (length ts)) exprs)
    \<and> i_out s' = i_out s @ [Hera ''.jv.repl.cell_start'' [False]] @ concat (map turn_shown ts)
      @ (case fin of
           Inl t \<Rightarrow> turn_shown t @ [Hera ''.jv.repl.cell_done'' [False, False]]
             @ (if value_text (t_tail t) = [] then []
                else [R_Result n (jobj [(''text/plain'', JString (result_text (value_text (t_tail t))))])])
             @ [R_Reply reply (createSuccessfulReply (JArray []) (evalUserExpressions (a_session A) ue))]
         | Inr (ps, evalue, trace_back) \<Rightarrow> map shown ps @ [Hera ''.jv.repl.cell_done'' [False, True], R_Error ''ERROR'' evalue trace_back,
             R_Reply reply (createErrorReply ''ERROR'' evalue (JArray (map JString trace_back)))])"
proof -
  have ne: "exprs \<noteq> []" "1 + length ts \<le> length exprs" using assms(7) by (auto split: sum.splits)
  let ?s1 = "r_step (Execute P U reply n code False ue) s" and ?c1 = "(new_cell reply n False ue exprs)\<lparr>c_next := 1\<rparr>"
  let ?s2 = "fold r_step (concat (map (turn_events A prompt len) ts)) ?s1" and ?c2 = "?c1\<lparr>c_next := 1 + length ts\<rparr>"
  note r1 = cell_starts [OF assms(1,3,4,2,6) ne(1), of U reply ue, folded prompt_def]
  have c1: "c_next ?c1 + length ts \<le> length (c_exprs ?c1)" using ne(2) by (simp add: new_cell_def)
  note r2 = good_turns [OF r1 [THEN conjunct1] r1 [THEN conjunct2, THEN conjunct1] c1 assms(5), of A]
  have run2: "running ?s2 ?c2" and top2: "i_topPrompt ?s2 = prompt" using r2 by simp_all
  have ev: "i_evaluated ?s2 = i_evaluated s @ map fst (take (Suc (length ts)) exprs)"
    using r1 r2 ne(1) by (cases exprs) (simp_all add: new_cell_def)
  have out2: "i_out ?s2 = i_out s @ [Hera ''.jv.repl.cell_start'' [False]] @ concat (map turn_shown ts)" using r1 r2 by simp
  show ?thesis
  proof (cases fin)
    case (Inl t)
    have "c_next ?c2 = length (c_exprs ?c2)" "c_valueText ?c2 = []" using assms(7) Inl by (simp_all add: new_cell_def)
    from last_turn [OF run2 top2 this, of A len t] show ?thesis
      using ev out2 by (simp add: s'_def Inl new_cell_def)
  next
    case (Inr f)
    obtain ps e tb where f: "f = (ps, e, tb)" by (cases f) auto
    from failing_turn [OF run2 top2 assms(5), of A ps e tb] show ?thesis
      using ev out2 by (simp add: s'_def Inr f new_cell_def)
  qed
qed

definition demo_ready :: "nat RInterpreter" where
  "demo_ready = (attachServer ''/t/'' new_RInterpreter)\<lparr>i_loopStarted := True, i_at := Polling 4096\<rparr>"

lemma demo_ready_facts: "calm demo_ready" "\<not> i_inTail demo_ready" "i_at demo_ready = Polling 4096" "i_out demo_ready = []"
  by (simp_all add: demo_ready_def calm_def undebugged_def attachServer_def new_RInterpreter_def new_RDebugger_def)

theorem cell_shows_what_it_prints_witness:
  "last (i_out (fold r_step (Execute demo_start demo_session 3 1 ''x'' False JNull # concat (map (turn_events demo_asked ''> '' 4096) [])
      @ failure_events demo_asked ''> '' 4096 ([], ''no such thing'', [])) demo_ready))
   = R_Reply 3 (createErrorReply ''ERROR'' ''no such thing'' (JArray []))"
proof -
  have p: "p_parse demo_start (withLineFeeds ''x'') 1 = Parsed [(7, None)]" by (simp add: demo_start_def)
  have q: "(case p_prompt demo_start of None \<Rightarrow> i_topPrompt demo_ready | Some p \<Rightarrow> p) = ''> ''"
    by (simp add: demo_start_def demo_ready_def attachServer_def new_RInterpreter_def)
  show ?thesis
    using cell_shows_what_it_prints [OF demo_ready_facts(1-3) _ _ p, where fin = "Inr ([], ''no such thing'', [])" and ts = "[]"
        and len = 4096 and U = demo_session and reply = 3 and ue = JNull and A = demo_asked]
      demo_ready_facts(4)
    unfolding q by simp
qed

section \<open>R's prompts belong to R\<close>

text \<open>Code that asks with one of R's own prompts is taken for R's console: the cell under way counts as
  failed, though it goes on, and what the code reads is the line meant for the console.\<close>

lemma own_prompt_fails_the_cell:
  fixes A
  assumes "running s c" "36 \<le> len"
  defines "s' \<equiv> r_step (Ask A (Some (i_topPrompt s)) len) s"
  shows "last (i_given s') = (len, Some (c_str recover_line)) \<and> map_option c_failed (i_cell s') = Some True \<and> i_at s' = i_at s"
proof -
  have calm: "calm s" using assms(1) by (simp add: running_def)
  have "free s" using assms(1) calm_debugger(2) [OF calm] by (auto simp: running_def)
  then show ?thesis
    using assms(1,2) calm_debugger(1) [OF calm] console_line_lengths(4)
    by (simp add: s'_def readConsole_def topLevel_def read_top_def read_install_def read_recover_def Let_def calm_def running_def
        give_def mark_failed_def)
qed

text \<open>The parser of R never sees a carriage return, and text without one is left alone.\<close>

lemma withLineFeeds_no_return: "CHR 0x0D \<notin> set (withLineFeeds code)"
proof -
  have "CHR 0x0D \<notin> set (line_feeds code)" by (induction code rule: line_feeds.induct) auto
  moreover have "find_char (CHR 0x0D) code = None \<Longrightarrow> CHR 0x0D \<notin> set code"
    by (induction code) (auto split: if_splits)
  ultimately show ?thesis by (auto simp: withLineFeeds_def)
qed

end
