(* ===== verification/R_Json.thy ===== *)
theory R_Json
  imports Json
begin

text \<open>
  R values to and from JSON (\<^verbatim>\<open>native/src/elara/r/routine.cpp\<close>): the conversions the R kernel uses for
  display data, comm messages and inspect replies. R values are a datatype with the attributes the code
  looks at; doubles are the finite ones of \<open>Json\<close> and the others. A read past the end of a vector is
  \<open>Undefined\<close>; a string with a null character, which R refuses, is an error.

  Shown: a JSON value that R can hold comes back from R as it was; the text of a raw vector is its
  base64 encoding, from which the bytes can be read back.
\<close>

unbundle bit_operations_syntax

section \<open>Base64\<close>

definition base64_chars :: string where
  "base64_chars = ''ABCDEFGHIJKLMNOPQRSTUVWXYZabcdefghijklmnopqrstuvwxyz0123456789+/''"

text \<open>A character of the text: six bits of the 24.\<close>

definition base64_char :: "32 word \<Rightarrow> nat \<Rightarrow> char" where
  "base64_char v k = base64_chars ! unat (drop_bit k v AND 63)"

definition octet :: "8 word \<Rightarrow> nat \<Rightarrow> 32 word" where
  "octet b k = push_bit k (ucast b)"

fun base64Encode :: "8 word list \<Rightarrow> string" where
  "base64Encode (a # b # c # rest) =
     (let v = octet a 16 OR octet b 8 OR octet c 0
      in [base64_char v 18, base64_char v 12, base64_char v 6, base64_char v 0] @ base64Encode rest)"
| "base64Encode [a, b] =
     (let v = octet a 16 OR octet b 8 in [base64_char v 18, base64_char v 12, base64_char v 6, CHR ''=''])"
| "base64Encode [a] = (let v = octet a 16 in [base64_char v 18, base64_char v 12, CHR ''='', CHR ''=''])"
| "base64Encode [] = []"

section \<open>R values\<close>

datatype double = Finite int int | NonFinite

record attribs =
  at_names :: "string list option"
  at_class :: "string list"
  at_levels :: "string list option"
  at_dim :: "nat list option"
  at_row_names :: "string option list option"

text \<open>\<open>None\<close> in a vector is R's \<open>NA\<close>. Row names are those that are strings.\<close>

datatype sexp =
    NilValue
  | LglV "bool option list" attribs
  | IntV "int option list" attribs
  | RealV "double list" attribs
  | StrV "string option list" attribs
  | RawV "8 word list" attribs
  | VecV "sexp list" attribs
  | Other

definition no_attribs :: attribs where
  "no_attribs = \<lparr>at_names = None, at_class = [], at_levels = None, at_dim = None, at_row_names = None\<rparr>"

fun attributes :: "sexp \<Rightarrow> attribs" where
  "attributes (LglV _ a) = a"
| "attributes (IntV _ a) = a"
| "attributes (RealV _ a) = a"
| "attributes (StrV _ a) = a"
| "attributes (RawV _ a) = a"
| "attributes (VecV _ a) = a"
| "attributes _ = no_attribs"

fun xlength :: "sexp \<Rightarrow> nat" where
  "xlength NilValue = 0"
| "xlength (LglV xs _) = length xs"
| "xlength (IntV xs _) = length xs"
| "xlength (RealV xs _) = length xs"
| "xlength (StrV xs _) = length xs"
| "xlength (RawV xs _) = length xs"
| "xlength (VecV xs _) = length xs"
| "xlength Other = 1"

definition inherits :: "sexp \<Rightarrow> string \<Rightarrow> bool" where
  "inherits x c \<longleftrightarrow> c \<in> set (at_class (attributes x))"

definition elt :: "'a list \<Rightarrow> nat \<Rightarrow> 'a result" where
  "elt xs i = (if i < length xs then Inr (xs ! i) else Inl (Undefined ''element past the end''))"

text \<open>\<open>Rf_translateCharUTF8\<close> of an element: \<open>NA\<close> is written so.\<close>

definition char_text :: "string option \<Rightarrow> string" where
  "char_text s = (case s of None \<Rightarrow> ''NA'' | Some s \<Rightarrow> s)"

section \<open>R to JSON\<close>

definition factor_levels :: "sexp \<Rightarrow> string list option" where
  "factor_levels x = (if inherits x ''factor'' then at_levels (attributes x) else None)"

fun logical_json :: "bool option \<Rightarrow> json" where
  "logical_json None = JNull"
| "logical_json (Some b) = JBool b"

definition integer_json :: "string list option \<Rightarrow> int option \<Rightarrow> json" where
  "integer_json levels v =
     (case v of
        None \<Rightarrow> JNull
      | Some v \<Rightarrow>
          (case levels of
             None \<Rightarrow> JInt v
           | Some ls \<Rightarrow> if v \<ge> 1 \<and> v \<le> int (length ls) then JString (ls ! nat (v - 1)) else JNull))"

fun double_json :: "double \<Rightarrow> json" where
  "double_json (Finite m e) = JFloat m e"
| "double_json NonFinite = JNull"

fun string_json :: "string option \<Rightarrow> json" where
  "string_json None = JNull"
| "string_json (Some s) = JString s"

fun atomicElement :: "sexp \<Rightarrow> nat \<Rightarrow> string list option \<Rightarrow> json result" where
  "atomicElement (LglV xs _) i levels = rbind (elt xs i) (\<lambda>v. Inr (logical_json v))"
| "atomicElement (IntV xs _) i levels = rbind (elt xs i) (\<lambda>v. Inr (integer_json levels v))"
| "atomicElement (RealV xs _) i levels = rbind (elt xs i) (\<lambda>v. Inr (double_json v))"
| "atomicElement (StrV xs _) i levels = rbind (elt xs i) (\<lambda>v. Inr (string_json v))"
| "atomicElement _ i levels = Inr JNull"

fun isAtomic :: "sexp \<Rightarrow> bool" where
  "isAtomic (LglV _ _) = True"
| "isAtomic (IntV _ _) = True"
| "isAtomic (RealV _ _) = True"
| "isAtomic (StrV _ _) = True"
| "isAtomic _ = False"

primrec traverse :: "('a \<Rightarrow> 'b result) \<Rightarrow> 'a list \<Rightarrow> 'b list result" where
  "traverse f [] = Inr []"
| "traverse f (x # xs) = rbind (f x) (\<lambda>y. rbind (traverse f xs) (\<lambda>ys. Inr (y # ys)))"

lemma traverse_cong [fundef_cong]: "xs = ys \<Longrightarrow> (\<And>x. x \<in> set ys \<Longrightarrow> f x = g x) \<Longrightarrow> traverse f xs = traverse g ys"
  by (induction ys arbitrary: xs) auto

text \<open>An array, matrix or scalar of a vector's elements.\<close>

definition atomic_json :: "sexp \<Rightarrow> json result" where
  "atomic_json x =
     (let levels = factor_levels x
      in case at_dim (attributes x) of
           Some [nrow, ncol] \<Rightarrow>
             rbind (traverse (\<lambda>r. rbind (traverse (\<lambda>c. atomicElement x (r + c * nrow) levels) [0..<ncol]) (\<lambda>row. Inr (JArray row)))
                     [0..<nrow]) (\<lambda>rows. Inr (JArray rows))
         | _ \<Rightarrow>
             if xlength x = 1 \<and> \<not> inherits x ''AsIs'' then atomicElement x 0 levels
             else rbind (traverse (\<lambda>i. atomicElement x i levels) [0..<xlength x]) (\<lambda>xs. Inr (JArray xs)))"

text \<open>A field of a row of a data frame; a missing value is left out.\<close>

definition atomic_field :: "string \<Rightarrow> sexp \<Rightarrow> nat \<Rightarrow> (string \<times> json) list result" where
  "atomic_field name column r =
     rbind (atomicElement column r (factor_levels column)) (\<lambda>v. Inr (if v = JNull then [] else [(name, v)]))"

definition row_name :: "attribs \<Rightarrow> nat \<Rightarrow> (string \<times> json) list" where
  "row_name a r =
     (case at_row_names a of
        None \<Rightarrow> []
      | Some names \<Rightarrow> if r < length names then [(''_row'', string_json (names ! r))] else [])"

definition names_of :: "attribs \<Rightarrow> string list result" where
  "names_of a = (case at_names a of None \<Rightarrow> Inl (Undefined ''no names'') | Some names \<Rightarrow> Inr names)"

lemma size_vec: "y \<in> set xs \<Longrightarrow> size y < size (VecV xs a)"
  by (induction xs) auto

lemma size_vec_nested: "VecV ys b \<in> set xs \<Longrightarrow> r < length ys \<Longrightarrow> size (ys ! r) < size (VecV xs a)"
  using size_vec [of "ys ! r" ys b] size_vec [of "VecV ys b" xs a] by simp

function sexpToJson :: "(string \<Rightarrow> json) \<Rightarrow> bool \<Rightarrow> sexp \<Rightarrow> json result" where
  "sexpToJson parse nullAsObject x =
     (case x of
        NilValue \<Rightarrow> Inr (if nullAsObject then JObject [] else JNull)
      | RawV bytes _ \<Rightarrow> Inr (JString (base64Encode bytes))
      | VecV xs a \<Rightarrow>
          if inherits x ''data.frame'' then
            rbind (traverse (\<lambda>r.
                rbind (traverse (\<lambda>(column, c).
                    rbind (names_of a) (\<lambda>names. rbind (elt names c) (\<lambda>name.
                      case column of
                        VecV ys b \<Rightarrow> if r < length ys
                          then rbind (sexpToJson parse nullAsObject (ys ! r)) (\<lambda>v. Inr [(name, v)])
                          else Inl (Undefined ''element past the end'')
                      | _ \<Rightarrow> if isAtomic column then atomic_field name column r else Inr [])))
                  (zip xs [0..<length xs]))
                (\<lambda>fields. Inr (jobj (row_name a r @ concat fields))))
              [0..<(case xs of [] \<Rightarrow> 0 | column # _ \<Rightarrow> xlength column)])
            (\<lambda>rows. Inr (JArray rows))
          else
            (case at_names a of
               Some names \<Rightarrow>
                 rbind (traverse (\<lambda>(y, i). rbind (elt names i) (\<lambda>name. rbind (sexpToJson parse nullAsObject y) (\<lambda>v. Inr (name, v))))
                         (zip xs [0..<length xs])) (\<lambda>fields. Inr (jobj fields))
             | None \<Rightarrow> rbind (traverse (\<lambda>y. sexpToJson parse nullAsObject y) xs) (\<lambda>ys. Inr (JArray ys)))
      | Other \<Rightarrow> Inr JNull
      | StrV [s] a \<Rightarrow> if inherits x ''json'' then Inr (parse (char_text s)) else atomic_json x
      | _ \<Rightarrow> atomic_json x)"
  by pat_completeness auto
termination
  by (relation "measure (\<lambda>(p, n, x). size x)")
    (auto dest!: set_zip_leftD dest: size_vec size_vec_nested)

declare sexpToJson.simps [simp del]

section \<open>JSON to R\<close>

fun fitsInteger :: "json \<Rightarrow> bool" where
  "fitsInteger (JInt i) \<longleftrightarrow> - (2 ^ 31) < i \<and> i < 2 ^ 31"
| "fitsInteger _ \<longleftrightarrow> False"

text \<open>The double nearest to a whole number: 53 bits of it, a tie to the even one.\<close>

fun excess :: "nat \<Rightarrow> nat" where
  "excess n = (if n < 2 ^ 53 then 0 else Suc (excess (n div 2)))"

declare excess.simps [simp del]

definition double_of_int :: "int \<Rightarrow> double" where
  "double_of_int i =
     (let n = nat \<bar>i\<bar>; k = excess n; q = n div 2 ^ k; r = n mod 2 ^ k; half = 2 ^ k div 2;
          q = (if k = 0 \<or> r < half \<or> (r = half \<and> even q) then q else q + 1)
      in Finite (sgn i * int q) (int k))"

text \<open>\<open>get<double>\<close> of a number or a truth value.\<close>

fun double_of :: "json \<Rightarrow> double" where
  "double_of (JInt i) = double_of_int i"
| "double_of (JFloat m e) = Finite m e"
| "double_of (JBool b) = Finite (if b then 1 else 0) 0"
| "double_of _ = NonFinite"

fun is_primitive :: "json \<Rightarrow> bool" where
  "is_primitive (JArray _) = False"
| "is_primitive (JObject _) = False"
| "is_primitive JDiscarded = False"
| "is_primitive _ = True"

fun is_boolean :: "json \<Rightarrow> bool" where
  "is_boolean (JBool _) = True"
| "is_boolean _ = False"

fun is_number :: "json \<Rightarrow> bool" where
  "is_number (JInt _) = True"
| "is_number (JFloat _ _) = True"
| "is_number _ = False"

text \<open>A scalar as text; a double is printed by the C library.\<close>

fun scalarText :: "(int \<Rightarrow> int \<Rightarrow> string) \<Rightarrow> json \<Rightarrow> string" where
  "scalarText print (JString s) = s"
| "scalarText print (JBool b) = (if b then ''TRUE'' else ''FALSE'')"
| "scalarText print (JFloat m e) = print m e"
| "scalarText print (JInt i) = show_int i"
| "scalarText print _ = ''null''"

text \<open>\<open>Rf_mkCharLenCE\<close>: R has no strings with a null character.\<close>

definition mkCharUtf8 :: "string \<Rightarrow> string result" where
  "mkCharUtf8 s = (if CHR 0x00 \<in> set s then Inl (RuntimeError ''embedded nul in string'') else Inr s)"

datatype vector_type = LGLSXP | INTSXP | REALSXP | STRSXP

text \<open>The type that holds all the scalars of an array; the nulls fit any.\<close>

definition array_type :: "json list \<Rightarrow> vector_type" where
  "array_type xs =
     (let ys = filter (\<lambda>e. e \<noteq> JNull) xs
      in if list_all is_boolean ys then LGLSXP
         else if list_all fitsInteger ys then INTSXP
         else if list_all is_number ys then REALSXP
         else if list_all is_string ys then STRSXP
         else if list_ex is_string xs then STRSXP else REALSXP)"

fun as_logical :: "json \<Rightarrow> bool option" where
  "as_logical (JBool b) = Some b"
| "as_logical _ = None"

fun as_integer :: "json \<Rightarrow> int option" where
  "as_integer (JInt i) = Some i"
| "as_integer _ = None"

definition as_string :: "(int \<Rightarrow> int \<Rightarrow> string) \<Rightarrow> json \<Rightarrow> string option result" where
  "as_string print e = (if e = JNull then Inr None else rbind (mkCharUtf8 (scalarText print e)) (\<lambda>s. Inr (Some s)))"

definition scalar_vector :: "(int \<Rightarrow> int \<Rightarrow> string) \<Rightarrow> json list \<Rightarrow> sexp result" where
  "scalar_vector print xs =
     (case array_type xs of
        LGLSXP \<Rightarrow> Inr (LglV (map as_logical xs) no_attribs)
      | INTSXP \<Rightarrow> Inr (IntV (map as_integer xs) no_attribs)
      | REALSXP \<Rightarrow> Inr (RealV (map double_of xs) no_attribs)
      | STRSXP \<Rightarrow> rbind (traverse (as_string print) xs) (\<lambda>ss. Inr (StrV ss no_attribs)))"

lemma size_json_array: "x \<in> set xs \<Longrightarrow> size x < size (JArray xs)"
  by (induction xs) auto

lemma size_json_object: "(k, v) \<in> set es \<Longrightarrow> size v < size (JObject es)"
  by (induction es) (auto simp: size_prod_def)

function jsonToSexp :: "(int \<Rightarrow> int \<Rightarrow> string) \<Rightarrow> json \<Rightarrow> sexp result" where
  "jsonToSexp print j =
     (case j of
        JBool b \<Rightarrow> Inr (LglV [Some b] no_attribs)
      | JInt i \<Rightarrow> Inr (if fitsInteger j then IntV [Some i] no_attribs else RealV [double_of_int i] no_attribs)
      | JFloat m e \<Rightarrow> Inr (RealV [Finite m e] no_attribs)
      | JString s \<Rightarrow> rbind (mkCharUtf8 s) (\<lambda>s. Inr (StrV [Some s] no_attribs))
      | JObject es \<Rightarrow>
          rbind (traverse (\<lambda>(k, v). rbind (jsonToSexp print v) (\<lambda>x. rbind (mkCharUtf8 k) (\<lambda>k. Inr (k, x)))) es)
            (\<lambda>fields. Inr (VecV (map snd fields) (no_attribs\<lparr>at_names := Some (map fst fields)\<rparr>)))
      | JArray xs \<Rightarrow>
          if xs = [] \<or> \<not> list_all is_primitive xs
          then rbind (traverse (\<lambda>e. jsonToSexp print e) xs) (\<lambda>ys. Inr (VecV ys no_attribs))
          else scalar_vector print xs
      | _ \<Rightarrow> Inr NilValue)"
  by pat_completeness auto
termination
  by (relation "measure (\<lambda>(p, j). size j)") (auto dest: size_json_array size_json_object)

declare jsonToSexp.simps [simp del]

definition jsonFromR :: "(string \<Rightarrow> json result) \<Rightarrow> (string \<Rightarrow> json) \<Rightarrow> sexp \<Rightarrow> json result" where
  "jsonFromR parse lenient x =
     (case x of
        StrV [s] a \<Rightarrow> if at_names a = None then parse (char_text s) else sexpToJson lenient True x
      | _ \<Rightarrow> sexpToJson lenient True x)"

text \<open>The functions of the R package that use them: \<open>to_json\<close>, \<open>from_json\<close>, the record of an error, and a question
  for the user interface.\<close>

definition null_as_object :: "sexp \<Rightarrow> bool" where
  "null_as_object x = (case x of StrV [s] _ \<Rightarrow> char_text s \<noteq> ''null'' | _ \<Rightarrow> True)"

definition toJson :: "(json \<Rightarrow> string) \<Rightarrow> (string \<Rightarrow> json) \<Rightarrow> sexp \<Rightarrow> sexp \<Rightarrow> sexp result" where
  "toJson dump lenient x null_arg =
     rbind (sexpToJson lenient (null_as_object null_arg) x) (\<lambda>j.
     rbind (mkCharUtf8 (dump j)) (\<lambda>s. Inr (StrV [Some s] no_attribs)))"

definition fromJson :: "(string \<Rightarrow> json) \<Rightarrow> (int \<Rightarrow> int \<Rightarrow> string) \<Rightarrow> string \<Rightarrow> sexp result" where
  "fromJson lenient print s = (let j = lenient s in if j = JDiscarded then Inr NilValue else jsonToSexp print j)"

definition first_text :: "sexp \<Rightarrow> string" where
  "first_text x = (case x of StrV (s # _) _ \<Rightarrow> char_text s | _ \<Rightarrow> [])"

definition error_report :: "sexp \<Rightarrow> sexp \<Rightarrow> string \<times> string list" where
  "error_report evalue trace_back = (first_text evalue, case trace_back of StrV xs _ \<Rightarrow> map char_text xs | _ \<Rightarrow> [])"

definition ui_question :: "(string \<Rightarrow> json) \<Rightarrow> sexp \<Rightarrow> sexp \<Rightarrow> json result" where
  "ui_question lenient meth params =
     rbind (sexpToJson lenient False params) (\<lambda>p. Inr (jobj [(''method'', JString (first_text meth)), (''params'', p)]))"

definition ui_password :: "sexp \<Rightarrow> bool" where
  "ui_password x \<longleftrightarrow> (case x of LglV (b # _) _ \<Rightarrow> b = Some True | _ \<Rightarrow> False)"

definition uiAsk :: "(string \<Rightarrow> json) \<Rightarrow> (json \<Rightarrow> bool \<Rightarrow> string result) \<Rightarrow> sexp \<Rightarrow> sexp \<Rightarrow> sexp \<Rightarrow> sexp result" where
  "uiAsk lenient ask meth params password =
     rbind (ui_question lenient meth params) (\<lambda>ui.
       case ask ui (ui_password password) of
         Inl e \<Rightarrow> Inr NilValue
       | Inr reply \<Rightarrow> rbind (mkCharUtf8 reply) (\<lambda>s. Inr (StrV [Some s] no_attribs)))"

section \<open>A value comes back from R\<close>

text \<open>What R can hold as it is: whole numbers that are R's integers, strings without a null character, and
  arrays that R keeps as lists (an empty one, or one with an array or object in it) or as a vector of one
  type with at least two elements.\<close>

fun one_kind :: "json list \<Rightarrow> bool" where
  "one_kind xs \<longleftrightarrow>
     (let ys = filter (\<lambda>e. e \<noteq> JNull) xs
      in list_all is_boolean ys \<or> list_all fitsInteger ys \<or> list_all is_string ys \<or> list_all (\<lambda>e. is_number e \<and> \<not> fitsInteger e) ys)"

fun held_scalar :: "json \<Rightarrow> bool" where
  "held_scalar (JInt i) = fitsInteger (JInt i)"
| "held_scalar (JString s) = (CHR 0x00 \<notin> set s)"
| "held_scalar JDiscarded = False"
| "held_scalar _ = True"

fun held :: "json \<Rightarrow> bool" where
  "held (JArray xs) \<longleftrightarrow> (\<forall>x \<in> set xs. held x) \<and> (xs = [] \<or> \<not> list_all is_primitive xs \<or> (length xs \<ge> 2 \<and> one_kind xs))"
| "held (JObject es) \<longleftrightarrow> keys_ordered es \<and> (\<forall>e \<in> set es. CHR 0x00 \<notin> set (fst e) \<and> held (snd e))"
| "held j \<longleftrightarrow> held_scalar j"

lemma traverse_Inr: "(\<And>x. x \<in> set xs \<Longrightarrow> f x = Inr (g x)) \<Longrightarrow> traverse f xs = Inr (map g xs)"
  by (induction xs) auto

lemma traverse_map: "traverse f (map g xs) = traverse (\<lambda>x. f (g x)) xs"
  by (induction xs) simp_all

lemma traverse_elements: "traverse (\<lambda>i. rbind (elt xs i) (\<lambda>v. Inr (f v))) [0..<length xs] = Inr (map f xs)"
proof -
  have "traverse (\<lambda>i. rbind (elt xs i) (\<lambda>v. Inr (f v))) [0..<length xs] = Inr (map (\<lambda>i. f (xs ! i)) [0..<length xs])"
    by (rule traverse_Inr) (simp add: elt_def)
  moreover have "map (\<lambda>i. f (xs ! i)) [0..<length xs] = map f xs" by (rule nth_equalityI) simp_all
  ultimately show ?thesis by simp
qed

lemma no_attribs_simps [simp]:
  "at_names no_attribs = None" "at_class no_attribs = []" "at_levels no_attribs = None" "at_dim no_attribs = None"
  "at_row_names no_attribs = None"
  by (simp_all add: no_attribs_def)

text \<open>Vectors without attributes.\<close>

lemma plain_strings: "sexpToJson parse n (StrV ss no_attribs) = atomic_json (StrV ss no_attribs)"
  by (simp add: sexpToJson.simps inherits_def split: list.split)

lemma plain_vectors:
  "length bs \<noteq> 1 \<Longrightarrow> sexpToJson parse n (LglV bs no_attribs) = Inr (JArray (map logical_json bs))"
  "length vs \<noteq> 1 \<Longrightarrow> sexpToJson parse n (IntV vs no_attribs) = Inr (JArray (map (integer_json None) vs))"
  "length ds \<noteq> 1 \<Longrightarrow> sexpToJson parse n (RealV ds no_attribs) = Inr (JArray (map double_json ds))"
  "length ss \<noteq> 1 \<Longrightarrow> sexpToJson parse n (StrV ss no_attribs) = Inr (JArray (map string_json ss))"
  by (simp_all add: plain_strings) (simp_all add: sexpToJson.simps atomic_json_def factor_levels_def inherits_def traverse_elements Let_def)

lemma plain_scalars:
  "sexpToJson parse n (LglV [b] no_attribs) = Inr (logical_json b)"
  "sexpToJson parse n (IntV [i] no_attribs) = Inr (integer_json None i)"
  "sexpToJson parse n (RealV [d] no_attribs) = Inr (double_json d)"
  "sexpToJson parse n (StrV [s] no_attribs) = Inr (string_json s)"
  by (simp_all add: sexpToJson.simps atomic_json_def factor_levels_def inherits_def elt_def Let_def)

lemma obj_put_last: "\<forall>e \<in> set es. fst e < k \<Longrightarrow> obj_put k v es = es @ [(k, v)]"
  by (induction es) (auto dest: order.asym)

lemma jobj_of_ordered: "keys_ordered es \<Longrightarrow> jobj es = JObject es"
proof -
  have "fold (\<lambda>kv. obj_put (fst kv) (snd kv)) fs acc = acc @ fs" if "keys_ordered (acc @ fs)" for acc fs :: "(string \<times> json) list"
    using that
  proof (induction fs arbitrary: acc)
    case (Cons f fs)
    have "obj_put (fst f) (snd f) acc = acc @ [f]"
      by (subst obj_put_last) (use Cons.prems in \<open>auto simp: keys_ordered_def sorted_wrt_append\<close>)
    then show ?case using Cons.IH [of "acc @ [f]"] Cons.prems by simp
  qed simp
  from this [of "[]" es] show "keys_ordered es \<Longrightarrow> ?thesis" by (simp add: jobj_def)
qed

lemma held_primitive: "is_primitive x \<Longrightarrow> held x \<longleftrightarrow> held_scalar x"
  by (cases x) simp_all

lemma scalar_vector_back:
  assumes "list_all is_primitive xs" "list_all held_scalar xs" "length xs \<noteq> 1" "one_kind xs"
  shows "rbind (scalar_vector print xs) (sexpToJson parse n) = Inr (JArray xs)"
proof -
  let ?ys = "filter (\<lambda>e. e \<noteq> JNull) xs"
  have same: "map f xs = xs" if "\<forall>x \<in> set ?ys. f x = x" "f JNull = JNull" for f
    by (rule map_idI) (use that in auto)
  have strings: "traverse (as_string print) xs = Inr (map (\<lambda>x. case x of JString s \<Rightarrow> Some s | _ \<Rightarrow> None) xs)"
    if "\<forall>x \<in> set ?ys. is_string x"
  proof (rule traverse_Inr)
    fix x assume "x \<in> set xs"
    then have "is_string x \<or> x = JNull" "held_scalar x" using that assms(2) by (auto simp: list_all_iff)
    then show "as_string print x = Inr (case x of JString s \<Rightarrow> Some s | _ \<Rightarrow> None)"
      by (cases x) (auto simp: as_string_def mkCharUtf8_def)
  qed
  have logical: "is_boolean x \<Longrightarrow> logical_json (as_logical x) = x" for x by (cases x) simp_all
  have integer: "fitsInteger x \<Longrightarrow> integer_json None (as_integer x) = x" for x by (cases x) (simp_all add: integer_json_def)
  have float: "is_number x \<Longrightarrow> held_scalar x \<Longrightarrow> \<not> fitsInteger x \<Longrightarrow> double_json (double_of x) = x" for x by (cases x) simp_all
  have string: "is_string x \<Longrightarrow> string_json (case x of JString s \<Rightarrow> Some s | _ \<Rightarrow> None) = x" for x by (cases x) simp_all
  have "integer_json None None = JNull" by (simp add: integer_json_def)
  have distinctions: "is_boolean x \<Longrightarrow> \<not> fitsInteger x \<and> \<not> is_number x \<and> \<not> is_string x"
    "fitsInteger x \<Longrightarrow> \<not> is_string x \<and> is_number x" "is_string x \<Longrightarrow> \<not> is_number x" for x by (cases x; simp)+
  show ?thesis
  proof (cases "array_type xs")
    case LGLSXP
    then have "list_all is_boolean ?ys" by (auto simp: array_type_def Let_def split: if_splits)
    then have "map (logical_json \<circ> as_logical) xs = xs" by (intro same) (auto simp: logical list_all_iff)
    then show ?thesis using LGLSXP assms(3) by (simp add: scalar_vector_def plain_vectors)
  next
    case INTSXP
    then have "list_all fitsInteger ?ys" by (auto simp: array_type_def Let_def split: if_splits)
    then have "map (integer_json None \<circ> as_integer) xs = xs" by (intro same) (auto simp: integer list_all_iff \<open>integer_json None None = JNull\<close>)
    then show ?thesis using INTSXP assms(3) by (simp add: scalar_vector_def plain_vectors)
  next
    case REALSXP
    then have no: "\<not> list_all is_boolean ?ys" "\<not> list_all fitsInteger ?ys" by (auto simp: array_type_def Let_def split: if_splits)
    have "\<not> list_all is_string ?ys"
    proof -
      obtain x where x: "x \<in> set ?ys" using no(1) by (auto simp: list_all_iff)
      have "list_all is_number ?ys \<or> \<not> list_ex is_string xs" using REALSXP by (auto simp: array_type_def Let_def split: if_splits)
      then have "\<not> is_string x" using x distinctions(3) by (auto simp: list_all_iff list_ex_iff)
      then show ?thesis using x by (auto simp: list_all_iff)
    qed
    then have "list_all (\<lambda>e. is_number e \<and> \<not> fitsInteger e) ?ys" using no assms(4) by (simp add: Let_def)
    then have "map (double_json \<circ> double_of) xs = xs"
      using assms(2) by (intro same) (auto simp: float list_all_iff)
    then show ?thesis using REALSXP assms(3) by (simp add: scalar_vector_def plain_vectors)
  next
    case STRSXP
    then have no: "\<not> list_all is_boolean ?ys" "\<not> list_all fitsInteger ?ys" "\<not> list_all is_number ?ys"
      by (auto simp: array_type_def Let_def split: if_splits)
    then have str: "\<forall>x \<in> set ?ys. is_string x" using assms(4) by (auto simp: Let_def list_all_iff)
    then have "map (string_json \<circ> (\<lambda>x. case x of JString s \<Rightarrow> Some s | _ \<Rightarrow> None)) xs = xs"
      by (intro same) (auto simp: string)
    then show ?thesis using STRSXP assms(3) strings [OF str] by (simp add: scalar_vector_def plain_vectors)
  qed
qed

text \<open>A list and a named list, when their elements come back.\<close>

lemma list_back:
  assumes "\<And>x. x \<in> set xs \<Longrightarrow> rbind (jsonToSexp print x) (sexpToJson parse n) = Inr x" "xs = [] \<or> \<not> list_all is_primitive xs"
  shows "rbind (jsonToSexp print (JArray xs)) (sexpToJson parse n) = Inr (JArray xs)"
proof -
  have "\<exists>y. jsonToSexp print x = Inr y \<and> sexpToJson parse n y = Inr x" if "x \<in> set xs" for x
    using assms(1) [OF that] by (auto simp: rbind_eq_Inr_iff)
  then obtain g where g: "\<And>x. x \<in> set xs \<Longrightarrow> jsonToSexp print x = Inr (g x) \<and> sexpToJson parse n (g x) = Inr x" by metis
  then have "jsonToSexp print (JArray xs) = Inr (VecV (map g xs) no_attribs)"
    using assms(2) by (subst jsonToSexp.simps) (simp add: traverse_Inr [of xs _ g])
  moreover have "traverse (sexpToJson parse n) (map g xs) = Inr xs"
    using g traverse_Inr [of xs "\<lambda>x. sexpToJson parse n (g x)" "\<lambda>x. x"] by (simp add: traverse_map)
  ultimately show ?thesis by (simp, subst sexpToJson.simps) (simp add: inherits_def)
qed

lemma object_back:
  assumes "\<And>e. e \<in> set es \<Longrightarrow> rbind (jsonToSexp print (snd e)) (sexpToJson parse n) = Inr (snd e)"
    "keys_ordered es" "\<And>e. e \<in> set es \<Longrightarrow> CHR 0x00 \<notin> set (fst e)"
  shows "rbind (jsonToSexp print (JObject es)) (sexpToJson parse n) = Inr (JObject es)"
proof -
  have "\<exists>y. jsonToSexp print (snd e) = Inr y \<and> sexpToJson parse n y = Inr (snd e)" if "e \<in> set es" for e
    using assms(1) [OF that] by (auto simp: rbind_eq_Inr_iff)
  then obtain g where g: "\<And>e. e \<in> set es \<Longrightarrow> jsonToSexp print (snd e) = Inr (g e) \<and> sexpToJson parse n (g e) = Inr (snd e)" by metis
  have "traverse (\<lambda>(k, v). rbind (jsonToSexp print v) (\<lambda>x. rbind (mkCharUtf8 k) (\<lambda>k. Inr (k, x)))) es = Inr (map (\<lambda>e. (fst e, g e)) es)"
    by (rule traverse_Inr) (use g assms(3) in \<open>auto simp: mkCharUtf8_def\<close>)
  then have to_r: "jsonToSexp print (JObject es) = Inr (VecV (map g es) (no_attribs\<lparr>at_names := Some (map fst es)\<rparr>))"
    by (subst jsonToSexp.simps) (simp add: comp_def)
  have from_r: "sexpToJson parse n (g (es ! i)) = Inr (snd (es ! i))" if "i < length es" for i
    using g that nth_mem by blast
  have "traverse (\<lambda>(y, i). rbind (elt (map fst es) i) (\<lambda>name. rbind (sexpToJson parse n y) (\<lambda>v. Inr (name, v)))) (zip (map g es) [0..<length es])
      = Inr (map (\<lambda>(y, i). es ! i) (zip (map g es) [0..<length es]))"
    by (rule traverse_Inr) (auto simp: set_zip elt_def from_r)
  moreover have "map (\<lambda>(y, i). es ! i) (zip (map g es) [0..<length es]) = es" by (rule nth_equalityI) simp_all
  ultimately show ?thesis
    using to_r assms(2) by (simp, subst sexpToJson.simps) (simp add: inherits_def jobj_of_ordered)
qed

text \<open>C33. What R can hold comes back from R unchanged: converting a JSON value to an R value does not fail, and
  converting that R value to JSON gives the same value, however deeply arrays and objects are
  nested. (Not held, and changed by the way through R: an array of one scalar, which becomes the scalar; an
  array of scalars of several kinds, which become one kind; whole numbers beyond R's integers, which
  become doubles.)\<close>

theorem json_survives_R:
  assumes "held j"
  shows "rbind (jsonToSexp print j) (sexpToJson parse False) = Inr j"
  using assms
proof (induction j rule: measure_induct_rule [where f = size])
  case (less j)
  show ?case
  proof (cases j)
    case (JArray xs)
    have elements: "rbind (jsonToSexp print x) (sexpToJson parse False) = Inr x" if "x \<in> set xs" for x
      using less.IH [of x] less.prems that size_json_array [of x xs] by (simp add: JArray)
    show ?thesis
    proof (cases "xs = [] \<or> \<not> list_all is_primitive xs")
      case True
      with elements show ?thesis unfolding JArray by (rule list_back)
    next
      case False
      then have "list_all held_scalar xs" using less.prems by (auto simp: JArray list_all_iff held_primitive)
      then show ?thesis
        using False less.prems scalar_vector_back [of xs print parse False] by (subst jsonToSexp.simps) (auto simp: JArray)
    qed
  next
    case (JObject es)
    have "rbind (jsonToSexp print (snd e)) (sexpToJson parse False) = Inr (snd e)" if "e \<in> set es" for e
      using less.IH [of "snd e"] less.prems that size_json_object [of "fst e" "snd e" es] by (auto simp: JObject)
    then show ?thesis using less.prems unfolding JObject by (intro object_back) auto
  next
    case (JString s)
    then show ?thesis using less.prems by (subst jsonToSexp.simps) (simp add: mkCharUtf8_def plain_scalars)
  next
    case (JInt i)
    then show ?thesis using less.prems by (subst jsonToSexp.simps) (simp add: plain_scalars integer_json_def)
  next
    case JNull
    then show ?thesis by (subst jsonToSexp.simps) (simp, subst sexpToJson.simps, simp)
  qed (use less.prems in \<open>subst jsonToSexp.simps, simp add: plain_scalars\<close>)+
qed

theorem json_survives_R_witness:
  "rbind (jsonToSexp (\<lambda>m e. []) (JObject [(''a'', JArray [JInt 1, JNull]), (''b'', JArray [JArray [JBool True, JBool False]])]))
     (sexpToJson (\<lambda>s. JDiscarded) False)
   = Inr (JObject [(''a'', JArray [JInt 1, JNull]), (''b'', JArray [JArray [JBool True, JBool False]])])"
  by (rule json_survives_R) (simp add: keys_ordered_def)

section \<open>Raw vectors\<close>

text \<open>The decoder of RFC 4648.\<close>

definition base64_value :: "char \<Rightarrow> 32 word" where
  "base64_value c = of_nat (length (takeWhile (\<lambda>d. d \<noteq> c) base64_chars))"

definition decoded :: "32 word \<Rightarrow> nat \<Rightarrow> 8 word" where
  "decoded v k = ucast (drop_bit k v)"

fun base64_decode :: "string \<Rightarrow> 8 word list" where
  "base64_decode (a # b # c # d # rest) =
     (let v = push_bit 18 (base64_value a) OR push_bit 12 (base64_value b)
      in if c = CHR ''='' then [decoded v 16]
         else let v = v OR push_bit 6 (base64_value c)
              in if d = CHR ''='' then [decoded v 16, decoded v 8]
                 else let v = v OR base64_value d in [decoded v 16, decoded v 8, decoded v 0] @ base64_decode rest)"
| "base64_decode _ = []"

lemma base64_value_char:
  assumes "n < 64"
  shows "base64_value (base64_chars ! n) = of_nat n" "base64_chars ! n \<noteq> CHR ''=''"
proof -
  have d: "distinct base64_chars" "length base64_chars = 64" "CHR ''='' \<notin> set base64_chars" by (simp_all add: base64_chars_def)
  have "takeWhile (\<lambda>d. d \<noteq> base64_chars ! n) base64_chars = take n base64_chars"
    using d assms by (intro takeWhile_eq_take_P_nth) (auto simp: nth_eq_iff_index_eq)
  then show "base64_value (base64_chars ! n) = of_nat n" using d assms by (simp add: base64_value_def)
  show "base64_chars ! n \<noteq> CHR ''=''" using d assms nth_mem by metis
qed

lemma mask63: "(63 :: 32 word) = mask 6"
  by (simp add: mask_eq_exp_minus_1)

lemma six_bits: "unat (w AND 63 :: 32 word) < 64"
proof -
  have "w AND 63 = take_bit 6 w" unfolding mask63 by (simp add: take_bit_eq_mask)
  then show ?thesis by (simp add: unsigned_take_bit_eq take_bit_nat_def)
qed

lemma base64_value_base64_char:
  "base64_value (base64_char v k) = drop_bit k v AND 63" "base64_char v k \<noteq> CHR ''=''"
  using base64_value_char [OF six_bits] by (simp_all add: base64_char_def)

text \<open>The 24 bits of a group, put together again from their four sixes.\<close>

lemma bit_octet: "bit (octet b k) n \<longleftrightarrow> n < 32 \<and> k \<le> n \<and> bit b (n - k)"
  by (auto simp: octet_def bit_simps)

lemma group_bits:
  fixes v :: "32 word"
  assumes "\<And>n. n \<ge> 24 \<Longrightarrow> \<not> bit v n"
  shows "push_bit 18 (drop_bit 18 v AND 63) OR push_bit 12 (drop_bit 12 v AND 63) OR push_bit 6 (drop_bit 6 v AND 63) OR (drop_bit 0 v AND 63) = v"
proof (rule bit_word_eqI)
  fix n assume "n < LENGTH(32)"
  consider "n < 6" | "6 \<le> n" "n < 12" | "12 \<le> n" "n < 18" | "18 \<le> n" "n < 24" | "24 \<le> n" by linarith
  then show "bit (push_bit 18 (drop_bit 18 v AND 63) OR push_bit 12 (drop_bit 12 v AND 63) OR push_bit 6 (drop_bit 6 v AND 63) OR (drop_bit 0 v AND 63)) n
      = bit v n"
    using assms [of n] \<open>n < LENGTH(32)\<close> unfolding mask63 by cases (simp_all add: bit_simps less_diff_conv2)
qed

lemma decoded_octets:
  "decoded (octet a 16 OR octet b 8 OR octet c 0) 16 = a" "decoded (octet a 16 OR octet b 8 OR octet c 0) 8 = b"
  "decoded (octet a 16 OR octet b 8 OR octet c 0) 0 = c"
  by (rule bit_word_eqI; use bit_imp_le_length [of b] bit_imp_le_length [of c] in \<open>fastforce simp: decoded_def bit_octet bit_simps\<close>)+

lemma high_bits: "n \<ge> 24 \<Longrightarrow> \<not> bit (octet a 16 OR octet b 8 OR octet c 0) n"
  using bit_imp_le_length [of a "n - 16"] bit_imp_le_length [of b "n - 8"] bit_imp_le_length [of c n] by (auto simp: bit_octet bit_simps)

text \<open>A group that is not full: its last bits are zero.\<close>

lemma octet_zero [simp]: "octet 0 k = 0"
  by (simp add: octet_def)

lemma short_groups:
  "drop_bit 0 (octet a 16 OR octet b 8) AND 63 = (0 :: 32 word)" "drop_bit 6 (octet a 16) AND 63 = (0 :: 32 word)"
  "drop_bit 0 (octet a 16) AND 63 = (0 :: 32 word)"
  unfolding mask63 by (rule bit_word_eqI, auto simp: bit_simps bit_octet)+

text \<open>Decoding gives the bytes back.\<close>

lemma base64_round_trip: "base64_decode (base64Encode bytes) = bytes"
proof (induction bytes rule: base64Encode.induct)
  case (1 a b c rest)
  show ?case
    using group_bits [OF high_bits [of _ a b c]] 1 by (simp add: Let_def base64_value_base64_char decoded_octets or.assoc)
next
  case (2 a b)
  show ?case
    using group_bits [OF high_bits [of _ a b 0]] short_groups(1) [of a b] decoded_octets(1,2) [of a b 0]
    by (simp add: Let_def base64_value_base64_char or.assoc)
next
  case (3 a)
  show ?case
    using group_bits [OF high_bits [of _ a 0 0]] short_groups(2,3) [of a] decoded_octets(1) [of a 0 0]
    by (simp add: Let_def base64_value_base64_char or.assoc)
qed simp

end
