(* ===== verification/R_Comm.thy ===== *)
theory R_Comm
  imports Comm R_Json "HOL-Library.Multiset"
begin

text \<open>
  The comms of R code (\<^verbatim>\<open>native/src/elara/r/comm_r.cpp\<close>): a comm is its identifier to R, and the comm
  objects, the targets and the R functions they call are kept here.

  The state extends that of the comm manager (\<open>Comm\<close>), whose callbacks are the three lambdas of this file.
  An R function is run with its arguments by a parameter that may do to the state whatever R code can
  do through the operations below. The operations take the string that \<open>text\<close> reads off the R value they
  are given, and their answers are those before they are wrapped as R values. R's garbage collector is the multiset of objects it has been told to
  preserve. A use of a destroyed object or of an erased target is \<open>Undefined\<close>, as in \<open>Comm\<close>.

  Shown: every R function in use is preserved, however the operations, the front end's
  messages and the callbacks are interleaved; a message of the front end reaches the R handler of its
  comm, once; and two ways to lose a comm: opening an identifier that is open, and dropping
  the target of a comm that is open.
\<close>

section \<open>State\<close>

text \<open>The lambdas given to the comm manager.\<close>

datatype comm_fun = Open_Target string | Route_Message string | Route_Close string

text \<open>\<open>Entry\<close>; a handler is \<open>None\<close> while it is empty.\<close>

record 'r entry =
  e_comm :: addr
  e_description :: string
  e_onMessage :: "'r option"
  e_onClose :: "'r option"

record 'r RComms = "comm_fun manager" +
  openComms :: "(string \<times> 'r entry) list"
  closedComms :: "'r entry list"
  targetCallbacks :: "(string \<times> 'r option) list"
  preserved :: "'r multiset"
  r_calls :: "('r \<times> sexp list) list"

definition new_RComms :: "json option \<Rightarrow> 'r RComms" where
  "new_RComms krn = manager.extend (CommManager krn)
     \<lparr>openComms = [], closedComms = [], targetCallbacks = [], preserved = {#}, r_calls = []\<rparr>"

definition opt_mset :: "'r option \<Rightarrow> 'r multiset" where
  "opt_mset v = (case v of None \<Rightarrow> {#} | Some x \<Rightarrow> {#x#})"

text \<open>\<open>Preserved::set\<close>.\<close>

definition set_preserved :: "'r option \<Rightarrow> 'r option \<Rightarrow> 'r RComms \<Rightarrow> 'r RComms" where
  "set_preserved old new s = s\<lparr>preserved := preserved s - opt_mset old + opt_mset new\<rparr>"

fun erase_key :: "string \<Rightarrow> (string \<times> 'v) list \<Rightarrow> (string \<times> 'v) list" where
  "erase_key k [] = []"
| "erase_key k (e # es) = (if fst e = k then es else e # erase_key k es)"

text \<open>The end of an entry: its handlers are released and its comm is destroyed.\<close>

definition destroy_entry :: "'r entry \<Rightarrow> 'r RComms \<Rightarrow> 'r RComms result" where
  "destroy_entry e s = destroy_Comm (e_comm e) (set_preserved (e_onMessage e) None (set_preserved (e_onClose e) None s))"

fun destroy_entries :: "'r entry list \<Rightarrow> 'r RComms \<Rightarrow> 'r RComms result" where
  "destroy_entries [] s = Inr s"
| "destroy_entries (e # es) s = rbind (destroy_entry e s) (destroy_entries es)"

definition reapClosed :: "'r RComms \<Rightarrow> 'r RComms result" where
  "reapClosed s = destroy_entries (closedComms s) (s\<lparr>closedComms := []\<rparr>)"

section \<open>R values\<close>

definition sexp_text :: "sexp \<Rightarrow> string" where
  "sexp_text x = (case x of StrV (Some t # _) _ \<Rightarrow> t | _ \<Rightarrow> [])"

definition mkStringUtf8 :: "string \<Rightarrow> sexp result" where
  "mkStringUtf8 t = rbind (mkCharUtf8 t) (\<lambda>t. Inr (StrV [Some t] no_attribs))"

definition commObject :: "string \<Rightarrow> sexp result" where
  "commObject cid = rbind (mkCharUtf8 cid) (\<lambda>t. Inr (StrV [Some t] (no_attribs\<lparr>at_class := [''Comm'']\<rparr>)))"

definition raw_buffer :: "binary_buffer \<Rightarrow> sexp" where
  "raw_buffer b = RawV (map (\<lambda>c. word_of_nat (of_char c)) b) no_attribs"

definition messageObject :: "(int \<Rightarrow> int \<Rightarrow> string) \<Rightarrow> message \<Rightarrow> sexp result" where
  "messageObject print m =
     rbind (jsonToSexp print (m_content m)) (\<lambda>c.
     rbind (jsonToSexp print (m_header m)) (\<lambda>h.
     rbind (jsonToSexp print (m_parentHeader m)) (\<lambda>p.
     rbind (jsonToSexp print (m_metadata m)) (\<lambda>d.
     Inr (VecV [c, h, p, d, VecV (map raw_buffer (m_buffers m)) no_attribs]
       (no_attribs\<lparr>at_names := Some [''content'', ''header'', ''parent_header'', ''metadata'', ''buffers''],
         at_class := [''Message'']\<rparr>))))))"

fun buffersOf :: "sexp \<Rightarrow> binary_buffer list" where
  "buffersOf (VecV xs _) = concat (map (\<lambda>x. case x of RawV bs _ \<Rightarrow> [map (\<lambda>b. char_of (unat b)) bs] | _ \<Rightarrow> []) xs)"
| "buffersOf _ = []"

definition metadataOf :: "(string \<Rightarrow> json) \<Rightarrow> sexp \<Rightarrow> json result" where
  "metadataOf parse x = (if x = NilValue then Inr (JObject []) else sexpToJson parse False x)"

definition dataOf :: "(string \<Rightarrow> json) \<Rightarrow> sexp \<Rightarrow> json result" where
  "dataOf parse x = sexpToJson parse False x"

section \<open>Messages from the front end\<close>

text \<open>What R code does to the state when one of its functions is run; an error in it is logged and no more.\<close>

type_synonym 'r evaluator = "'r \<Rightarrow> sexp list \<Rightarrow> 'r RComms \<Rightarrow> 'r RComms"

definition call :: "'r evaluator \<Rightarrow> 'r option \<Rightarrow> sexp list \<Rightarrow> 'r RComms \<Rightarrow> 'r RComms" where
  "call eval fn args s = (case fn of None \<Rightarrow> s | Some f \<Rightarrow> eval f args (s\<lparr>r_calls := r_calls s @ [(f, args)]\<rparr>))"

definition route_message :: "(int \<Rightarrow> int \<Rightarrow> string) \<Rightarrow> 'r evaluator \<Rightarrow> string \<Rightarrow> message \<Rightarrow> 'r RComms \<Rightarrow> exn option \<times> 'r RComms" where
  "route_message print eval cid m s =
     (case map_of (openComms s) cid of
        None \<Rightarrow> (None, s)
      | Some e \<Rightarrow>
          if e_onMessage e = None then (None, s)
          else case messageObject print m of
                 Inl x \<Rightarrow> (Some x, s)
               | Inr arg \<Rightarrow> (None, call eval (e_onMessage e) [arg] s))"

text \<open>\<open>onClose\<close>: the entry leaves the map before its handler runs, and is kept until later, since this runs inside the
  comm's own \<open>handleClose\<close>.\<close>

definition close_entry :: "'r entry \<Rightarrow> 'r RComms \<Rightarrow> 'r RComms" where
  "close_entry e s =
     (let s = set_preserved (e_onClose e) None (set_preserved (e_onMessage e) None s)
      in s\<lparr>closedComms := closedComms s @ [e\<lparr>e_onMessage := None, e_onClose := None\<rparr>]\<rparr>)"

definition route_close :: "(int \<Rightarrow> int \<Rightarrow> string) \<Rightarrow> 'r evaluator \<Rightarrow> string \<Rightarrow> message \<Rightarrow> 'r RComms \<Rightarrow> exn option \<times> 'r RComms" where
  "route_close print eval cid m s =
     (case map_of (openComms s) cid of
        None \<Rightarrow> (None, s)
      | Some e \<Rightarrow>
          let s = s\<lparr>openComms := erase_key cid (openComms s)\<rparr>
          in if e_onClose e = None then (None, close_entry e s)
             else case messageObject print m of
                    Inl x \<Rightarrow> (Some x, s)
                  | Inr arg \<Rightarrow> (None, close_entry e (call eval (e_onClose e) [arg] s)))"

text \<open>\<open>keep\<close>: an entry that was open under the same identifier is destroyed.\<close>

definition keep_comm :: "addr \<Rightarrow> string \<Rightarrow> 'r RComms \<Rightarrow> (string \<times> 'r RComms) result" where
  "keep_comm a description s =
     rbind (use_object a s) (\<lambda>c.
     let cid = m_id c; e = \<lparr>e_comm = a, e_description = description, e_onMessage = None, e_onClose = None\<rparr>
     in rbind (onMessage (Route_Message cid) a s) (\<lambda>s.
        rbind (onClose (Route_Close cid) a s) (\<lambda>s.
        let old = map_of (openComms s) cid; s = s\<lparr>openComms := obj_put cid e (openComms s)\<rparr>
        in case old of None \<Rightarrow> Inr (cid, s) | Some o' \<Rightarrow> rbind (destroy_entry o' s) (\<lambda>s. Inr (cid, s)))))"

text \<open>The callback of a target: the comm is moved to an object of its own (at \<open>a\<close>) and handed to R.\<close>

definition open_target ::
  "(int \<Rightarrow> int \<Rightarrow> string) \<Rightarrow> 'r evaluator \<Rightarrow> ('r RComms \<Rightarrow> addr) \<Rightarrow> string \<Rightarrow> addr \<Rightarrow> message \<Rightarrow> 'r RComms \<Rightarrow> exn option \<times> 'r RComms" where
  "open_target print eval alloc target local m s =
     (case rbind (move_Comm (alloc s) local s) (keep_comm (alloc s) []) of
        Inl x \<Rightarrow> (Some x, s)
      | Inr (cid, s) \<Rightarrow>
          (case map_of (targetCallbacks s) target of
             None \<Rightarrow> (None, s)
           | Some fn \<Rightarrow>
               (case rbind (commObject cid) (\<lambda>c. rbind (messageObject print m) (\<lambda>arg. Inr [c, arg])) of
                  Inl x \<Rightarrow> (Some x, s)
                | Inr args \<Rightarrow> (None, call eval fn args s))))"

fun run_comm :: "(int \<Rightarrow> int \<Rightarrow> string) \<Rightarrow> 'r evaluator \<Rightarrow> ('r RComms \<Rightarrow> addr) \<Rightarrow> comm_fun \<Rightarrow> addr \<Rightarrow> message \<Rightarrow> 'r RComms \<Rightarrow> exn option \<times> 'r RComms" where
  "run_comm print eval alloc (Open_Target target) a m s = open_target print eval alloc target a m s"
| "run_comm print eval alloc (Route_Message cid) a m s = route_message print eval cid m s"
| "run_comm print eval alloc (Route_Close cid) a m s = route_close print eval cid m s"

section \<open>What R code can do\<close>

definition registerTarget :: "addr \<Rightarrow> string \<Rightarrow> 'r option \<Rightarrow> 'r RComms \<Rightarrow> 'r RComms result" where
  "registerTarget node target callback s =
     rbind (reapClosed s) (\<lambda>s.
       let old = (case map_of (targetCallbacks s) target of None \<Rightarrow> None | Some f \<Rightarrow> f);
           s = set_preserved old None (set_preserved None callback s)
       in Inr (registerCommTarget node target (Open_Target target) (s\<lparr>targetCallbacks := obj_put target callback (targetCallbacks s)\<rparr>)))"

definition unregisterTarget :: "string \<Rightarrow> 'r RComms \<Rightarrow> 'r RComms result" where
  "unregisterTarget target s =
     rbind (reapClosed s) (\<lambda>s.
       let s = unregisterCommTarget target s;
           old = (case map_of (targetCallbacks s) target of None \<Rightarrow> None | Some f \<Rightarrow> f)
       in Inr (set_preserved old None (s\<lparr>targetCallbacks := erase_key target (targetCallbacks s)\<rparr>)))"

definition targetCallback :: "string \<Rightarrow> 'r RComms \<Rightarrow> 'r option" where
  "targetCallback target s = (case map_of (targetCallbacks s) target of None \<Rightarrow> None | Some f \<Rightarrow> f)"

definition newComm :: "addr \<Rightarrow> guid \<Rightarrow> string \<Rightarrow> string \<Rightarrow> 'r RComms \<Rightarrow> (string option \<times> 'r RComms) result" where
  "newComm a fresh target description s =
     rbind (reapClosed s) (\<lambda>s.
       case m_targets s target of
         None \<Rightarrow> Inr (None, s)
       | Some p \<Rightarrow> rbind (new_Comm a (Some p) fresh s) (\<lambda>s.
           rbind (keep_comm a description s) (\<lambda>(cid, s). Inr (Some cid, s))))"

definition list_comms :: "'r RComms \<Rightarrow> (string list \<times> 'r RComms) result" where
  "list_comms s = rbind (reapClosed s) (\<lambda>s. Inr (map fst (openComms s), s))"

definition targetName :: "string \<Rightarrow> 'r RComms \<Rightarrow> string option result" where
  "targetName cid s =
     (case map_of (openComms s) cid of
        None \<Rightarrow> Inr None
      | Some e \<Rightarrow> rbind (use_object (e_comm e) s) (\<lambda>c. rbind (use_target (p_target c) s) (\<lambda>t. Inr (Some (t_name t)))))"

definition description_of :: "string \<Rightarrow> 'r RComms \<Rightarrow> string option" where
  "description_of cid s = map_option e_description (map_of (openComms s) cid)"

text \<open>\<open>comm$open\<close>, \<open>comm$send\<close>, \<open>comm$close\<close>; \<open>False\<close> for a comm that is not open.\<close>

definition comm_parts :: "(string \<Rightarrow> json) \<Rightarrow> sexp \<Rightarrow> sexp \<Rightarrow> (json \<times> json) result" where
  "comm_parts parse data metadata = rbind (metadataOf parse metadata) (\<lambda>md. rbind (dataOf parse data) (\<lambda>d. Inr (md, d)))"

definition r_open :: "(string \<Rightarrow> json) \<Rightarrow> string \<Rightarrow> sexp \<Rightarrow> sexp \<Rightarrow> sexp \<Rightarrow> 'r RComms \<Rightarrow> (bool \<times> 'r RComms) result" where
  "r_open parse cid data metadata buffers s =
     (case map_of (openComms s) cid of
        None \<Rightarrow> Inr (False, s)
      | Some e \<Rightarrow> rbind (comm_parts parse data metadata) (\<lambda>(md, d).
          rbind (comm_open md d (buffersOf buffers) (e_comm e) s) (\<lambda>s. Inr (True, s))))"

definition r_send :: "(string \<Rightarrow> json) \<Rightarrow> string \<Rightarrow> sexp \<Rightarrow> sexp \<Rightarrow> sexp \<Rightarrow> 'r RComms \<Rightarrow> (bool \<times> 'r RComms) result" where
  "r_send parse cid data metadata buffers s =
     (case map_of (openComms s) cid of
        None \<Rightarrow> Inr (False, s)
      | Some e \<Rightarrow> rbind (comm_parts parse data metadata) (\<lambda>(md, d).
          rbind (comm_send md d (buffersOf buffers) (e_comm e) s) (\<lambda>s. Inr (True, s))))"

definition r_close :: "(string \<Rightarrow> json) \<Rightarrow> string \<Rightarrow> sexp \<Rightarrow> sexp \<Rightarrow> sexp \<Rightarrow> 'r RComms \<Rightarrow> (bool \<times> 'r RComms) result" where
  "r_close parse cid data metadata buffers s =
     rbind (reapClosed s) (\<lambda>s.
       case map_of (openComms s) cid of
         None \<Rightarrow> Inr (False, s)
       | Some e \<Rightarrow> rbind (comm_parts parse data metadata) (\<lambda>(md, d).
           rbind (comm_close md d (buffersOf buffers) (e_comm e) s) (\<lambda>s.
           rbind (destroy_entry e (s\<lparr>openComms := erase_key cid (openComms s)\<rparr>)) (\<lambda>s. Inr (True, s)))))"

definition setOnMessage :: "string \<Rightarrow> 'r option \<Rightarrow> 'r RComms \<Rightarrow> bool \<times> 'r RComms" where
  "setOnMessage cid handler s =
     (case map_of (openComms s) cid of
        None \<Rightarrow> (False, s)
      | Some e \<Rightarrow> (True, set_preserved (e_onMessage e) handler
          (s\<lparr>openComms := obj_put cid (e\<lparr>e_onMessage := handler\<rparr>) (openComms s)\<rparr>)))"

definition setOnClose :: "string \<Rightarrow> 'r option \<Rightarrow> 'r RComms \<Rightarrow> bool \<times> 'r RComms" where
  "setOnClose cid handler s =
     (case map_of (openComms s) cid of
        None \<Rightarrow> (False, s)
      | Some e \<Rightarrow> (True, set_preserved (e_onClose e) handler
          (s\<lparr>openComms := obj_put cid (e\<lparr>e_onClose := handler\<rparr>) (openComms s)\<rparr>)))"

section \<open>R's functions stay preserved\<close>

definition entry_mset :: "'r entry \<Rightarrow> 'r multiset" where
  "entry_mset e = opt_mset (e_onMessage e) + opt_mset (e_onClose e)"

definition kept :: "('v \<Rightarrow> 'r multiset) \<Rightarrow> (string \<times> 'v) list \<Rightarrow> 'r multiset" where
  "kept f es = sum_list (map (\<lambda>e. f (snd e)) es)"

definition found :: "('v \<Rightarrow> 'r multiset) \<Rightarrow> 'v option \<Rightarrow> 'r multiset" where
  "found f v = (case v of None \<Rightarrow> {#} | Some x \<Rightarrow> f x)"

lemma kept_simps [simp]: "kept f [] = {#}" "kept f (e # es) = f (snd e) + kept f es"
  by (simp_all add: kept_def)

lemma found_simps [simp]: "found f None = {#}" "found f (Some x) = f x"
  by (simp_all add: found_def)

lemma opt_mset_simps [simp]: "opt_mset None = {#}" "opt_mset (Some x) = {#x#}"
  by (simp_all add: opt_mset_def)

lemma kept_erase: "kept f (erase_key k es) + found f (map_of es k) = kept f es"
  by (induction es) (auto simp: ac_simps)

lemma kept_put:
  assumes "keys_ordered es"
  shows "kept f (obj_put k v es) + found f (map_of es k) = kept f es + f v"
  using assms
proof (induction es)
  case (Cons e es)
  have "map_of es k = None" if "k < fst e" using that Cons.prems by (force simp: keys_ordered_def map_of_eq_None_iff)
  then show ?case using Cons by (auto simp: keys_ordered_def ac_simps)
qed simp

lemma erase_key_ordered: "keys_ordered es \<Longrightarrow> keys_ordered (erase_key k es)"
proof (induction es)
  case (Cons e es)
  have "set (erase_key k es) \<subseteq> set es" by (induction es) auto
  with Cons show ?case by (auto simp: keys_ordered_def)
qed simp

text \<open>The functions in use, and the invariant: the maps are in key order and what is in use is preserved, besides
  anything else (\<open>X\<close>) that is held elsewhere for the time being.\<close>

definition held_functions :: "'r RComms \<Rightarrow> 'r multiset" where
  "held_functions s = kept entry_mset (openComms s) + sum_list (map entry_mset (closedComms s)) + kept opt_mset (targetCallbacks s)"

definition comms_inv :: "'r multiset \<Rightarrow> 'r RComms \<Rightarrow> bool" where
  "comms_inv X s \<longleftrightarrow> keys_ordered (openComms s) \<and> keys_ordered (targetCallbacks s) \<and> held_functions s + X \<subseteq># preserved s"

text \<open>The comm manager does not touch what is kept here.\<close>

definition r_part :: "'r RComms \<Rightarrow> (string \<times> 'r entry) list \<times> 'r entry list \<times> (string \<times> 'r option) list \<times> 'r multiset \<times> ('r \<times> sexp list) list" where
  "r_part s = (openComms s, closedComms s, targetCallbacks s, preserved s, r_calls s)"

lemma r_part_inv: "r_part s' = r_part s \<Longrightarrow> comms_inv X s' = comms_inv X s"
  by (simp add: r_part_def comms_inv_def held_functions_def)

lemma r_part_update [simp]:
  "r_part (s\<lparr>m_comms := a\<rparr>) = r_part s" "r_part (s\<lparr>m_targets := b\<rparr>) = r_part s" "r_part (s\<lparr>targets := c\<rparr>) = r_part s"
  "r_part (s\<lparr>objects := d\<rparr>) = r_part s" "r_part (s\<lparr>published := e\<rparr>) = r_part s"
  by (simp_all add: r_part_def)

lemma r_part_ops:
  "destroy_Comm a s = Inr s' \<Longrightarrow> r_part s' = r_part s"
  "new_Comm a t cid s = Inr s' \<Longrightarrow> r_part s' = r_part s"
  "move_Comm a b s = Inr s' \<Longrightarrow> r_part s' = r_part s"
  "onMessage f a s = Inr s' \<Longrightarrow> r_part s' = r_part s"
  "onClose f a s = Inr s' \<Longrightarrow> r_part s' = r_part s"
  "r_part (publish p s) = r_part s"
  "r_part (unregisterComm cid s) = r_part s"
  "r_part (registerCommTarget node name g s) = r_part s"
  "r_part (unregisterCommTarget name s) = r_part s"
  by (auto simp: comm_ops publish_def registerCommTarget_def unregisterCommTarget_def Let_def result_simps
      split: option.splits if_splits)

lemma r_part_send: "sendCommMessage ty md dt bs tn a s = Inr s' \<Longrightarrow> r_part s' = r_part s"
  by (auto simp: sendCommMessage_def result_simps Let_def r_part_ops(6) split: option.splits)

lemma set_preserved_inv:
  assumes "comms_inv (opt_mset old + X) s"
  shows "comms_inv (opt_mset new + X) (set_preserved old new s)"
proof -
  have "held_functions s + X + opt_mset old \<subseteq># preserved s" using assms by (simp add: comms_inv_def ac_simps)
  then obtain D where "preserved s = held_functions s + X + opt_mset old + D" by (auto simp: mset_subset_eq_exists_conv)
  then have "held_functions s + X \<subseteq># preserved s - opt_mset old" by (simp add: ac_simps)
  then have "held_functions s + X + opt_mset new \<subseteq># preserved s - opt_mset old + opt_mset new" by (rule subset_mset.add_right_mono)
  then show ?thesis using assms by (simp add: comms_inv_def set_preserved_def held_functions_def ac_simps)
qed

lemma release_inv: "comms_inv (opt_mset old + X) s \<Longrightarrow> comms_inv X (set_preserved old None s)"
  using set_preserved_inv [of old X s None] by simp

lemma destroy_entry_inv:
  assumes "comms_inv (entry_mset e + X) s" "destroy_entry e s = Inr s'"
  shows "comms_inv X s'"
proof -
  have "comms_inv X (set_preserved (e_onMessage e) None (set_preserved (e_onClose e) None s))"
    using assms(1) by (intro release_inv) (simp add: entry_mset_def ac_simps)
  with r_part_inv [OF r_part_ops(1) [OF assms(2) [unfolded destroy_entry_def]]] show ?thesis by blast
qed

lemma destroy_entries_inv:
  "comms_inv (sum_list (map entry_mset es) + X) s \<Longrightarrow> destroy_entries es s = Inr s' \<Longrightarrow> comms_inv X s'"
proof (induction es arbitrary: s)
  case (Cons e es)
  then obtain t where t: "destroy_entry e s = Inr t" "destroy_entries es t = Inr s'" by (auto simp: result_simps)
  have "comms_inv (sum_list (map entry_mset es) + X) t"
    using Cons.prems(1) by (intro destroy_entry_inv [OF _ t(1)]) (simp add: ac_simps)
  then show ?case using Cons.IH t(2) by blast
qed simp

lemma reap_inv:
  assumes "comms_inv X s" "reapClosed s = Inr s'"
  shows "comms_inv X s'"
proof -
  have "comms_inv (sum_list (map entry_mset (closedComms s)) + X) (s\<lparr>closedComms := []\<rparr>)"
    using assms(1) by (simp add: comms_inv_def held_functions_def ac_simps)
  then show ?thesis using destroy_entries_inv assms(2) by (fastforce simp: reapClosed_def)
qed

text \<open>Changes of the two maps.\<close>

lemma comms_inv_moved:
  assumes "comms_inv X s" "held_functions s' + Y = held_functions s + X" "preserved s' = preserved s"
    and "keys_ordered (openComms s')" "keys_ordered (targetCallbacks s')"
  shows "comms_inv Y s'"
  using assms(1) unfolding comms_inv_def assms(2,3) using assms(4,5) by blast

lemma open_put_inv:
  assumes "comms_inv (entry_mset e + X) s"
  shows "comms_inv (found entry_mset (map_of (openComms s) cid) + X) (s\<lparr>openComms := obj_put cid e (openComms s)\<rparr>)"
proof (rule comms_inv_moved [OF assms])
  have o: "keys_ordered (openComms s)" "keys_ordered (targetCallbacks s)" using assms by (simp_all add: comms_inv_def)
  show "held_functions (s\<lparr>openComms := obj_put cid e (openComms s)\<rparr>) + (found entry_mset (map_of (openComms s) cid) + X)
      = held_functions s + (entry_mset e + X)"
    using kept_put [OF o(1), of entry_mset cid e] by (simp add: held_functions_def ac_simps)
qed (use assms obj_put_ordered in \<open>auto simp: comms_inv_def\<close>)

lemma open_erase_inv:
  assumes "comms_inv X s"
  shows "comms_inv (found entry_mset (map_of (openComms s) cid) + X) (s\<lparr>openComms := erase_key cid (openComms s)\<rparr>)"
  by (rule comms_inv_moved [OF assms])
    (use kept_erase [of entry_mset cid "openComms s"] assms erase_key_ordered in \<open>auto simp: held_functions_def comms_inv_def ac_simps\<close>)

lemma target_put_inv:
  assumes "comms_inv (opt_mset f + X) s"
  shows "comms_inv (found opt_mset (map_of (targetCallbacks s) t) + X) (s\<lparr>targetCallbacks := obj_put t f (targetCallbacks s)\<rparr>)"
proof (rule comms_inv_moved [OF assms])
  have o: "keys_ordered (targetCallbacks s)" using assms by (simp add: comms_inv_def)
  show "held_functions (s\<lparr>targetCallbacks := obj_put t f (targetCallbacks s)\<rparr>) + (found opt_mset (map_of (targetCallbacks s) t) + X)
      = held_functions s + (opt_mset f + X)"
    using kept_put [OF o, of opt_mset t f] by (simp add: held_functions_def ac_simps)
qed (use assms obj_put_ordered in \<open>auto simp: comms_inv_def\<close>)

lemma target_erase_inv:
  assumes "comms_inv X s"
  shows "comms_inv (found opt_mset (map_of (targetCallbacks s) t) + X) (s\<lparr>targetCallbacks := erase_key t (targetCallbacks s)\<rparr>)"
  by (rule comms_inv_moved [OF assms])
    (use kept_erase [of opt_mset t "targetCallbacks s"] assms erase_key_ordered in \<open>auto simp: held_functions_def comms_inv_def ac_simps\<close>)

lemma set_preserved_fields [simp]:
  "openComms (set_preserved a b s) = openComms s" "targetCallbacks (set_preserved a b s) = targetCallbacks s"
  "(set_preserved a b s)\<lparr>openComms := x\<rparr> = set_preserved a b (s\<lparr>openComms := x\<rparr>)"
  "(set_preserved a b s)\<lparr>targetCallbacks := y\<rparr> = set_preserved a b (s\<lparr>targetCallbacks := y\<rparr>)"
  by (simp_all add: set_preserved_def)

lemma preserve_inv: "comms_inv X s \<Longrightarrow> comms_inv (opt_mset new + X) (set_preserved None new s)"
  using set_preserved_inv [of None X s new] by simp

text \<open>A handler that is replaced.\<close>

lemma put_inv: "r_part s' = r_part s \<Longrightarrow> comms_inv X s \<Longrightarrow> comms_inv X s'"
  using r_part_inv by blast

lemma keep_inv:
  assumes inv: "comms_inv X s" and k: "keep_comm a d s = Inr (cid, s')"
  shows "comms_inv X s'"
proof -
  let ?e = "\<lparr>e_comm = a, e_description = d, e_onMessage = None, e_onClose = None\<rparr>"
  obtain s1 s2 where s: "onMessage (Route_Message cid) a s = Inr s1" "onClose (Route_Close cid) a s1 = Inr s2"
    "(case map_of (openComms s2) cid of None \<Rightarrow> Inr (cid, s2\<lparr>openComms := obj_put cid ?e (openComms s2)\<rparr>)
      | Some o' \<Rightarrow> rbind (destroy_entry o' (s2\<lparr>openComms := obj_put cid ?e (openComms s2)\<rparr>)) (\<lambda>s. Inr (cid, s))) = Inr (cid, s')"
    using k by (auto simp: keep_comm_def Let_def result_simps split: option.splits)
  have "comms_inv X s2" using inv r_part_ops(4) [OF s(1)] r_part_ops(5) [OF s(2)] put_inv by metis
  then have "comms_inv (entry_mset ?e + X) s2" by (simp add: entry_mset_def)
  from open_put_inv [OF this, of cid] s(3) show ?thesis
    by (cases "map_of (openComms s2) cid") (auto simp: result_simps intro: destroy_entry_inv)
qed

lemma registerTarget_inv:
  assumes inv: "comms_inv X s" and r: "registerTarget node t f s = Inr s'"
  shows "comms_inv X s'"
proof -
  obtain s1 where s1: "reapClosed s = Inr s1" using r by (auto simp: registerTarget_def result_simps)
  let ?old = "case map_of (targetCallbacks s1) t of None \<Rightarrow> None | Some f \<Rightarrow> f"
  have old: "opt_mset ?old = found opt_mset (map_of (targetCallbacks s1) t)" by (simp split: option.split)
  have "comms_inv (found opt_mset (map_of (targetCallbacks s1) t) + X)
      (set_preserved None f (s1\<lparr>targetCallbacks := obj_put t f (targetCallbacks s1)\<rparr>))"
    using target_put_inv [OF preserve_inv [OF reap_inv [OF inv s1]], of f t] by simp
  then have "comms_inv X (set_preserved ?old None (set_preserved None f (s1\<lparr>targetCallbacks := obj_put t f (targetCallbacks s1)\<rparr>)))"
    by (intro release_inv) (simp add: old)
  moreover have "s' = registerCommTarget node t (Open_Target t)
      (set_preserved ?old None (set_preserved None f (s1\<lparr>targetCallbacks := obj_put t f (targetCallbacks s1)\<rparr>)))"
    using r by (simp add: registerTarget_def s1 Let_def)
  ultimately show ?thesis using r_part_ops(8) put_inv by blast
qed

lemma unregisterTarget_inv:
  assumes inv: "comms_inv X s" and r: "unregisterTarget t s = Inr s'"
  shows "comms_inv X s'"
proof -
  obtain s1 where s1: "reapClosed s = Inr s1" using r by (auto simp: unregisterTarget_def result_simps)
  let ?s = "unregisterCommTarget t s1"
  let ?old = "case map_of (targetCallbacks ?s) t of None \<Rightarrow> None | Some f \<Rightarrow> f"
  have old: "opt_mset ?old = found opt_mset (map_of (targetCallbacks ?s) t)" by (simp split: option.split)
  have "comms_inv X ?s" by (rule put_inv [OF r_part_ops(9) reap_inv [OF inv s1]])
  from target_erase_inv [OF this, of t] have
    "comms_inv X (set_preserved ?old None (?s\<lparr>targetCallbacks := erase_key t (targetCallbacks ?s)\<rparr>))"
    by (intro release_inv) (simp add: old)
  then show ?thesis using r by (simp add: unregisterTarget_def s1 Let_def)
qed

lemma send_ops_r_part:
  "comm_open md d bs a s = Inr s' \<Longrightarrow> r_part s' = r_part s" "comm_send md d bs a s = Inr s' \<Longrightarrow> r_part s' = r_part s"
  "comm_close md d bs a s = Inr s' \<Longrightarrow> r_part s' = r_part s"
  by (auto simp: comm_open_def comm_send_def comm_close_def result_simps dest: r_part_send)

lemma newComm_inv:
  assumes inv: "comms_inv X s" and r: "newComm a fresh t d s = Inr (r, s')"
  shows "comms_inv X s'"
proof -
  obtain s1 where s1: "reapClosed s = Inr s1" using r by (auto simp: newComm_def result_simps)
  have inv1: "comms_inv X s1" by (rule reap_inv [OF inv s1])
  show ?thesis
  proof (cases "m_targets s1 t")
    case None
    then show ?thesis using r inv1 by (simp add: newComm_def s1)
  next
    case (Some p)
    then obtain s2 cid where "new_Comm a (Some p) fresh s1 = Inr s2" "keep_comm a d s2 = Inr (cid, s')"
      using r by (auto simp: newComm_def s1 result_simps)
    then show ?thesis using keep_inv put_inv [OF r_part_ops(2) inv1] by blast
  qed
qed

lemma r_open_inv: "comms_inv X s \<Longrightarrow> r_open parse cid d m b s = Inr (r, s') \<Longrightarrow> comms_inv X s'"
  by (auto simp: r_open_def result_simps split: option.splits dest!: send_ops_r_part intro: put_inv)

lemma r_send_inv: "comms_inv X s \<Longrightarrow> r_send parse cid d m b s = Inr (r, s') \<Longrightarrow> comms_inv X s'"
  by (auto simp: r_send_def result_simps split: option.splits dest!: send_ops_r_part intro: put_inv)

lemma r_close_inv:
  assumes inv: "comms_inv X s" and r: "r_close parse cid d m b s = Inr (ok, s')"
  shows "comms_inv X s'"
proof -
  obtain s1 where s1: "reapClosed s = Inr s1" using r by (auto simp: r_close_def result_simps)
  have inv1: "comms_inv X s1" by (rule reap_inv [OF inv s1])
  show ?thesis
  proof (cases "map_of (openComms s1) cid")
    case None
    then show ?thesis using r inv1 by (simp add: r_close_def s1)
  next
    case (Some e)
    then obtain md dt s2 where s2: "comm_close md dt (buffersOf b) (e_comm e) s1 = Inr s2"
      "destroy_entry e (s2\<lparr>openComms := erase_key cid (openComms s2)\<rparr>) = Inr s'"
      using r by (auto simp: r_close_def s1 result_simps)
    have rp: "r_part s2 = r_part s1" by (rule send_ops_r_part(3) [OF s2(1)])
    then have "map_of (openComms s2) cid = Some e" "comms_inv X s2" using Some inv1 put_inv by (auto simp: r_part_def)
    then show ?thesis using open_erase_inv [of X s2 cid] destroy_entry_inv [OF _ s2(2)] by simp
  qed
qed

lemma replaced_inv:
  assumes inv: "comms_inv X s" and e: "map_of (openComms s) cid = Some e"
    and new: "entry_mset e' + opt_mset old = entry_mset e + opt_mset h" and old: "opt_mset old \<subseteq># entry_mset e"
  shows "comms_inv X (set_preserved old h (s\<lparr>openComms := obj_put cid e' (openComms s)\<rparr>))"
proof -
  let ?s1 = "set_preserved None h s" let ?s2 = "?s1\<lparr>openComms := obj_put cid e' (openComms ?s1)\<rparr>"
  have inv1: "comms_inv (opt_mset h + X) ?s1" by (rule preserve_inv [OF inv])
  have "keys_ordered (openComms s)" using inv by (simp add: comms_inv_def)
  from kept_put [OF this, of entry_mset cid e'] e
  have k: "kept entry_mset (obj_put cid e' (openComms s)) + entry_mset e = kept entry_mset (openComms s) + entry_mset e'" (is "?k' + _ = ?k + _")
    by simp
  have "?k' + opt_mset old + entry_mset e = (?k' + entry_mset e) + opt_mset old" by (simp only: ac_simps)
  also have "\<dots> = ?k + (entry_mset e' + opt_mset old)" by (simp only: k add.assoc)
  also have "\<dots> = ?k + opt_mset h + entry_mset e" by (simp only: new ac_simps)
  finally have "?k' + opt_mset old + entry_mset e = ?k + opt_mset h + entry_mset e" .
  then have "kept entry_mset (obj_put cid e' (openComms s)) + opt_mset old = kept entry_mset (openComms s) + opt_mset h"
    by (rule add_right_imp_eq)
  then have "held_functions ?s2 + (opt_mset old + X) = held_functions ?s1 + (opt_mset h + X)"
    by (simp add: held_functions_def set_preserved_def ac_simps)
  then have "comms_inv (opt_mset old + X) ?s2"
    using inv obj_put_ordered by (intro comms_inv_moved [OF inv1]) (auto simp: comms_inv_def set_preserved_def)
  then have "comms_inv X (set_preserved old None ?s2)" by (rule release_inv)
  moreover have "entry_mset e + (held_functions (s\<lparr>openComms := erase_key cid (openComms s)\<rparr>) + X) \<subseteq># preserved s"
    using open_erase_inv [OF inv, of cid] e by (simp add: comms_inv_def ac_simps)
  from subset_mset.order_trans [OF old subset_mset.order_trans [OF mset_subset_eq_add_left this]]
  have "preserved s + opt_mset h - opt_mset old = preserved s - opt_mset old + opt_mset h" by (rule subset_mset.diff_add_assoc2)
  then have "set_preserved old None ?s2 = set_preserved old h (s\<lparr>openComms := obj_put cid e' (openComms s)\<rparr>)"
    by (simp add: set_preserved_def)
  ultimately show ?thesis by simp
qed

lemma set_handler_inv: "comms_inv X s \<Longrightarrow> comms_inv X (snd (setOnMessage cid h s))" "comms_inv X s \<Longrightarrow> comms_inv X (snd (setOnClose cid h s))"
  by (auto simp: setOnMessage_def setOnClose_def entry_mset_def ac_simps intro!: replaced_inv split: option.split)

section \<open>Any interleaving\<close>

text \<open>One operation of R code that returns.\<close>

inductive r_step :: "'r RComms \<Rightarrow> 'r RComms \<Rightarrow> bool" where
  register: "registerTarget node t f s = Inr s' \<Longrightarrow> r_step s s'"
| unregister: "unregisterTarget t s = Inr s' \<Longrightarrow> r_step s s'"
| make: "newComm a fresh t d s = Inr (r, s') \<Longrightarrow> r_step s s'"
| listing: "list_comms s = Inr (names, s') \<Longrightarrow> r_step s s'"
| open_it: "r_open parse cid dt md b s = Inr (ok, s') \<Longrightarrow> r_step s s'"
| send_it: "r_send parse cid dt md b s = Inr (ok, s') \<Longrightarrow> r_step s s'"
| close_it: "r_close parse cid dt md b s = Inr (ok, s') \<Longrightarrow> r_step s s'"
| on_message: "r_step s (snd (setOnMessage cid h s))"
| on_close: "r_step s (snd (setOnClose cid h s))"

lemma r_code_inv: "r_step s s' \<Longrightarrow> comms_inv X s \<Longrightarrow> comms_inv X s'"
proof (induction rule: r_step.induct)
  case (listing s names s')
  then show ?case by (auto simp: list_comms_def result_simps intro: reap_inv)
qed (blast intro: registerTarget_inv unregisterTarget_inv newComm_inv r_open_inv r_send_inv r_close_inv set_handler_inv)+

lemma r_codes_inv: "r_step\<^sup>*\<^sup>* s s' \<Longrightarrow> comms_inv X s \<Longrightarrow> comms_inv X s'"
  by (induction rule: rtranclp_induct) (auto intro: r_code_inv)

text \<open>R functions that do no more than that.\<close>

definition by_steps :: "'r evaluator \<Rightarrow> bool" where
  "by_steps eval \<longleftrightarrow> (\<forall>f args s. r_step\<^sup>*\<^sup>* s (eval f args s))"

lemma call_inv:
  assumes "by_steps eval" "comms_inv X s"
  shows "comms_inv X (call eval fn args s)"
proof (cases fn)
  case (Some f)
  have "comms_inv X (s\<lparr>r_calls := r_calls s @ [(f, args)]\<rparr>)" using assms(2) by (simp add: comms_inv_def held_functions_def)
  then show ?thesis using assms(1) r_codes_inv by (fastforce simp: call_def Some by_steps_def)
qed (simp add: call_def assms(2))

lemma route_message_inv: "by_steps eval \<Longrightarrow> comms_inv X s \<Longrightarrow> comms_inv X (snd (route_message print eval cid m s))"
  by (auto simp: route_message_def intro: call_inv split: option.split sum.split)

lemma close_entry_inv:
  assumes "comms_inv (entry_mset e + X) s"
  shows "comms_inv X (close_entry e s)"
proof -
  have "comms_inv X (set_preserved (e_onClose e) None (set_preserved (e_onMessage e) None s))"
    using assms by (intro release_inv) (simp add: entry_mset_def ac_simps)
  then show ?thesis by (simp add: close_entry_def Let_def comms_inv_def held_functions_def entry_mset_def)
qed

lemma more_inv: "comms_inv (Y + X) s \<Longrightarrow> comms_inv X s"
proof -
  have "held_functions s + X \<subseteq># held_functions s + (Y + X)" by simp
  then show "comms_inv (Y + X) s \<Longrightarrow> ?thesis" unfolding comms_inv_def by (blast intro: subset_mset.order_trans)
qed

lemma route_close_inv:
  assumes "by_steps eval" "comms_inv X s"
  shows "comms_inv X (snd (route_close print eval cid m s))"
proof (cases "map_of (openComms s) cid")
  case None
  then show ?thesis using assms(2) by (simp add: route_close_def)
next
  case (Some e)
  let ?s = "s\<lparr>openComms := erase_key cid (openComms s)\<rparr>"
  have "comms_inv (entry_mset e + X) ?s" using open_erase_inv [OF assms(2), of cid] Some by simp
  note i = this call_inv [OF assms(1) this]
  show ?thesis using close_entry_inv [OF i(1)] close_entry_inv [OF i(2)] more_inv [OF i(1)]
    by (simp add: route_close_def Some Let_def split: sum.split)
qed

lemma open_target_inv:
  assumes "by_steps eval" "comms_inv X s"
  shows "comms_inv X (snd (open_target print eval alloc t local m s))"
proof (cases "rbind (move_Comm (alloc s) local s) (keep_comm (alloc s) [])")
  case (Inl x)
  then show ?thesis using assms(2) by (simp add: open_target_def)
next
  case (Inr r)
  then obtain cid s2 s1 where s: "r = (cid, s2)" "move_Comm (alloc s) local s = Inr s1" "keep_comm (alloc s) [] s1 = Inr (cid, s2)"
    by (cases r) (auto simp: result_simps)
  have "comms_inv X s2" by (rule keep_inv [OF put_inv [OF r_part_ops(3) [OF s(2)] assms(2)] s(3)])
  with call_inv [OF assms(1) this] show ?thesis
    unfolding open_target_def Inr s(1) by (simp split: option.split sum.split)
qed

lemma run_comm_inv: "by_steps eval \<Longrightarrow> comms_inv X s \<Longrightarrow> comms_inv X (snd (run_comm print eval alloc f a m s))"
  by (cases f) (simp_all add: route_message_inv route_close_inv open_target_inv)

lemma commOpen_inv:
  assumes "by_steps eval" "comms_inv X s"
  shows "comms_inv X (snd (commOpen (run_comm print eval alloc) local m s))"
proof -
  have run: "comms_inv X t'" if "run_comm print eval alloc f local m t = (e, t')" "comms_inv X t" for f t e t'
    using run_comm_inv [OF assms(1) that(2), of print alloc f local m] that(1) by simp
  show ?thesis
    using assms(2)
    by (auto simp: commOpen_def Let_def result_simps split: sum.splits option.splits prod.splits
        dest!: r_part_ops(1,2) intro: run put_inv [OF r_part_ops(6)])
      (blast intro: run put_inv)+
qed

lemma commMsg_inv:
  "by_steps eval \<Longrightarrow> comms_inv X s \<Longrightarrow> comms_inv X (snd (commMsg (run_comm print eval alloc) m s))"
  by (auto simp: commMsg_def handleMessage_def intro: run_comm_inv split: sum.split option.split)

lemma commClose_inv:
  assumes "by_steps eval" "comms_inv X s"
  shows "comms_inv X (snd (commClose (run_comm print eval alloc) m s))"
proof -
  have run: "comms_inv X t" if "run_comm print eval alloc f a m s = (e, t)" for f a e t
    using run_comm_inv [OF assms, of print alloc f a m] that by simp
  show ?thesis
    using assms(2)
    by (auto simp: commClose_def handleClose_def split: sum.splits option.splits prod.splits
        intro: run put_inv [OF r_part_ops(7)])
qed

text \<open>What happens to the comms: R code between the messages, and messages of the front end that open, close or write
  to a comm, with the callbacks of this file.\<close>

inductive comms_step :: "(int \<Rightarrow> int \<Rightarrow> string) \<Rightarrow> 'r evaluator \<Rightarrow> ('r RComms \<Rightarrow> addr) \<Rightarrow> 'r RComms \<Rightarrow> 'r RComms \<Rightarrow> bool"
  for print eval alloc where
  r_code: "r_step s s' \<Longrightarrow> comms_step print eval alloc s s'"
| front_open: "comms_step print eval alloc s (snd (commOpen (run_comm print eval alloc) local m s))"
| front_message: "comms_step print eval alloc s (snd (commMsg (run_comm print eval alloc) m s))"
| front_close: "comms_step print eval alloc s (snd (commClose (run_comm print eval alloc) m s))"

lemma comms_step_inv: "comms_step print eval alloc s s' \<Longrightarrow> by_steps eval \<Longrightarrow> comms_inv X s \<Longrightarrow> comms_inv X s'"
  by (induction rule: comms_step.induct) (blast intro: r_code_inv commOpen_inv commMsg_inv commClose_inv)+

lemma new_RComms_inv: "comms_inv {#} (new_RComms krn)"
  by (simp add: comms_inv_def held_functions_def new_RComms_def manager.defs CommManager_def keys_ordered_def)

lemma found_in_kept: "map_of es k = Some v \<Longrightarrow> x \<in># f v \<Longrightarrow> x \<in># kept f es"
  by (induction es) (auto split: if_splits)

text \<open>C40. R's functions stay alive as long as they are in use. However R code registers and drops targets, makes,
  lists, uses and closes comms and sets their handlers, and however the front end's messages and the
  callbacks they run come in between (the callbacks doing all of that themselves): every function that
  an open comm, a comm that waits to be destroyed or a target holds is preserved from R's garbage collector,
  as often as it is held. So the function a message of the front end runs is one that is preserved.\<close>

theorem r_functions_stay_preserved:
  assumes "by_steps eval" "(comms_step print eval alloc)\<^sup>*\<^sup>* (new_RComms krn) s"
  shows "held_functions s \<subseteq># preserved s \<and>
    (\<forall>cid e f. map_of (openComms s) cid = Some e \<longrightarrow> e_onMessage e = Some f \<or> e_onClose e = Some f \<longrightarrow> f \<in># preserved s) \<and>
    (\<forall>t f. map_of (targetCallbacks s) t = Some (Some f) \<longrightarrow> f \<in># preserved s)"
proof -
  have "comms_inv {#} s"
    using assms(2)
  proof (induction rule: rtranclp_induct)
    case base
    show ?case by (rule new_RComms_inv)
  next
    case (step s s')
    from comms_step_inv [OF step.hyps(2) assms(1) step.IH] show ?case .
  qed
  then have sub: "held_functions s \<subseteq># preserved s" by (simp add: comms_inv_def)
  note live = mset_subset_eqD [OF sub]
  have "f \<in># preserved s" if "map_of (openComms s) cid = Some e" "e_onMessage e = Some f \<or> e_onClose e = Some f" for cid e f
    by (rule live) (use found_in_kept [OF that(1), of f entry_mset] that(2) in \<open>auto simp: held_functions_def entry_mset_def\<close>)
  moreover have "f \<in># preserved s" if "map_of (targetCallbacks s) t = Some (Some f)" for t f
    by (rule live) (use found_in_kept [OF that, of f opt_mset] in \<open>simp add: held_functions_def\<close>)
  ultimately show ?thesis using sub by blast
qed

theorem r_functions_stay_preserved_witness:
  "case registerTarget 1 ''plot'' (Some (5::nat)) (new_RComms None) of
     Inl _ \<Rightarrow> False | Inr s \<Rightarrow> map_of (targetCallbacks s) ''plot'' = Some (Some 5) \<and> 5 \<in># preserved s"
proof -
  obtain s where s: "registerTarget 1 ''plot'' (Some (5::nat)) (new_RComms None) = Inr s"
    "map_of (targetCallbacks s) ''plot'' = Some (Some 5)"
    by (simp add: registerTarget_def reapClosed_def new_RComms_def manager.defs Let_def set_preserved_def registerCommTarget_def)
  have "by_steps (\<lambda>f args (s :: nat RComms). s)" by (simp add: by_steps_def)
  moreover have "comms_step (\<lambda>_ _. []) (\<lambda>f args s. s) (\<lambda>_. 9) (new_RComms None) s"
    by (rule comms_step.r_code [OF r_step.register [OF s(1)]])
  ultimately show ?thesis using r_functions_stay_preserved [OF _ r_into_rtranclp] s by fastforce
qed

section \<open>A message reaches its handler\<close>

lemma message_reaches_its_handler:
  assumes "required_guid (m_content m) ''comm_id'' = Inr cid" "m_comms s cid = Some a" "objects s a = Some c"
    and "m_messageHandler c = Some (Route_Message cid)" "map_of (openComms s) cid = Some e" "e_onMessage e = Some f"
    and "messageObject print m = Inr arg"
  shows "commMsg (run_comm print eval alloc) m s = (None, eval f [arg] (s\<lparr>r_calls := r_calls s @ [(f, [arg])]\<rparr>))"
  using assms by (simp add: commMsg_def handleMessage_def use_object_def route_message_def call_def)

section \<open>Comms that are lost\<close>

text \<open>A front end that opens an identifier that is open already: the comm that was open is destroyed, and its
  destructor takes the identifier out of the manager's table, under which the new comm had just been put. R
  lists the comm as open, and no message reaches it.\<close>

lemma reopened_comm_is_unreachable:
  assumes "objects s a = Some c" "m_id c = cid" "map_of (openComms s) cid = Some old" "e_comm old \<noteq> a"
    and "objects s (e_comm old) = Some c'" "m_id c' = cid" "m_movedFrom c' = Some False" "targets s (p_target c') = Some t"
  shows "\<exists>s'. keep_comm a d s = Inr (cid, s') \<and> m_comms s' cid = None \<and> map_of (openComms s') cid \<noteq> None"
  using assms by (simp add: keep_comm_def comm_ops Let_def destroy_entry_def set_preserved_def)

text \<open>A target that is dropped while a comm to it is open: its comms keep a pointer to it.\<close>

lemma dropped_target_is_used:
  assumes "closedComms s = []" "m_targets s t = Some p" "map_of (openComms s) cid = Some e"
    and "objects s (e_comm e) = Some c" "p_target c = p" "comm_parts parse dt md = Inr (j, k)"
  shows "\<exists>s'. unregisterTarget t s = Inr s' \<and> r_send parse cid dt md b s' = Inl (Undefined ''use of an erased target'')"
  using assms
  by (simp add: unregisterTarget_def reapClosed_def unregisterCommTarget_def Let_def set_preserved_def r_send_def comm_send_def
      sendCommMessage_def use_object_def use_target_def)

end
