(* ===== verification/Py_Runtime.thy ===== *)
theory Py_Runtime
  imports Utf8 Json
begin

text \<open>
  What the Python kernel sees of Python.

  A Python string is a list of code points (\<open>pystr\<close>), surrogates included; the kernel's strings are UTF-8,
  and the two conversions of \<^verbatim>\<open>native/src/carpo/interpreter_py.cpp\<close> go through C strings, which
  end at the first NUL.

  A piece of Python code that runs is an \<open>act\<close>: it steps on the world of the interpreter, writes, asks
  for input, looks whether a signal is pending, and comes to a result. Between any two of these another
  thread may take the interpreter's lock and run, so an act is what is left to do, and who takes
  the next step is decided outside. An act is finite: code that never ends is not an act.

  Python itself (its compiler, its objects, the modules of its library that the bootstrap imports) is the
  record \<open>python\<close> of such acts.
\<close>

section \<open>Strings\<close>

type_synonym pystr = "nat list"

text \<open>An ASCII literal of the bootstrap.\<close>

definition lit :: "string \<Rightarrow> pystr" where
  "lit t = map of_char t"

text \<open>\<open>PyUnicode_AsUTF8String\<close> fails on a lone surrogate.\<close>

definition to_utf8 :: "pystr \<Rightarrow> byte list option" where
  "to_utf8 s = (if list_all (code_ok 0) s then Some (concat (map utf8_encode s)) else None)"

lemma utf8_encode_not_Nil [simp]: "utf8_encode c \<noteq> []"
  by (simp add: utf8_encode_def)

lemma scalar_nat_shorter: "scalar_nat bs = Some (k, rest) \<Longrightarrow> length rest < length bs"
  using scalar_nat_sound [of bs k rest] by (cases "utf8_encode k") auto

function from_utf8 :: "byte list \<Rightarrow> pystr option" where
  "from_utf8 [] = Some []"
| "from_utf8 (b # bs) =
     (if unat b < 0x20 then map_option ((#) (unat b)) (from_utf8 bs)
      else case scalar_nat (b # bs) of
             None \<Rightarrow> None
           | Some (k, rest) \<Rightarrow> map_option ((#) k) (from_utf8 rest))"
  by pat_completeness auto
termination
  by (relation "measure length") (auto simp: less_Suc_eq_le dest!: scalar_nat_shorter simp del: scalar_nat.simps)

declare from_utf8.simps(2) [simp del]

text \<open>A C string ends at the first NUL.\<close>

definition c_string :: "string \<Rightarrow> string" where
  "c_string t = takeWhile (\<lambda>c. c \<noteq> CHR 0x00) t"

definition pyUnicodeToStdString :: "pystr option \<Rightarrow> string" where
  "pyUnicodeToStdString strObj =
     (case strObj of
        None \<Rightarrow> []
      | Some s \<Rightarrow> (case to_utf8 s of None \<Rightarrow> [] | Some raw \<Rightarrow> c_string (text_of raw)))"

text \<open>\<open>PyUnicode_FromString(t.c_str())\<close>.\<close>

definition PyUnicode_FromString :: "string \<Rightarrow> pystr option" where
  "PyUnicode_FromString t = from_utf8 (bytes_of (c_string t))"

subsection \<open>The conversions are inverse\<close>

lemma code_ok_cases: "code_ok 0 c \<longleftrightarrow> c < 0x20 \<or> printable_scalar c"
  by (auto simp: code_ok_def printable_scalar_def)

lemma from_utf8_encode:
  assumes "code_ok 0 c"
  shows "from_utf8 (utf8_encode c @ bs) = map_option ((#) c) (from_utf8 bs)"
proof (cases "c < 0x20")
  case True
  then show ?thesis by (simp add: utf8_encode_def from_utf8.simps(2) unat_of_nat)
next
  case False
  then have p: "printable_scalar c" using assms by (simp add: code_ok_cases)
  obtain b rest where e: "utf8_encode c = b # rest" by (cases "utf8_encode c") auto
  have "scalar_nat (b # rest @ bs) = Some (c, bs)" using scalar_nat_complete [OF p, of bs] e by simp
  moreover have "\<not> unat b < 0x20" using scalar_nat_complete [OF p, of bs] e by auto
  ultimately show ?thesis by (simp add: e from_utf8.simps(2) del: scalar_nat.simps)
qed

lemma from_to_utf8: "to_utf8 s = Some bs \<Longrightarrow> from_utf8 bs = Some s"
  by (induction s arbitrary: bs) (auto simp: to_utf8_def from_utf8_encode split: if_splits)

lemma to_from_utf8: "from_utf8 bs = Some s \<Longrightarrow> to_utf8 s = Some bs"
proof (induction bs arbitrary: s rule: from_utf8.induct)
  case (2 b bs)
  show ?case
  proof (cases "unat b < 0x20")
    case True
    then obtain t where t: "from_utf8 bs = Some t" "s = unat b # t" using 2(3) by (auto simp: from_utf8.simps(2))
    have "utf8_encode (unat b) = [b]" using True by (simp add: utf8_encode_def)
    then show ?thesis using 2(1) [OF True t(1)] t(2) True by (auto simp: to_utf8_def code_ok_def split: if_splits)
  next
    case False
    then obtain k rest t where k: "scalar_nat (b # bs) = Some (k, rest)" and t: "from_utf8 rest = Some t" "s = k # t"
      using 2(3) by (auto simp: from_utf8.simps(2) split: option.splits simp del: scalar_nat.simps)
    have "printable_scalar k" "b # bs = utf8_encode k @ rest" using scalar_nat_sound [OF k] by simp_all
    then show ?thesis using 2(2) [OF False k refl t(1)] t(2) by (auto simp: to_utf8_def code_ok_cases split: if_splits)
  qed
qed (simp add: to_utf8_def)

lemma from_utf8_iff: "from_utf8 bs = Some s \<longleftrightarrow> to_utf8 s = Some bs"
  using from_to_utf8 to_from_utf8 by blast

text \<open>A text crosses both ways whole if it has no NUL.\<close>

lemma c_string_id: "CHR 0x00 \<notin> set t \<Longrightarrow> c_string t = t"
  by (auto simp: c_string_def takeWhile_eq_all_conv)

lemma PyUnicode_round_trip:
  assumes "PyUnicode_FromString t = Some s"
  shows "pyUnicodeToStdString (Some s) = c_string t"
proof -
  have "to_utf8 s = Some (bytes_of (c_string t))" using assms by (simp add: PyUnicode_FromString_def from_utf8_iff)
  moreover have "c_string (c_string t) = c_string t" by (rule c_string_id) (auto simp: c_string_def dest: set_takeWhileD)
  ultimately show ?thesis by (simp add: pyUnicodeToStdString_def)
qed

text \<open>What follows a NUL is lost.\<close>

lemma c_string_NUL: "c_string (a @ CHR 0x00 # b) = c_string a"
  by (induction a) (simp_all add: c_string_def)

lemma pyUnicode_NUL:
  assumes "list_all (code_ok 0) (s @ 0 # t)"
  shows "pyUnicodeToStdString (Some (s @ 0 # t)) = pyUnicodeToStdString (Some s)"
proof -
  have "to_utf8 s = Some (concat (map utf8_encode s))" "to_utf8 (s @ 0 # t) = Some (concat (map utf8_encode s) @ 0 # concat (map utf8_encode t))"
    using assms by (simp_all add: to_utf8_def utf8_encode_def [of 0])
  moreover have "text_of (a @ 0 # b) = text_of a @ CHR 0x00 # text_of b" for a b by (simp add: text_of_def char_of_def)
  ultimately show ?thesis by (simp add: pyUnicodeToStdString_def c_string_NUL)
qed

section \<open>Acts\<close>

text \<open>What \<open>input()\<close> gets back: a text, the text of an error the kernel had, or bytes that are no text.\<close>

datatype py_answer = Answered pystr | Input_Failed string | Not_Text

datatype ('x, 'w, 'r) act =
    Done 'r
  | Step "'w \<Rightarrow> 'w" "'w \<Rightarrow> ('x, 'w, 'r) act"
  | Emit 'x "('x, 'w, 'r) act"
  | Ask pystr "py_answer \<Rightarrow> ('x, 'w, 'r) act"
  | Poll "bool \<Rightarrow> ('x, 'w, 'r) act"

text \<open>\<open>Poll\<close>: the interpreter looks whether \<open>SIGINT\<close> has arrived, which it does on the main thread only.\<close>

primrec act_bind :: "('x, 'w, 'r) act \<Rightarrow> ('r \<Rightarrow> ('x, 'w, 'q) act) \<Rightarrow> ('x, 'w, 'q) act" where
  "act_bind (Done r) f = f r"
| "act_bind (Step g k) f = Step g (\<lambda>w. act_bind (k w) f)"
| "act_bind (Emit x a) f = Emit x (act_bind a f)"
| "act_bind (Ask p k) f = Ask p (\<lambda>r. act_bind (k r) f)"
| "act_bind (Poll k) f = Poll (\<lambda>b. act_bind (k b) f)"

definition get_world :: "('x, 'w, 'w) act" where
  "get_world = Step id Done"

definition put_world :: "('w \<Rightarrow> 'w) \<Rightarrow> ('x, 'w, unit) act" where
  "put_world g = Step g (\<lambda>_. Done ())"

lemma act_bind_assoc: "act_bind (act_bind a f) g = act_bind a (\<lambda>x. act_bind (f x) g)"
  by (induction a) simp_all

lemma act_bind_Done [simp]: "act_bind a Done = a"
  by (induction a) simp_all

text \<open>What an act can do: the things it emits and the result it comes to, whatever the world, the answers and the
  signals are at its steps.\<close>

inductive trace :: "('x, 'w, 'r) act \<Rightarrow> 'x list \<Rightarrow> 'r \<Rightarrow> bool" where
  trace_Done: "trace (Done r) [] r"
| trace_Step: "trace (k w) xs r \<Longrightarrow> trace (Step g k) xs r"
| trace_Emit: "trace a xs r \<Longrightarrow> trace (Emit x a) (x # xs) r"
| trace_Ask: "trace (k answer) xs r \<Longrightarrow> trace (Ask p k) xs r"
| trace_Poll: "trace (k b) xs r \<Longrightarrow> trace (Poll k) xs r"

inductive_simps trace_simps [simp]:
  "trace (Done r) xs q"
  "trace (Step g k) xs q"
  "trace (Emit x a) xs q"
  "trace (Ask p k) xs q"
  "trace (Poll k) xs q"

lemma trace_bindI: "trace a xs x \<Longrightarrow> trace (f x) ys r \<Longrightarrow> trace (act_bind a f) (xs @ ys) r"
  by (induction rule: trace.induct) auto

lemma trace_bindD: "trace (act_bind a f) zs r \<Longrightarrow> \<exists>xs x ys. zs = xs @ ys \<and> trace a xs x \<and> trace (f x) ys r"
proof (induction a arbitrary: zs)
  case (Emit y a)
  then obtain zs' where "zs = y # zs'" "trace (act_bind a f) zs' r" by auto
  with Emit.IH [of zs'] obtain xs x ys where "zs = (y # xs) @ ys" "trace (Emit y a) (y # xs) x" "trace (f x) ys r" by auto
  then show ?case by blast
qed (simp; blast)+

lemma trace_bind: "trace (act_bind a f) zs r \<longleftrightarrow> (\<exists>xs x ys. zs = xs @ ys \<and> trace a xs x \<and> trace (f x) ys r)"
  using trace_bindI trace_bindD by metis

lemma trace_exists: "\<exists>xs r. trace a xs r"
proof (induction a)
  case (Step g k)
  then obtain xs r where "trace (k undefined) xs r" by blast
  from trace_Step [of k, OF this] show ?case by blast
next
  case (Ask p k)
  then obtain xs r where "trace (k undefined) xs r" by blast
  from trace_Ask [of k, OF this] show ?case by blast
next
  case (Poll k)
  then obtain xs r where "trace (k undefined) xs r" by blast
  from trace_Poll [of k, OF this] show ?case by blast
qed auto

section \<open>Python\<close>

text \<open>The world of the interpreter: the bootstrap's own variable, and the rest. Objects and classes of
  exceptions are values of one type.\<close>

record ('w, 'o) py_world =
  pw_loop :: "'o option"
  pw_rest :: 'w

text \<open>A call into Python: what it writes goes to the standard output or (\<open>True\<close>) the standard error; it returns a
  value or raises an exception.\<close>

type_synonym ('w, 'o, 'a) py = "(bool \<times> pystr, ('w, 'o) py_world, 'o + 'a) act"

definition ret :: "'a \<Rightarrow> ('w, 'o, 'a) py" where
  "ret a = Done (Inr a)"

definition raise :: "'o \<Rightarrow> ('w, 'o, 'a) py" where
  "raise e = Done (Inl e)"

definition py_bind :: "('w, 'o, 'a) py \<Rightarrow> ('a \<Rightarrow> ('w, 'o, 'b) py) \<Rightarrow> ('w, 'o, 'b) py" where
  "py_bind m f = act_bind m (\<lambda>r. case r of Inl e \<Rightarrow> Done (Inl e) | Inr a \<Rightarrow> f a)"

text \<open>\<open>try: m  except: h\<close>.\<close>

definition py_try :: "('w, 'o, 'a) py \<Rightarrow> ('o \<Rightarrow> ('w, 'o, 'a) py) \<Rightarrow> ('w, 'o, 'a) py" where
  "py_try m h = act_bind m (\<lambda>r. case r of Inl e \<Rightarrow> h e | Inr a \<Rightarrow> Done (Inr a))"

definition py_get :: "('w, 'o, ('w, 'o) py_world) py" where
  "py_get = act_bind get_world ret"

primrec py_map :: "('a \<Rightarrow> ('w, 'o, 'b) py) \<Rightarrow> 'a list \<Rightarrow> ('w, 'o, 'b list) py" where
  "py_map f [] = ret []"
| "py_map f (x # xs) = py_bind (f x) (\<lambda>y. py_bind (py_map f xs) (\<lambda>ys. ret (y # ys)))"

lemma py_bind_simps [simp]:
  "py_bind (ret a) f = f a" "py_bind (raise e) f = raise e" "py_try (ret a) h = ret a" "py_try (raise e) h = h e"
  by (simp_all add: py_bind_def py_try_def ret_def raise_def)

lemma trace_ret [simp]: "trace (ret a) xs r \<longleftrightarrow> xs = [] \<and> r = Inr a"
  by (auto simp: ret_def)

lemma trace_raise [simp]: "trace (raise e) xs r \<longleftrightarrow> xs = [] \<and> r = Inl e"
  by (auto simp: raise_def)

lemma trace_py_bind:
  "trace (py_bind m f) zs (Inr b) \<longleftrightarrow> (\<exists>xs a ys. zs = xs @ ys \<and> trace m xs (Inr a) \<and> trace (f a) ys (Inr b))"
  "trace (py_bind m f) zs (Inl e) \<longleftrightarrow>
     trace m zs (Inl e) \<or> (\<exists>xs a ys. zs = xs @ ys \<and> trace m xs (Inr a) \<and> trace (f a) ys (Inl e))"
  unfolding py_bind_def trace_bind split_sum_ex by (simp, auto)

lemma trace_py_bindI: "trace m xs (Inr a) \<Longrightarrow> trace (f a) ys r \<Longrightarrow> trace (py_bind m f) (xs @ ys) r"
  unfolding py_bind_def by (rule trace_bindI [where x = "Inr a"]) simp_all

lemma trace_py_try:
  "trace (py_try m h) zs r \<longleftrightarrow>
     (\<exists>a. r = Inr a \<and> trace m zs (Inr a)) \<or> (\<exists>xs e ys. zs = xs @ ys \<and> trace m xs (Inl e) \<and> trace (h e) ys r)"
  unfolding py_try_def trace_bind split_sum_ex by (cases r) auto

text \<open>A value of \<open>json.loads\<close>, or for \<open>json.dumps\<close>. A float is \<open>m * 2 ^ e\<close>, or not a finite number.\<close>

datatype pyval =
    V_None
  | V_Bool bool
  | V_Int int
  | V_Float int int
  | V_NonFinite
  | V_Str pystr
  | V_List "pyval list"
  | V_Dict "(pystr \<times> pyval) list"

text \<open>What \<open>pydoc\<close> has for a keyword or a topic.\<close>

datatype help_target = Target_Name pystr | Target_Tuple "pystr list"

text \<open>A table as the data viewer's functions see it, whichever library it is from: its number of rows, the
  names and types of its columns, the rows of a slice, and the labels of their index unless that is a plain
  range.\<close>

record ('w, 'o) py_frame =
  fr_to_frame :: "'o \<Rightarrow> ('w, 'o, 'o) py"
  fr_len :: "'o \<Rightarrow> ('w, 'o, int) py"
  fr_columns :: "'o \<Rightarrow> ('w, 'o, (pystr \<times> pystr) list) py"
  fr_slice :: "'o \<Rightarrow> int \<Rightarrow> int \<Rightarrow> ('w, 'o, 'o list list) py"
  fr_plain_index :: "'o \<Rightarrow> ('w, 'o, bool) py"
  fr_index :: "'o \<Rightarrow> int \<Rightarrow> int \<Rightarrow> ('w, 'o, 'o list) py"

text \<open>\<open>new_exn\<close> is an exception the bootstrap raises, \<open>builtin_exn\<close> one Python raises itself, by the name of its
  class; \<open>topic_text\<close> and \<open>signature\<close> include the imports and the \<open>str\<close> of their expressions.\<close>

record ('w, 'o) python =
  new_event_loop :: "('w, 'o, 'o) py"
  set_event_loop :: "'o \<Rightarrow> ('w, 'o, unit) py"
  loop_is_closed :: "'o \<Rightarrow> ('w, 'o, bool) py"
  loop_is_running :: "'o \<Rightarrow> ('w, 'o, bool) py"
  loop_has_work :: "'o \<Rightarrow> ('w, 'o, bool) py"
  loop_stop_soon :: "'o \<Rightarrow> ('w, 'o, unit) py"
  loop_run_forever :: "'o \<Rightarrow> ('w, 'o, unit) py"
  loop_run_until_complete :: "'o \<Rightarrow> 'o \<Rightarrow> ('w, 'o, 'o) py"
  print_exc :: "'o \<Rightarrow> ('w, 'o, unit) py"
  ast_parse :: "pystr \<Rightarrow> ('w, 'o, 'o list) py"
  is_expr :: "'o \<Rightarrow> bool"
  compile_exec :: "'o list \<Rightarrow> ('w, 'o, 'o) py"
  compile_eval :: "'o \<Rightarrow> ('w, 'o, 'o) py"
  is_coroutine :: "'o \<Rightarrow> bool"
  eval_compiled :: "'o \<Rightarrow> ('w, 'o, 'o) py"
  is_none :: "'o \<Rightarrow> bool"
  py_repr :: "'o \<Rightarrow> ('w, 'o, pystr) py"
  py_str :: "'o \<Rightarrow> ('w, 'o, pystr) py"
  type_name :: "'o \<Rightarrow> pystr"
  isinstance :: "'o \<Rightarrow> string \<Rightarrow> bool"
  new_exn :: "string \<Rightarrow> pystr \<Rightarrow> 'o"
  builtin_exn :: "string \<Rightarrow> 'o"
  format_exception :: "'o \<Rightarrow> ('w, 'o, pystr list) py"
  compile_command :: "pystr \<Rightarrow> ('w, 'o, 'o) py"
  new_completer :: "('w, 'o, 'o) py"
  completer_complete :: "'o \<Rightarrow> pystr \<Rightarrow> nat \<Rightarrow> ('w, 'o, pystr option) py"
  iskeyword :: "pystr \<Rightarrow> bool"
  help_keywords :: "pystr \<Rightarrow> help_target option"
  help_topics :: "pystr \<Rightarrow> help_target option"
  topic_text :: "pystr \<Rightarrow> ('w, 'o, pystr option) py"
  isalnum :: "nat \<Rightarrow> bool"
  is_space :: "nat \<Rightarrow> bool"
  eval_text :: "pystr \<Rightarrow> ('w, 'o, 'o) py"
  py_signature :: "'o \<Rightarrow> ('w, 'o, pystr) py"
  getdoc :: "'o \<Rightarrow> ('w, 'o, pystr option) py"
  global_items :: "('w, 'o) py_world \<Rightarrow> (pystr \<times> 'o) list"
  is_module :: "'o \<Rightarrow> bool"
  is_type :: "'o \<Rightarrow> bool"
  is_callable :: "'o \<Rightarrow> bool"
  type_module :: "'o \<Rightarrow> pystr"
  py_ndim :: "'o \<Rightarrow> ('w, 'o, int) py"
  py_shape :: "'o \<Rightarrow> ('w, 'o, int list option) py"
  py_len :: "'o \<Rightarrow> ('w, 'o, int) py"
  own_name :: "'o \<Rightarrow> ('w, 'o, pystr) py"
  short_repr :: "'o \<Rightarrow> ('w, 'o, pystr) py"
  float_text :: "'o \<Rightarrow> pystr"
  is_nan :: "'o \<Rightarrow> bool"
  py_loads :: "pystr \<Rightarrow> ('w, 'o, pyval) py"
  py_dumps :: "pyval \<Rightarrow> pystr"
  int_of_text :: "pystr \<Rightarrow> int option"
  format_value :: "pyval \<Rightarrow> pystr"
  py_frames :: "string \<Rightarrow> ('w, 'o) py_frame"

end
