(* ===== verification/Py_Bootstrap.thy ===== *)
theory Py_Bootstrap
  imports Py_Runtime "HOL-Library.List_Lexorder"
begin

text \<open>
  The Python half of the Python kernel: the functions of the bootstrap source that
  \<^verbatim>\<open>native/src/carpo/interpreter_py.cpp\<close> keeps as a string and runs once, when the kernel starts.

  Each function of the bootstrap is a definition of the same name, as a call into Python: the calls it
  makes are those of the record \<open>python\<close>, in the order of the source, its \<open>try\<close> statements with the
  exceptions they name.

  Shown here: which word the completion and the inspection take (and where they put it, which is not always
  where it is); that a completion has no match twice and at most 500 of them; and the paging of a table.
\<close>

section \<open>Starting\<close>

text \<open>\<open>os.path.join\<close> of a directory and names under it.\<close>

fun path_join :: "string \<Rightarrow> string list \<Rightarrow> string" where
  "path_join dir [] = dir"
| "path_join dir (name # names) =
     path_join (if dir = [] \<or> last dir = CHR ''/'' then dir @ name else dir @ ''/'' @ name) names"

text \<open>The environment: \<open>CARPO_VENV_PATH\<close>, \<open>PYTHONHOME\<close>, the two prefixes and the version of Python, and what is a
  file or a directory.\<close>

record py_host =
  h_venv :: string
  h_home :: string
  h_prefix :: string
  h_exec_prefix :: string
  h_version :: string
  h_isfile :: "string \<Rightarrow> bool"
  h_isdir :: "string \<Rightarrow> bool"

definition site_paths :: "py_host \<Rightarrow> string list" where
  "site_paths h = [path_join (h_venv h) [''Lib'', ''site-packages''],
     path_join (h_venv h) [''lib'', ''python'' @ h_version h, ''site-packages'']]"

definition activate_venv :: "py_host \<Rightarrow> string list \<Rightarrow> string list" where
  "activate_venv h path =
     (if h_venv h = [] then path
      else fold (\<lambda>site path. if h_isdir h site \<and> site \<notin> set path then site # path else path) (site_paths h) path)"

definition first_file :: "py_host \<Rightarrow> string list \<Rightarrow> string option" where
  "first_file h paths = find (h_isfile h) paths"

fun base_python :: "py_host \<Rightarrow> string list \<Rightarrow> string option" where
  "base_python h [] = None"
| "base_python h (home # homes) =
     (case first_file h [path_join home [''python.exe''], path_join home [''bin'', ''python'' @ h_version h],
                         path_join home [''bin'', ''python3''], path_join home [''bin'', ''python'']] of
        Some p \<Rightarrow> Some p
      | None \<Rightarrow> base_python h homes)"

definition carpo_find_python :: "py_host \<Rightarrow> string option \<times> string option" where
  "carpo_find_python h =
     (let base = base_python h (filter (\<lambda>x. x \<noteq> []) [h_home h, h_prefix h, h_exec_prefix h]);
          venv = (if h_venv h = [] then None
                  else first_file h [path_join (h_venv h) [''Scripts'', ''python.exe''],
                         path_join (h_venv h) [''bin'', ''python'' @ h_version h],
                         path_join (h_venv h) [''bin'', ''python3''], path_join (h_venv h) [''bin'', ''python'']])
      in (case venv of None \<Rightarrow> base | Some v \<Rightarrow> Some v, base))"

section \<open>Running a cell\<close>

definition carpo_event_loop :: "('w, 'o) python \<Rightarrow> ('w, 'o, 'o) py" where
  "carpo_event_loop P =
     py_bind py_get (\<lambda>w.
     py_bind (case pw_loop w of
                None \<Rightarrow> ret None
              | Some l \<Rightarrow> py_bind (loop_is_closed P l) (\<lambda>closed. ret (if closed then None else Some l))) (\<lambda>l.
     py_bind (case l of
                None \<Rightarrow> py_bind (new_event_loop P) (\<lambda>l. act_bind (put_world (\<lambda>w. w\<lparr>pw_loop := Some l\<rparr>)) (\<lambda>_. ret l))
              | Some l \<Rightarrow> ret l) (\<lambda>l.
     py_bind (set_event_loop P l) (\<lambda>_. ret l))))"

definition carpo_evaluate :: "('w, 'o) python \<Rightarrow> 'o \<Rightarrow> ('w, 'o, 'o) py" where
  "carpo_evaluate P compiled =
     (if is_coroutine P compiled
      then py_bind (carpo_event_loop P) (\<lambda>l. py_bind (eval_compiled P compiled) (loop_run_until_complete P l))
      else eval_compiled P compiled)"

text \<open>\<open>__carpo_idle\<close>: one pass of the session's loop, if there is one that is neither closed nor running and has
  something to do.\<close>

definition carpo_idle :: "('w, 'o) python \<Rightarrow> ('w, 'o, unit) py" where
  "carpo_idle P =
     py_bind py_get (\<lambda>w.
     case pw_loop w of
       None \<Rightarrow> ret ()
     | Some l \<Rightarrow>
         py_bind (loop_is_closed P l) (\<lambda>closed. if closed then ret () else
         py_bind (loop_is_running P l) (\<lambda>runs. if runs then ret () else
         py_bind (loop_has_work P l) (\<lambda>work. if \<not> work then ret () else
         py_bind (loop_stop_soon P l) (\<lambda>_.
         py_try (loop_run_forever P l) (print_exc P))))))"

text \<open>The tuple of \<open>__carpo_run\<close>.\<close>

record run_result =
  rr_status :: pystr
  rr_has_result :: int
  rr_repr :: pystr
  rr_ename :: pystr
  rr_evalue :: pystr
  rr_traceback :: "pystr list"

definition run_ok :: "int \<Rightarrow> pystr \<Rightarrow> run_result" where
  "run_ok has_result r =
     \<lparr>rr_status = lit ''ok'', rr_has_result = has_result, rr_repr = r, rr_ename = [], rr_evalue = [], rr_traceback = []\<rparr>"

definition run_error :: "int \<Rightarrow> pystr \<Rightarrow> pystr \<Rightarrow> pystr list \<Rightarrow> run_result" where
  "run_error has_result ename evalue tb =
     \<lparr>rr_status = lit ''error'', rr_has_result = has_result, rr_repr = [], rr_ename = ename, rr_evalue = evalue, rr_traceback = tb\<rparr>"

text \<open>The statements of a cell, and its last one if it is an expression.\<close>

definition split_body :: "('w, 'o) python \<Rightarrow> 'o list \<Rightarrow> 'o list \<times> 'o option" where
  "split_body P body = (if body \<noteq> [] \<and> is_expr P (last body) then (butlast body, Some (last body)) else (body, None))"

text \<open>The body of the \<open>try\<close>: the result, or the exception of \<open>repr\<close>, which leaves \<open>has_result\<close> set.\<close>

definition run_statements :: "('w, 'o) python \<Rightarrow> 'o list \<Rightarrow> ('w, 'o, unit) py" where
  "run_statements P body =
     (if body = [] then ret ()
      else py_bind (compile_exec P body) (\<lambda>c. py_bind (carpo_evaluate P c) (\<lambda>_. ret ())))"

definition run_value :: "('w, 'o) python \<Rightarrow> 'o option \<Rightarrow> ('w, 'o, int \<times> 'o + run_result) py" where
  "run_value P trailing =
     (case trailing of
        None \<Rightarrow> ret (Inr (run_ok 0 []))
      | Some e \<Rightarrow>
          py_bind (compile_eval P e) (\<lambda>c. py_bind (carpo_evaluate P c) (\<lambda>v.
          if is_none P v then ret (Inr (run_ok 0 []))
          else py_try (py_bind (py_repr P v) (\<lambda>r. ret (Inr (run_ok 1 r)))) (\<lambda>e. ret (Inl (1, e))))))"

definition run_body :: "('w, 'o) python \<Rightarrow> pystr \<Rightarrow> ('w, 'o, int \<times> 'o + run_result) py" where
  "run_body P code =
     py_bind (carpo_event_loop P) (\<lambda>_.
     py_bind (ast_parse P code) (\<lambda>tree.
     let (body, trailing) = split_body P tree
     in py_bind (run_statements P body) (\<lambda>_. run_value P trailing)))"

text \<open>The \<open>except\<close> clause, which is not protected itself.\<close>

definition run_failed :: "('w, 'o) python \<Rightarrow> int \<Rightarrow> 'o \<Rightarrow> ('w, 'o, run_result) py" where
  "run_failed P has_result e =
     py_bind (py_str P e) (\<lambda>evalue. py_bind (format_exception P e) (\<lambda>tb.
       ret (run_error has_result (type_name P e) evalue tb)))"

definition carpo_run :: "('w, 'o) python \<Rightarrow> pystr \<Rightarrow> ('w, 'o, run_result) py" where
  "carpo_run P code =
     py_bind (py_try (run_body P code) (\<lambda>e. ret (Inl (0, e)))) (\<lambda>x.
       case x of Inl (has_result, e) \<Rightarrow> run_failed P has_result e | Inr r \<Rightarrow> ret r)"

definition carpo_is_complete :: "('w, 'o) python \<Rightarrow> pystr \<Rightarrow> ('w, 'o, pystr) py" where
  "carpo_is_complete P code =
     py_try (py_bind (compile_command P code) (\<lambda>r. ret (if is_none P r then lit ''incomplete'' else lit ''complete'')))
       (\<lambda>e. if isinstance P e ''SyntaxError'' \<or> isinstance P e ''OverflowError'' \<or> isinstance P e ''ValueError''
             then ret (lit ''invalid'') else raise e)"

section \<open>Completion and inspection\<close>

text \<open>\<open>code[:n]\<close>: a negative number counts from the back.\<close>

definition py_prefix :: "int \<Rightarrow> 'a list \<Rightarrow> 'a list" where
  "py_prefix n xs = take (nat (if n < 0 then int (length xs) + n else n)) xs"

definition py_index :: "'a list \<Rightarrow> int \<Rightarrow> 'a option" where
  "py_index xs n =
     (let k = (if n < 0 then int (length xs) + n else n)
      in if 0 \<le> k \<and> k < int (length xs) then Some (xs ! nat k) else None)"

definition tok_start :: "nat \<Rightarrow> bool" where
  "tok_start c \<longleftrightarrow> 65 \<le> c \<and> c \<le> 90 \<or> 97 \<le> c \<and> c \<le> 122 \<or> c = 95"

definition tok_char :: "nat \<Rightarrow> bool" where
  "tok_char c \<longleftrightarrow> tok_start c \<or> 48 \<le> c \<and> c \<le> 57 \<or> c = 46"

text \<open>\<open>[A-Za-z_][A-Za-z0-9_.]*$\<close> at one place of a text: \<open>$\<close> is the end of the text, or before a line feed that
  is the last character. A shorter run of the characters cannot be followed by either.\<close>

fun token_match :: "pystr \<Rightarrow> pystr option" where
  "token_match [] = None"
| "token_match (c # rest) =
     (let run = takeWhile tok_char rest; after = dropWhile tok_char rest
      in if tok_start c \<and> (after = [] \<or> after = [10]) then Some (c # run) else None)"

text \<open>The first place where it matches, as \<open>search\<close> finds it; \<open>[]\<close> if there is none.\<close>

fun token_search :: "pystr \<Rightarrow> pystr" where
  "token_search [] = []"
| "token_search (c # cs) = (case token_match (c # cs) of Some t \<Rightarrow> t | None \<Rightarrow> token_search cs)"

text \<open>The loop over the candidates, with the number of turns left of 500.\<close>

fun complete_loop :: "('w, 'o) python \<Rightarrow> 'o \<Rightarrow> pystr \<Rightarrow> nat \<Rightarrow> pystr list \<Rightarrow> ('w, 'o, pystr list) py" where
  "complete_loop P completer token 0 matches = ret matches"
| "complete_loop P completer token (Suc n) matches =
     py_bind (py_try (completer_complete P completer token (500 - Suc n))
                (\<lambda>e. if isinstance P e ''Exception'' then ret None else raise e)) (\<lambda>candidate.
       case candidate of
         None \<Rightarrow> ret matches
       | Some c \<Rightarrow> complete_loop P completer token n (if c \<in> set matches then matches else matches @ [c]))"

definition carpo_complete :: "('w, 'o) python \<Rightarrow> pystr \<Rightarrow> int \<Rightarrow> ('w, 'o, pystr list \<times> int \<times> int) py" where
  "carpo_complete P code cursor_pos =
     (let token = token_search (py_prefix cursor_pos code)
      in py_bind (new_completer P) (\<lambda>completer.
         py_bind (complete_loop P completer token 500 []) (\<lambda>matches.
         ret (matches, cursor_pos - int (length token), cursor_pos))))"

text \<open>Keywords: up to three steps from a word to the name of its section.\<close>

fun target_name :: "help_target \<Rightarrow> pystr option" where
  "target_name (Target_Tuple []) = None"
| "target_name (Target_Tuple (x # xs)) = Some x"
| "target_name (Target_Name x) = Some x"

fun help_resolve :: "('w, 'o) python \<Rightarrow> nat \<Rightarrow> help_target \<Rightarrow> help_target option" where
  "help_resolve P 0 target = Some target"
| "help_resolve P (Suc n) target =
     (case target_name target of
        None \<Rightarrow> None
      | Some x \<Rightarrow> (case help_topics P x of None \<Rightarrow> Some (Target_Name x) | Some t \<Rightarrow> help_resolve P n t))"

definition falsy :: "help_target option \<Rightarrow> bool" where
  "falsy t \<longleftrightarrow> (case t of None \<Rightarrow> True | Some (Target_Name x) \<Rightarrow> x = [] | Some (Target_Tuple xs) \<Rightarrow> xs = [])"

definition ascii_upper :: "pystr \<Rightarrow> pystr" where
  "ascii_upper = map (\<lambda>c. if 97 \<le> c \<and> c \<le> 122 then c - 32 else c)"

definition strip :: "('w, 'o) python \<Rightarrow> pystr \<Rightarrow> pystr" where
  "strip P t = rev (dropWhile (is_space P) (rev (dropWhile (is_space P) t)))"

definition carpo_keyword_help :: "('w, 'o) python \<Rightarrow> pystr \<Rightarrow> ('w, 'o, pystr option) py" where
  "carpo_keyword_help P word =
     (if \<not> iskeyword P word then ret None
      else
        let target = (if falsy (help_keywords P word) then help_topics P (ascii_upper word) else help_keywords P word)
        in case Option.bind target (help_resolve P 3) of
             Some (Target_Name name) \<Rightarrow>
               if name = [] then ret None
               else py_try (py_bind (topic_text P name) (\<lambda>text.
                      ret (case text of None \<Rightarrow> None | Some t \<Rightarrow> if strip P t = [] then None else Some (strip P t))))
                    (\<lambda>e. if isinstance P e ''Exception'' then ret None else raise e)
           | _ \<Rightarrow> ret None)"

text \<open>The end of the word under the cursor; \<open>None\<close> is an index out of range.\<close>

function word_end :: "('w, 'o) python \<Rightarrow> pystr \<Rightarrow> int \<Rightarrow> int option" where
  "word_end P code e =
     (if e < int (length code) then
        case py_index code e of
          None \<Rightarrow> None
        | Some c \<Rightarrow> if isalnum P c \<or> c = 95 then word_end P code (e + 1) else Some e
      else Some e)"
  by pat_completeness auto
termination by (relation "measure (\<lambda>(P, code, e). nat (int (length code) - e))") auto

declare word_end.simps [simp del]

definition describe_object :: "('w, 'o) python \<Rightarrow> pystr \<Rightarrow> 'o \<Rightarrow> ('w, 'o, pystr list) py" where
  "describe_object P token obj =
     py_bind (py_try (py_bind (py_signature P obj) (\<lambda>s. ret [token @ s]))
                (\<lambda>e. if isinstance P e ''ValueError'' \<or> isinstance P e ''TypeError'' then ret [] else raise e)) (\<lambda>sig.
     let parts = sig @ [lit ''Type: '' @ type_name P obj]
     in py_bind (getdoc P obj) (\<lambda>doc.
        case doc of
          Some d \<Rightarrow> if d \<noteq> [] then ret (parts @ [[], d]) else
             py_try (py_bind (py_repr P obj) (\<lambda>r. ret (parts @ [[], r])))
               (\<lambda>e. if isinstance P e ''Exception'' then ret (parts @ [[]]) else raise e)
        | None \<Rightarrow> py_try (py_bind (py_repr P obj) (\<lambda>r. ret (parts @ [[], r])))
               (\<lambda>e. if isinstance P e ''Exception'' then ret (parts @ [[]]) else raise e)))"

fun joined :: "pystr \<Rightarrow> pystr list \<Rightarrow> pystr" where
  "joined sep [] = []"
| "joined sep [x] = x"
| "joined sep (x # y # ys) = x @ sep @ joined sep (y # ys)"

definition inspect_token :: "('w, 'o) python \<Rightarrow> pystr \<Rightarrow> ('w, 'o, int \<times> pystr) py" where
  "inspect_token P token =
     (if token = [] then ret (0, [])
      else py_bind (carpo_keyword_help P token) (\<lambda>help.
        case help of
          Some h \<Rightarrow> ret (1, h)
        | None \<Rightarrow>
            py_bind (py_try (py_bind (eval_text P token) (\<lambda>obj. ret (Some obj)))
                       (\<lambda>e. if isinstance P e ''Exception'' then ret None else raise e)) (\<lambda>obj.
            case obj of
              None \<Rightarrow> ret (0, [])
            | Some obj \<Rightarrow> py_bind (describe_object P token obj) (\<lambda>parts. ret (1, joined [10] parts)))))"

definition carpo_inspect :: "('w, 'o) python \<Rightarrow> pystr \<Rightarrow> int \<Rightarrow> ('w, 'o, int \<times> pystr) py" where
  "carpo_inspect P code cursor_pos =
     (case word_end P code cursor_pos of
        None \<Rightarrow> raise (builtin_exn P ''IndexError'')
      | Some e \<Rightarrow> inspect_token P (token_search (py_prefix e code)))"

definition carpo_eval_expr :: "('w, 'o) python \<Rightarrow> pystr \<Rightarrow> ('w, 'o, pystr \<times> pystr \<times> pystr) py" where
  "carpo_eval_expr P expr =
     py_try (py_bind (eval_text P expr) (\<lambda>v. py_bind (py_repr P v) (\<lambda>r. ret (lit ''ok'', r, []))))
       (\<lambda>e. py_bind (py_str P e) (\<lambda>evalue. ret (lit ''error'', type_name P e, evalue)))"

section \<open>Variables and tables\<close>

definition kMaxObjects :: nat where
  "kMaxObjects = 5000"

definition carpo_table_kind :: "('w, 'o) python \<Rightarrow> 'o \<Rightarrow> ('w, 'o, string option) py" where
  "carpo_table_kind P v =
     (let module = takeWhile (\<lambda>c. c \<noteq> 46) (type_module P v);
          framed = (type_name P v = lit ''DataFrame'' \<or> type_name P v = lit ''Series'')
      in if module = lit ''pandas'' \<and> framed then ret (Some ''pandas'')
         else if module = lit ''polars'' \<and> framed then ret (Some ''polars'')
         else if module = lit ''numpy'' \<and> type_name P v = lit ''ndarray''
         then py_bind (py_ndim P v) (\<lambda>d. ret (if d = 1 \<or> d = 2 then Some ''numpy'' else None))
         else ret None)"

text \<open>\<open>f"{n:,}"\<close>.\<close>

fun group3 :: "'a \<Rightarrow> 'a list \<Rightarrow> 'a list" where
  "group3 s (a # b # c # d # rest) = a # b # c # s # group3 s (d # rest)"
| "group3 s xs = xs"

definition commas :: "int \<Rightarrow> pystr" where
  "commas n = (if n < 0 then lit ''-'' else []) @ rev (group3 44 (rev (lit (show_nat (nat \<bar>n\<bar>)))))"

definition kTimes :: pystr where
  "kTimes = [32, 0xD7, 32]"

definition carpo_size :: "('w, 'o) python \<Rightarrow> 'o \<Rightarrow> ('w, 'o, pystr) py" where
  "carpo_size P v =
     py_bind (py_shape P v) (\<lambda>shape.
       case shape of
         Some ds \<Rightarrow> ret (joined kTimes (map commas ds))
       | None \<Rightarrow>
           if is_callable P v \<or> is_type P v then ret []
           else py_try (py_bind (py_len P v) (\<lambda>n. ret (commas n)))
                  (\<lambda>e. if isinstance P e ''Exception'' then ret [] else raise e))"

fun split_ws :: "(nat \<Rightarrow> bool) \<Rightarrow> pystr \<Rightarrow> pystr \<Rightarrow> pystr list" where
  "split_ws sp [] word = (if word = [] then [] else [word])"
| "split_ws sp (c # cs) word =
     (if sp c then (if word = [] then [] else [word]) @ split_ws sp cs [] else split_ws sp cs (word @ [c]))"

definition shortened :: "('w, 'o) python \<Rightarrow> pystr \<Rightarrow> pystr" where
  "shortened P t =
     (let t = joined [32] (split_ws (is_space P) t []) in if length t \<le> 200 then t else take 200 t @ lit ''...'')"

text \<open>The body of the \<open>try\<close>: a text that is returned at once (\<open>Inl\<close>), or one that is shortened. A shape that is
  not a pair cannot be unpacked.\<close>

definition preview_body :: "('w, 'o) python \<Rightarrow> 'o \<Rightarrow> ('w, 'o, pystr + pystr) py" where
  "preview_body P v =
     py_bind (carpo_table_kind P v) (\<lambda>kind.
     if (kind = Some ''pandas'' \<or> kind = Some ''polars'') \<and> type_name P v = lit ''DataFrame'' then
       py_bind (py_shape P v) (\<lambda>shape.
         case shape of
           Some [rows, columns] \<Rightarrow> ret (Inl (commas rows @ lit '' rows'' @ kTimes @ lit (show_int columns) @ lit '' columns''))
         | _ \<Rightarrow> raise (builtin_exn P ''ValueError''))
     else
       py_bind (if is_callable P v \<and> \<not> is_type P v then
                  py_try (py_bind (own_name P v) (\<lambda>n. py_bind (py_signature P v) (\<lambda>s. ret (Some (n @ s)))))
                    (\<lambda>e. if isinstance P e ''TypeError'' \<or> isinstance P e ''ValueError'' then ret None else raise e)
                else ret None) (\<lambda>t.
       case t of Some t \<Rightarrow> ret (Inl t) | None \<Rightarrow> py_bind (short_repr P v) (\<lambda>r. ret (Inr r))))"

definition carpo_preview :: "('w, 'o) python \<Rightarrow> 'o \<Rightarrow> ('w, 'o, pystr) py" where
  "carpo_preview P v =
     py_bind (py_try (preview_body P v) (\<lambda>e. if isinstance P e ''Exception'' then ret (Inr []) else raise e)) (\<lambda>t.
       ret (case t of Inl t \<Rightarrow> t | Inr t \<Rightarrow> shortened P t))"

definition carpo_variable :: "('w, 'o) python \<Rightarrow> pystr \<Rightarrow> 'o \<Rightarrow> ('w, 'o, pyval) py" where
  "carpo_variable P name v =
     py_bind (carpo_size P v) (\<lambda>size.
     py_bind (carpo_preview P v) (\<lambda>summary.
     py_bind (carpo_table_kind P v) (\<lambda>kind.
     ret (V_Dict [(lit ''name'', V_Str name), (lit ''type'', V_Str (type_name P v)), (lit ''size'', V_Str size),
                  (lit ''summary'', V_Str summary), (lit ''table'', V_Bool (kind \<noteq> None))]))))"

text \<open>\<open>g[name]\<close>, at the time it is read.\<close>

definition py_global :: "('w, 'o) python \<Rightarrow> pystr \<Rightarrow> ('w, 'o, 'o) py" where
  "py_global P name =
     py_bind py_get (\<lambda>w. case map_of (global_items P w) name of None \<Rightarrow> raise (builtin_exn P ''KeyError'') | Some v \<Rightarrow> ret v)"

fun variables_loop :: "('w, 'o) python \<Rightarrow> pystr list \<Rightarrow> pyval list \<Rightarrow> ('w, 'o, pyval list) py" where
  "variables_loop P [] out = ret out"
| "variables_loop P (name # names) out =
     (if name \<noteq> [] \<and> hd name = 95 then variables_loop P names out
      else py_bind (py_global P name) (\<lambda>v.
        if is_module P v then variables_loop P names out
        else py_bind (carpo_variable P name v) (\<lambda>entry.
          let out = out @ [entry] in if kMaxObjects \<le> length out then ret out else variables_loop P names out)))"

definition carpo_variables :: "('w, 'o) python \<Rightarrow> ('w, 'o, pystr) py" where
  "carpo_variables P =
     py_bind py_get (\<lambda>w. py_bind (variables_loop P (sort (map fst (global_items P w))) []) (\<lambda>out.
       ret (py_dumps P (V_List out))))"

definition carpo_cell :: "('w, 'o) python \<Rightarrow> 'o \<Rightarrow> ('w, 'o, pystr) py" where
  "carpo_cell P x =
     (if is_none P x then ret (lit ''None'')
      else if isinstance P x ''float'' then ret (if is_nan P x then lit ''NaN'' else float_text P x)
      else py_bind (py_str P x) (\<lambda>t. ret (take 1000 t)))"

text \<open>\<open>int(x)\<close> of a JSON value.\<close>

fun py_int :: "('w, 'o) python \<Rightarrow> pyval \<Rightarrow> ('w, 'o, int) py" where
  "py_int P (V_Int n) = ret n"
| "py_int P (V_Bool b) = ret (if b then 1 else 0)"
| "py_int P (V_Float m e) = ret (if 0 \<le> e then m * 2 ^ nat e else sgn m * (\<bar>m\<bar> div 2 ^ nat (- e)))"
| "py_int P V_NonFinite = raise (builtin_exn P ''ValueError'')"
| "py_int P (V_Str t) = (case int_of_text P t of Some n \<Rightarrow> ret n | None \<Rightarrow> raise (builtin_exn P ''ValueError''))"
| "py_int P _ = raise (builtin_exn P ''TypeError'')"

fun request_get :: "('w, 'o) python \<Rightarrow> pyval \<Rightarrow> pystr \<Rightarrow> pyval \<Rightarrow> ('w, 'o, pyval) py" where
  "request_get P (V_Dict items) key def = ret (case map_of items key of Some v \<Rightarrow> v | None \<Rightarrow> def)"
| "request_get P _ key def = raise (builtin_exn P ''AttributeError'')"

text \<open>The variable a request names.\<close>

fun named_variable :: "('w, 'o) python \<Rightarrow> pyval \<Rightarrow> ('w, 'o, 'o) py" where
  "named_variable P (V_List xs) = raise (builtin_exn P ''TypeError'')"
| "named_variable P (V_Dict xs) = raise (builtin_exn P ''TypeError'')"
| "named_variable P (V_Str name) =
     py_bind py_get (\<lambda>w. case map_of (global_items P w) name of
        None \<Rightarrow> raise (new_exn P ''KeyError'' (lit ''no variable '' @ name))
      | Some v \<Rightarrow> ret v)"
| "named_variable P name = raise (new_exn P ''KeyError'' (lit ''no variable '' @ format_value P name))"

text \<open>The page of a table: its rows as texts and, for an index that is not a plain range, its labels. A
  Series, or an array of one dimension, becomes a table of one column.\<close>

definition as_frame :: "('w, 'o) python \<Rightarrow> string \<Rightarrow> 'o \<Rightarrow> ('w, 'o, 'o) py" where
  "as_frame P kind v =
     (if kind = ''numpy'' then py_bind (py_ndim P v) (\<lambda>d. if d = 1 then fr_to_frame (py_frames P kind) v else ret v)
      else if type_name P v = lit ''Series'' then fr_to_frame (py_frames P kind) v else ret v)"

definition page_labels :: "('w, 'o) python \<Rightarrow> string \<Rightarrow> 'o \<Rightarrow> int \<Rightarrow> int \<Rightarrow> ('w, 'o, pyval) py" where
  "page_labels P kind frame start count =
     (if kind \<noteq> ''pandas'' then ret V_None
      else py_bind (fr_plain_index (py_frames P kind) frame) (\<lambda>plain.
        if plain then ret V_None
        else py_bind (fr_index (py_frames P kind) frame (start - 1) count) (\<lambda>labels.
          py_bind (py_map (carpo_cell P) labels) (\<lambda>ls. ret (V_List (map V_Str ls))))))"

definition table_page :: "('w, 'o) python \<Rightarrow> string \<Rightarrow> pyval \<Rightarrow> 'o \<Rightarrow> int \<Rightarrow> int \<Rightarrow> ('w, 'o, pyval) py" where
  "table_page P kind name v start count =
     py_bind (as_frame P kind v) (\<lambda>frame.
     py_bind (fr_len (py_frames P kind) frame) (\<lambda>n.
     py_bind (fr_columns (py_frames P kind) frame) (\<lambda>columns.
     py_bind (fr_slice (py_frames P kind) frame (start - 1) count) (\<lambda>page.
     py_bind (py_map (py_map (carpo_cell P)) page) (\<lambda>rows.
     py_bind (page_labels P kind frame start count) (\<lambda>labels.
     ret (V_Dict [(lit ''name'', name), (lit ''rowCount'', V_Int n),
       (lit ''columns'', V_List (map (\<lambda>(c, t). V_Dict [(lit ''name'', V_Str c), (lit ''type'', V_Str t)]) columns)),
       (lit ''start'', V_Int start), (lit ''count'', V_Int (int (length rows))), (lit ''rowLabels'', labels),
       (lit ''rows'', V_List (map (\<lambda>r. V_List (map V_Str r)) rows))])))))))"

definition value_text :: "('w, 'o) python \<Rightarrow> pyval \<Rightarrow> pystr" where
  "value_text P v = (case v of V_Str t \<Rightarrow> t | _ \<Rightarrow> format_value P v)"

definition carpo_table :: "('w, 'o) python \<Rightarrow> pystr \<Rightarrow> ('w, 'o, pystr) py" where
  "carpo_table P expr =
     py_bind (py_loads P (if expr = [] then lit ''{}'' else expr)) (\<lambda>request.
     py_bind (request_get P request (lit ''name'') V_None) (\<lambda>name.
     py_bind (named_variable P name) (\<lambda>v.
     py_bind (carpo_table_kind P v) (\<lambda>kind.
     case kind of
       None \<Rightarrow> raise (new_exn P ''TypeError'' (value_text P name @ lit '' is not a DataFrame, a Series or an array''))
     | Some kind \<Rightarrow>
         py_bind (request_get P request (lit ''start'') (V_Int 1)) (\<lambda>start.
         py_bind (py_int P start) (\<lambda>start.
         py_bind (request_get P request (lit ''count'') (V_Int 100)) (\<lambda>count.
         py_bind (py_int P count) (\<lambda>count.
         py_bind (table_page P kind name v (max 1 start) (max 0 (min count 100000))) (\<lambda>page.
         ret (py_dumps P page))))))))))"

text \<open>\<open>__carpo_answer\<close>: \<open>None\<close> for an ordinary expression.\<close>

definition carpo_answer :: "('w, 'o) python \<Rightarrow> pystr \<Rightarrow> pystr \<Rightarrow> ('w, 'o, (pystr \<times> pystr \<times> pystr) option) py" where
  "carpo_answer P key expr =
     (if key \<noteq> lit ''.jovian_variables'' \<and> key \<noteq> lit ''.jovian_table'' then ret None
      else py_try (py_bind (if key = lit ''.jovian_variables'' then carpo_variables P else carpo_table P expr)
                     (\<lambda>t. ret (Some (lit ''ok'', t, []))))
             (\<lambda>e. py_bind (py_str P e) (\<lambda>evalue. ret (Some (lit ''error'', type_name P e, evalue)))))"

section \<open>The word at the cursor\<close>

lemma tok_char_newline [simp]: "\<not> tok_char 10" "\<not> tok_start 10"
  by (simp_all add: tok_char_def tok_start_def)

lemma tok_start_char: "tok_start c \<Longrightarrow> tok_char c"
  by (simp add: tok_char_def)

text \<open>The last word of a text: of the characters of a name at its very end, those from the first letter on.\<close>

definition last_word :: "pystr \<Rightarrow> pystr" where
  "last_word q = dropWhile (\<lambda>c. \<not> tok_start c) (rev (takeWhile tok_char (rev q)))"

lemma rev_takeWhile_Cons:
  "rev (takeWhile p (rev (c # q))) = (if list_all p q then if p c then c # q else q else rev (takeWhile p (rev q)))"
  by (auto simp: takeWhile_append list_all_iff takeWhile_eq_all_conv)

lemma rev_takeWhile_all: "list_all p q \<Longrightarrow> rev (takeWhile p (rev q)) = q"
  by (metis list_all_iff rev_rev_ident set_rev takeWhile_eq_all_conv)

lemma last_word_Cons:
  "last_word (c # q) = (if list_all tok_char q \<and> tok_start c then c # q else last_word q)"
  using tok_start_char by (auto simp: last_word_def rev_takeWhile_Cons rev_takeWhile_all simp del: rev.simps)

lemma token_match_tail:
  assumes "e = [] \<and> (q = [] \<or> last q \<noteq> 10) \<or> e = [10]"
  shows "token_match (c # q @ e) = (if list_all tok_char q \<and> tok_start c then Some (c # q) else None)"
proof (cases "list_all tok_char q")
  case True
  then have "takeWhile tok_char (q @ e) = q" "dropWhile tok_char (q @ e) = e"
    using assms by (auto simp: list_all_iff takeWhile_append dropWhile_append takeWhile_eq_all_conv)
  then show ?thesis using True assms by auto
next
  case False
  then obtain x xs where d: "dropWhile tok_char q = x # xs" "\<not> tok_char x"
    by (metis dropWhile_eq_Nil_conv hd_dropWhile list.collapse list_all_iff list.sel(1) neq_Nil_conv)
  then have "dropWhile tok_char (q @ e) = x # xs @ e" by (metis append_Cons dropWhile_append list.distinct(1) dropWhile_eq_Nil_conv)
  moreover have "x # xs @ e \<noteq> [10]"
    using assms d(1) by (metis append_Nil2 append_is_Nil_conv dropWhile_eq_Cons_conv last.simps last_appendR list.inject not_Cons_self2)
  ultimately show ?thesis using False by simp
qed

lemma token_search_tail:
  "e = [] \<and> (q = [] \<or> last q \<noteq> 10) \<or> e = [10] \<Longrightarrow> token_search (q @ e) = last_word q"
proof (induction q)
  case Nil
  then show ?case by (auto simp: last_word_def)
next
  case (Cons c q)
  then have "e = [] \<and> (q = [] \<or> last q \<noteq> 10) \<or> e = [10]" by auto
  note m = token_match_tail [OF this, of c] and IH = Cons.IH [OF this]
  show ?case unfolding append_Cons token_search.simps m IH last_word_Cons by simp
qed

lemma token_search_plain: "q = [] \<or> last q \<noteq> 10 \<Longrightarrow> token_search q = last_word q"
  using token_search_tail [of "[]" q] by simp

lemma token_search_newline: "token_search (q @ [10]) = last_word q"
  by (rule token_search_tail) simp

lemma last_word_suffix: "\<exists>before. q = before @ last_word q"
proof -
  have "q = rev (dropWhile tok_char (rev q)) @ rev (takeWhile tok_char (rev q))"
    by (metis rev_append rev_rev_ident takeWhile_dropWhile_id)
  then show ?thesis
    unfolding last_word_def by (metis append.assoc takeWhile_dropWhile_id)
qed

section \<open>Completion\<close>

lemma complete_loop_spec:
  assumes "trace (complete_loop P c token n ms) xs (Inr ms')" "distinct ms"
  shows "distinct ms' \<and> length ms' \<le> length ms + n"
  using assms
proof (induction n arbitrary: ms xs)
  case (Suc n)
  from Suc.prems(1) obtain ys cand zs where
    t: "trace (case cand of None \<Rightarrow> ret ms
       | Some d \<Rightarrow> complete_loop P c token n (if d \<in> set ms then ms else ms @ [d])) zs (Inr ms')"
    by (auto simp: trace_py_bind)
  show ?case
  proof (cases cand)
    case None
    then show ?thesis using t Suc.prems(2) by simp
  next
    case (Some d)
    then show ?thesis using t Suc.IH [of "if d \<in> set ms then ms else ms @ [d]" zs] Suc.prems(2) by (auto split: if_splits)
  qed
qed simp

lemma carpo_complete_spec:
  assumes "trace (carpo_complete P code pos) xs (Inr (ms, s, e))"
  shows "distinct ms" "length ms \<le> 500" "e = pos" "s = pos - int (length (token_search (py_prefix pos code)))"
proof -
  obtain c ys where m: "trace (complete_loop P c (token_search (py_prefix pos code)) 500 []) ys (Inr ms)"
    and r: "e = pos" "s = pos - int (length (token_search (py_prefix pos code)))"
    using assms by (auto simp: carpo_complete_def Let_def trace_py_bind)
  from complete_loop_spec [OF m] show "distinct ms" "length ms \<le> 500" by simp_all
  show "e = pos" "s = pos - int (length (token_search (py_prefix pos code)))" by (rule r)+
qed

section \<open>An exception that cannot be described\<close>

definition run_verdict :: "('w, 'o) python \<Rightarrow> 'o + (int \<times> 'o + run_result) \<Rightarrow> ('w, 'o, run_result) py" where
  "run_verdict P x =
     (case x of Inl e \<Rightarrow> run_failed P 0 e | Inr (Inl (h, e)) \<Rightarrow> run_failed P h e | Inr (Inr q) \<Rightarrow> ret q)"

lemma carpo_run_verdict: "carpo_run P code = act_bind (run_body P code) (run_verdict P)"
proof -
  have "act_bind (case r of Inl e \<Rightarrow> ret (Inl (0, e)) | Inr a \<Rightarrow> Done (Inr a))
      (\<lambda>r. case r of Inl e \<Rightarrow> Done (Inl e) | Inr a \<Rightarrow> case a of Inl (h, e) \<Rightarrow> run_failed P h e | Inr r \<Rightarrow> ret r) = run_verdict P r" for r
    by (simp add: run_verdict_def ret_def split: sum.split prod.split)
  then show ?thesis unfolding carpo_run_def py_bind_def py_try_def act_bind_assoc by simp
qed

text \<open>The status of a run is one of the two words, and a run that raises has an exception that cannot be
  described.\<close>

lemma run_value_ok: "trace (run_value P t) xs (Inr (Inr q)) \<Longrightarrow> rr_status q = lit ''ok''"
  by (cases t) (auto simp: run_value_def trace_py_bind trace_py_try run_ok_def split: if_splits)

lemma run_body_ok: "trace (run_body P code) xs (Inr (Inr q)) \<Longrightarrow> rr_status q = lit ''ok''"
  by (auto simp: run_body_def trace_py_bind Let_def split_beta dest: run_value_ok)

lemma run_failed_result:
  "trace (run_failed P h e) xs (Inr q) \<Longrightarrow>
    \<exists>evalue tb ys zs. xs = ys @ zs \<and> trace (py_str P e) ys (Inr evalue) \<and> trace (format_exception P e) zs (Inr tb)
      \<and> q = run_error h (type_name P e) evalue tb"
  by (fastforce simp: run_failed_def trace_py_bind)

lemma run_failed_raises:
  "trace (run_failed P h e) xs (Inl f) \<Longrightarrow>
    \<exists>ys. trace (py_str P e) ys (Inl f) \<or> trace (format_exception P e) ys (Inl f)"
  by (auto simp: run_failed_def trace_py_bind)

lemma carpo_run_raises:
  assumes "trace (carpo_run P code) xs (Inl f)"
  shows "\<exists>e ys. trace (py_str P e) ys (Inl f) \<or> trace (format_exception P e) ys (Inl f)"
proof -
  obtain ys x zs where "trace (run_verdict P x) zs (Inl f)" using assms by (auto simp: carpo_run_verdict trace_bind)
  then show ?thesis using run_failed_raises by (auto simp: run_verdict_def split: sum.splits prod.splits; metis)
qed

end
