(* ===== verification/Py_Kernel.thy ===== *)
theory Py_Kernel
  imports Py_Bootstrap Helper
begin

text \<open>
  The Python kernel (\<^verbatim>\<open>native/src/carpo/interpreter_py.cpp\<close>): the requests of the framework as calls
  into Python.

  A request is an act whose emissions are what the kernel sends: the calls into the bootstrap with every
  write turned into a stream message, and between them what the C++ code publishes.

  Shown: what a cell writes is published in order, followed by its outcome, whatever its code raises; an
  exception that cannot be described is an internal error.
\<close>

section \<open>What is sent\<close>

datatype py_output =
    P_Stream string string
  | P_Error string string "string list"
  | P_Result int json
  | P_Ask string
  | P_Reply nat json
  | P_Busy_Reply nat json

text \<open>\<open>_CarpoStream.write\<close> and \<open>carpoNativeWrite\<close>: nothing is published for an empty text, or for one that cannot
  be converted.\<close>

definition carpoNativeWrite :: "bool \<times> pystr \<Rightarrow> py_output list" where
  "carpoNativeWrite x =
     (case x of (err, s) \<Rightarrow>
        let text = pyUnicodeToStdString (Some s)
        in if s = [] \<or> text = [] then [] else [P_Stream (if err then ''stderr'' else ''stdout'') text])"

primrec emits :: "'x list \<Rightarrow> ('x, 'w, 'r) act \<Rightarrow> ('x, 'w, 'r) act" where
  "emits [] a = a"
| "emits (x # xs) a = Emit x (emits xs a)"

text \<open>\<open>PyObject_CallObject\<close>: a call into Python with the native streams in place.\<close>

primrec native :: "(bool \<times> pystr, 'w, 'r) act \<Rightarrow> (py_output, 'w, 'r) act" where
  "native (Done r) = Done r"
| "native (Step g k) = Step g (\<lambda>w. native (k w))"
| "native (Emit x a) = emits (carpoNativeWrite x) (native a)"
| "native (Ask p k) = Ask p (\<lambda>r. native (k r))"
| "native (Poll k) = Poll (\<lambda>b. native (k b))"

type_synonym ('w, 'o, 'a) kact = "(py_output, ('w, 'o) py_world, 'a) act"

abbreviation std_string :: "pystr \<Rightarrow> string" where
  "std_string s \<equiv> pyUnicodeToStdString (Some s)"

definition describePythonError :: "('w, 'o) python \<Rightarrow> string \<Rightarrow> 'o \<Rightarrow> ('w, 'o, string) kact" where
  "describePythonError P ctx e =
     (let name = std_string (type_name P e); ename = (if name \<noteq> [] then name else ''PythonError'')
      in act_bind (native (py_str P e)) (\<lambda>r.
           Done (ctx @ '': '' @ ename @ '': '' @ (case r of Inl _ \<Rightarrow> [] | Inr s \<Rightarrow> std_string s))))"

section \<open>A cell\<close>

definition value_ok :: "string \<Rightarrow> json" where
  "value_ok text = jobj [(''status'', JString ''ok''), (''data'', jobj [(''text/plain'', JString text)]), (''metadata'', JObject [])]"

definition value_error :: "string \<Rightarrow> string \<Rightarrow> json" where
  "value_error ename evalue =
     jobj [(''status'', JString ''error''), (''ename'', JString ename), (''evalue'', JString evalue), (''traceback'', JArray [])]"

definition expression_value :: "pystr \<times> pystr \<times> pystr \<Rightarrow> json" where
  "expression_value r =
     (case r of (status, second, evalue) \<Rightarrow>
        if std_string status = ''ok'' then value_ok (std_string second) else value_error (std_string second) (std_string evalue))"

text \<open>One user expression. A text that is no UTF-8 leaves a null argument: no value (\<open>None\<close>) is defined for the call.\<close>

definition user_expression :: "('w, 'o) python \<Rightarrow> string \<Rightarrow> string \<Rightarrow> ('w, 'o, json option) kact" where
  "user_expression P key expr =
     (case (PyUnicode_FromString key, PyUnicode_FromString expr) of
        (Some k, Some e) \<Rightarrow>
          act_bind (native (carpo_answer P k e)) (\<lambda>r.
            case r of
              Inr (Some answer) \<Rightarrow> Done (Some (expression_value answer))
            | _ \<Rightarrow> act_bind (native (carpo_eval_expr P e)) (\<lambda>r.
                     Done (Some (case r of Inl _ \<Rightarrow> value_error ''EvaluationError'' ''could not evaluate expression''
                                  | Inr v \<Rightarrow> expression_value v))))
      | _ \<Rightarrow> Done None)"

primrec user_expressions :: "('w, 'o) python \<Rightarrow> (string \<times> json) list \<Rightarrow> (string \<times> json) list \<Rightarrow> ('w, 'o, json option) kact" where
  "user_expressions P [] results = Done (Some (JObject results))"
| "user_expressions P (kv # kvs) results =
     act_bind (user_expression P (fst kv) (case snd kv of JString t \<Rightarrow> t | _ \<Rightarrow> [])) (\<lambda>j.
       case j of None \<Rightarrow> Done None | Some j \<Rightarrow> user_expressions P kvs (obj_put (fst kv) j results))"

definition run_outcome :: "('w, 'o) python \<Rightarrow> int \<Rightarrow> json \<Rightarrow> run_result \<Rightarrow> ('w, 'o, json option) kact" where
  "run_outcome P execution_count expressions r =
     (let ename = std_string (rr_ename r); evalue = std_string (rr_evalue r); tb = map std_string (rr_traceback r)
      in if std_string (rr_status r) = ''error''
         then Emit (P_Error ename evalue tb) (Done (Some (createErrorReply ename evalue (JArray (map JString tb)))))
         else
           emits (if rr_has_result r \<noteq> 0 then [P_Result execution_count (jobj [(''text/plain'', JString (std_string (rr_repr r)))])] else [])
             (act_bind (user_expressions P (case expressions of JObject es \<Rightarrow> es | _ \<Rightarrow> []) []) (\<lambda>js.
                Done (map_option (createSuccessfulReply (JArray [])) js))))"

definition kInternalError :: string where
  "kInternalError = ''Carpo'' @ [CHR 0x27] @ ''s internal Python bootstrap runtime failed''"

definition runCell :: "('w, 'o) python \<Rightarrow> int \<Rightarrow> string \<Rightarrow> json \<Rightarrow> ('w, 'o, json option) kact" where
  "runCell P execution_count code expressions =
     (case PyUnicode_FromString code of
        None \<Rightarrow> Done None
      | Some c \<Rightarrow>
          act_bind (native (carpo_run P c)) (\<lambda>r.
            case r of
              Inl e \<Rightarrow> act_bind (describePythonError P kInternalError e) (\<lambda>message.
                         Emit (P_Error ''CarpoInternalError'' message [])
                           (Done (Some (createErrorReply ''CarpoInternalError'' message JNull))))
            | Inr r \<Rightarrow> run_outcome P execution_count expressions r))"

section \<open>The other requests\<close>

datatype py_request = Complete string int | Inspect string int | Is_Complete string

definition answersWhileBusyImpl :: "string \<Rightarrow> bool" where
  "answersWhileBusyImpl msg_type \<longleftrightarrow>
     msg_type = ''complete_request'' \<or> msg_type = ''inspect_request'' \<or> msg_type = ''is_complete_request''"

definition completeRequestImpl :: "('w, 'o) python \<Rightarrow> bool \<Rightarrow> string \<Rightarrow> int \<Rightarrow> ('w, 'o, json option) kact" where
  "completeRequestImpl P finalized code cursor_pos =
     (if finalized then Done (Some (createCompleteReply (JArray []) cursor_pos cursor_pos (JObject [])))
      else case PyUnicode_FromString code of
             None \<Rightarrow> Done None
           | Some c \<Rightarrow> act_bind (native (carpo_complete P c cursor_pos)) (\<lambda>r.
               Done (Some (case r of
                   Inl _ \<Rightarrow> createCompleteReply (JArray []) cursor_pos cursor_pos (JObject [])
                 | Inr (matches, s, e) \<Rightarrow>
                     createCompleteReply (JArray (map (\<lambda>m. JString (std_string m)) matches)) (int32 s) (int32 e) (JObject [])))))"

definition inspectRequestImpl :: "('w, 'o) python \<Rightarrow> bool \<Rightarrow> string \<Rightarrow> int \<Rightarrow> ('w, 'o, json option) kact" where
  "inspectRequestImpl P finalized code cursor_pos =
     (let missing = createInspectReply False (JObject []) (JObject [])
      in if finalized then Done (Some missing)
         else case PyUnicode_FromString code of
                None \<Rightarrow> Done None
              | Some c \<Rightarrow> act_bind (native (carpo_inspect P c cursor_pos)) (\<lambda>r.
                  Done (Some (case r of
                      Inl _ \<Rightarrow> missing
                    | Inr (found, text) \<Rightarrow>
                        if found = 0 then missing
                        else createInspectReply True (jobj [(''text/plain'', JString (std_string text))]) (JObject [])))))"

definition isCompleteRequestImpl :: "('w, 'o) python \<Rightarrow> bool \<Rightarrow> string \<Rightarrow> ('w, 'o, json option) kact" where
  "isCompleteRequestImpl P finalized code =
     (if finalized then Done (Some (createIsCompleteReply ''unknown'' []))
      else case PyUnicode_FromString code of
             None \<Rightarrow> Done None
           | Some c \<Rightarrow> act_bind (native (carpo_is_complete P c)) (\<lambda>r.
               Done (Some (createIsCompleteReply (case r of Inl _ \<Rightarrow> ''unknown'' | Inr s \<Rightarrow> std_string s) []))))"

fun request_act :: "('w, 'o) python \<Rightarrow> bool \<Rightarrow> py_request \<Rightarrow> ('w, 'o, json option) kact" where
  "request_act P finalized (Complete code cursor_pos) = completeRequestImpl P finalized code cursor_pos"
| "request_act P finalized (Inspect code cursor_pos) = inspectRequestImpl P finalized code cursor_pos"
| "request_act P finalized (Is_Complete code) = isCompleteRequestImpl P finalized code"

definition kernelInfoRequestImpl :: "string \<Rightarrow> string \<Rightarrow> json" where
  "kernelInfoRequestImpl protocol_version version =
     createInfoReply ''carpo'' protocol_version ''python'' version ''text/x-python'' ''.py'' ''python3'' (JString ''python'') []
       (''carpo (Python '' @ version @ '')'') (JArray []) []"

section \<open>What a call shows\<close>

definition streams :: "(bool \<times> pystr) list \<Rightarrow> py_output list" where
  "streams xs = concat (map carpoNativeWrite xs)"

lemma streams_append [simp]: "streams (xs @ ys) = streams xs @ streams ys" "streams [] = []"
  by (simp_all add: streams_def)

lemma streams_Cons: "streams (x # xs) = carpoNativeWrite x @ streams xs"
  by (simp add: streams_def)

lemma trace_emits [simp]: "trace (emits xs a) zs r \<longleftrightarrow> (\<exists>ys. zs = xs @ ys \<and> trace a ys r)"
  by (induction xs arbitrary: zs) auto

lemma trace_native: "trace (native a) zs r \<longleftrightarrow> (\<exists>xs. zs = streams xs \<and> trace a xs r)"
proof (induction a arbitrary: zs)
  case (Emit x a)
  have "(\<exists>ys. zs = streams ys \<and> trace (Emit x a) ys r) \<longleftrightarrow> (\<exists>xs. zs = carpoNativeWrite x @ streams xs \<and> trace a xs r)"
    using streams_Cons [of x] by (simp, metis)
  then show ?case using Emit.IH by auto
qed (simp; blast)+

text \<open>A text without a lone surrogate and without a NUL is published whole.\<close>

lemma written_text_shown:
  assumes "to_utf8 s = Some bs" "0 \<notin> set bs" "s \<noteq> []"
  shows "carpoNativeWrite (err, s) = [P_Stream (if err then ''stderr'' else ''stdout'') (text_of bs)]"
proof -
  have "CHR 0x00 \<notin> set (text_of bs)"
  proof
    assume "CHR 0x00 \<in> set (text_of bs)"
    then have "word_of_nat (of_char CHR 0x00) \<in> set (bytes_of (text_of bs))" unfolding bytes_of_def set_map by (rule imageI)
    then show False using assms(2) by simp
  qed
  moreover have "bs \<noteq> []" using assms(1,3) by (cases s) (auto simp: to_utf8_def split: if_splits)
  ultimately show ?thesis using assms(1,3) by (simp add: carpoNativeWrite_def pyUnicodeToStdString_def c_string_id Let_def text_of_def)
qed

lemma std_string_lit:
  assumes "list_all (\<lambda>c. c \<noteq> CHR 0x00 \<and> of_char c < (0x80 :: nat)) t"
  shows "std_string (lit t) = t"
proof -
  have "to_utf8 (lit t) = Some (bytes_of t)"
    using assms by (induction t) (auto simp: to_utf8_def lit_def bytes_of_def utf8_encode_def code_ok_def split: if_splits)
  moreover have "c_string t = t" using assms by (intro c_string_id) (auto simp: list_all_iff)
  ultimately show ?thesis by (simp add: pyUnicodeToStdString_def)
qed

lemma std_string_status [simp]: "std_string (lit ''ok'') = ''ok''" "std_string (lit ''error'') = ''error''"
  by (simp_all add: std_string_lit)

section \<open>The outcome of a cell\<close>

definition internal_message :: "('w, 'o) python \<Rightarrow> 'o \<Rightarrow> string \<Rightarrow> string" where
  "internal_message P f text =
     kInternalError @ '': '' @ (if std_string (type_name P f) \<noteq> [] then std_string (type_name P f) else ''PythonError'') @ '': '' @ text"

lemma describe_spec: "trace (describePythonError P ctx f) zs m \<Longrightarrow>
  \<exists>xs text. zs = streams xs \<and> m = ctx @ '': '' @ (if std_string (type_name P f) \<noteq> [] then std_string (type_name P f) else ''PythonError'') @ '': '' @ text"
  by (auto simp: describePythonError_def Let_def trace_bind trace_native)

lemma run_outcome_error:
  "rr_status q = lit ''error'' \<Longrightarrow> trace (run_outcome P n es q) zs r \<longleftrightarrow>
    zs = [P_Error (std_string (rr_ename q)) (std_string (rr_evalue q)) (map std_string (rr_traceback q))] \<and>
    r = Some (createErrorReply (std_string (rr_ename q)) (std_string (rr_evalue q)) (JArray (map JString (map std_string (rr_traceback q)))))"
  by (auto simp: run_outcome_def Let_def)

text \<open>Calls that show nothing but what the user's code writes.\<close>

definition only_streams :: "('w, 'o, 'a) kact \<Rightarrow> bool" where
  "only_streams a \<longleftrightarrow> (\<forall>zs r. trace a zs r \<longrightarrow> (\<exists>xs. zs = streams xs))"

lemma only_streams_Done: "only_streams (Done r)"
  by (auto simp: only_streams_def intro: exI [of _ "[]"])

lemma only_streams_native: "only_streams (native a)"
  by (auto simp: only_streams_def trace_native)

lemma only_streams_bind: "only_streams a \<Longrightarrow> (\<And>x. only_streams (f x)) \<Longrightarrow> only_streams (act_bind a f)"
  unfolding only_streams_def trace_bind by (metis streams_append(1))

lemmas only_streams_intros = only_streams_Done only_streams_native only_streams_bind

lemma user_expression_streams: "only_streams (user_expression P k e)"
  by (auto simp: user_expression_def intro!: only_streams_intros split: option.split sum.split)

lemma user_expressions_streams: "only_streams (user_expressions P kvs js)"
  by (induction kvs arbitrary: js)
    (auto intro!: only_streams_intros user_expression_streams split: option.split)

lemma run_outcome_ok:
  assumes "rr_status q = lit ''ok''" "trace (run_outcome P n es q) zs (Some j)"
  shows "\<exists>xs answers. zs = (if rr_has_result q \<noteq> 0 then [P_Result n (jobj [(''text/plain'', JString (std_string (rr_repr q)))])] else []) @ streams xs
    \<and> j = createSuccessfulReply (JArray []) answers"
  using assms(2) unfolding run_outcome_def Let_def assms(1)
  using user_expressions_streams [of P "case es of JObject es \<Rightarrow> es | _ \<Rightarrow> []" "[]"]
  by (auto simp: trace_bind eq_commute [of "Some j"] only_streams_def) blast+

text \<open>The exception a cell ended with: of its statements, or of the \<open>repr\<close> of its value.\<close>

definition raised_by :: "'o + (int \<times> 'o + run_result) \<Rightarrow> 'o option" where
  "raised_by x = (case x of Inl e \<Rightarrow> Some e | Inr (Inl (h, e)) \<Rightarrow> Some e | Inr (Inr q) \<Rightarrow> None)"

lemma run_cell_split:
  assumes "trace (runCell P n code es) zs (Some reply)"
  obtains c ws x vs y us where "PyUnicode_FromString code = Some c" "trace (run_body P c) ws x" "trace (run_verdict P x) vs y"
    "zs = streams ws @ streams vs @ us"
    "case y of
       Inl f \<Rightarrow> trace (act_bind (describePythonError P kInternalError f) (\<lambda>message.
                  Emit (P_Error ''CarpoInternalError'' message []) (Done (Some (createErrorReply ''CarpoInternalError'' message JNull))))) us (Some reply)
     | Inr q \<Rightarrow> trace (run_outcome P n es q) us (Some reply)"
proof -
  obtain c where c: "PyUnicode_FromString code = Some c" using assms by (auto simp: runCell_def split: option.splits)
  obtain xs y us where t: "zs = streams xs @ us" "trace (carpo_run P c) xs y"
    "trace (case y of
       Inl f \<Rightarrow> act_bind (describePythonError P kInternalError f) (\<lambda>message.
                  Emit (P_Error ''CarpoInternalError'' message []) (Done (Some (createErrorReply ''CarpoInternalError'' message JNull))))
     | Inr q \<Rightarrow> run_outcome P n es q) us (Some reply)"
    using assms unfolding runCell_def c option.case trace_bind trace_native by blast
  from t(2) obtain ws x vs where "xs = ws @ vs" "trace (run_body P c) ws x" "trace (run_verdict P x) vs y"
    unfolding carpo_run_verdict trace_bind by blast
  with that [OF c, of ws x vs y us] t(1,3) show thesis by (simp split: sum.splits)
qed

text \<open>What is sent for a run \<open>x\<close> of the code that wrote \<open>ws\<close>; \<open>vs\<close> is written afterwards, by the user expressions or
  by the description of the exception.\<close>

definition cell_shown ::
  "('w, 'o) python \<Rightarrow> int \<Rightarrow> (bool \<times> pystr) list \<Rightarrow> 'o + (int \<times> 'o + run_result) \<Rightarrow> (bool \<times> pystr) list \<Rightarrow> py_output list \<Rightarrow> json \<Rightarrow> bool" where
  "cell_shown P n ws x vs zs reply \<longleftrightarrow>
    (case raised_by x of
       None \<Rightarrow> \<exists>q answers. x = Inr (Inr q) \<and>
         zs = streams ws @ (if rr_has_result q \<noteq> 0 then [P_Result n (jobj [(''text/plain'', JString (std_string (rr_repr q)))])] else [])
           @ streams vs \<and> reply = createSuccessfulReply (JArray []) answers
     | Some e \<Rightarrow>
         (\<exists>a b evalue tb. trace (py_str P e) a (Inr evalue) \<and> trace (format_exception P e) b (Inr tb) \<and>
            zs = streams ws @ streams vs @ [P_Error (std_string (type_name P e)) (std_string evalue) (map std_string tb)] \<and>
            reply = createErrorReply (std_string (type_name P e)) (std_string evalue) (JArray (map JString (map std_string tb))))
       \<or> (\<exists>a f text. (trace (py_str P e) a (Inl f) \<or> trace (format_exception P e) a (Inl f)) \<and>
            zs = streams ws @ streams vs @ [P_Error ''CarpoInternalError'' (internal_message P f text) []] \<and>
            reply = createErrorReply ''CarpoInternalError'' (internal_message P f text) JNull))"

lemma cell_shown_ok:
  assumes "trace (run_body P c) ws (Inr (Inr q))" "trace (run_outcome P n es q) us (Some reply)"
  shows "\<exists>vs. cell_shown P n ws (Inr (Inr q)) vs (streams ws @ us) reply"
proof -
  from run_outcome_ok [OF run_body_ok [OF assms(1)] assms(2)] obtain xs answers where
    "us = (if rr_has_result q \<noteq> 0 then [P_Result n (jobj [(''text/plain'', JString (std_string (rr_repr q)))])] else []) @ streams xs"
    "reply = createSuccessfulReply (JArray []) answers" by blast
  then have "cell_shown P n ws (Inr (Inr q)) xs (streams ws @ us) reply" by (auto simp: cell_shown_def raised_by_def)
  then show ?thesis by blast
qed

lemma cell_shown_error:
  assumes "raised_by x = Some e" "trace (run_failed P h e) vs (Inr q)" "trace (run_outcome P n es q) us (Some reply)"
  shows "cell_shown P n ws x vs (streams ws @ streams vs @ us) reply"
proof -
  obtain evalue tb a b where r: "trace (py_str P e) a (Inr evalue)" "trace (format_exception P e) b (Inr tb)"
    "q = run_error h (type_name P e) evalue tb" using run_failed_result assms(2) by metis
  have "rr_status q = lit ''error''" by (simp add: r(3) run_error_def)
  from assms(3) [unfolded run_outcome_error [OF this]] have
    "us = [P_Error (std_string (type_name P e)) (std_string evalue) (map std_string tb)]"
    "reply = createErrorReply (std_string (type_name P e)) (std_string evalue) (JArray (map JString (map std_string tb)))"
    by (simp_all add: r(3) run_error_def)
  then show ?thesis unfolding cell_shown_def assms(1) option.case using r(1,2) by blast
qed

lemma cell_shown_internal:
  assumes "raised_by x = Some e" "trace (run_failed P h e) vs (Inl f)"
    and "trace (act_bind (describePythonError P kInternalError f) (\<lambda>message.
           Emit (P_Error ''CarpoInternalError'' message []) (Done (Some (createErrorReply ''CarpoInternalError'' message JNull))))) us (Some reply)"
  shows "\<exists>vs'. cell_shown P n ws x vs' (streams ws @ streams vs @ us) reply"
proof -
  obtain a where a: "trace (py_str P e) a (Inl f) \<or> trace (format_exception P e) a (Inl f)"
    using run_failed_raises assms(2) by metis
  from assms(3) [unfolded trace_bind] obtain xs m ys where d: "trace (describePythonError P kInternalError f) xs m"
    "us = xs @ ys" "ys = [P_Error ''CarpoInternalError'' m []]" "reply = createErrorReply ''CarpoInternalError'' m JNull" by auto
  from describe_spec [OF d(1)] obtain ts detail where ts: "xs = streams ts" "m = internal_message P f detail"
    unfolding internal_message_def by blast
  have "streams ws @ streams vs @ us = streams ws @ streams (vs @ ts) @ [P_Error ''CarpoInternalError'' (internal_message P f detail) []]"
    using d ts by simp
  then have "cell_shown P n ws x (vs @ ts) (streams ws @ streams vs @ us) reply"
    unfolding cell_shown_def assms(1) option.case using a d(4) ts by blast
  then show ?thesis by blast
qed


lemma FromString_lit:
  assumes "list_all (\<lambda>c. c \<noteq> CHR 0x00 \<and> of_char c < (0x80 :: nat)) t"
  shows "PyUnicode_FromString t = Some (lit t)"
proof -
  have "to_utf8 (lit t) = Some (bytes_of t)"
    using assms by (induction t) (auto simp: to_utf8_def lit_def bytes_of_def utf8_encode_def code_ok_def split: if_splits)
  moreover have "c_string t = t" using assms by (intro c_string_id) (auto simp: list_all_iff)
  ultimately show ?thesis by (simp add: PyUnicode_FromString_def from_utf8_iff)
qed

text \<open>A Python that knows one program: it polls for a signal, prints \<open>hi\<close> and has the value 7.\<close>

definition demo_frame :: "(unit, nat) py_frame" where
  "demo_frame = \<lparr>fr_to_frame = ret, fr_len = (\<lambda>_. ret 0), fr_columns = (\<lambda>_. ret []), fr_slice = (\<lambda>_ _ _. ret []),
     fr_plain_index = (\<lambda>_. ret True), fr_index = (\<lambda>_ _ _. ret [])\<rparr>"

definition demo_value :: "(unit, nat, nat) py" where
  "demo_value = Poll (\<lambda>signal. if signal then raise 99 else Emit (False, lit ''hi'') (ret 7))"

definition demo_python :: "(unit, nat) python" where
  "demo_python = \<lparr>new_event_loop = ret 5, set_event_loop = (\<lambda>_. ret ()), loop_is_closed = (\<lambda>_. ret False),
     loop_is_running = (\<lambda>_. ret False), loop_has_work = (\<lambda>_. ret False), loop_stop_soon = (\<lambda>_. ret ()), loop_run_forever = (\<lambda>_. ret ()),
     loop_run_until_complete = (\<lambda>_. ret), print_exc = (\<lambda>_. ret ()), ast_parse = (\<lambda>_. ret [1]), is_expr = (\<lambda>_. True),
     compile_exec = (\<lambda>_. ret 2), compile_eval = (\<lambda>_. ret 3), is_coroutine = (\<lambda>_. False), eval_compiled = (\<lambda>_. demo_value),
     is_none = (\<lambda>x. x = 0), py_repr = (\<lambda>_. ret (lit ''7'')), py_str = (\<lambda>_. ret []), type_name = (\<lambda>_. lit ''KeyboardInterrupt''),
     isinstance = (\<lambda>_ _. False), new_exn = (\<lambda>_ _. 98), builtin_exn = (\<lambda>_. 97), format_exception = (\<lambda>_. ret []),
     compile_command = (\<lambda>_. ret 0), new_completer = ret 4,
     completer_complete = (\<lambda>c t n. ret (if n = 0 then Some (lit ''foobar'') else None)), iskeyword = (\<lambda>_. False),
     help_keywords = (\<lambda>_. None), help_topics = (\<lambda>_. None), topic_text = (\<lambda>_. ret None), isalnum = (\<lambda>_. False), is_space = (\<lambda>_. False),
     eval_text = (\<lambda>_. ret 0), py_signature = (\<lambda>_. ret []), getdoc = (\<lambda>_. ret None), global_items = (\<lambda>_. []), is_module = (\<lambda>_. False),
     is_type = (\<lambda>_. False), is_callable = (\<lambda>_. False), type_module = (\<lambda>_. []), py_ndim = (\<lambda>_. ret 0), py_shape = (\<lambda>_. ret None),
     py_len = (\<lambda>_. ret 0), own_name = (\<lambda>_. ret []), short_repr = (\<lambda>_. ret []), float_text = (\<lambda>_. []), is_nan = (\<lambda>_. False),
     py_loads = (\<lambda>_. ret V_None), py_dumps = (\<lambda>_. []), int_of_text = (\<lambda>_. None), format_value = (\<lambda>_. []), py_frames = (\<lambda>_. demo_frame)\<rparr>"

lemma demo_simps:
  "new_event_loop demo_python = ret 5" "set_event_loop demo_python l = ret ()" "ast_parse demo_python c = ret [1]"
  "is_expr demo_python e" "compile_eval demo_python e = ret 3" "\<not> is_coroutine demo_python o'" "eval_compiled demo_python o' = demo_value"
  "is_none demo_python o' \<longleftrightarrow> o' = 0" "py_repr demo_python o' = ret (lit ''7'')" "new_completer demo_python = ret 4"
  "completer_complete demo_python o' t n = ret (if n = 0 then Some (lit ''foobar'') else None)"
  "py_str demo_python o' = ret []" "format_exception demo_python o' = ret []" "type_name demo_python o' = lit ''KeyboardInterrupt''"
  by (simp_all add: demo_python_def)

lemma demo_loop: "trace (carpo_event_loop demo_python) [] (Inr 5)"
proof -
  let ?w = "\<lparr>pw_loop = None, pw_rest = ()\<rparr>"
  have "trace (py_bind (case pw_loop ?w of None \<Rightarrow> ret None
      | Some l \<Rightarrow> py_bind (loop_is_closed demo_python l) (\<lambda>closed. ret (if closed then None else Some l))) (\<lambda>l.
     py_bind (case l of
                None \<Rightarrow> py_bind (new_event_loop demo_python) (\<lambda>l. act_bind (put_world (\<lambda>w. w\<lparr>pw_loop := Some l\<rparr>)) (\<lambda>_. ret l))
              | Some l \<Rightarrow> ret l) (\<lambda>l.
     py_bind (set_event_loop demo_python l) (\<lambda>_. ret l)))) [] (Inr 5)"
    by (simp add: demo_simps put_world_def trace_py_bind(1))
  moreover have "trace py_get [] (Inr ?w)" by (auto simp: py_get_def get_world_def)
  ultimately show ?thesis unfolding carpo_event_loop_def using trace_py_bindI by fastforce
qed

lemma demo_evaluate: "trace (carpo_evaluate demo_python 3) [(False, lit ''hi'')] (Inr 7)"
  by (auto simp: carpo_evaluate_def demo_simps demo_value_def intro: exI [of _ False])

lemma demo_body: "trace (run_body demo_python c) [(False, lit ''hi'')] (Inr (Inr (run_ok 1 (lit ''7''))))"
proof -
  have "trace (run_value demo_python (Some 1)) [(False, lit ''hi'')] (Inr (Inr (run_ok 1 (lit ''7''))))"
    unfolding run_value_def option.case demo_simps py_bind_simps
    by (rule trace_py_bindI [OF demo_evaluate, where ys = "[]", simplified]) (simp add: demo_simps)
  then show ?thesis
    using trace_py_bindI [OF demo_loop] by (simp add: run_body_def demo_simps split_body_def run_statements_def)
qed


end
