(* ===== verification/Py_Threads.thy ===== *)
theory Py_Threads
  imports Py_Kernel
begin

text \<open>
  The threads of the Python kernel (\<^verbatim>\<open>native/src/carpo/interpreter_py.cpp\<close>): its own, the one that answers
  requests while a cell runs, and any number of threads the user's code has started. They take turns
  holding Python's lock, and every one of them does one thing at a time; which one is next is an event. An
  interrupt comes from yet another thread and leaves a signal pending, which the kernel's own thread notices
  when its code polls.

  Shown: whatever the interleaving, every request is answered once and in turn, and a cell whose thread
  gets its turns is answered; a completion is for the name before the cursor, with the exception its
  pattern makes; and an interrupt that arrives when the code of a cell has ended is not lost but hits a later
  one.
\<close>

section \<open>The kernel\<close>

text \<open>Where the kernel's thread is: waiting for requests; in a cell; about to send its reply; past sending it,
  with the flag still set; in another request; in a pass of the event loop; or after a call that has no
  defined outcome.\<close>

datatype ('w, 'o) py_at =
    At_Rest
  | Running nat "('w, 'o, json option) kact"
  | Sending nat json
  | Sent nat
  | Answering nat "('w, 'o, json option) kact"
  | Idling "('w, 'o, unit) kact"
  | Broken

record ('w, 'o) PyInterpreter =
  k_ownsInterpreter :: bool
  k_executing :: bool
  k_finalized :: bool
  k_at :: "('w, 'o) py_at"
  k_busy :: "(nat \<times> ('w, 'o, json option) kact) option"
  k_threads :: "('w, 'o, unit) kact list"
  k_world :: "('w, 'o) py_world"
  k_pending :: bool
  k_out :: "py_output list"

definition new_PyInterpreter :: "bool \<Rightarrow> ('w, 'o) py_world \<Rightarrow> ('w, 'o) PyInterpreter" where
  "new_PyInterpreter owns w =
     \<lparr>k_ownsInterpreter = owns, k_executing = False, k_finalized = False, k_at = At_Rest, k_busy = None, k_threads = [],
      k_world = w, k_pending = False, k_out = []\<rparr>"

text \<open>\<open>carpoNativeInput\<close>, on what \<open>blockingInputRequest\<close> did: it threw an exception with a text, or returned a value.\<close>

type_synonym input_result = "string + string"

definition carpoNativeInput :: "input_result \<Rightarrow> py_answer" where
  "carpoNativeInput value =
     (case value of
        Inl what \<Rightarrow> Input_Failed (if what = [] then ''input request failed'' else what)
      | Inr v \<Rightarrow> (case PyUnicode_FromString v of Some s \<Rightarrow> Answered s | None \<Rightarrow> Not_Text))"

text \<open>One action of a thread; only the main thread sees the signal.\<close>

fun advance :: "bool \<Rightarrow> input_result \<Rightarrow> ('w, 'o, 'a) kact \<Rightarrow> ('w, 'o) PyInterpreter \<Rightarrow> ('w, 'o, 'a) kact \<times> ('w, 'o) PyInterpreter" where
  "advance main answer (Done r) s = (Done r, s)"
| "advance main answer (Step g k) s = (k (k_world s), s\<lparr>k_world := g (k_world s)\<rparr>)"
| "advance main answer (Emit x a) s = (a, s\<lparr>k_out := k_out s @ [x]\<rparr>)"
| "advance main answer (Ask p k) s = (k (carpoNativeInput answer), s\<lparr>k_out := k_out s @ [P_Ask (std_string p)]\<rparr>)"
| "advance main answer (Poll k) s = (k (main \<and> k_pending s), s\<lparr>k_pending := (k_pending s \<and> \<not> main)\<rparr>)"

text \<open>A turn of the kernel's thread.\<close>

definition main_turn :: "input_result \<Rightarrow> ('w, 'o) PyInterpreter \<Rightarrow> ('w, 'o) PyInterpreter" where
  "main_turn answer s =
     (case k_at s of
        Running r a \<Rightarrow>
          (case a of
             Done None \<Rightarrow> s\<lparr>k_at := Broken\<rparr>
           | Done (Some j) \<Rightarrow> s\<lparr>k_at := Sending r j\<rparr>
           | _ \<Rightarrow> let (a, s) = advance True answer a s in s\<lparr>k_at := Running r a\<rparr>)
      | Sending r j \<Rightarrow> s\<lparr>k_out := k_out s @ [P_Reply r j], k_at := Sent r\<rparr>
      | Sent r \<Rightarrow> s\<lparr>k_executing := False, k_at := At_Rest\<rparr>
      | Answering r a \<Rightarrow>
          (case a of
             Done None \<Rightarrow> s\<lparr>k_at := Broken\<rparr>
           | Done (Some j) \<Rightarrow> s\<lparr>k_out := k_out s @ [P_Reply r j], k_at := At_Rest\<rparr>
           | _ \<Rightarrow> let (a, s) = advance True answer a s in s\<lparr>k_at := Answering r a\<rparr>)
      | Idling a \<Rightarrow>
          (case a of
             Done _ \<Rightarrow> s\<lparr>k_at := At_Rest\<rparr>
           | _ \<Rightarrow> let (a, s) = advance True answer a s in s\<lparr>k_at := Idling a\<rparr>)
      | _ \<Rightarrow> s)"

text \<open>\<open>executeRequestImpl\<close> up to the call: the flag is set, and the bootstrap's function is called, which is null
  once the interpreter has been finalized.\<close>

definition executeRequestImpl :: "('w, 'o) python \<Rightarrow> nat \<Rightarrow> int \<Rightarrow> string \<Rightarrow> json \<Rightarrow> ('w, 'o) PyInterpreter \<Rightarrow> ('w, 'o) PyInterpreter" where
  "executeRequestImpl P reply execution_count code expressions s =
     s\<lparr>k_executing := True,
       k_at := (if k_finalized s then Running reply (Done None) else Running reply (runCell P execution_count code expressions))\<rparr>"

definition idleImpl :: "('w, 'o) python \<Rightarrow> ('w, 'o) PyInterpreter \<Rightarrow> ('w, 'o) PyInterpreter" where
  "idleImpl P s = (if k_finalized s then s else s\<lparr>k_at := Idling (act_bind (native (carpo_idle P)) (\<lambda>_. Done ()))\<rparr>)"

text \<open>\<open>Py_FinalizeEx\<close> ends the threads of the interpreter: none of them runs again.\<close>

definition finalizeIfOwned :: "('w, 'o) PyInterpreter \<Rightarrow> ('w, 'o) PyInterpreter" where
  "finalizeIfOwned s =
     (if k_finalized s then s
      else (if k_ownsInterpreter s then s\<lparr>k_threads := [], k_busy := None\<rparr> else s)\<lparr>k_finalized := True\<rparr>)"

definition shutdownRequestImpl :: "nat \<Rightarrow> bool \<Rightarrow> ('w, 'o) PyInterpreter \<Rightarrow> ('w, 'o) PyInterpreter" where
  "shutdownRequestImpl reply restart s =
     (let s = finalizeIfOwned s in s\<lparr>k_out := k_out s @ [P_Reply reply (createShutdownReply restart)]\<rparr>)"

definition interruptRequestImpl :: "('w, 'o) PyInterpreter \<Rightarrow> json \<times> ('w, 'o) PyInterpreter" where
  "interruptRequestImpl s = (createInterruptReply, if k_executing s then s\<lparr>k_pending := True\<rparr> else s)"

definition busy_turn :: "input_result \<Rightarrow> ('w, 'o) PyInterpreter \<Rightarrow> ('w, 'o) PyInterpreter" where
  "busy_turn answer s =
     (case k_busy s of
        None \<Rightarrow> s
      | Some (r, a) \<Rightarrow>
          (case a of
             Done None \<Rightarrow> s\<lparr>k_at := Broken\<rparr>
           | Done (Some j) \<Rightarrow> s\<lparr>k_out := k_out s @ [P_Busy_Reply r j], k_busy := None\<rparr>
           | _ \<Rightarrow> let (a, s) = advance False answer a s in s\<lparr>k_busy := Some (r, a)\<rparr>))"

definition thread_turn :: "nat \<Rightarrow> input_result \<Rightarrow> ('w, 'o) PyInterpreter \<Rightarrow> ('w, 'o) PyInterpreter" where
  "thread_turn i answer s =
     (if i < length (k_threads s)
      then let (a, s) = advance False answer (k_threads s ! i) s in s\<lparr>k_threads := (k_threads s)[i := a]\<rparr>
      else s)"

datatype ('w, 'o) py_event =
    Execute nat int string json
  | Request nat py_request
  | Busy_Request nat py_request
  | Idle
  | Shutdown nat bool
  | Interrupt
  | Start_Thread "('w, 'o, unit) py"
  | Main_Turn input_result
  | Busy_Turn input_result
  | Thread_Turn nat input_result

text \<open>The user's threads write through the same streams; what they raise is not the kernel's.\<close>

fun py_step :: "('w, 'o) python \<Rightarrow> ('w, 'o) py_event \<Rightarrow> ('w, 'o) PyInterpreter \<Rightarrow> ('w, 'o) PyInterpreter" where
  "py_step P (Execute r n code es) s = (if k_at s = At_Rest then executeRequestImpl P r n code es s else s)"
| "py_step P (Request r q) s =
     (if k_at s = At_Rest then s\<lparr>k_at := Answering r (request_act P (k_finalized s) q)\<rparr> else s)"
| "py_step P (Busy_Request r q) s =
     (if k_executing s \<and> k_busy s = None then s\<lparr>k_busy := Some (r, request_act P (k_finalized s) q)\<rparr> else s)"
| "py_step P Idle s = (if k_at s = At_Rest then idleImpl P s else s)"
| "py_step P (Shutdown r restart) s = (if k_at s = At_Rest then shutdownRequestImpl r restart s else s)"
| "py_step P Interrupt s = snd (interruptRequestImpl s)"
| "py_step P (Start_Thread t) s =
     (if k_finalized s then s else s\<lparr>k_threads := k_threads s @ [act_bind (native t) (\<lambda>_. Done ())]\<rparr>)"
| "py_step P (Main_Turn answer) s = main_turn answer s"
| "py_step P (Busy_Turn answer) s = busy_turn answer s"
| "py_step P (Thread_Turn i answer) s = thread_turn i answer s"

section \<open>Every request is answered, once and in turn\<close>

fun is_reply :: "py_output \<Rightarrow> bool" where
  "is_reply (P_Reply r j) = True"
| "is_reply _ = False"

text \<open>An act that sends no replies itself, and a request whose every run has a defined answer.\<close>

definition mute :: "('w, 'o, 'a) kact \<Rightarrow> bool" where
  "mute a \<longleftrightarrow> (\<forall>zs r. trace a zs r \<longrightarrow> (\<forall>x \<in> set zs. \<not> is_reply x))"

definition sure :: "('w, 'o, json option) kact \<Rightarrow> bool" where
  "sure a \<longleftrightarrow> (\<forall>zs r. trace a zs r \<longrightarrow> r \<noteq> None)"

lemma mute_Done [simp]: "mute (Done r)"
  by (simp add: mute_def)

lemma mute_Emit: "mute (Emit x a) \<longleftrightarrow> \<not> is_reply x \<and> mute a"
  using trace_exists [of a] by (fastforce simp: mute_def)

lemma mute_bind: "mute a \<Longrightarrow> (\<And>x. mute (f x)) \<Longrightarrow> mute (act_bind a f)"
  by (fastforce simp: mute_def trace_bind)

lemma mute_emits: "(\<And>x. x \<in> set xs \<Longrightarrow> \<not> is_reply x) \<Longrightarrow> mute a \<Longrightarrow> mute (emits xs a)"
  by (induction xs) (auto simp: mute_Emit)

lemma stream_no_reply: "x \<in> set (streams xs) \<Longrightarrow> \<not> is_reply x"
  by (auto simp: streams_def carpoNativeWrite_def Let_def split: if_splits)

lemma mute_streams: "only_streams a \<Longrightarrow> mute a"
  using stream_no_reply by (fastforce simp: mute_def only_streams_def)

lemmas mute_native = mute_streams [OF only_streams_native]

lemma mute_run_outcome: "mute (run_outcome P n es r)"
  unfolding run_outcome_def Let_def
  by (auto intro!: mute_emits mute_bind mute_streams [OF user_expressions_streams] simp: mute_Emit)

lemma mute_runCell: "mute (runCell P n code es)"
  by (auto simp: runCell_def describePythonError_def Let_def mute_Emit intro!: mute_bind mute_native mute_run_outcome split: option.split sum.split)

lemma mute_request: "mute (request_act P fin q)"
  by (cases q) (auto simp: completeRequestImpl_def inspectRequestImpl_def isCompleteRequestImpl_def Let_def
      intro!: mute_bind mute_native split: option.split)

text \<open>What one turn does to an act: it emits what it then has behind it.\<close>

lemma advance_spec:
  assumes "advance main answer a s = (a', s')"
  shows "\<exists>xs ys. k_out s' = k_out s @ xs \<and> (\<forall>zs r. trace a' zs r \<longrightarrow> trace a (ys @ zs) r) \<and> (\<forall>x \<in> set xs. is_reply x \<longrightarrow> x \<in> set ys)"
    and "k_at s' = k_at s" "k_busy s' = k_busy s" "k_threads s' = k_threads s" "k_executing s' = k_executing s"
    "k_finalized s' = k_finalized s" "k_ownsInterpreter s' = k_ownsInterpreter s"
proof -
  show "\<exists>xs ys. k_out s' = k_out s @ xs \<and> (\<forall>zs r. trace a' zs r \<longrightarrow> trace a (ys @ zs) r) \<and> (\<forall>x \<in> set xs. is_reply x \<longrightarrow> x \<in> set ys)"
  proof (cases a)
    case (Emit x b)
    then show ?thesis using assms by (intro exI [of _ "[x]"]) auto
  next
    case (Ask p k)
    then show ?thesis using assms by (intro exI [of _ "[P_Ask (std_string p)]"] exI [of _ "[]"]) auto
  qed (use assms in \<open>auto intro!: exI [of _ "[]"]\<close>)
qed (use assms in \<open>cases a; auto\<close>)+

lemma advance_mute:
  assumes "advance main answer a s = (a', s')" "mute a"
  shows "mute a'" "\<exists>xs. k_out s' = k_out s @ xs \<and> (\<forall>x \<in> set xs. \<not> is_reply x)"
proof -
  obtain xs ys where k: "k_out s' = k_out s @ xs" "\<And>zs r. trace a' zs r \<Longrightarrow> trace a (ys @ zs) r" "\<And>x. x \<in> set xs \<Longrightarrow> is_reply x \<Longrightarrow> x \<in> set ys"
    using advance_spec(1) [OF assms(1)] by blast
  show "mute a'" unfolding mute_def using k(2) assms(2) [unfolded mute_def] by (metis UnCI set_append)
  have "\<not> is_reply x" if "x \<in> set ys" for x
    using trace_exists [of a'] k(2) assms(2) that unfolding mute_def by (metis UnCI set_append)
  then show "\<exists>xs. k_out s' = k_out s @ xs \<and> (\<forall>x \<in> set xs. \<not> is_reply x)" using k(1,3) by blast
qed

lemma advance_sure: "advance main answer a s = (a', s') \<Longrightarrow> sure a \<Longrightarrow> sure a'"
  using advance_spec(1) unfolding sure_def by metis

text \<open>Texts that are UTF-8, which those of a parsed message are.\<close>

definition valid_text :: "string \<Rightarrow> bool" where
  "valid_text t \<longleftrightarrow> PyUnicode_FromString t \<noteq> None"

fun text_value :: "json \<Rightarrow> string" where
  "text_value (JString t) = t"
| "text_value _ = []"

fun valid_expressions :: "json \<Rightarrow> bool" where
  "valid_expressions (JObject kvs) = list_all (\<lambda>(k, v). valid_text k \<and> valid_text (text_value v)) kvs"
| "valid_expressions _ = True"

fun valid_request :: "py_request \<Rightarrow> bool" where
  "valid_request (Complete code pos) = valid_text code"
| "valid_request (Inspect code pos) = valid_text code"
| "valid_request (Is_Complete code) = valid_text code"

fun proper :: "('w, 'o) py_event \<Rightarrow> bool" where
  "proper (Execute r n code es) = (valid_text code \<and> valid_expressions es)"
| "proper (Request r q) = valid_request q"
| "proper (Busy_Request r q) = valid_request q"
| "proper _ = True"

lemma valid_text_Nil [simp]: "valid_text []"
  by (simp add: valid_text_def PyUnicode_FromString_def c_string_def)

lemma sure_simps [simp]: "sure (Done r) \<longleftrightarrow> r \<noteq> None" "sure (Emit x a) \<longleftrightarrow> sure a"
  by (auto simp: sure_def)

lemma sure_bind: "(\<And>zs x. trace a zs x \<Longrightarrow> sure (f x)) \<Longrightarrow> sure (act_bind a f)"
  by (fastforce simp: sure_def trace_bind)

lemma sure_emits [simp]: "sure (emits xs a) \<longleftrightarrow> sure a"
  by (induction xs) simp_all

lemma sure_user_expression:
  assumes "valid_text k" "valid_text t"
  shows "sure (user_expression P k t)"
  using assms by (auto simp: user_expression_def valid_text_def intro!: sure_bind split: sum.split option.split)

lemma json_text: "(case j of JString t \<Rightarrow> t | _ \<Rightarrow> []) = text_value j"
  by (cases j) simp_all

lemma sure_user_expressions:
  "list_all (\<lambda>(k, v). valid_text k \<and> valid_text (text_value v)) kvs \<Longrightarrow> sure (user_expressions P kvs js)"
proof (induction kvs arbitrary: js)
  case (Cons kv kvs)
  have "sure (user_expression P (fst kv) (text_value (snd kv)))" using Cons.prems by (auto intro: sure_user_expression split: prod.splits)
  then show ?case using Cons by (auto simp: json_text sure_def [of "user_expression _ _ _"] intro!: sure_bind split: option.split)
qed simp

lemma sure_run_outcome: "valid_expressions es \<Longrightarrow> sure (run_outcome P n es r)"
  using sure_user_expressions [of "case es of JObject kvs \<Rightarrow> kvs | _ \<Rightarrow> []" P "[]"]
  by (cases es) (auto simp: run_outcome_def Let_def sure_def [of "user_expressions _ _ _"] intro!: sure_bind)

lemma sure_runCell:
  assumes "valid_text code" "valid_expressions es"
  shows "sure (runCell P n code es)"
  using assms(1) sure_run_outcome [OF assms(2)]
  by (auto simp: runCell_def valid_text_def intro!: sure_bind split: sum.split)

lemma sure_request: "valid_request q \<Longrightarrow> sure (request_act P fin q)"
  by (cases q) (auto simp: completeRequestImpl_def inspectRequestImpl_def isCompleteRequestImpl_def valid_text_def Let_def intro!: sure_bind)

section \<open>The invariant of the machine\<close>

fun in_cell :: "('w, 'o) py_at \<Rightarrow> bool" where
  "in_cell (Running r a) = True"
| "in_cell (Sending r j) = True"
| "in_cell (Sent r) = True"
| "in_cell _ = False"

text \<open>What the kernel's thread has to do sends no reply of its own and comes to an answer; a cell run after the
  interpreter was finalized has none.\<close>

fun good_at :: "bool \<Rightarrow> ('w, 'o) py_at \<Rightarrow> bool" where
  "good_at fin (Running r a) = (mute a \<and> (sure a \<or> fin))"
| "good_at fin (Answering r a) = (mute a \<and> sure a)"
| "good_at fin (Idling a) = mute a"
| "good_at fin Broken = fin"
| "good_at fin _ = True"

fun good_busy :: "(nat \<times> ('w, 'o, json option) kact) option \<Rightarrow> bool" where
  "good_busy None = True"
| "good_busy (Some (r, a)) = (mute a \<and> sure a)"

definition py_inv :: "('w, 'o) PyInterpreter \<Rightarrow> bool" where
  "py_inv s \<longleftrightarrow> good_at (k_finalized s) (k_at s) \<and> good_busy (k_busy s) \<and> list_all mute (k_threads s)
     \<and> (k_at s \<noteq> Broken \<longrightarrow> k_executing s = in_cell (k_at s))"

fun current_of :: "('w, 'o) py_at \<Rightarrow> nat list" where
  "current_of (Running r a) = [r]"
| "current_of (Sending r j) = [r]"
| "current_of (Answering r a) = [r]"
| "current_of _ = []"

fun reply_id :: "py_output \<Rightarrow> nat list" where
  "reply_id (P_Reply r j) = [r]"
| "reply_id _ = []"

definition replied :: "('w, 'o) PyInterpreter \<Rightarrow> nat list" where
  "replied s = concat (map reply_id (k_out s))"

fun accepted :: "('w, 'o) py_event \<Rightarrow> ('w, 'o) PyInterpreter \<Rightarrow> nat list" where
  "accepted (Execute r n code es) s = (if k_at s = At_Rest then [r] else [])"
| "accepted (Request r q) s = (if k_at s = At_Rest then [r] else [])"
| "accepted (Shutdown r restart) s = (if k_at s = At_Rest then [r] else [])"
| "accepted _ s = []"

fun taken :: "('w, 'o) python \<Rightarrow> ('w, 'o) py_event list \<Rightarrow> ('w, 'o) PyInterpreter \<Rightarrow> nat list" where
  "taken P [] s = []"
| "taken P (e # es) s = accepted e s @ taken P es (py_step P e s)"

text \<open>A step keeps the invariant and, until something undefined happens, the books.\<close>

definition ledger :: "('w, 'o) PyInterpreter \<Rightarrow> nat list" where
  "ledger s = replied s @ current_of (k_at s)"

definition step_ok :: "nat list \<Rightarrow> ('w, 'o) PyInterpreter \<Rightarrow> ('w, 'o) PyInterpreter \<Rightarrow> bool" where
  "step_ok new s s' \<longleftrightarrow> py_inv s' \<and> (k_at s = Broken \<longrightarrow> k_at s' = Broken) \<and> (k_at s' \<noteq> Broken \<longrightarrow> ledger s' = ledger s @ new)"

lemma no_reply_ids: "\<forall>x \<in> set xs. \<not> is_reply x \<Longrightarrow> concat (map reply_id xs) = []"
proof -
  have "\<not> is_reply x \<Longrightarrow> reply_id x = []" for x by (cases x) simp_all
  then show "\<forall>x \<in> set xs. \<not> is_reply x \<Longrightarrow> ?thesis" by simp
qed

lemma advance_ledger:
  assumes "advance main answer a s = (a', s')" "mute a"
  shows "replied s' = replied s"
  using advance_mute(2) [OF assms] no_reply_ids by (fastforce simp: replied_def)

lemma step_ok_refl: "py_inv s \<Longrightarrow> step_ok [] s s"
  by (simp add: step_ok_def)

lemma turn_unfinished:
  assumes "\<nexists>v. a = Done v"
  shows "k_at s = Running r a \<Longrightarrow> main_turn answer s = (let (a', s') = advance True answer a s in s'\<lparr>k_at := Running r a'\<rparr>)"
    and "k_at s = Answering r a \<Longrightarrow> main_turn answer s = (let (a', s') = advance True answer a s in s'\<lparr>k_at := Answering r a'\<rparr>)"
    and "k_busy s = Some (r, a) \<Longrightarrow> busy_turn answer s = (let (a', s') = advance False answer a s in s'\<lparr>k_busy := Some (r, a')\<rparr>)"
  using assms by (cases a; simp add: main_turn_def busy_turn_def; fail)+

lemma idle_unfinished:
  assumes "\<nexists>v. a = Done v" "k_at s = Idling a"
  shows "main_turn answer s = (let (a', s') = advance True answer a s in s'\<lparr>k_at := Idling a'\<rparr>)"
  using assms by (cases a) (simp_all add: main_turn_def)

lemma replied_simps [simp]:
  "replied (s\<lparr>k_at := x1\<rparr>) = replied s" "replied (s\<lparr>k_busy := x2\<rparr>) = replied s" "replied (s\<lparr>k_threads := x3\<rparr>) = replied s"
  "replied (s\<lparr>k_executing := x4\<rparr>) = replied s" "replied (s\<lparr>k_out := k_out s @ xs\<rparr>) = replied s @ concat (map reply_id xs)"
  "replied (s\<lparr>k_finalized := x5\<rparr>) = replied s" "replied (s\<lparr>k_pending := x6\<rparr>) = replied s"
  by (simp_all add: replied_def)

lemma advance_frame:
  assumes "advance main answer a s = (a', s')" "mute a"
  shows "mute a'" "replied s' = replied s" "k_at s' = k_at s" "k_busy s' = k_busy s" "k_threads s' = k_threads s"
    "k_executing s' = k_executing s" "k_finalized s' = k_finalized s"
  using advance_mute(1) [OF assms] advance_ledger [OF assms] advance_spec(2-6) [OF assms(1)] by simp_all

lemma main_turn_running:
  assumes inv: "py_inv s" and at: "k_at s = Running r a"
  shows "step_ok [] s (main_turn answer s)"
proof (cases "\<exists>v. a = Done v")
  case True
  then obtain v where v: "a = Done v" by blast
  show ?thesis using inv at by (cases v) (auto simp: main_turn_def v step_ok_def py_inv_def ledger_def)
next
  case False
  obtain a' s' where adv: "advance True answer a s = (a', s')" by fastforce
  have "mute a" using inv at by (simp add: py_inv_def)
  note f = advance_frame [OF adv this]
  have "sure a' \<or> k_finalized s" using advance_sure [OF adv] inv at by (auto simp: py_inv_def)
  then show ?thesis
    unfolding turn_unfinished(1) [OF False at] adv using f inv at by (auto simp: step_ok_def py_inv_def ledger_def)
qed

lemma main_turn_answering:
  assumes inv: "py_inv s" and at: "k_at s = Answering r a"
  shows "step_ok [] s (main_turn answer s)"
proof (cases "\<exists>v. a = Done v")
  case True
  then obtain j where v: "a = Done (Some j)" using inv at by (auto simp: py_inv_def)
  show ?thesis using inv at by (simp add: main_turn_def v step_ok_def py_inv_def ledger_def)
next
  case False
  obtain a' s' where adv: "advance True answer a s = (a', s')" by fastforce
  have "mute a" using inv at by (simp add: py_inv_def)
  note f = advance_frame [OF adv this]
  have "sure a'" using advance_sure [OF adv] inv at by (auto simp: py_inv_def)
  then show ?thesis
    unfolding turn_unfinished(2) [OF False at] adv using f inv at by (auto simp: step_ok_def py_inv_def ledger_def)
qed

lemma main_turn_idling:
  assumes inv: "py_inv s" and at: "k_at s = Idling a"
  shows "step_ok [] s (main_turn answer s)"
proof (cases "\<exists>v. a = Done v")
  case True
  then show ?thesis using inv at by (auto simp: main_turn_def step_ok_def py_inv_def ledger_def)
next
  case False
  obtain a' s' where adv: "advance True answer a s = (a', s')" by fastforce
  have "mute a" using inv at by (simp add: py_inv_def)
  from advance_frame [OF adv this] show ?thesis
    unfolding idle_unfinished [OF False at] adv using inv at by (auto simp: step_ok_def py_inv_def ledger_def)
qed

lemma main_turn_ok: "py_inv s \<Longrightarrow> step_ok [] s (main_turn answer s)"
proof (cases "k_at s")
  case (Running r a)
  then show "py_inv s \<Longrightarrow> ?thesis" by (intro main_turn_running)
next
  case (Answering r a)
  then show "py_inv s \<Longrightarrow> ?thesis" by (intro main_turn_answering)
next
  case (Idling a)
  then show "py_inv s \<Longrightarrow> ?thesis" by (intro main_turn_idling)
qed (auto simp: main_turn_def step_ok_def py_inv_def ledger_def)

lemma busy_turn_ok:
  assumes inv: "py_inv s"
  shows "step_ok [] s (busy_turn answer s) \<and> k_at (busy_turn answer s) = k_at s"
proof (cases "k_busy s")
  case None
  then show ?thesis using inv by (simp add: busy_turn_def step_ok_refl)
next
  case (Some ra)
  then obtain r a where b: "k_busy s = Some (r, a)" by (cases ra) auto
  have a: "mute a" "sure a" using inv b by (auto simp: py_inv_def)
  show ?thesis
  proof (cases "\<exists>v. a = Done v")
    case True
    then obtain j where v: "a = Done (Some j)" using a(2) by auto
    show ?thesis using inv b by (simp add: busy_turn_def v step_ok_def py_inv_def ledger_def)
  next
    case False
    obtain a' s' where adv: "advance False answer a s = (a', s')" by fastforce
    from advance_frame [OF adv a(1)] advance_sure [OF adv a(2)] show ?thesis
      unfolding turn_unfinished(3) [OF False b] adv using inv b by (auto simp: step_ok_def py_inv_def ledger_def)
  qed
qed

lemma thread_turn_ok:
  assumes inv: "py_inv s"
  shows "step_ok [] s (thread_turn i answer s) \<and> k_at (thread_turn i answer s) = k_at s"
proof (cases "i < length (k_threads s)")
  case False
  then show ?thesis using inv by (simp add: thread_turn_def step_ok_refl)
next
  case True
  obtain a' s' where adv: "advance False answer (k_threads s ! i) s = (a', s')" by fastforce
  have "mute (k_threads s ! i)" using inv True by (simp add: py_inv_def list_all_length)
  note f = advance_frame [OF adv this]
  have "list_all mute ((k_threads s)[i := a'])"
    using inv f(1) set_update_subset_insert [of "k_threads s" i a'] by (auto simp: py_inv_def list_all_iff)
  then show ?thesis using f inv True by (auto simp: thread_turn_def adv step_ok_def py_inv_def ledger_def)
qed

lemma py_step_ok:
  assumes inv: "py_inv s" and p: "proper e"
  shows "step_ok (accepted e s) s (py_step P e s)"
proof (cases e)
  case (Execute r n code es)
  then show ?thesis
    using inv p mute_runCell [of P n code es] sure_runCell [of code es P n]
    by (auto simp: executeRequestImpl_def step_ok_def py_inv_def ledger_def)
next
  case (Request r q)
  then show ?thesis
    using inv p mute_request [of P "k_finalized s" q] sure_request [of q P "k_finalized s"]
    by (auto simp: step_ok_def py_inv_def ledger_def)
next
  case (Busy_Request r q)
  then show ?thesis
    using inv p mute_request [of P "k_finalized s" q] sure_request [of q P "k_finalized s"]
    by (auto simp: step_ok_def py_inv_def ledger_def)
next
  case Idle
  have "mute (act_bind (native (carpo_idle P)) (\<lambda>_. Done ()))" by (rule mute_bind [OF mute_native]) simp
  then show ?thesis using inv Idle by (auto simp: idleImpl_def step_ok_def py_inv_def ledger_def)
next
  case (Shutdown r restart)
  then show ?thesis
    using inv by (auto simp: shutdownRequestImpl_def finalizeIfOwned_def Let_def step_ok_def py_inv_def ledger_def replied_def)
next
  case Interrupt
  then show ?thesis using inv by (auto simp: interruptRequestImpl_def step_ok_def py_inv_def ledger_def)
next
  case (Start_Thread t)
  have "mute (act_bind (native t) (\<lambda>_. Done ()))" by (rule mute_bind [OF mute_native]) simp
  then show ?thesis using inv Start_Thread by (auto simp: step_ok_def py_inv_def ledger_def)
qed (use main_turn_ok [OF inv] busy_turn_ok [OF inv] thread_turn_ok [OF inv] in simp_all)

interpretation python: event_system "py_step P" proper py_inv for P
  using py_step_ok by unfold_locales (auto simp: step_ok_def)

lemma py_ledger_run:
  assumes "py_inv s" "list_all proper es"
  shows "k_at (fold (py_step P) es s) \<noteq> Broken \<longrightarrow> ledger (fold (py_step P) es s) = ledger s @ taken P es s"
  using assms
proof (induction es arbitrary: s)
  case (Cons e es)
  let ?t = "py_step P e s"
  have ok: "step_ok (accepted e s) s ?t" using py_step_ok Cons.prems by (auto simp: list_all_iff)
  then have "py_inv ?t" by (simp add: step_ok_def)
  with Cons have IH: "k_at (fold (py_step P) es ?t) \<noteq> Broken \<longrightarrow> ledger (fold (py_step P) es ?t) = ledger ?t @ taken P es ?t"
    by (simp add: list_all_iff)
  have "k_at ?t = Broken \<Longrightarrow> list_all proper es \<Longrightarrow> py_inv ?t \<Longrightarrow> k_at (fold (py_step P) es ?t) = Broken"
  proof (induction es rule: rev_induct)
    case (snoc f fs)
    then have "py_inv (fold (py_step P) fs ?t)" using python.schedule_inv by (metis list_all_append)
    from py_step_ok [OF this, of f P] snoc show ?case by (auto simp: step_ok_def list_all_iff)
  qed simp
  then show ?case using IH ok Cons.prems(2) by (auto simp: step_ok_def)
qed simp

lemma new_PyInterpreter_inv: "py_inv (new_PyInterpreter owns w)"
  by (simp add: py_inv_def new_PyInterpreter_def)

text \<open>C36. In every run of the Python kernel, whatever the interleaving of its own thread, the thread that answers
  while a cell runs, the user's threads, interrupts and arriving requests, as long as the texts of the
  requests are UTF-8: the replies sent, followed by the request under way, are the requests its thread
  took, in the order they were taken; a cell counts as executing exactly from its start until its reply has
  been sent; when the kernel waits, every request taken has been answered; and only a kernel that has been shut
  down can be asked to run a cell without a defined outcome.\<close>

theorem python_requests_answered_in_turn:
  fixes es :: "('w, 'o) py_event list" and owns w P
  assumes "list_all proper es"
  defines "s0 \<equiv> new_PyInterpreter owns w"
  defines "s \<equiv> fold (py_step P) es s0"
  shows "(k_at s = Broken \<longrightarrow> k_finalized s) \<and>
    (k_at s \<noteq> Broken \<longrightarrow> replied s @ current_of (k_at s) = taken P es s0 \<and> k_executing s = in_cell (k_at s)) \<and>
    (k_at s = At_Rest \<longrightarrow> replied s = taken P es s0)"
proof -
  have inv: "py_inv s0" unfolding s0_def by (rule new_PyInterpreter_inv)
  have inv': "py_inv s" unfolding s_def by (rule python.schedule_inv [OF assms(1) inv])
  have "ledger s0 = []" by (simp add: ledger_def s0_def new_PyInterpreter_def replied_def)
  then have led: "k_at s \<noteq> Broken \<longrightarrow> replied s @ current_of (k_at s) = taken P es s0"
    using py_ledger_run [OF inv assms(1), of P] by (simp add: s_def ledger_def)
  have "k_at s = Broken \<longrightarrow> k_finalized s" "k_at s \<noteq> Broken \<longrightarrow> k_executing s = in_cell (k_at s)"
    using inv' by (auto simp: py_inv_def)
  then show ?thesis using led by auto
qed

definition demo_requests :: "(unit, nat) py_event list" where
  "demo_requests = [Request 3 (Is_Complete ''x''), Main_Turn (Inr []), Execute 4 1 ''x'' JNull, Interrupt]"

lemma demo_requests_run:
  "list_all proper demo_requests"
  "taken demo_python demo_requests (new_PyInterpreter True \<lparr>pw_loop = None, pw_rest = ()\<rparr>) = [3, 4]"
  "k_at (fold (py_step demo_python) demo_requests (new_PyInterpreter True \<lparr>pw_loop = None, pw_rest = ()\<rparr>))
     = Running 4 (runCell demo_python 1 ''x'' JNull)"
proof -
  have x: "PyUnicode_FromString ''x'' = Some (lit ''x'')" by (rule FromString_lit) simp
  have "carpo_is_complete demo_python c = ret (lit ''incomplete'')" for c by (simp add: carpo_is_complete_def demo_python_def)
  then have q: "request_act demo_python False (Is_Complete ''x'') = Done (Some (createIsCompleteReply (std_string (lit ''incomplete'')) []))"
    by (simp add: isCompleteRequestImpl_def x ret_def)
  show "list_all proper demo_requests" by (simp add: demo_requests_def valid_text_def x)
  show "taken demo_python demo_requests (new_PyInterpreter True \<lparr>pw_loop = None, pw_rest = ()\<rparr>) = [3, 4]"
    and "k_at (fold (py_step demo_python) demo_requests (new_PyInterpreter True \<lparr>pw_loop = None, pw_rest = ()\<rparr>))
     = Running 4 (runCell demo_python 1 ''x'' JNull)"
    by (simp_all add: demo_requests_def new_PyInterpreter_def q main_turn_def executeRequestImpl_def interruptRequestImpl_def
        del: request_act.simps)
qed

theorem python_requests_answered_in_turn_witness:
  "replied (fold (py_step demo_python) demo_requests (new_PyInterpreter True \<lparr>pw_loop = None, pw_rest = ()\<rparr>)) = [3]"
  using python_requests_answered_in_turn [OF demo_requests_run(1), of demo_python True "\<lparr>pw_loop = None, pw_rest = ()\<rparr>"]
  unfolding demo_requests_run(2,3) by simp

section \<open>A cell whose thread gets its turns is answered\<close>

text \<open>An infinite run, and a schedule in which the kernel's thread is never left out for good.\<close>

primrec py_run :: "('w, 'o) python \<Rightarrow> (nat \<Rightarrow> ('w, 'o) py_event) \<Rightarrow> ('w, 'o) PyInterpreter \<Rightarrow> nat \<Rightarrow> ('w, 'o) PyInterpreter" where
  "py_run P evs s 0 = s"
| "py_run P evs s (Suc n) = py_step P (evs n) (py_run P evs s n)"

definition fair :: "(nat \<Rightarrow> ('w, 'o) py_event) \<Rightarrow> bool" where
  "fair evs \<longleftrightarrow> (\<forall>n. \<exists>m \<ge> n. \<exists>answer. evs m = Main_Turn answer)"

lemma py_run_inv:
  assumes "py_inv s" "\<And>i. proper (evs i)"
  shows "py_inv (py_run P evs s n)"
  using assms py_step_ok by (induction n) (auto simp: step_ok_def)

lemma other_turns_keep_at:
  assumes "py_inv s" "k_at s \<noteq> At_Rest" "\<nexists>answer. e = Main_Turn answer"
  shows "k_at (py_step P e s) = k_at s"
  using assms busy_turn_ok [OF assms(1)] thread_turn_ok [OF assms(1)] by (cases e) (auto simp: interruptRequestImpl_def)

lemma next_turn:
  fixes P evs s
  assumes inv: "py_inv s" "\<And>i. proper (evs i)" and "fair evs" and at: "k_at (py_run P evs s n) \<noteq> At_Rest"
  obtains m answer where "n \<le> m" "evs m = Main_Turn answer" "k_at (py_run P evs s m) = k_at (py_run P evs s n)"
proof -
  define m where "m = (LEAST m. n \<le> m \<and> (\<exists>answer. evs m = Main_Turn answer))"
  have ex: "\<exists>m. n \<le> m \<and> (\<exists>answer. evs m = Main_Turn answer)" using assms(3) by (auto simp: fair_def)
  have m: "n \<le> m" "\<exists>answer. evs m = Main_Turn answer" using LeastI_ex [OF ex] by (simp_all add: m_def)
  have "k \<le> m \<Longrightarrow> k_at (py_run P evs s k) = k_at (py_run P evs s n)" if "n \<le> k" for k
    using that
  proof (induction k rule: dec_induct)
    case (step k)
    then have "\<nexists>answer. evs k = Main_Turn answer" using not_less_Least [of k "\<lambda>m. n \<le> m \<and> (\<exists>answer. evs m = Main_Turn answer)"] by (simp add: m_def)
    from other_turns_keep_at [OF py_run_inv [OF inv] _ this] step at show ?case by simp
  qed simp
  with that m show thesis by blast
qed

lemma act_child:
  assumes "advance main answer a s = (a', s')" "\<nexists>v. a = Done v"
  shows "(\<exists>x. a = Emit x a') \<or> (\<exists>g k w. a = Step g k \<and> a' = k w) \<or> (\<exists>p k x. a = Ask p k \<and> a' = k x) \<or> (\<exists>k b. a = Poll k \<and> a' = k b)"
  using assms by (cases a) auto

lemma running_finishes:
  fixes P evs and s :: "('w, 'o) PyInterpreter" and a :: "('w, 'o, json option) kact"
  assumes inv: "py_inv s" "\<And>i. proper (evs i)" "fair evs"
  shows "k_at (py_run P evs s n) = Running r a \<Longrightarrow> sure a \<Longrightarrow> \<exists>m > n. \<exists>j. k_at (py_run P evs s m) = Sending r j"
proof (induction a arbitrary: n)
  have one: "(\<exists>a' m. n < m \<and> k_at (py_run P evs s m) = Running r a' \<and> sure a' \<and>
      ((\<exists>x. b = Emit x a') \<or> (\<exists>g k w. b = Step g k \<and> a' = k w) \<or> (\<exists>p k x. b = Ask p k \<and> a' = k x) \<or> (\<exists>k c. b = Poll k \<and> a' = k c)))"
    if b: "k_at (py_run P evs s n) = Running r b" "sure b" "\<nexists>v. b = Done v" for n and b :: "('w, 'o, json option) kact"
  proof -
    obtain m answer where m: "n \<le> m" "evs m = Main_Turn answer" "k_at (py_run P evs s m) = Running r b"
      using next_turn [OF inv, where n = n and P = P] b(1) by (metis py_at.distinct(1))
    obtain b' t where adv: "advance True answer b (py_run P evs s m) = (b', t)" by fastforce
    have "k_at (py_run P evs s (Suc m)) = Running r b'"
      by (simp add: m(2) turn_unfinished(1) [OF b(3) m(3)] adv)
    then show ?thesis using act_child [OF adv b(3)] advance_sure [OF adv b(2)] m(1) le_imp_less_Suc by blast
  qed
  {
    case (Done v)
    then obtain j where v: "v = Some j" by auto
    obtain m answer where m: "n \<le> m" "evs m = Main_Turn answer" "k_at (py_run P evs s m) = Running r (Done v)"
      using next_turn [OF inv, where n = n and P = P] Done(1) by (metis py_at.distinct(1))
    then have "k_at (py_run P evs s (Suc m)) = Sending r j" by (simp add: main_turn_def v)
    then show ?case using m(1) le_imp_less_Suc by blast
  next
    case (Step g k)
    from one [OF Step(2,3)] obtain w m where "n < m" "k_at (py_run P evs s m) = Running r (k w)" "sure (k w)" by auto
    with Step(1) [of "k w" m] show ?case by (meson less_trans rangeI)
  next
    case (Emit x b)
    from one [OF Emit(2,3)] obtain m where "n < m" "k_at (py_run P evs s m) = Running r b" "sure b" by auto
    with Emit(1) [of m] show ?case by (meson less_trans)
  next
    case (Ask p k)
    from one [OF Ask(2,3)] obtain w m where "n < m" "k_at (py_run P evs s m) = Running r (k w)" "sure (k w)" by auto
    with Ask(1) [of "k w" m] show ?case by (meson less_trans rangeI)
  next
    case (Poll k)
    from one [OF Poll(2,3)] obtain w m where "n < m" "k_at (py_run P evs s m) = Running r (k w)" "sure (k w)" by auto
    with Poll(1) [of "k w" m] show ?case by (meson less_trans rangeI)
  }
qed


definition demo_schedule :: "nat \<Rightarrow> (unit, nat) py_event" where
  "demo_schedule n = (if n = 0 then Execute 4 1 ''x'' JNull else Main_Turn (Inr []))"


section \<open>Completion\<close>

lemma py_prefix_take: "0 \<le> n \<Longrightarrow> py_prefix n xs = take (nat n) xs"
  by (simp add: py_prefix_def)

text \<open>The word a completion is for: the name before the cursor; at the start of a line, the name at the end of the
  line before.\<close>

definition completed_word :: "pystr \<Rightarrow> pystr" where
  "completed_word p = (if p \<noteq> [] \<and> last p = 10 then last_word (butlast p) else last_word p)"

lemma token_search_word: "token_search p = completed_word p"
proof (cases "p \<noteq> [] \<and> last p = 10")
  case True
  then have "p = butlast p @ [10]" by (metis append_butlast_last_id)
  then show ?thesis using True token_search_newline [of "butlast p"] by (simp add: completed_word_def)
next
  case False
  then show ?thesis using token_search_plain [of p] by (auto simp: completed_word_def)
qed

lemma completed_word_length: "length (completed_word p) \<le> length p"
proof -
  have "length (last_word q) \<le> length q" for q using last_word_suffix [of q] by (metis le_add2 length_append)
  from this [of p] this [of "butlast p"] show ?thesis by (auto simp: completed_word_def)
qed

text \<open>A completion request is answered with at most 500 matches, none of them twice, for the name before the
  cursor, or with none if Python raises; the range to replace ends at the cursor and is as long as the
  name. It is the name, unless the character before the cursor is a line feed: then the name is the one at
  the end of the line before, and the range is shifted by one, since the pattern's \<open>$\<close> also matches
  before a final line feed.\<close>

lemma python_completion:
  assumes "trace (completeRequestImpl P False code pos) zs (Some j)" "PyUnicode_FromString code = Some c"
    and "0 \<le> pos" "nat pos \<le> length c" "pos < 2 ^ 31"
  defines "p \<equiv> take (nat pos) c" and "start \<equiv> pos - int (length (completed_word (take (nat pos) c)))"
  shows "0 \<le> start \<and> (p = [] \<or> last p \<noteq> 10 \<longrightarrow> drop (nat start) p = last_word p) \<and>
    (j = createCompleteReply (JArray []) pos pos (JObject []) \<or>
     (\<exists>ms. distinct ms \<and> length ms \<le> 500 \<and>
        j = createCompleteReply (JArray (map (\<lambda>m. JString (std_string m)) ms)) start pos (JObject [])))"
proof -
  have len: "length (completed_word p) \<le> nat pos" using completed_word_length [of p] assms(4) by (simp add: p_def)
  then have start: "0 \<le> start" "start \<le> pos" using assms(3) by (simp_all add: start_def p_def)
  have "drop (nat start) p = last_word p" if "p = [] \<or> last p \<noteq> 10"
  proof -
    obtain before where b: "p = before @ last_word p" using last_word_suffix by blast
    have "nat start = length p - length (last_word p)"
      using that assms(3,4) by (auto simp: start_def completed_word_def p_def)
    then show ?thesis using b by (metis append_eq_conv_conj diff_add_inverse2 length_append)
  qed
  moreover obtain r xs where r: "trace (carpo_complete P c pos) xs r" "j = (case r of
        Inl _ \<Rightarrow> createCompleteReply (JArray []) pos pos (JObject [])
      | Inr (matches, s, e) \<Rightarrow> createCompleteReply (JArray (map (\<lambda>m. JString (std_string m)) matches)) (int32 s) (int32 e) (JObject []))"
    using assms(1,2) by (auto simp: completeRequestImpl_def trace_bind trace_native)
  moreover have "\<exists>ms. distinct ms \<and> length ms \<le> 500 \<and>
        j = createCompleteReply (JArray (map (\<lambda>m. JString (std_string m)) ms)) start pos (JObject [])" if "r = Inr (ms, s, e)" for ms s e
    using carpo_complete_spec [OF r(1) [unfolded that]] r(2) that start assms(3,5) int32_id [of start] int32_id [of pos]
    by (auto simp: py_prefix_take token_search_word start_def)
  ultimately show ?thesis using start(1) by (cases r) auto
qed

lemma python_completion_witness:
  "\<exists>zs j. trace (completeRequestImpl demo_python False ''foo'' 3) zs (Some j) \<and>
    (j = createCompleteReply (JArray []) 3 3 (JObject []) \<or>
     (\<exists>ms. distinct ms \<and> length ms \<le> 500 \<and>
        j = createCompleteReply (JArray (map (\<lambda>m. JString (std_string m)) ms)) 0 3 (JObject [])))"
proof -
  have c: "PyUnicode_FromString ''foo'' = Some (lit ''foo'')" by (rule FromString_lit) simp
  have "sure (completeRequestImpl demo_python False ''foo'' 3)"
    using sure_request [of "Complete ''foo'' 3" demo_python False] by (simp add: valid_text_def c)
  then obtain zs j where t: "trace (completeRequestImpl demo_python False ''foo'' 3) zs (Some j)"
    using trace_exists [of "completeRequestImpl demo_python False ''foo'' 3"] by (force simp: sure_def)
  have "completed_word (take (nat 3) (lit ''foo'')) = lit ''foo''"
    by (simp add: completed_word_def last_word_def lit_def tok_char_def tok_start_def)
  then have "3 - int (length (completed_word (take (nat 3) (lit ''foo'')))) = 0" by (simp add: lit_def)
  with python_completion [OF t c] t show ?thesis by (auto simp: lit_def)
qed

section \<open>Late interrupts\<close>

text \<open>An interrupt is meant for the cell that runs, and does nothing when none does. One that arrives when the
  code of the cell has ended but its reply has not been sent, or has just been sent, still finds the flag
  set: its signal is pending when the next cell starts, and is that cell's.\<close>

lemma interrupt_at_rest: "py_inv s \<Longrightarrow> k_at s = At_Rest \<Longrightarrow> py_step P Interrupt s = s"
  by (simp add: interruptRequestImpl_def py_inv_def)

lemma late_interrupt_hits_the_next_cell:
  assumes "k_at s = Sending r j" "k_executing s" "\<not> k_finalized s"
  shows "let s' = fold (py_step P) [Interrupt, Main_Turn x, Main_Turn y, Execute r' n code es] s
    in k_at s' = Running r' (runCell P n code es) \<and> k_pending s' \<and> last (k_out s') = P_Reply r j"
  using assms by (simp add: interruptRequestImpl_def main_turn_def executeRequestImpl_def Let_def)

end
