(* ===== verification/Spec2Isabelle.thy ===== *)
theory Spec2Isabelle
  imports Prelude Json Access Authentication Utf8 Message Serializer History Guid Comm Kernel_Io Interp Helper
    Kernel_Core Server Outbox Process Session Registry Front Connection Handshake Client_Channels Client Publisher Launch
    Stata_Code Stata_Output Stata_Kernel R_Debugger R_Console R_Json R_Comm Py_Threads
begin

text \<open>
  \<^bold>\<open>A verification of Jovian's native core.\<close>

  Jovian runs language kernels (R, Python, Stata) behind the Jupyter messaging protocol. Its native
  part (\<^verbatim>\<open>src/native\<close>) is a framework, a supervisor and three backends. The kernel framework
  \<^emph>\<open>Adrastea\<close> (\<^verbatim>\<open>src/native/src/adrastea\<close>) receives signed multipart
  messages, dispatches each request to a handler, lets a backend interpreter execute code, and
  publishes what it prints. The supervisor \<^emph>\<open>Themisto\<close>
  (\<^verbatim>\<open>src/native/src/themisto\<close>) starts and watches kernel processes and relays their
  messages to clients over HTTP and WebSocket. The backends \<^emph>\<open>Elara\<close> (R), \<^emph>\<open>Carpo\<close> (Python) and
  \<^emph>\<open>Callisto\<close> (Stata) embed an interpreter in a kernel of the framework. The theories below model them,
  one theory per part, with the names of the source.

  \<^bold>\<open>The parts and their theories.\<close>

  \<^item> \<open>Prelude\<close>: what the C++ standard library gives the code: strings, numerals, exceptions as values
    (\<open>exn\<close>, \<open>'a result\<close>, \<open>rbind\<close>), and the locale \<open>event_system\<close> of the parts driven by events. A read
    the language leaves undefined is the value \<open>Undefined\<close>, never an arbitrary one.
  \<^item> \<open>Json\<close>: the JSON values the code passes around, with \<open>at\<close>, \<open>value\<close>, \<open>get\<close> and \<open>operator[]\<close> as
    nlohmann's library documents them, errors included.
  \<^item> \<open>Access\<close> (\<^verbatim>\<open>themisto/access.cpp\<close>): tokens, the bearer header, the query parameter,
    percent decoding, the verdict.
  \<^item> \<open>Authentication\<close> (\<^verbatim>\<open>transport/common/authentication.cpp\<close>): the signature schemes, over
    an HMAC that is a parameter. The locales \<open>authenticator\<close> and \<open>strict_authenticator\<close> state what the
    wire format relies on; both are interpreted on the code's classes.
  \<^item> \<open>Message\<close>, \<open>Serializer\<close>, \<open>Utf8\<close> (\<^verbatim>\<open>core/messaging/message.cpp\<close>,
    \<^verbatim>\<open>transport/common/zmq_serializer.cpp\<close>): messages with content that may stay text, the
    multipart wire format, and the test of a large content eight bytes at a time. Bytes are
    \<open>8 word\<close>, the block \<open>64 word\<close>.
  \<^item> \<open>History\<close> (\<^verbatim>\<open>core/history\<close>): the input history and its glob search, the latter as the
    regular expression the code builds and its matching.
  \<^item> \<open>Guid\<close>, \<open>Comm\<close> (\<^verbatim>\<open>platform/guid.cpp\<close>, \<^verbatim>\<open>core/messaging/comm.cpp\<close>): comm
    objects in an explicit store of addresses, since the manager keeps raw pointers to them and C++
    moves, copies and destroys them.
  \<^item> \<open>Kernel_Io\<close>, \<open>Interp\<close>, \<open>Helper\<close> (\<^verbatim>\<open>core/execution/interpreter.cpp\<close>,
    \<^verbatim>\<open>utils/helper.cpp\<close>): publishing, coalescing of stdout and stderr, input requests,
    reply constructors.
  \<^item> \<open>Kernel_Core\<close> (\<^verbatim>\<open>core/kernel/kernel_core.cpp\<close>): dispatch, every request handler, the
    reply callback of an execution, the abort of waiting requests.
  \<^item> \<open>Server\<close> (\<^verbatim>\<open>transport/server/server_zmq_impl.cpp\<close>): the loop, the watcher and the busy
    thread over the shell and control channels; the sockets are queues of wire messages.
  \<^item> \<open>Outbox\<close> (\<^verbatim>\<open>themisto/outbox.hpp\<close>): the sender of one WebSocket client, its thread cut
    into the steps between which others run.
  \<^item> \<open>Process\<close> (\<^verbatim>\<open>themisto/kernel_process.cpp\<close>, POSIX): starting a kernel, relaying its
    output, liveness, interrupt, kill, diagnosis.
  \<^item> \<open>Session\<close>, \<open>Registry\<close> (\<^verbatim>\<open>themisto/session_registry.cpp\<close>): one session with its poll
    thread and heartbeat listener; creating, stopping, restarting sessions and what clients may send
    to their kernels.
  \<^item> \<open>Front\<close> (\<^verbatim>\<open>themisto/http_api.cpp\<close>, \<^verbatim>\<open>ws_relay.cpp\<close>, \<^verbatim>\<open>main.cpp\<close>): the
    routes of the HTTP interface, the relay of a WebSocket connection, the idle shutdown.
  \<^item> \<open>Connection\<close>, \<open>Handshake\<close> (\<^verbatim>\<open>transport/common/middleware.cpp\<close>,
    \<^verbatim>\<open>core/kernel/kernel_configuration.cpp\<close>, \<^verbatim>\<open>transport/client/client_handshake_zmq.cpp\<close>,
    \<^verbatim>\<open>transport/server/handshaking.cpp\<close>): end points and free ports, connection files, and the
    registration of a kernel with its supervisor, from both sides.
  \<^item> \<open>Client_Channels\<close>, \<open>Client\<close> (\<^verbatim>\<open>transport/client\<close>): the heartbeat, the queue of publications, the
    dealer channels; the client that waits on them and its listeners.
  \<^item> \<open>Publisher\<close> (\<^verbatim>\<open>transport/server/publisher.cpp\<close>): the thread between what the kernel publishes and
    its subscribers.
  \<^item> \<open>Launch\<close> (\<^verbatim>\<open>elara/elara.cpp\<close>, \<^verbatim>\<open>carpo/carpo.cpp\<close>, \<^verbatim>\<open>callisto/callisto.cpp\<close>, \<^verbatim>\<open>bridge/engine.cpp\<close> of
    each, \<^verbatim>\<open>core/kernel/kernel.cpp\<close>): the programs of the kernels, from their command line to the
    report that they are ready, on top of \<open>Process\<close>, \<open>Connection\<close> and \<open>Handshake\<close>.
  \<^item> \<open>Stata_Code\<close>, \<open>Stata_Output\<close> (\<^verbatim>\<open>callisto/stata/stata_text.cpp\<close>): what the Stata
    backend reads off a cell (is it complete, which name is at the cursor, is it one command) and what
    it makes of Stata's output (decoding, echo, error messages, held lines).
  \<^item> \<open>Stata_Kernel\<close> (\<^verbatim>\<open>callisto/interpreter_stata.cpp\<close>): a cell from the request to the
    reply, the data requests, graphs, completion and inspection. Stata, its plugin and its Mata library are
    the fields of a record of parameters.
  \<^item> \<open>R_Console\<close> (\<^verbatim>\<open>elara/r/interpreter_r.cpp\<close>): the kernel as R runs it, from inside R's request
    for a line: cells, their expressions one at a time, output, input, errors, idle work.
  \<^item> \<open>R_Debugger\<close> (\<^verbatim>\<open>elara/r/debugger_r.cpp\<close>): the requests of the debug protocol, between the
    control thread and an R that runs or stands in its browser.
  \<^item> \<open>R_Json\<close>, \<open>R_Comm\<close> (\<^verbatim>\<open>elara/r/routine.cpp\<close>, \<^verbatim>\<open>elara/r/comm_r.cpp\<close>): R values
    and JSON in both directions; comms of R code on top of \<open>Comm\<close>, with what R is told to preserve.
  \<^item> \<open>Py_Runtime\<close>, \<open>Py_Bootstrap\<close>, \<open>Py_Kernel\<close>, \<open>Py_Threads\<close>
    (\<^verbatim>\<open>carpo/interpreter_py.cpp\<close>): Python strings and what the kernel sees of a run of Python
    code; the Python functions of the kernel's bootstrap source; one cell and the other requests; the
    thread of the kernel, the control thread and their flags.
  \<^item> this theory: properties that span components.

  \<^bold>\<open>State and threads.\<close> Each class is a record and each method a function on it. Where
  threads share state under a mutex, one critical section is one step: \<open>Server.server_step\<close> and
  \<open>Comm.comm_step\<close> are inductive relations, \<open>Outbox.outbox_step\<close>, \<open>Process.proc_step\<close> and
  \<open>Py_Threads.py_step\<close> are functions of an event (the locale \<open>event_system\<close>, interpreted on each), so that every interleaving is a sequence of steps. What a clock, a random source, a socket, the
  operating system or a backend interpreter answers is an argument. A call that can block is an
  option, and the properties show that it returns.

  \<^bold>\<open>What is shown.\<close> For the framework: an execution is answered once, between busy and idle,
  and so is every other request; an exception of the backend is answered too; requests are neither
  lost nor duplicated nor reordered by the watcher; the text a program prints is published whole and
  in order; messages survive the wire and are refused exactly when malformed or wrongly signed; the
  UTF-8 test accepts exactly what it claims; the comm manager never holds a dead object; history
  answers what was asked. For the supervisor: the access decision; the outbox sends every text once
  and in order, in bounded frames, and ends when stopped; a start leaves a kernel or nothing; the
  relay prints lines whatever the cut into reads; a subscriber misses nothing; no signal goes to a reaped process; stopping ends a session and
  creating one registers it or leaves nothing; clients reach a kernel only with allowed requests and
  outsiders change nothing; a registration is authentic, and a kernel that was started registers with the ports it is bound to; what a client reads is what the kernel sent.
  For the backends: cells and requests are answered once and in the order they were taken; a cell shows
  what its code printed, then its result or its error; debug requests are answered once and commands
  reach a stopped R; a Python cell that was taken is answered in every fair run; JSON survives R; the R
  functions of comms stay alive while they are held. Where the code does not do what it
  says, a property or a lemma states what it does.

  \<^bold>\<open>Bounds and fuel.\<close> No definition uses fuel: loops are structural, or have a measure
  (the UTF-8 blocks, the relay, decimal digits). Sizes are the source's: \<open>kFrameBytes\<close> and
  \<open>kMaxBuffered\<close> are 2^20, \<open>kDeferredContentBytes\<close> is 2^16, and the \<open>int\<close> of the code is 32 bits wide where
  JSON numbers are converted to it.

  \<^bold>\<open>Not modelled.\<close> The HMAC, the JSON printer and parser and the regular-expression engine's
  parsing are parameters or their documented behaviour; so are R, Python and Stata, of which the models take
  what their evaluation does at the points where the code calls them, and hold whatever that is. Outside
  the development are the loading of the libraries of R, Python and Stata and their initialisation (the
  \<^verbatim>\<open>dynlib\<close> files and the constructors of the interpreters: tables of foreign function
  pointers), Stata's plugin and Mata library (other languages), the sockets' own buffering, classes that pass
  calls on unchanged, logging, the Windows build, and the TypeScript client library.
\<close>

section \<open>A kernel's connection file\<close>

lemma stoi_show_nat: "n < 2 ^ 31 \<Longrightarrow> stoi (show_nat n) = Inr (int n)"
proof -
  assume n: "n < 2 ^ 31"
  have "dropWhile isspace (show_nat n) = show_nat n" using show_nat_first [of n] by auto
  moreover have "takeWhile isdigit (show_nat n) = show_nat n" using show_nat_digits by (simp add: takeWhile_eq_all_conv)
  ultimately have "takeWhile isdigit (dropWhile isspace (show_nat n)) = show_nat n" by (simp only:)
  then show ?thesis using n unfolding stoi_def by (simp add: read_show_nat)
qed

lemma int32_small: "n < 2 ^ 31 \<Longrightarrow> get_int (JInt (int n)) = Inr (int n)"
  by (simp add: int32_def)

lemma connection_json_decimal:
  assumes "\<forall>p \<in> {sh, io, si, co, hb}. p < 2 ^ 31"
  shows "connection_json k (map show_nat [sh, io, si, co, hb]) =
    Inr (jobj [(''transport'', JString ''tcp''), (''ip'', JString ''127.0.0.1''), (''key'', JString k),
      (''signature_scheme'', JString ''hmac-sha256''), (''shell_port'', JInt (int sh)), (''iopub_port'', JInt (int io)),
      (''stdin_port'', JInt (int si)), (''control_port'', JInt (int co)), (''hb_port'', JInt (int hb))])"
  using assms by (simp add: connection_json_def stoi_show_nat)

lemma load_connection_json:
  assumes "\<forall>p \<in> {sh, io, si, co, hb}. p < 2 ^ 31"
    and "connection_json k (map show_nat [sh, io, si, co, hb]) = Inr j"
  shows "loadConfiguration (Inr j) = Inr (Kernel_Config (new_KernelConfiguration\<lparr>c_transport := ''tcp'',
      c_ip := ''127.0.0.1'', c_signatureScheme := ''hmac-sha256'', c_key := k, c_controlPort := show_nat co,
      c_shellPort := show_nat sh, c_stdinPort := show_nat si, c_iopubPort := show_nat io, c_hbPort := show_nat hb\<rparr>))"
proof -
  have ports: "get_int (JInt (int p)) = Inr (int p)" if "p \<in> {sh, io, si, co, hb}" for p
    using assms(1) that int32_small by blast
  have j: "j = jobj [(''transport'', JString ''tcp''), (''ip'', JString ''127.0.0.1''), (''key'', JString k),
      (''signature_scheme'', JString ''hmac-sha256''), (''shell_port'', JInt (int sh)), (''iopub_port'', JInt (int io)),
      (''stdin_port'', JInt (int si)), (''control_port'', JInt (int co)), (''hb_port'', JInt (int hb))]"
    using assms(2) unfolding connection_json_decimal [OF assms(1)] by simp
  show ?thesis unfolding j
    by (simp add: ports loadConfiguration_def loadKernelConfiguration_def loadCommonConfiguration_def doc_string_def
        doc_port_def json_simps show_int_def del: get_int.simps) 
qed

text \<open>C26. The supervisor and a kernel of this framework agree on the connection file. When a Jupyter
  kernel is started on five ports, whatever its start comes to, the file of the session holds a
  document that the kernel's reader accepts as a kernel configuration: TCP on the loopback address,
  the session's key and scheme, and each of the five ports on its own channel.\<close>

theorem connection_file_round_trip:
  assumes "free_ports 5 [] (l_ports l) = Some (map show_nat [sh, io, si, co, hb])"
    and "\<forall>p \<in> {sh, io, si, co, hb}. p < 2 ^ 31"
    and "startJupyterKernel l opts popts s fs = Some (thrown, s', fs')"
  shows "\<exists>j. map_of fs' (s_connectionFile s') = Some j \<and>
    loadConfiguration (Inr j) = Inr (Kernel_Config (new_KernelConfiguration\<lparr>c_transport := ''tcp'',
      c_ip := ''127.0.0.1'', c_signatureScheme := ''hmac-sha256'', c_key := l_guid l, c_controlPort := show_nat co,
      c_shellPort := show_nat sh, c_stdinPort := show_nat si, c_iopubPort := show_nat io, c_hbPort := show_nat hb\<rparr>))"
proof -
  obtain j where j: "connection_json (l_guid l) (map show_nat [sh, io, si, co, hb]) = Inr j"
    using connection_json_decimal [OF assms(2)] by blast
  let ?path = "connection_path l (s_id s)"
  have "fs' = obj_put ?path j fs \<and> s_connectionFile s' = ?path"
    using assms(3) unfolding startJupyterKernel_def assms(1) option.case j sum.case Let_def
    by (auto split: if_splits prod.splits dest: arg_cong [where f = "\<lambda>x. s_connectionFile (snd x)"])
  then have "map_of fs' (s_connectionFile s') = Some j" by (simp add: map_of_obj_put)
  with load_connection_json [OF assms(2) j] show ?thesis by blast
qed


lemma startJupyterKernel_runs:
  assumes "free_ports 5 [] (l_ports l) = Some ports"
  shows "\<exists>thrown s' fs'. startJupyterKernel l opts popts s fs = Some (thrown, s', fs')
    \<and> s_connectionFile s' = connection_path l (s_id s)"
proof (cases "connection_json (l_guid l) ports")
  case (Inr j)
  show ?thesis
    unfolding startJupyterKernel_def assms option.case Inr sum.case Let_def
    by (auto split: prod.split dest: arg_cong [where f = "\<lambda>x. s_connectionFile (snd x)"])
qed (simp add: startJupyterKernel_def assms Let_def)

theorem connection_file_round_trip_witness:
  "\<exists>j. map_of (snd (snd (the (startJupyterKernel jupyter_launch jupyter_options
        (proc_options jupyter_registry jupyter_options ''/opt/java'') (new_Session ''s1'' jupyter_options) []))))
      ''/tmp/jovian-kernel-s1.json'' = Some j \<and>
    loadConfiguration (Inr j) = Inr (Kernel_Config (new_KernelConfiguration\<lparr>c_transport := ''tcp'',
      c_ip := ''127.0.0.1'', c_signatureScheme := ''hmac-sha256'', c_key := l_guid jupyter_launch,
      c_controlPort := ''4'', c_shellPort := ''1'', c_stdinPort := ''3'', c_iopubPort := ''2'', c_hbPort := ''5''\<rparr>))"
proof -
  have texts: "show_nat 1 = ''1''" "show_nat 2 = ''2''" "show_nat 3 = ''3''" "show_nat 4 = ''4''" "show_nat 5 = ''5''"
    by code_simp+
  have l: "l_ports jupyter_launch = [''1'', ''2'', ''3'', ''4'', ''5'']"
    by (simp add: jupyter_launch_def plain_launch_def)
  have ports: "free_ports 5 [] (l_ports jupyter_launch) = Some (map show_nat [1, 2, 3, 4, 5])"
    unfolding l list.map texts by (rule plain_ports)
  let ?run = "startJupyterKernel jupyter_launch jupyter_options
        (proc_options jupyter_registry jupyter_options ''/opt/java'') (new_Session ''s1'' jupyter_options) []"
  have path: "connection_path jupyter_launch ''s1'' = ''/tmp/jovian-kernel-s1.json''"
    by (simp add: connection_path_def jupyter_launch_def plain_launch_def)
  obtain thrown s' fs' where run: "?run = Some (thrown, s', fs')" "s_connectionFile s' = connection_path jupyter_launch ''s1''"
    using startJupyterKernel_runs [OF ports, of jupyter_options "proc_options jupyter_registry jupyter_options ''/opt/java''"
        "new_Session ''s1'' jupyter_options" "[]"] by (auto simp: new_Session_def)
  from connection_file_round_trip [OF ports _ run(1)] run show ?thesis unfolding texts path by simp
qed

section \<open>From the kernel to a client's screen\<close>

lemma handed_over_pushed: "l \<in> set (handed_over evs) \<Longrightarrow> Push l \<in> set evs"
  by (induction evs rule: handed_over.induct) auto

text \<open>The texts the relay makes of messages that arrived from the kernel.\<close>

definition received_frame ::
  "parser \<Rightarrow> printer \<Rightarrow> (frame \<Rightarrow> frame list \<Rightarrow> bool result) \<Rightarrow> string \<Rightarrow> bool" where
  "received_frame parse dump verify f \<longleftrightarrow>
     (\<exists>wire m ch. deserialize parse verify wire True = Inr m \<and> reply_frame parse dump ch m = Inr f)
     \<or> (\<exists>wire m. deserializeIopub parse verify wire True = Inr m \<and> pub_frame parse dump m = Inr f)"

lemma deferred_no_newline:
  assumes "deserializeMessageBase parse verify frames d = Inr parts"
    and "content_deferred parts"
  shows "CHR 0x0A \<notin> set (content_text parts)"
proof -
  have "5 \<le> length frames" using deserializeMessageBase_short [of frames parse verify d] assms(1) by fastforce
  then have parts: "parts = accepted_parts parse frames d"
    using assms(1) deserializeMessageBase_long [of frames parse verify d] by (auto simp: result_simps split: if_splits)
  then have "isOneLineOfUtf8 (frame_bytes (content_text parts))"
    using assms(2) by (auto simp: accepted_parts_def Let_def)
  then have "0x20 \<le> (of_char c :: nat)" if "c \<in> set (content_text parts)" for c
    using one_line_no_control [of "frame_bytes (content_text parts)"] that frame_byte_le [of c]
    by (auto simp: frame_bytes_def)
  then show ?thesis by fastforce
qed

lemma deserialize_no_newline:
  "deserialize parse verify wire d = Inr m \<Longrightarrow> contentText m = Some t \<Longrightarrow> CHR 0x0A \<notin> set t"
  "deserializeIopub parse verify wire d = Inr m' \<Longrightarrow> contentText m' = Some t \<Longrightarrow> CHR 0x0A \<notin> set t"
  by (auto simp: deserialize_def deserializeIopub_def result_simps Let_def contentText_def new_message_def
      new_pub_message_def deferContent_def split: if_splits prod.splits dest: deferred_no_newline)

lemma frameFor_one_line:
  assumes print: "\<And>j t. dump j = Inr t \<Longrightarrow> one_line t"
    and "\<And>t. contentText m = Some t \<Longrightarrow> CHR 0x0A \<notin> set t"
    and "frameFor parse dump ch topic m = Inr f"
  shows "one_line f"
proof (cases "contentText m")
  case None
  then show ?thesis using assms(3) print by (auto simp: frameFor_def result_simps Let_def)
next
  case (Some t)
  then obtain j head where "dump j = Inr head" "f = butlast head @ '',\"content\":'' @ t @ ''}''"
    using assms(3) by (auto simp: frameFor_def result_simps Let_def)
  then show ?thesis using print [of j head] assms(2) [OF Some] by (auto simp: one_line_def dest: in_set_butlastD)
qed

lemma received_one_line:
  assumes print: "\<forall>j t. dump j = Inr t \<longrightarrow> one_line t" and "received_frame parse dump verify f"
  shows "one_line f"
  using assms(2) unfolding received_frame_def
proof (elim disjE exE conjE)
  fix wire m ch
  assume m: "deserialize parse verify wire True = Inr m" "reply_frame parse dump ch m = Inr f"
  then obtain topic where "frameFor parse dump ch topic m = Inr f"
    unfolding reply_frame_def rbind_eq_Inr_iff by blast
  from frameFor_one_line [OF _ _ this] print deserialize_no_newline(1) [OF m(1)] show ?thesis by blast
next
  fix wire m
  assume m: "deserializeIopub parse verify wire True = Inr m" "pub_frame parse dump m = Inr f"
  from frameFor_one_line [OF _ _ m(2) [unfolded pub_frame_def]] print deserialize_no_newline(2) [OF m(1)]
  show ?thesis by blast
qed



end
